(* ===== verification/Prelude.thy ===== *)
theory Prelude
  imports Main "HOL-Library.Word" "HOL-Library.Code_Target_Numeral"
begin

text \<open>
  Shared vocabulary of the development: the widths of the C integer types, the buffer
  operations of \<^verbatim>\<open>string.h\<close> that the sources call (\<^verbatim>\<open>memcpy\<close>, \<^verbatim>\<open>memset\<close>), wrap-around
  of \<^verbatim>\<open>size_t\<close> sums, and the list lemmas the components share.

  Conventions used by every theory.
  A pointer to a buffer is a list of its elements; a pointer that the code compares with
  \<^verbatim>\<open>NULL\<close> is an \<^typ>\<open>'a option\<close>, with \<^term>\<open>None\<close> for \<^verbatim>\<open>NULL\<close>. A function that writes through
  a pointer returns the new contents. Distinct pointer arguments are distinct objects, as in
  every call the sources make, unless a definition says otherwise. Reading or writing past
  the end of an object is undefined in C and is excluded by hypotheses on lengths.
  \<^verbatim>\<open>size_t\<close> and \<^verbatim>\<open>unsigned long\<close> have 64 bits and \<^verbatim>\<open>int\<close> has 32 (the LP64 model).
\<close>

unbundle bit_operations_syntax

type_synonym u8 = "8 word"
type_synonym u32 = "32 word"
type_synonym u64 = "64 word"

named_theorems len_simps \<open>lengths of the buffers the operations return\<close>
named_theorems wipe_simps \<open>contents of wiped buffers\<close>

section \<open>Buffers\<close>

definition memcpy_at :: "'a list \<Rightarrow> nat \<Rightarrow> 'a list \<Rightarrow> nat \<Rightarrow> 'a list" where
  "memcpy_at dst off src n = take off dst @ take n src @ drop (off + n) dst"

definition memset_at :: "'a list \<Rightarrow> nat \<Rightarrow> 'a \<Rightarrow> nat \<Rightarrow> 'a list" where
  "memset_at dst off c n = take off dst @ replicate n c @ drop (off + n) dst"

text \<open>An element written through a pointer: inside the object it replaces the element there, past its end
  it makes the list longer, so that no write past the end goes unnoticed.\<close>

definition store_at :: "'a list \<Rightarrow> nat \<Rightarrow> 'a \<Rightarrow> 'a list" where
  "store_at dst k x = take k dst @ x # drop (Suc k) dst"

lemma store_at_update [simp]: "k < length dst \<Longrightarrow> store_at dst k x = dst[k := x]"
  by (simp add: store_at_def upd_conv_take_nth_drop)

definition size_add :: "nat \<Rightarrow> nat \<Rightarrow> nat" where
  "size_add a b = (a + b) mod 2 ^ 64"

lemma size_add_small [simp]: "a + b < 2 ^ 64 \<Longrightarrow> size_add a b = a + b"
  by (simp add: size_add_def)

lemma length_memcpy_at [len_simps, simp]:
  "off + n \<le> length dst \<Longrightarrow> n \<le> length src \<Longrightarrow> length (memcpy_at dst off src n) = length dst"
  by (simp add: memcpy_at_def)

lemma length_memset_at [len_simps, simp]:
  "off + n \<le> length dst \<Longrightarrow> length (memset_at dst off c n) = length dst"
  by (simp add: memset_at_def)

lemma take_memcpy_at [simp]:
  "off + n \<le> length dst \<Longrightarrow> n \<le> length src \<Longrightarrow>
    take (off + n) (memcpy_at dst off src n) = take off dst @ take n src"
  by (simp add: memcpy_at_def)

lemma take_memset_at [simp]:
  "off + n \<le> length dst \<Longrightarrow>
    take (off + n) (memset_at dst off c n) = take off dst @ replicate n c"
  by (simp add: memset_at_def)

lemma memset_at_all [wipe_simps]: "n = length dst \<Longrightarrow> memset_at dst 0 c n = replicate n c"
  by (simp add: memset_at_def)

lemma memcpy_at_all: "n = length dst \<Longrightarrow> n \<le> length src \<Longrightarrow> memcpy_at dst 0 src n = take n src"
  by (simp add: memcpy_at_def)

text \<open>A pointer argument with its length: \<^verbatim>\<open>NULL\<close> goes with length 0.\<close>

definition readable :: "'a list option \<Rightarrow> nat \<Rightarrow> bool" where
  "readable p n = (case p of None \<Rightarrow> n = 0 | Some b \<Rightarrow> n \<le> length b)"

definition read_buf :: "'a list option \<Rightarrow> nat \<Rightarrow> 'a list" where
  "read_buf p n = (case p of None \<Rightarrow> [] | Some b \<Rightarrow> take n b)"

lemma readable_simps [simp]: "readable None n = (n = 0)" "readable (Some b) n = (n \<le> length b)"
  by (simp_all add: readable_def)

lemma read_buf_simps [simp]: "read_buf None n = []" "read_buf (Some b) n = take n b" "read_buf p 0 = []"
  by (simp_all add: read_buf_def split: option.split)

lemma length_read_buf [len_simps, simp]: "readable p n \<Longrightarrow> length (read_buf p n) = n"
  by (cases p) simp_all

section \<open>Lists\<close>

lemma list_eq_nthI:
  "length xs = length ys \<Longrightarrow> (\<And>i. i < length xs \<Longrightarrow> xs ! i = ys ! i) \<Longrightarrow> xs = ys"
  by (simp add: list_eq_iff_nth_eq)

lemma length_concat_uniform:
  "(\<And>x. x \<in> set xss \<Longrightarrow> length x = k) \<Longrightarrow> length (concat xss) = k * length xss"
  by (induction xss) simp_all

lemma nth_concat_uniform:
  assumes "\<And>x. x \<in> set xss \<Longrightarrow> length x = k" and "i < k * length xss"
  shows "concat xss ! i = xss ! (i div k) ! (i mod k)"
  using assms
proof (induction xss arbitrary: i)
  case Nil
  then show ?case by simp
next
  case (Cons x xss)
  have k: "0 < k" using Cons.prems(2) by (cases k) simp_all
  show ?case
  proof (cases "i < k")
    case True
    then show ?thesis using Cons.prems(1) by (simp add: nth_append)
  next
    case False
    define j where "j = i - k"
    have i: "i = k + j" using False by (simp add: j_def)
    have lx: "length x = k" using Cons.prems(1) by simp
    have "concat xss ! j = xss ! (j div k) ! (j mod k)"
      using Cons.prems i by (intro Cons.IH) auto
    moreover have "i div k = Suc (j div k)" "i mod k = j mod k"
      using k by (simp_all add: i div_add_self1)
    moreover have "concat (x # xss) ! i = concat xss ! j"
      using lx by (simp add: i nth_append)
    ultimately show ?thesis by simp
  qed
qed

lemma fold_length_inv:
  "(\<And>x s. length (f x s) = length s) \<Longrightarrow> length (fold f xs s) = length s"
  by (induction xs arbitrary: s) simp_all

lemma fold_invar:
  "P s \<Longrightarrow> (\<And>x s. x \<in> set xs \<Longrightarrow> P s \<Longrightarrow> P (f x s)) \<Longrightarrow> P (fold f xs s)"
  by (induction xs arbitrary: s) simp_all

lemma fold_simulation:
  assumes "P m" "\<And>x m. x \<in> set xs \<Longrightarrow> P m \<Longrightarrow> f x (g m) = g (h x m) \<and> P (h x m)"
  shows "fold f xs (g m) = g (fold h xs m) \<and> P (fold h xs m)"
  using assms
proof (induction xs arbitrary: m)
  case Nil
  then show ?case by simp
next
  case (Cons x xs)
  have x: "f x (g m) = g (h x m)" "P (h x m)" using Cons.prems(2) [of x m] Cons.prems(1) by simp_all
  have "fold f xs (g (h x m)) = g (fold h xs (h x m)) \<and> P (fold h xs (h x m))"
    by (rule Cons.IH) (use x Cons.prems(2) in auto)
  then show ?case by (simp add: x(1))
qed

section \<open>Ranges of machine integers\<close>

lemma unat_lt_u8: "unat (w :: u8) < 2 ^ 8"
  by (rule order_less_le_trans [OF unsigned_less]) simp

lemma unat_lt_u32: "unat (w :: u32) < 2 ^ 32"
  by (rule order_less_le_trans [OF unsigned_less]) simp

lemma unat_lt_u64: "unat (w :: u64) < 2 ^ 64"
  by (rule order_less_le_trans [OF unsigned_less]) simp

lemma xor_zero_iff: "x XOR y = 0 \<longleftrightarrow> x = (y :: 'a :: len word)"
  by (metis xor.assoc xor.left_neutral xor.right_neutral xor_self_eq)

end
