(* ===== verification/Argon2_Types.thy ===== *)
theory Argon2_Types
  imports Prelude
begin

text \<open>
  \<^verbatim>\<open>include/argon2.h\<close> and \<^verbatim>\<open>src/core.h\<close>: the parameter limits, the error codes, the context the caller
  fills in, the instance and position the core works with.

  A pointer field of the context is the option of the buffer it points to. A callback is a function
  from the requested size to the memory obtained (\<open>allocate_cbk\<close>), or the identity of the function
  that takes the memory back (\<open>free_cbk\<close>), whose effects are outside the library. A memory block is
  the list of its 128 words. The field \<^verbatim>\<open>context_ptr\<close> of the instance is written and never read by
  the library and has no counterpart.
\<close>

section \<open>Limits of the parameters\<close>

definition ARGON2_MIN_LANES :: u32 where "ARGON2_MIN_LANES = 1"
definition ARGON2_MAX_LANES :: u32 where "ARGON2_MAX_LANES = 0xFFFFFF"
definition ARGON2_MIN_THREADS :: u32 where "ARGON2_MIN_THREADS = 1"
definition ARGON2_MAX_THREADS :: u32 where "ARGON2_MAX_THREADS = 0xFFFFFF"
definition ARGON2_SYNC_POINTS :: u32 where "ARGON2_SYNC_POINTS = 4"
definition ARGON2_MIN_OUTLEN :: u32 where "ARGON2_MIN_OUTLEN = 4"
definition ARGON2_MAX_OUTLEN :: u32 where "ARGON2_MAX_OUTLEN = 0xFFFFFFFF"
definition ARGON2_MIN_MEMORY :: u32 where "ARGON2_MIN_MEMORY = 2 * ARGON2_SYNC_POINTS"

text \<open>\<^verbatim>\<open>sizeof(void *) * CHAR_BIT\<close> is 64.\<close>

definition ARGON2_MAX_MEMORY_BITS :: nat where
  "ARGON2_MAX_MEMORY_BITS = min 32 (8 * 8 - 10 - 1)"
definition ARGON2_MAX_MEMORY :: u64 where
  "ARGON2_MAX_MEMORY = min 0xFFFFFFFF (push_bit ARGON2_MAX_MEMORY_BITS 1)"
definition ARGON2_MIN_TIME :: u32 where "ARGON2_MIN_TIME = 1"
definition ARGON2_MAX_TIME :: u32 where "ARGON2_MAX_TIME = 0xFFFFFFFF"
definition ARGON2_MIN_PWD_LENGTH :: u32 where "ARGON2_MIN_PWD_LENGTH = 0"
definition ARGON2_MAX_PWD_LENGTH :: u32 where "ARGON2_MAX_PWD_LENGTH = 0xFFFFFFFF"
definition ARGON2_MIN_AD_LENGTH :: u32 where "ARGON2_MIN_AD_LENGTH = 0"
definition ARGON2_MAX_AD_LENGTH :: u32 where "ARGON2_MAX_AD_LENGTH = 0xFFFFFFFF"
definition ARGON2_MIN_SALT_LENGTH :: u32 where "ARGON2_MIN_SALT_LENGTH = 8"
definition ARGON2_MAX_SALT_LENGTH :: u32 where "ARGON2_MAX_SALT_LENGTH = 0xFFFFFFFF"
definition ARGON2_MIN_SECRET :: u32 where "ARGON2_MIN_SECRET = 0"
definition ARGON2_MAX_SECRET :: u32 where "ARGON2_MAX_SECRET = 0xFFFFFFFF"

definition ARGON2_DEFAULT_FLAGS :: u32 where "ARGON2_DEFAULT_FLAGS = 0"
definition ARGON2_FLAG_CLEAR_PASSWORD :: u32 where "ARGON2_FLAG_CLEAR_PASSWORD = push_bit 0 1"
definition ARGON2_FLAG_CLEAR_SECRET :: u32 where "ARGON2_FLAG_CLEAR_SECRET = push_bit 1 1"

lemmas argon2_limits = ARGON2_MIN_LANES_def ARGON2_MAX_LANES_def ARGON2_MIN_THREADS_def
  ARGON2_MAX_THREADS_def ARGON2_SYNC_POINTS_def ARGON2_MIN_OUTLEN_def ARGON2_MAX_OUTLEN_def
  ARGON2_MIN_MEMORY_def ARGON2_MAX_MEMORY_BITS_def ARGON2_MAX_MEMORY_def ARGON2_MIN_TIME_def
  ARGON2_MAX_TIME_def ARGON2_MIN_PWD_LENGTH_def ARGON2_MAX_PWD_LENGTH_def ARGON2_MIN_AD_LENGTH_def
  ARGON2_MAX_AD_LENGTH_def ARGON2_MIN_SALT_LENGTH_def ARGON2_MAX_SALT_LENGTH_def
  ARGON2_MIN_SECRET_def ARGON2_MAX_SECRET_def ARGON2_DEFAULT_FLAGS_def
  ARGON2_FLAG_CLEAR_PASSWORD_def ARGON2_FLAG_CLEAR_SECRET_def

lemma ARGON2_SYNC_POINTS_simp [simp]: "ARGON2_SYNC_POINTS = 4"
  by (simp add: ARGON2_SYNC_POINTS_def)

section \<open>Error codes\<close>

datatype argon2_error_codes =
    ARGON2_OK
  | ARGON2_OUTPUT_PTR_NULL
  | ARGON2_OUTPUT_TOO_SHORT
  | ARGON2_OUTPUT_TOO_LONG
  | ARGON2_PWD_TOO_SHORT
  | ARGON2_PWD_TOO_LONG
  | ARGON2_SALT_TOO_SHORT
  | ARGON2_SALT_TOO_LONG
  | ARGON2_AD_TOO_SHORT
  | ARGON2_AD_TOO_LONG
  | ARGON2_SECRET_TOO_SHORT
  | ARGON2_SECRET_TOO_LONG
  | ARGON2_TIME_TOO_SMALL
  | ARGON2_TIME_TOO_LARGE
  | ARGON2_MEMORY_TOO_LITTLE
  | ARGON2_MEMORY_TOO_MUCH
  | ARGON2_LANES_TOO_FEW
  | ARGON2_LANES_TOO_MANY
  | ARGON2_PWD_PTR_MISMATCH
  | ARGON2_SALT_PTR_MISMATCH
  | ARGON2_SECRET_PTR_MISMATCH
  | ARGON2_AD_PTR_MISMATCH
  | ARGON2_MEMORY_ALLOCATION_ERROR
  | ARGON2_FREE_MEMORY_CBK_NULL
  | ARGON2_ALLOCATE_MEMORY_CBK_NULL
  | ARGON2_INCORRECT_PARAMETER
  | ARGON2_INCORRECT_TYPE
  | ARGON2_OUT_PTR_MISMATCH
  | ARGON2_THREADS_TOO_FEW
  | ARGON2_THREADS_TOO_MANY
  | ARGON2_MISSING_ARGS
  | ARGON2_ENCODING_FAIL
  | ARGON2_DECODING_FAIL
  | ARGON2_THREAD_FAIL
  | ARGON2_DECODING_LENGTH_FAIL
  | ARGON2_VERIFY_MISMATCH

fun error_code :: "argon2_error_codes \<Rightarrow> int" where
  "error_code ARGON2_OK = 0"
| "error_code ARGON2_OUTPUT_PTR_NULL = -1"
| "error_code ARGON2_OUTPUT_TOO_SHORT = -2"
| "error_code ARGON2_OUTPUT_TOO_LONG = -3"
| "error_code ARGON2_PWD_TOO_SHORT = -4"
| "error_code ARGON2_PWD_TOO_LONG = -5"
| "error_code ARGON2_SALT_TOO_SHORT = -6"
| "error_code ARGON2_SALT_TOO_LONG = -7"
| "error_code ARGON2_AD_TOO_SHORT = -8"
| "error_code ARGON2_AD_TOO_LONG = -9"
| "error_code ARGON2_SECRET_TOO_SHORT = -10"
| "error_code ARGON2_SECRET_TOO_LONG = -11"
| "error_code ARGON2_TIME_TOO_SMALL = -12"
| "error_code ARGON2_TIME_TOO_LARGE = -13"
| "error_code ARGON2_MEMORY_TOO_LITTLE = -14"
| "error_code ARGON2_MEMORY_TOO_MUCH = -15"
| "error_code ARGON2_LANES_TOO_FEW = -16"
| "error_code ARGON2_LANES_TOO_MANY = -17"
| "error_code ARGON2_PWD_PTR_MISMATCH = -18"
| "error_code ARGON2_SALT_PTR_MISMATCH = -19"
| "error_code ARGON2_SECRET_PTR_MISMATCH = -20"
| "error_code ARGON2_AD_PTR_MISMATCH = -21"
| "error_code ARGON2_MEMORY_ALLOCATION_ERROR = -22"
| "error_code ARGON2_FREE_MEMORY_CBK_NULL = -23"
| "error_code ARGON2_ALLOCATE_MEMORY_CBK_NULL = -24"
| "error_code ARGON2_INCORRECT_PARAMETER = -25"
| "error_code ARGON2_INCORRECT_TYPE = -26"
| "error_code ARGON2_OUT_PTR_MISMATCH = -27"
| "error_code ARGON2_THREADS_TOO_FEW = -28"
| "error_code ARGON2_THREADS_TOO_MANY = -29"
| "error_code ARGON2_MISSING_ARGS = -30"
| "error_code ARGON2_ENCODING_FAIL = -31"
| "error_code ARGON2_DECODING_FAIL = -32"
| "error_code ARGON2_THREAD_FAIL = -33"
| "error_code ARGON2_DECODING_LENGTH_FAIL = -34"
| "error_code ARGON2_VERIFY_MISMATCH = -35"

section \<open>Primitive type and version\<close>

text \<open>A C enumeration object can hold a value that is none of its constants; such a value \<open>w\<close> is
  \<open>Argon2_invalid w\<close>.\<close>

datatype argon2_type = Argon2_d | Argon2_i | Argon2_id | Argon2_invalid u32

fun type_code :: "argon2_type \<Rightarrow> u32" where
  "type_code Argon2_d = 0"
| "type_code Argon2_i = 1"
| "type_code Argon2_id = 2"
| "type_code (Argon2_invalid w) = w"

definition ARGON2_VERSION_10 :: u32 where "ARGON2_VERSION_10 = 0x10"
definition ARGON2_VERSION_13 :: u32 where "ARGON2_VERSION_13 = 0x13"
definition ARGON2_VERSION_NUMBER :: u32 where "ARGON2_VERSION_NUMBER = ARGON2_VERSION_13"

section \<open>The context\<close>

record argon2_context =
  ctx_out :: "u8 list option"
  ctx_outlen :: u32
  ctx_pwd :: "u8 list option"
  ctx_pwdlen :: u32
  ctx_salt :: "u8 list option"
  ctx_saltlen :: u32
  ctx_secret :: "u8 list option"
  ctx_secretlen :: u32
  ctx_ad :: "u8 list option"
  ctx_adlen :: u32
  ctx_t_cost :: u32
  ctx_m_cost :: u32
  ctx_lanes :: u32
  ctx_threads :: u32
  ctx_version :: u32
  ctx_allocate_cbk :: "(nat \<Rightarrow> u8 list option) option"
  ctx_free_cbk :: "nat option"
  ctx_flags :: u32

section \<open>The core's constants and data\<close>

definition ARGON2_BLOCK_SIZE :: nat where "ARGON2_BLOCK_SIZE = 1024"
definition ARGON2_QWORDS_IN_BLOCK :: nat where "ARGON2_QWORDS_IN_BLOCK = ARGON2_BLOCK_SIZE div 8"
definition ARGON2_ADDRESSES_IN_BLOCK :: nat where "ARGON2_ADDRESSES_IN_BLOCK = 128"
definition ARGON2_PREHASH_DIGEST_LENGTH :: nat where "ARGON2_PREHASH_DIGEST_LENGTH = 64"
definition ARGON2_PREHASH_SEED_LENGTH :: nat where "ARGON2_PREHASH_SEED_LENGTH = 72"

lemma argon2_core_constants [simp]:
  "ARGON2_BLOCK_SIZE = 1024" "ARGON2_QWORDS_IN_BLOCK = 128" "ARGON2_ADDRESSES_IN_BLOCK = 128"
  "ARGON2_PREHASH_DIGEST_LENGTH = 64" "ARGON2_PREHASH_SEED_LENGTH = 72"
  by (simp_all add: ARGON2_BLOCK_SIZE_def ARGON2_QWORDS_IN_BLOCK_def ARGON2_ADDRESSES_IN_BLOCK_def
      ARGON2_PREHASH_DIGEST_LENGTH_def ARGON2_PREHASH_SEED_LENGTH_def)

type_synonym block = "u64 list"

text \<open>The field \<^verbatim>\<open>context_ptr\<close> of the C structure is assigned by \<^verbatim>\<open>initialize\<close> and never read; it has no
  counterpart.\<close>

record argon2_instance_t =
  inst_memory :: "block list option"
  inst_version :: u32
  inst_passes :: u32
  inst_memory_blocks :: u32
  inst_segment_length :: u32
  inst_lane_length :: u32
  inst_lanes :: u32
  inst_threads :: u32
  inst_type :: argon2_type
  inst_print_internals :: int

record argon2_position_t =
  pos_pass :: u32
  pos_lane :: u32
  pos_slice :: u8
  pos_index :: u32

section \<open>Error codes as numbers\<close>

text \<open>Different errors have different codes, and they are ordered by their codes.\<close>

definition error_list :: "argon2_error_codes list" where
  "error_list =
    [ARGON2_OK, ARGON2_OUTPUT_PTR_NULL, ARGON2_OUTPUT_TOO_SHORT, ARGON2_OUTPUT_TOO_LONG,
     ARGON2_PWD_TOO_SHORT, ARGON2_PWD_TOO_LONG, ARGON2_SALT_TOO_SHORT, ARGON2_SALT_TOO_LONG,
     ARGON2_AD_TOO_SHORT, ARGON2_AD_TOO_LONG, ARGON2_SECRET_TOO_SHORT, ARGON2_SECRET_TOO_LONG,
     ARGON2_TIME_TOO_SMALL, ARGON2_TIME_TOO_LARGE, ARGON2_MEMORY_TOO_LITTLE,
     ARGON2_MEMORY_TOO_MUCH, ARGON2_LANES_TOO_FEW, ARGON2_LANES_TOO_MANY,
     ARGON2_PWD_PTR_MISMATCH, ARGON2_SALT_PTR_MISMATCH, ARGON2_SECRET_PTR_MISMATCH,
     ARGON2_AD_PTR_MISMATCH, ARGON2_MEMORY_ALLOCATION_ERROR, ARGON2_FREE_MEMORY_CBK_NULL,
     ARGON2_ALLOCATE_MEMORY_CBK_NULL, ARGON2_INCORRECT_PARAMETER, ARGON2_INCORRECT_TYPE,
     ARGON2_OUT_PTR_MISMATCH, ARGON2_THREADS_TOO_FEW, ARGON2_THREADS_TOO_MANY,
     ARGON2_MISSING_ARGS, ARGON2_ENCODING_FAIL, ARGON2_DECODING_FAIL, ARGON2_THREAD_FAIL,
     ARGON2_DECODING_LENGTH_FAIL, ARGON2_VERIFY_MISMATCH]"

lemma error_list_code: "error_list ! nat (- error_code a) = a"
  by (cases a) (simp_all add: error_list_def)

lemma error_code_inj: "error_code a = error_code b \<Longrightarrow> a = b"
  by (metis error_list_code)

instantiation argon2_error_codes :: linorder
begin

definition less_eq_argon2_error_codes :: "argon2_error_codes \<Rightarrow> argon2_error_codes \<Rightarrow> bool" where
  "a \<le> b \<longleftrightarrow> error_code a \<le> error_code b"

definition less_argon2_error_codes :: "argon2_error_codes \<Rightarrow> argon2_error_codes \<Rightarrow> bool" where
  "a < b \<longleftrightarrow> error_code a < error_code b"

instance
  by standard (auto simp: less_eq_argon2_error_codes_def less_argon2_error_codes_def
      dest: error_code_inj)

end

end
