(* ===== verification/Blake2_Impl.thy ===== *)
theory Blake2_Impl
  imports Prelude
begin

text \<open>
  \<^verbatim>\<open>src/blake2/blake2-impl.h\<close>: little-endian loads and stores, and rotations.

  The header has two bodies for each of \<^verbatim>\<open>load32\<close>, \<^verbatim>\<open>load64\<close>, \<^verbatim>\<open>store32\<close> and \<^verbatim>\<open>store64\<close>: byte
  by byte, and a \<^verbatim>\<open>memcpy\<close> compiled under \<^verbatim>\<open>NATIVE_LITTLE_ENDIAN\<close>. Both are modelled; the
  \<open>_native\<close> definitions read the object representation of an integer on a little-endian
  host. The theorems show that the two bodies agree, and that loads and stores are inverse.
\<close>

section \<open>Loads and stores\<close>

definition load32 :: "u8 list \<Rightarrow> u32" where
  "load32 p = foldl (\<lambda>w i. w OR push_bit (8 * i) (ucast (p ! i))) (ucast (p ! 0)) [1..<4]"

definition load64 :: "u8 list \<Rightarrow> u64" where
  "load64 p = foldl (\<lambda>w i. w OR push_bit (8 * i) (ucast (p ! i))) (ucast (p ! 0)) [1..<8]"

definition load48 :: "u8 list \<Rightarrow> u64" where
  "load48 p = foldl (\<lambda>w i. w OR push_bit (8 * i) (ucast (p ! i))) (ucast (p ! 0)) [1..<6]"

definition load32_native :: "u8 list \<Rightarrow> u32" where
  "load32_native p = word_rcat (rev (take 4 p))"

definition load64_native :: "u8 list \<Rightarrow> u64" where
  "load64_native p = word_rcat (rev (take 8 p))"

text \<open>\<^verbatim>\<open>*p++ = (uint8_t)w; w >>= 8;\<close> repeated: the bytes written from \<^verbatim>\<open>dst\<close> on.\<close>

fun store_bytes :: "nat \<Rightarrow> 'a::len word \<Rightarrow> u8 list" where
  "store_bytes 0 w = []"
| "store_bytes (Suc n) w = ucast w # store_bytes n (drop_bit 8 w)"

definition store32 :: "u8 list \<Rightarrow> nat \<Rightarrow> u32 \<Rightarrow> u8 list" where
  "store32 dst off w = memcpy_at dst off (store_bytes 4 w) 4"

definition store64 :: "u8 list \<Rightarrow> nat \<Rightarrow> u64 \<Rightarrow> u8 list" where
  "store64 dst off w = memcpy_at dst off (store_bytes 8 w) 8"

definition store48 :: "u8 list \<Rightarrow> nat \<Rightarrow> u64 \<Rightarrow> u8 list" where
  "store48 dst off w = memcpy_at dst off (store_bytes 6 w) 6"

definition native_bytes :: "nat \<Rightarrow> 'a::len word \<Rightarrow> u8 list" where
  "native_bytes n w = map (\<lambda>i. word_of_nat (unat w div 256 ^ i)) [0..<n]"

definition store32_native :: "u8 list \<Rightarrow> nat \<Rightarrow> u32 \<Rightarrow> u8 list" where
  "store32_native dst off w = memcpy_at dst off (native_bytes 4 w) 4"

definition store64_native :: "u8 list \<Rightarrow> nat \<Rightarrow> u64 \<Rightarrow> u8 list" where
  "store64_native dst off w = memcpy_at dst off (native_bytes 8 w) 8"

section \<open>Rotations\<close>

definition rotr32 :: "u32 \<Rightarrow> nat \<Rightarrow> u32" where
  "rotr32 w c = drop_bit c w OR push_bit (32 - c) w"

definition rotr64 :: "u64 \<Rightarrow> nat \<Rightarrow> u64" where
  "rotr64 w c = drop_bit c w OR push_bit (64 - c) w"

section \<open>Lemmas\<close>

lemma length_store_bytes [len_simps, simp]: "length (store_bytes n w) = n"
  by (induction n arbitrary: w) simp_all

lemma nth_store_bytes:
  "i < n \<Longrightarrow> store_bytes n w ! i = ucast (drop_bit (8 * i) w)"
  by (induction n arbitrary: w i) (auto simp: nth_Cons add.commute split: nat.split)

lemma length_store [len_simps, simp]:
  "off + 4 \<le> length dst \<Longrightarrow> length (store32 dst off w4) = length dst"
  "off + 8 \<le> length dst \<Longrightarrow> length (store64 dst off w8) = length dst"
  by (simp_all add: store32_def store64_def)

lemma bit_load_bytes:
  fixes p :: "u8 list"
  shows "bit (foldl (\<lambda>w i. w OR push_bit (8 * i) (ucast (p ! i))) (ucast (p ! 0)) [1..<Suc k]
      :: 'a::len word) n \<longleftrightarrow>
    n < LENGTH('a) \<and> n < 8 * Suc k \<and> bit (p ! (n div 8)) (n mod 8)"
proof (induction k)
  case 0
  have "n < 8" if "bit (p ! 0) n" using bit_imp_le_length [OF that] by simp
  then show ?case by (auto simp: bit_simps)
next
  case (Suc k)
  define w :: "'a word" where
    "w = foldl (\<lambda>w i. w OR push_bit (8 * i) (ucast (p ! i))) (ucast (p ! 0)) [1..<Suc k]"
  have step: "foldl (\<lambda>w i. w OR push_bit (8 * i) (ucast (p ! i))) (ucast (p ! 0)) [1..<Suc (Suc k)]
      = w OR push_bit (8 * Suc k) (ucast (p ! Suc k))"
    by (simp add: w_def)
  have b: "m < 8" if "bit (p ! Suc k) m" for m
    using bit_imp_le_length [OF that] by simp
  consider "n < 8 * Suc k" | "8 * Suc k \<le> n" "n < 8 * Suc (Suc k)" | "8 * Suc (Suc k) \<le> n"
    by linarith
  then show ?case
  proof cases
    case 1
    then show ?thesis using Suc.IH by (simp add: step bit_simps flip: w_def)
  next
    case 2
    then obtain r where n: "n = 8 * Suc k + r" "r < 8"
      by (metis add.commute add_less_cancel_left le_Suc_ex mult_Suc_right)
    then have "n div 8 = Suc k" "n mod 8 = r" by presburger+
    with n 2 Suc.IH show ?thesis by (auto simp: step bit_simps simp flip: w_def)
  next
    case 3
    then have "\<not> bit (p ! Suc k) (n - 8 * Suc k)" using b by fastforce
    then show ?thesis using 3 Suc.IH by (simp add: step bit_simps flip: w_def)
  qed
qed

lemma bit_load64: "bit (load64 p) n \<longleftrightarrow> n < 64 \<and> bit (p ! (n div 8)) (n mod 8)"
  using bit_load_bytes [where ?'a = 64, of p 7 n] by (auto simp: load64_def)

lemma bit_load32: "bit (load32 p) n \<longleftrightarrow> n < 32 \<and> bit (p ! (n div 8)) (n mod 8)"
  using bit_load_bytes [where ?'a = 32, of p 3 n] by (auto simp: load32_def)

lemma load64_cong: "(\<And>i. i < 8 \<Longrightarrow> p ! i = q ! i) \<Longrightarrow> load64 p = load64 q"
  by (auto simp: bit_eq_iff bit_load64)

lemma load64_take [simp]: "8 \<le> n \<Longrightarrow> load64 (take n p) = load64 p"
  by (rule load64_cong) simp

lemma load64_append [simp]: "8 \<le> length p \<Longrightarrow> load64 (p @ q) = load64 p"
  by (rule load64_cong) (simp add: nth_append)

lemma bit_rcat_le:
  "bit (word_rcat (rev p) :: 'a::len word) n \<longleftrightarrow>
    n < LENGTH('a) \<and> n div 8 < length p \<and> bit (p ! (n div 8)) (n mod 8)" for p :: "u8 list"
  unfolding word_rcat_def comp_def rev_rev_ident
  by (simp only: bit_word_of_int_iff bit_horner_sum_uint_exp_iff) simp

lemma load_store_bytes64 [simp]: "load64 (store_bytes 8 w) = w" for w :: u64
proof (rule bit_word_eqI)
  fix n assume "n < LENGTH(64)"
  then have "n div 8 < 8" "n mod 8 < 8" "n mod 8 + 8 * (n div 8) = n" by simp_all
  then show "bit (load64 (store_bytes 8 w)) n = bit w n"
    using \<open>n < LENGTH(64)\<close> by (simp add: bit_load64 nth_store_bytes bit_simps)
qed

lemma store_bytes_load64 [simp]: "8 \<le> length p \<Longrightarrow> store_bytes 8 (load64 p) = take 8 p"
proof (rule list_eq_nthI)
  fix i assume i: "8 \<le> length p" "i < length (store_bytes 8 (load64 p))"
  show "store_bytes 8 (load64 p) ! i = take 8 p ! i"
  proof (rule bit_word_eqI)
    fix n assume "n < LENGTH(8)"
    then have "(8 * i + n) div 8 = i" "(8 * i + n) mod 8 = n" by simp_all
    then show "bit (store_bytes 8 (load64 p) ! i) n = bit (take 8 p ! i) n"
      using i \<open>n < LENGTH(8)\<close> by (simp add: nth_store_bytes bit_simps bit_load64)
  qed
qed simp

lemma store_bytes_native: "store_bytes n w = native_bytes n w"
proof (rule list_eq_nthI)
  fix i assume "i < length (store_bytes n w)"
  moreover have "unat w div 256 ^ i = drop_bit (8 * i) (unat w)"
    by (simp add: drop_bit_eq_div power_mult)
  then have "ucast (drop_bit (8 * i) w) = (word_of_nat (unat w div 256 ^ i) :: u8)"
    by (auto simp: bit_eq_iff bit_simps dest: bit_imp_le_length)
  ultimately show "store_bytes n w ! i = native_bytes n w ! i"
    by (simp add: nth_store_bytes native_bytes_def)
qed (simp add: native_bytes_def)

lemma load32_native_eq: "4 \<le> length p \<Longrightarrow> load32_native p = load32 p"
  by (auto simp: bit_eq_iff bit_load32 load32_native_def bit_rcat_le)

lemma load64_native_eq: "8 \<le> length p \<Longrightarrow> load64_native p = load64 p"
  by (auto simp: bit_eq_iff bit_load64 load64_native_def bit_rcat_le)

text \<open>The two bodies of each load and store in \<^verbatim>\<open>blake2-impl.h\<close> agree: reading or writing the
  native object representation of a little-endian host gives what the byte-by-byte code gives,
  as the header's comment claims ("the code will always be correct").\<close>

lemma loads_stores_portable:
  assumes "8 \<le> length p"
  shows "load32_native p = load32 p \<and> load64_native p = load64 p \<and>
    store32_native dst off w = store32 dst off w \<and> store64_native dst off v = store64 dst off v"
  using assms load32_native_eq [of p] load64_native_eq [of p]
  by (simp add: store32_native_def store32_def store64_native_def store64_def store_bytes_native)

lemma loads_stores_portable_witness:
  "load64_native [1, 2, 3, 4, 5, 6, 7, 8] = load64 [1, 2, 3, 4, 5, 6, 7, 8] \<and>
    store64_native (replicate 8 0) 0 258 = [2, 1, 0, 0, 0, 0, 0, 0]"
proof -
  have "store64 (replicate 8 0) 0 258 = [2, 1, 0, 0, 0, 0, 0, 0]" by code_simp
  then show ?thesis
    using loads_stores_portable [of "[1, 2, 3, 4, 5, 6, 7, 8]" "replicate 8 0" 0 0 258] by simp
qed

text \<open>The rotations are rotations for every amount the sources use (a shift by the full width is
  undefined in C).\<close>

lemma rotr_mod:
  "n < k \<Longrightarrow> c < k \<Longrightarrow> (n + c) mod k = (if n + c < k then n + c else n + c - k)" for n k :: nat
  by (simp add: mod_if)

lemma rotr32_eq_word_rotr: "0 < c \<Longrightarrow> c < 32 \<Longrightarrow> rotr32 w c = word_rotr c w"
  by (rule bit_word_eqI)
    (auto simp: rotr32_def bit_simps rotr_mod add.commute dest: bit_imp_le_length)

lemma rotr64_eq_word_rotr: "0 < c \<Longrightarrow> c < 64 \<Longrightarrow> rotr64 w c = word_rotr c w"
  by (rule bit_word_eqI)
    (auto simp: rotr64_def bit_simps rotr_mod add.commute dest: bit_imp_le_length)

end
