(* ===== verification/Block.thy ===== *)
theory Block
  imports Argon2_Types Blake2_Impl
begin

text \<open>
  The operations on memory blocks of \<^verbatim>\<open>src/core.c\<close> (\<open>init_block_value\<close>, \<open>copy_block\<close>,
  \<open>xor_block\<close>, \<open>load_block\<close>, \<open>store_block\<close>), and the conversions between an array of blocks and the
  bytes it occupies, which the casts between \<^verbatim>\<open>block *\<close> and \<^verbatim>\<open>uint8_t *\<close> stand for (on a
  little-endian host).
\<close>

definition init_block_value :: "block \<Rightarrow> u8 \<Rightarrow> block" where
  "init_block_value b v = replicate ARGON2_QWORDS_IN_BLOCK (load64_native (replicate 8 v))"

definition copy_block :: "block \<Rightarrow> block \<Rightarrow> block" where
  "copy_block dst src = memcpy_at dst 0 src ARGON2_QWORDS_IN_BLOCK"

definition xor_block :: "block \<Rightarrow> block \<Rightarrow> block" where
  "xor_block dst src =
     fold (\<lambda>i dst. dst[i := dst ! i XOR src ! i]) [0..<ARGON2_QWORDS_IN_BLOCK] dst"

definition load_block :: "block \<Rightarrow> u8 list \<Rightarrow> block" where
  "load_block dst input =
     fold (\<lambda>i dst. dst[i := load64 (drop (i * 8) input)]) [0..<ARGON2_QWORDS_IN_BLOCK] dst"

definition store_block :: "u8 list \<Rightarrow> block \<Rightarrow> u8 list" where
  "store_block outp src =
     fold (\<lambda>i outp. store64 outp (i * 8) (src ! i)) [0..<ARGON2_QWORDS_IN_BLOCK] outp"

definition bytes_of_blocks :: "block list \<Rightarrow> u8 list" where
  "bytes_of_blocks bs = concat (map (\<lambda>b. concat (map (native_bytes 8) b)) bs)"

definition blocks_of_bytes :: "u8 list \<Rightarrow> block list" where
  "blocks_of_bytes p =
     map (\<lambda>k. map (\<lambda>i. load64_native (drop (k * ARGON2_BLOCK_SIZE + i * 8) p))
       [0..<ARGON2_QWORDS_IN_BLOCK]) [0..<length p div ARGON2_BLOCK_SIZE]"

section \<open>What the loops compute\<close>

abbreviation wf_block :: "block \<Rightarrow> bool" where
  "wf_block b \<equiv> length b = 128"

lemma fold_update_nth:
  "k \<le> length d \<Longrightarrow> fold (\<lambda>i d. d[i := f i (d ! i)]) [0..<k] d =
    map (\<lambda>i. f i (d ! i)) [0..<k] @ drop k d"
proof (induction k)
  case 0
  then show ?case by simp
next
  case (Suc k)
  then have "drop k d = d ! k # drop (Suc k) d" by (simp add: Cons_nth_drop_Suc)
  with Suc show ?case by (simp add: list_update_append nth_append)
qed

lemma length_init_block_value [len_simps, simp]: "length (init_block_value b v) = 128"
  by (simp add: init_block_value_def)

lemma init_block_value_0: "init_block_value b 0 = replicate 128 0"
proof -
  have "load64_native (replicate 8 0) = 0"
    by (simp add: load64_native_eq bit_eq_iff bit_load64)
  then show ?thesis by (simp add: init_block_value_def)
qed

lemma copy_block_eq [simp]: "wf_block dst \<Longrightarrow> wf_block src \<Longrightarrow> copy_block dst src = src"
  by (simp add: copy_block_def memcpy_at_all)

lemma xor_block_eq:
  "wf_block dst \<Longrightarrow> wf_block src \<Longrightarrow> xor_block dst src = map2 (XOR) dst src"
  unfolding xor_block_def
  by (subst fold_update_nth) (auto intro: list_eq_nthI)

lemma length_xor_block [len_simps, simp]: "length (xor_block dst src) = length dst"
  unfolding xor_block_def by (rule fold_length_inv) simp

lemma xor_block_commute:
  "wf_block a \<Longrightarrow> wf_block b \<Longrightarrow> xor_block a b = xor_block b a"
  by (simp add: xor_block_eq xor.commute list_eq_iff_nth_eq)

lemma load_block_eq: "wf_block dst \<Longrightarrow> load_block dst input = map (\<lambda>i. load64 (drop (i * 8) input)) [0..<128]"
  unfolding load_block_def by (subst fold_update_nth) simp_all

lemma length_load_block [len_simps, simp]: "length (load_block dst input) = length dst"
  unfolding load_block_def by (rule fold_length_inv) simp

lemma fold_store64_gen:
  "k \<le> length h \<Longrightarrow> 8 * length h \<le> length b \<Longrightarrow>
    fold (\<lambda>i b. store64 b (i * 8) (h ! i)) [0..<k] b =
    concat (map (store_bytes 8) (take k h)) @ drop (8 * k) b"
proof (induction k)
  case 0
  then show ?case by simp
next
  case (Suc k)
  have l: "length (concat (map (store_bytes 8) (take k h))) = 8 * k"
    using Suc.prems by (subst length_concat_uniform [where k = 8]) (auto simp: min_absorb2)
  show ?case using Suc l
    by (simp add: take_Suc_conv_app_nth store64_def memcpy_at_def add.commute mult.commute)
qed

lemma store_block_eq:
  "wf_block src \<Longrightarrow> length outp = 1024 \<Longrightarrow> store_block outp src = concat (map (native_bytes 8) src)"
  unfolding store_block_def using fold_store64_gen [of 128 src outp]
  by (simp add: store_bytes_native [abs_def])

lemma length_concat_native: "length (concat (map (native_bytes 8) src)) = 8 * length src"
  by (subst length_concat_uniform [where k = 8]) (auto simp: native_bytes_def)

lemma length_store_block [len_simps, simp]:
  "wf_block src \<Longrightarrow> length outp = 1024 \<Longrightarrow> length (store_block outp src) = 1024"
  by (simp add: store_block_eq length_concat_native)

lemma drop_concat_uniform:
  "(\<And>x. x \<in> set xss \<Longrightarrow> length x = k) \<Longrightarrow> drop (i * k) (concat xss) = concat (drop i xss)"
proof (induction i arbitrary: xss)
  case 0
  then show ?case by simp
next
  case (Suc i)
  then show ?case
    by (cases xss) (simp_all add: drop_drop [symmetric] del: drop_drop)
qed

lemma load64_native_bytes: "load64 (native_bytes 8 w @ r) = w"
  by (simp add: store_bytes_native [symmetric] load64_append load_store_bytes64)

text \<open>Storing a block and loading it back gives the block, and loading 1024 bytes into a block
  and storing it gives the bytes: the byte strings that are hashed determine the blocks and the
  other way round.\<close>

lemma block_bytes_roundtrip:
  assumes "wf_block b" "wf_block d" "length out = 1024" "length p = 1024"
  shows "load_block d (store_block out b) = b \<and> store_block out (load_block d p) = p"
proof
  have "load64 (drop (i * 8) (concat (map (native_bytes 8) b))) = b ! i" if "i < 128" for i
  proof -
    have "drop (i * 8) (concat (map (native_bytes 8) b)) = concat (map (native_bytes 8) (drop i b))"
      by (subst drop_concat_uniform) (auto simp: native_bytes_def drop_map)
    also have "drop i b = b ! i # drop (Suc i) b" using that assms(1) by (simp add: Cons_nth_drop_Suc)
    finally show ?thesis by (simp add: load64_native_bytes)
  qed
  then show "load_block d (store_block out b) = b"
    using assms by (simp add: load_block_eq store_block_eq list_eq_iff_nth_eq)
  have "concat (map (native_bytes 8) (map (\<lambda>i. load64 (drop (i * 8) p)) [0..<k])) = take (8 * k) p"
    if "k \<le> 128" for k
    using that
  proof (induction k)
    case 0
    then show ?case by simp
  next
    case (Suc k)
    have "native_bytes 8 (load64 (drop (k * 8) p)) = take 8 (drop (k * 8) p)"
      using Suc.prems assms(4) by (simp add: store_bytes_native [symmetric] store_bytes_load64)
    then show ?case using Suc by (simp add: mult.commute take_add [symmetric] add.commute)
  qed
  from this [of 128] show "store_block out (load_block d p) = p"
    using assms by (simp add: load_block_eq store_block_eq)
qed

end
