(* ===== verification/Index_Alpha.thy ===== *)
theory Index_Alpha
  imports Argon2_Types
begin

text \<open>
  \<open>index_alpha\<close> of \<^verbatim>\<open>src/core.c\<close>: the choice of the reference block, in the widths of the code (32-bit
  sums, a 64-bit product). \<open>rfc_area\<close> and \<open>rfc_ref_index\<close> are the reference set and the mapping
  of RFC 9106, section 3.4.2, on unbounded numbers; under the layout invariant \<open>wf_inst\<close> that
  \<^verbatim>\<open>argon2_ctx\<close> establishes nothing wraps and the two agree.
\<close>

definition index_alpha :: "argon2_instance_t \<Rightarrow> argon2_position_t \<Rightarrow> u32 \<Rightarrow> bool \<Rightarrow> u32" where
  "index_alpha inst pos pseudo_rand same_lane =
     (let reference_area_size =
        (if 0 = pos_pass pos
         then if 0 = pos_slice pos
              then pos_index pos - 1
              else if same_lane
              then ucast (pos_slice pos) * inst_segment_length inst + pos_index pos - 1
              else ucast (pos_slice pos) * inst_segment_length inst +
                   (if pos_index pos = 0 then -1 else 0)
         else if same_lane
         then inst_lane_length inst - inst_segment_length inst + pos_index pos - 1
         else inst_lane_length inst - inst_segment_length inst +
              (if pos_index pos = 0 then -1 else 0));
      relative_position = (ucast pseudo_rand :: u64);
      relative_position = drop_bit 32 (relative_position * relative_position);
      relative_position = ucast (reference_area_size - 1) -
        drop_bit 32 (ucast reference_area_size * relative_position);
      start_position = 0;
      start_position =
        (if 0 \<noteq> pos_pass pos
         then if ucast (pos_slice pos) = ARGON2_SYNC_POINTS - 1 then 0
              else (ucast (pos_slice pos) + 1) * inst_segment_length inst
         else start_position);
      absolute_position =
        ucast ((ucast start_position + relative_position) mod ucast (inst_lane_length inst))
  in absolute_position)"

section \<open>The layout invariant\<close>

definition wf_inst :: "argon2_instance_t \<Rightarrow> bool" where
  "wf_inst inst \<longleftrightarrow>
     2 \<le> unat (inst_segment_length inst) \<and>
     unat (inst_lane_length inst) = 4 * unat (inst_segment_length inst) \<and>
     1 \<le> unat (inst_lanes inst) \<and>
     unat (inst_memory_blocks inst) = unat (inst_lanes inst) * unat (inst_lane_length inst)"

text \<open>A position at which \<^verbatim>\<open>fill_segment\<close> computes a block.\<close>

definition wf_pos :: "argon2_instance_t \<Rightarrow> argon2_position_t \<Rightarrow> bool" where
  "wf_pos inst pos \<longleftrightarrow>
     unat (pos_lane pos) < unat (inst_lanes inst) \<and> unat (pos_slice pos) < 4 \<and>
     unat (pos_index pos) < unat (inst_segment_length inst) \<and>
     (pos_pass pos = 0 \<and> pos_slice pos = 0 \<longrightarrow> 2 \<le> unat (pos_index pos))"

section \<open>The reference mapping on numbers\<close>

definition rfc_area :: "nat \<Rightarrow> bool \<Rightarrow> nat \<Rightarrow> nat \<Rightarrow> bool \<Rightarrow> nat" where
  "rfc_area seg first_pass sl idx same_lane =
     (let finished = (if first_pass then sl else 3) * seg in
      if same_lane \<or> first_pass \<and> sl = 0 then finished + idx - 1
      else if idx = 0 then finished - 1 else finished)"

definition rfc_start :: "nat \<Rightarrow> bool \<Rightarrow> nat \<Rightarrow> nat" where
  "rfc_start seg first_pass sl = (if first_pass then 0 else ((sl + 1) mod 4) * seg)"

definition rfc_ref_index :: "nat \<Rightarrow> bool \<Rightarrow> nat \<Rightarrow> nat \<Rightarrow> bool \<Rightarrow> nat \<Rightarrow> nat" where
  "rfc_ref_index seg first_pass sl idx same_lane J1 =
     (let W = rfc_area seg first_pass sl idx same_lane;
          x = J1\<^sup>2 div 2 ^ 32;
          y = (W * x) div 2 ^ 32;
          zz = W - 1 - y
      in (rfc_start seg first_pass sl + zz) mod (4 * seg))"

lemma rfc_area_bounds:
  assumes "2 \<le> seg" "sl < 4" "idx < seg" "first_pass \<and> sl = 0 \<longrightarrow> 2 \<le> idx"
  shows "1 \<le> rfc_area seg first_pass sl idx same_lane"
    and "rfc_area seg first_pass sl idx same_lane < 4 * seg"
proof -
  have "sl = 0 \<or> sl = 1 \<or> sl = 2 \<or> sl = 3" using assms(2) by arith
  then show "1 \<le> rfc_area seg first_pass sl idx same_lane"
    "rfc_area seg first_pass sl idx same_lane < 4 * seg"
    using assms by (auto simp: rfc_area_def Let_def)
qed

lemma square_scaled: "J1 < 2 ^ 32 \<Longrightarrow> 0 < W \<Longrightarrow> W * (J1\<^sup>2 div 2 ^ 32) div 2 ^ 32 < W" for W J1 :: nat
proof -
  assume J: "J1 < 2 ^ 32" and W: "0 < W"
  have "J1\<^sup>2 < 2 ^ 32 * 2 ^ 32"
    unfolding power2_eq_square using J by (intro mult_strict_mono) simp_all
  then have "J1\<^sup>2 div 2 ^ 32 < 2 ^ 32" by (simp add: less_mult_imp_div_less)
  then have "W * (J1\<^sup>2 div 2 ^ 32) < W * 2 ^ 32" using W by (simp del: power2_eq_square)
  then show ?thesis by (simp add: less_mult_imp_div_less)
qed

lemma unat_ucast_u32: "unat w < 2 ^ 32 \<Longrightarrow> unat (ucast w :: u32) = unat w" for w :: u64
  by (simp add: unsigned_ucast_eq take_bit_nat_eq_self)

section \<open>The code computes the mapping\<close>

lemma wf_inst_bounds:
  assumes "wf_inst inst"
  shows "4 * unat (inst_segment_length inst) < 2 ^ 32"
  using assms unat_lt_u32 [of "inst_lane_length inst"] by (simp add: wf_inst_def)

lemma unat_minus_one_add:
  fixes a :: u32
  assumes "1 \<le> unat a"
  shows "unat (a + (-1)) = unat a - 1" "unat (a - 1) = unat a - 1"
proof -
  have "1 \<le> a" using assms by (simp add: word_le_nat_alt)
  then show "unat (a - 1) = unat a - 1" by (simp add: unat_sub)
  then show "unat (a + (-1)) = unat a - 1" by simp
qed

lemma unat_mult_small: "unat a * unat b < 2 ^ 32 \<Longrightarrow> unat (a * b) = unat a * unat b" for a b :: u32
  by (simp add: unat_word_ariths)

lemma unat_add_small: "unat a + unat b < 2 ^ 32 \<Longrightarrow> unat (a + b) = unat a + unat b" for a b :: u32
  by (simp add: unat_word_ariths)

lemma unat_ucast_slice: "unat (ucast s :: u32) = unat s" for s :: u8
  by (simp add: unsigned_ucast_eq take_bit_nat_eq_self order_less_le_trans [OF unat_lt_u8])

text \<open>The reference area of the code, as a word.\<close>

definition area_word :: "argon2_instance_t \<Rightarrow> argon2_position_t \<Rightarrow> bool \<Rightarrow> u32" where
  "area_word inst pos same_lane =
     (if 0 = pos_pass pos
      then if 0 = pos_slice pos
           then pos_index pos - 1
           else if same_lane
           then ucast (pos_slice pos) * inst_segment_length inst + pos_index pos - 1
           else ucast (pos_slice pos) * inst_segment_length inst + (if pos_index pos = 0 then -1 else 0)
      else if same_lane
      then inst_lane_length inst - inst_segment_length inst + pos_index pos - 1
      else inst_lane_length inst - inst_segment_length inst + (if pos_index pos = 0 then -1 else 0))"

lemma slice_cases: "unat (s :: u8) < 4 \<Longrightarrow> unat s = 0 \<or> unat s = 1 \<or> unat s = 2 \<or> unat s = 3"
  by arith

lemma unat_area_word:
  assumes "wf_inst inst" "wf_pos inst pos"
  shows "unat (area_word inst pos same_lane) =
    rfc_area (unat (inst_segment_length inst)) (pos_pass pos = 0) (unat (pos_slice pos))
      (unat (pos_index pos)) same_lane"
proof -
  define seg where "seg = unat (inst_segment_length inst)"
  define i where "i = unat (pos_index pos)"
  define s where "s = unat (pos_slice pos)"
  have b: "4 * seg < 2 ^ 32" "2 \<le> seg" "i < seg" "s < 4"
    using wf_inst_bounds [OF assms(1)] assms by (simp_all add: seg_def i_def s_def wf_inst_def wf_pos_def)
  have lane: "unat (inst_lane_length inst - inst_segment_length inst) = 3 * seg"
    using assms(1) by (simp add: unat_sub word_le_nat_alt wf_inst_def seg_def)
  have s4: "s * seg \<le> 3 * seg" using b(4) by (intro mult_le_mono1) simp
  have sb: "s * seg < 2 ^ 32" using s4 b(1) by linarith
  have fin: "unat (ucast (pos_slice pos) * inst_segment_length inst) = s * seg"
    unfolding s_def seg_def unat_ucast_slice [symmetric]
    using sb by (intro unat_mult_small) (simp add: unat_ucast_slice s_def seg_def)
  have p0: "(pos_slice pos = 0) = (s = 0)" "(0 = pos_slice pos) = (s = 0)" "(pos_index pos = 0) = (i = 0)"
    by (auto simp: s_def i_def unat_eq_0 [symmetric])
  have first: "pos_pass pos = 0 \<and> s = 0 \<longrightarrow> 2 \<le> i"
    using assms(2) by (simp add: wf_pos_def p0 i_def)
  have pos: "1 \<le> s * seg" if "s \<noteq> 0" using that b by simp
  have sbi: "s * seg + i < 2 ^ 32" using s4 b(1,3) by linarith
  have fini: "unat (ucast (pos_slice pos) * inst_segment_length inst + pos_index pos) = s * seg + i"
    using sbi fin by (subst unat_add_small) (simp_all add: i_def)
  have lanei: "unat (inst_lane_length inst - inst_segment_length inst + pos_index pos) = 3 * seg + i"
    using b lane by (subst unat_add_small) (simp_all add: i_def)
  show ?thesis
    unfolding area_word_def rfc_area_def Let_def seg_def [symmetric] i_def [symmetric] s_def [symmetric] p0
    using first b pos
    by (cases "pos_pass pos = 0"; cases "s = 0"; cases same_lane; cases "i = 0")
      (simp_all only: unat_minus_one_add fin fini lane lanei i_def [symmetric] if_True if_False
        eq_commute [of 0] simp_thms add_0_right mult_zero_left add_0_left unat_minus_one_add(2) [of "pos_index pos"])
qed

definition start_word :: "argon2_instance_t \<Rightarrow> argon2_position_t \<Rightarrow> u32" where
  "start_word inst pos =
     (if 0 \<noteq> pos_pass pos
      then if ucast (pos_slice pos) = ARGON2_SYNC_POINTS - 1 then 0
           else (ucast (pos_slice pos) + 1) * inst_segment_length inst
      else 0)"

lemma unat_start_word:
  assumes "wf_inst inst" "wf_pos inst pos"
  shows "unat (start_word inst pos) =
    rfc_start (unat (inst_segment_length inst)) (pos_pass pos = 0) (unat (pos_slice pos))"
proof -
  define s where "s = unat (pos_slice pos)"
  define seg where "seg = unat (inst_segment_length inst)"
  have s: "s < 4" and seg: "4 * seg < 2 ^ 32"
    using assms(2) wf_inst_bounds [OF assms(1)] by (simp_all add: s_def seg_def wf_pos_def)
  have three: "((ucast (pos_slice pos) :: u32) = ARGON2_SYNC_POINTS - 1) = (s = 3)"
    by (simp add: word_unat_eq_iff unat_ucast_slice s_def)
  have sb: "(s + 1) * seg < 2 ^ 32"
    using s seg mult_le_mono1 [of "s + 1" 4 seg] by linarith
  have "unat ((ucast (pos_slice pos) :: u32) + 1) = s + 1"
    using s by (subst unat_add_small) (simp_all add: unat_ucast_slice s_def)
  then have "unat ((ucast (pos_slice pos) + 1) * inst_segment_length inst) = (s + 1) * seg"
    using sb by (subst unat_mult_small) (simp_all add: seg_def)
  then show ?thesis
    using s unfolding start_word_def rfc_start_def s_def [symmetric] seg_def [symmetric] three
    by (cases "pos_pass pos = 0"; cases "s = 3") (simp_all del: ARGON2_SYNC_POINTS_simp)
qed

lemma rfc_start_bound: "sl < 4 \<Longrightarrow> rfc_start seg first_pass sl < 4 * seg \<or> seg = 0"
  by (auto simp: rfc_start_def)

lemma index_word:
  fixes area start lane pr :: u32
  assumes "1 \<le> unat area" "unat area < 4 * seg" "unat start < 4 * seg" "unat lane = 4 * seg"
  defines "x \<equiv> (unat pr)\<^sup>2 div 2 ^ 32"
  shows "unat (ucast ((ucast start + (ucast (area - 1) -
      drop_bit 32 (ucast area * drop_bit 32 ((ucast pr :: u64) * ucast pr)))) mod ucast lane) :: u32) =
    (unat start + (unat area - 1 - unat area * x div 2 ^ 32)) mod (4 * seg)"
proof -
  define W where "W = unat area"
  have pr: "unat pr < 2 ^ 32" and seg: "4 * seg < 2 ^ 32"
    using unat_lt_u32 [of pr] unat_lt_u32 [of lane] assms(4) by simp_all
  have up: "unat (ucast w :: u64) = unat w" for w :: u32
    by (simp add: unsigned_ucast_eq take_bit_nat_eq_self order_less_le_trans [OF unat_lt_u32])
  have W: "1 \<le> W" "W < 2 ^ 32" using assms(1,2) seg by (simp_all add: W_def)
  have "unat pr * unat pr < 2 ^ 32 * 2 ^ 32" using pr by (intro mult_strict_mono) simp_all
  then have sq: "unat ((ucast pr :: u64) * ucast pr) = (unat pr)\<^sup>2"
    by (simp add: unat_word_ariths up power2_eq_square)
  then have x: "unat (drop_bit 32 ((ucast pr :: u64) * ucast pr)) = x"
    by (simp only: unat_drop_bit_eq) (simp only: drop_bit_eq_div x_def)
  have "W * x < 2 ^ 32 * 2 ^ 32"
  proof (rule mult_strict_mono)
    show "x < 2 ^ 32" unfolding x_def power2_eq_square
      using \<open>unat pr * unat pr < 2 ^ 32 * 2 ^ 32\<close> by (simp add: less_mult_imp_div_less)
  qed (use W in simp_all)
  then have "unat (ucast area * drop_bit 32 ((ucast pr :: u64) * ucast pr)) = W * x"
    by (simp only: unat_word_ariths up x W_def) (simp add: W_def)
  then have y: "unat (drop_bit 32 (ucast area * drop_bit 32 ((ucast pr :: u64) * ucast pr))) = W * x div 2 ^ 32"
    by (simp only: unat_drop_bit_eq) (simp only: drop_bit_eq_div)
  have yW: "W * x div 2 ^ 32 < W" using square_scaled [OF pr, of W] W by (simp add: x_def)
  have a1: "unat (ucast (area - 1) :: u64) = W - 1"
    unfolding up using W by (simp add: unat_minus_one_add W_def)
  have z: "unat (ucast (area - 1) - drop_bit 32 (ucast area * drop_bit 32 ((ucast pr :: u64) * ucast pr)))
      = W - 1 - W * x div 2 ^ 32"
    using yW by (subst unat_sub) (simp_all add: word_le_nat_alt y a1)
  have bound: "unat start + (W - 1 - W * x div 2 ^ 32) < 2 ^ 64"
    using assms(3) W seg by simp
  have sum: "unat (ucast start + (ucast (area - 1) -
      drop_bit 32 (ucast area * drop_bit 32 ((ucast pr :: u64) * ucast pr)))) =
      unat start + (W - 1 - W * x div 2 ^ 32)"
    using bound by (subst unat_word_ariths(1)) (simp add: z up)
  have "(unat start + (W - 1 - W * x div 2 ^ 32)) mod (4 * seg) < 4 * seg"
    using assms(1,2) by (intro mod_less_divisor) linarith
  then have "(unat start + (W - 1 - W * x div 2 ^ 32)) mod (4 * seg) < 2 ^ 32"
    using seg by linarith
  moreover have "unat ((ucast start + (ucast (area - 1) -
      drop_bit 32 (ucast area * drop_bit 32 ((ucast pr :: u64) * ucast pr)))) mod ucast lane) =
      (unat start + (W - 1 - W * x div 2 ^ 32)) mod (4 * seg)"
    by (simp only: unat_mod_distrib sum up assms(4))
  ultimately show ?thesis
    unfolding W_def [symmetric] by (simp only: unat_ucast_u32)
qed

lemma index_alpha_eq:
  assumes "wf_inst inst" "wf_pos inst pos"
  shows "unat (index_alpha inst pos pr same_lane) =
    rfc_ref_index (unat (inst_segment_length inst)) (pos_pass pos = 0) (unat (pos_slice pos))
      (unat (pos_index pos)) same_lane (unat pr)"
proof -
  define seg where "seg = unat (inst_segment_length inst)"
  have w: "2 \<le> seg" "unat (pos_slice pos) < 4" "unat (pos_index pos) < seg"
    "pos_pass pos = 0 \<and> unat (pos_slice pos) = 0 \<longrightarrow> 2 \<le> unat (pos_index pos)"
    "unat (inst_lane_length inst) = 4 * seg"
    using assms by (simp_all add: seg_def wf_inst_def wf_pos_def unat_eq_0)
  note area = rfc_area_bounds [OF w(1-4), of same_lane]
  have start: "rfc_start seg (pos_pass pos = 0) (unat (pos_slice pos)) < 4 * seg"
    using rfc_start_bound [OF w(2), of seg "pos_pass pos = 0"] w(1) by auto
  note ua = unat_area_word [OF assms, of same_lane, folded seg_def]
  note us = unat_start_word [OF assms, folded seg_def]
  have "index_alpha inst pos pr same_lane = ucast ((ucast (start_word inst pos) +
      (ucast (area_word inst pos same_lane - 1) - drop_bit 32 (ucast (area_word inst pos same_lane) *
        drop_bit 32 ((ucast pr :: u64) * ucast pr)))) mod ucast (inst_lane_length inst))"
    unfolding index_alpha_def area_word_def start_word_def Let_def ..
  then show ?thesis
    unfolding rfc_ref_index_def Let_def
    using index_word [of "area_word inst pos same_lane" seg "start_word inst pos"
        "inst_lane_length inst" pr] area start w(5)
    by (simp only: ua us seg_def [symmetric])
qed

text \<open>C18: \<^verbatim>\<open>index_alpha\<close> is the mapping of RFC 9106 on unbounded numbers: at every position at which
  a block is computed no 32-bit sum and no 64-bit product of the code wraps.\<close>

theorem index_alpha_rfc9106:
  assumes "wf_inst inst" "wf_pos inst pos"
  shows "unat (index_alpha inst pos pr same_lane) =
    rfc_ref_index (unat (inst_segment_length inst)) (pos_pass pos = 0) (unat (pos_slice pos))
      (unat (pos_index pos)) same_lane (unat pr)"
  using index_alpha_eq [OF assms] .

section \<open>The reference block is one that may be read\<close>

lemma mod_shift_inj:
  fixes a z q n :: nat
  assumes "(a + z) mod n = (a + q) mod n" "z < n" "q < n"
  shows "z = q"
proof -
  have inj: "z = q" if le: "q \<le> z" and e: "(a + z) mod n = (a + q) mod n" and zn: "z < n" for z q
  proof -
    have "n dvd (a + z) - (a + q)"
      using e le mod_eq_dvd_iff_nat [of "a + q" "a + z" n] by simp
    then have "n dvd z - q" by simp
    show ?thesis
    proof (rule ccontr)
      assume "z \<noteq> q"
      then have "0 < z - q" "z - q < n" using le zn by linarith+
      then show False using \<open>n dvd z - q\<close> nat_dvd_not_less by blast
    qed
  qed
  show ?thesis using assms inj [of q z] inj [of z q] by (cases "q \<le> z") simp_all
qed

text \<open>Slot \<open>k\<close> of the current segment, seen from the start of the reference area.\<close>

lemma slot_from_start:
  "sl < 4 \<Longrightarrow> k < seg \<Longrightarrow> (rfc_start seg False sl + (3 * seg + k)) mod (4 * seg) = sl * seg + k"
proof -
  assume a: "sl < 4" "k < seg"
  have "(sl + 1) * seg \<le> 4 * seg" using a(1) by (intro mult_le_mono1) simp
  then have "sl * seg + seg \<le> 4 * seg" by simp
  then have lt: "sl * seg + k < 4 * seg" using a(2) by linarith
  show ?thesis
  proof (cases "sl = 3")
    case True
    then show ?thesis using lt by (simp add: rfc_start_def)
  next
    case False
    then have "rfc_start seg False sl + (3 * seg + k) = (sl * seg + k) + 4 * seg"
      using a(1) by (simp add: rfc_start_def)
    then show ?thesis using lt by (simp only: mod_add_self2 mod_less)
  qed
qed

lemma rfc_ref_index_eq:
  assumes "1 \<le> rfc_area seg fp sl idx same" "J1 < 2 ^ 32"
  shows "\<exists>z < rfc_area seg fp sl idx same. rfc_ref_index seg fp sl idx same J1 = (rfc_start seg fp sl + z) mod (4 * seg)"
  unfolding rfc_ref_index_def Let_def using assms(1) by (intro exI conjI) (auto intro: refl)

definition prev_index :: "nat \<Rightarrow> nat \<Rightarrow> nat \<Rightarrow> nat" where
  "prev_index seg sl idx = (sl * seg + idx + (4 * seg - 1)) mod (4 * seg)"

lemma prev_index_eq:
  assumes "2 \<le> seg" "sl < 4" "idx < seg"
  shows "prev_index seg sl idx =
    (if sl = 0 \<and> idx = 0 then 4 * seg - 1 else sl * seg + idx - 1)"
proof (cases "sl = 0 \<and> idx = 0")
  case True
  then show ?thesis using assms by (simp add: prev_index_def)
next
  case False
  then have p: "1 \<le> sl * seg + idx" using assms by (cases sl) auto
  have "(sl + 1) * seg \<le> 4 * seg" using assms by (intro mult_le_mono1) simp
  then have "sl * seg + seg \<le> 4 * seg" by simp
  then have u: "sl * seg + idx < 4 * seg" using assms(3) by linarith
  have e: "sl * seg + idx + (4 * seg - 1) = (sl * seg + idx - 1) + 4 * seg" using p assms by simp
  have "prev_index seg sl idx = sl * seg + idx - 1"
    unfolding prev_index_def e mod_add_self2 using u by simp
  then show ?thesis using False by auto
qed

lemma rfc_ref_index_ok:
  assumes "2 \<le> seg" "sl < 4" "idx < seg" "fp \<and> sl = 0 \<longrightarrow> 2 \<le> idx" "J1 < 2 ^ 32"
    and "same \<or> \<not> (fp \<and> sl = 0)"
  defines "r \<equiv> rfc_ref_index seg fp sl idx same J1"
  shows "r < 4 * seg" and "r \<noteq> sl * seg + idx" and "same \<longrightarrow> r \<noteq> prev_index seg sl idx"
    and "\<not> same \<longrightarrow> r < sl * seg \<or> (sl + 1) * seg \<le> r"
    and "\<not> (sl * seg + idx \<le> r \<and> r < (sl + 1) * seg)"
    and "fp \<longrightarrow> r < sl * seg + idx - (if same then 1 else idx)"
proof -
  have W: "1 \<le> rfc_area seg fp sl idx same" "rfc_area seg fp sl idx same < 4 * seg"
    using rfc_area_bounds [OF assms(1-4)] by simp_all
  obtain z where z: "z < rfc_area seg fp sl idx same" "r = (rfc_start seg fp sl + z) mod (4 * seg)"
    using rfc_ref_index_eq [OF W(1) assms(5)] unfolding r_def by blast
  show "r < 4 * seg" unfolding z(2) using assms(1) by simp
  have "(sl + 1) * seg \<le> 4 * seg" using assms(2) by (intro mult_le_mono1) simp
  then have sl4: "sl * seg + seg \<le> 4 * seg" by simp
  show "r \<noteq> sl * seg + idx" and "same \<longrightarrow> r \<noteq> prev_index seg sl idx"
    and "\<not> same \<longrightarrow> r < sl * seg \<or> (sl + 1) * seg \<le> r"
    and "\<not> (sl * seg + idx \<le> r \<and> r < (sl + 1) * seg)"
    and "fp \<longrightarrow> r < sl * seg + idx - (if same then 1 else idx)"
  proof -
    consider (first) fp | (later) "\<not> fp" by blast
    then have *: "r \<noteq> sl * seg + idx \<and> (same \<longrightarrow> r \<noteq> prev_index seg sl idx) \<and>
      (\<not> same \<longrightarrow> r < sl * seg \<or> (sl + 1) * seg \<le> r) \<and>
      \<not> (sl * seg + idx \<le> r \<and> r < (sl + 1) * seg) \<and>
      (fp \<longrightarrow> r < sl * seg + idx - (if same then 1 else idx))"
    proof cases
      case first
      have "z < 4 * seg" using z(1) W(2) by simp
      then have r: "r = z" using first z(2) by (simp add: rfc_start_def)
      have z1: "z < sl * seg + idx - (if same then 1 else idx)"
        using z(1) first assms(4,6) by (auto simp: rfc_area_def Let_def split: if_splits)
      then have p: "prev_index seg sl idx = sl * seg + idx - 1" if same
        using that assms(1-4) first by (subst prev_index_eq) auto
      then show ?thesis using z1 first unfolding r by auto
    next
      case later
      have zW: "z < (if same then 3 * seg + idx - 1 else if idx = 0 then 3 * seg - 1 else 3 * seg)"
        using z(1) later by (simp add: rfc_area_def Let_def)
      have slot: "sl * seg + k = (rfc_start seg fp sl + (3 * seg + k)) mod (4 * seg)" if "k < seg" for k
        using slot_from_start [OF assms(2) that] later by simp
      have ne: "r \<noteq> sl * seg + k" if "k < seg" "z < 3 * seg + k" for k
      proof
        assume "r = sl * seg + k"
        then have "z = 3 * seg + k"
          using mod_shift_inj [of "rfc_start seg fp sl" z "4 * seg" "3 * seg + k"] z(2) slot [OF that(1)]
            that by simp
        then show False using that by simp
      qed
      have prev: "prev_index seg sl idx = (rfc_start seg fp sl + (3 * seg + idx - 1)) mod (4 * seg)"
      proof -
        have "prev_index seg sl idx = ((rfc_start seg fp sl + (3 * seg + idx)) mod (4 * seg) + (4 * seg - 1)) mod (4 * seg)"
          by (simp only: prev_index_def slot [OF assms(3), symmetric])
        also have "\<dots> = (rfc_start seg fp sl + (3 * seg + idx - 1) + 4 * seg) mod (4 * seg)"
          using assms(1) by (subst mod_add_left_eq) (simp add: add.assoc)
        finally show ?thesis by simp
      qed
      have nprev: "r \<noteq> prev_index seg sl idx" if same
      proof
        assume "r = prev_index seg sl idx"
        moreover have "3 * seg + idx - 1 < 4 * seg" using assms(1,3) by linarith
        ultimately have "z = 3 * seg + idx - 1"
          using mod_shift_inj [of "rfc_start seg fp sl" z "4 * seg" "3 * seg + idx - 1"] z(2) prev
            that zW assms(1,3) by simp
        then show False using that zW by simp
      qed
      have out: "r < sl * seg + j \<or> (sl + 1) * seg \<le> r" if "\<And>k. j \<le> k \<Longrightarrow> k < seg \<Longrightarrow> z < 3 * seg + k" for j
      proof (rule ccontr)
        assume "\<not> (r < sl * seg + j \<or> (sl + 1) * seg \<le> r)"
        then have "sl * seg + j \<le> r" "r < sl * seg + seg" by simp_all
        then have "r = sl * seg + (r - sl * seg)" "j \<le> r - sl * seg" "r - sl * seg < seg" by linarith+
        then show False using ne [of "r - sl * seg"] that by blast
      qed
      have zi: "z < 3 * seg + idx" using zW by (auto split: if_splits)
      have o1: "r < sl * seg + idx \<or> (sl + 1) * seg \<le> r" by (rule out) (use zi in simp)
      have o2: "r < sl * seg + 0 \<or> (sl + 1) * seg \<le> r" if "\<not> same"
        by (rule out) (use zW that in \<open>auto split: if_splits\<close>)
      show ?thesis using ne [OF assms(3) zi] nprev o1 o2 later by auto
    qed
    show "r \<noteq> sl * seg + idx" and "same \<longrightarrow> r \<noteq> prev_index seg sl idx"
      and "\<not> same \<longrightarrow> r < sl * seg \<or> (sl + 1) * seg \<le> r"
      and "\<not> (sl * seg + idx \<le> r \<and> r < (sl + 1) * seg)"
      and "fp \<longrightarrow> r < sl * seg + idx - (if same then 1 else idx)" using * by blast+
  qed
qed

text \<open>C17: the block that \<^verbatim>\<open>index_alpha\<close> chooses lies in the lane, is neither the block being computed
  nor, in the same lane, the one before it, is never a block of the current segment that is still
  to be computed, and in another lane never lies in the current slice, so that no lane reads what
  another lane writes at the same time. In the first pass it is always a block that has already
  been computed.\<close>

theorem index_alpha_safe:
  assumes "wf_inst inst" "wf_pos inst pos" "same_lane \<or> \<not> (pos_pass pos = 0 \<and> pos_slice pos = 0)"
  shows "(let r = unat (index_alpha inst pos pr same_lane);
         seg = unat (inst_segment_length inst);
         i = unat (pos_index pos);
         first = unat (pos_slice pos) * seg
     in r < unat (inst_lane_length inst) \<and> r \<noteq> first + i \<and>
        (same_lane \<longrightarrow> r \<noteq> (first + i + (4 * seg - 1)) mod (4 * seg)) \<and>
        \<not> (first + i \<le> r \<and> r < first + seg) \<and>
        (\<not> same_lane \<longrightarrow> r < first \<or> first + seg \<le> r) \<and>
        (pos_pass pos = 0 \<longrightarrow> r < first + i - (if same_lane then 1 else i)))"
proof -
  define r where "r = unat (index_alpha inst pos pr same_lane)"
  define seg where "seg = unat (inst_segment_length inst)"
  define i where "i = unat (pos_index pos)"
  define first where "first = unat (pos_slice pos) * seg"
  have w: "2 \<le> seg" "unat (pos_slice pos) < 4" "i < seg"
    "pos_pass pos = 0 \<and> unat (pos_slice pos) = 0 \<longrightarrow> 2 \<le> i"
    "unat (inst_lane_length inst) = 4 * seg" "first = unat (pos_slice pos) * seg"
    using assms(1,2) by (simp_all add: seg_def i_def first_def wf_inst_def wf_pos_def unat_eq_0)
  have sm: "same_lane \<or> \<not> (pos_pass pos = 0 \<and> unat (pos_slice pos) = 0)"
    using assms(3) by (simp add: unat_eq_0)
  have r: "r = rfc_ref_index seg (pos_pass pos = 0) (unat (pos_slice pos)) i same_lane (unat pr)"
    using index_alpha_eq [OF assms(1,2)] by (simp add: r_def seg_def i_def)
  note ok = rfc_ref_index_ok [OF w(1-4) unat_lt_u32 sm, of pr, folded r w(6)]
  have e: "(unat (pos_slice pos) + 1) * seg = first + seg" by (simp add: w(6))
  show ?thesis
    using ok unfolding Let_def r_def [symmetric] seg_def [symmetric] i_def [symmetric] e w(5)
      prev_index_def first_def [symmetric] by blast
qed

definition tiny_inst :: argon2_instance_t where
  "tiny_inst = \<lparr>inst_memory = None, inst_version = 0x13, inst_passes = 1, inst_memory_blocks = 16,
     inst_segment_length = 2, inst_lane_length = 8, inst_lanes = 2, inst_threads = 1,
     inst_type = Argon2_id, inst_print_internals = 0\<rparr>"

definition tiny_pos :: argon2_position_t where
  "tiny_pos = \<lparr>pos_pass = 1, pos_lane = 1, pos_slice = 2, pos_index = 1\<rparr>"

lemma wf_tiny [simp]: "wf_inst tiny_inst" "wf_pos tiny_inst tiny_pos"
  by (simp_all add: tiny_inst_def tiny_pos_def wf_inst_def wf_pos_def)

lemma tiny_fields [simp]:
  "inst_segment_length tiny_inst = 2" "inst_lane_length tiny_inst = 8" "pos_pass tiny_pos = 1"
  "pos_slice tiny_pos = 2" "pos_index tiny_pos = 1"
  by (simp_all add: tiny_inst_def tiny_pos_def)

theorem index_alpha_rfc9106_witness:
  "unat (index_alpha tiny_inst tiny_pos 3735928559 True) = 7 \<and>
    rfc_ref_index 2 False 2 1 True 3735928559 = 7"
proof -
  have "rfc_ref_index 2 False 2 1 True 3735928559 = 7" by code_simp
  then show ?thesis using index_alpha_rfc9106 [OF wf_tiny, of 3735928559 True] by simp
qed

theorem index_alpha_safe_witness:
  "unat (index_alpha tiny_inst tiny_pos 7 False) < 4 \<or> 6 \<le> unat (index_alpha tiny_inst tiny_pos 7 False)"
  using index_alpha_safe [OF wf_tiny, of False 7] unfolding Let_def by simp

end
