(* ===== verification/Ref.thy ===== *)
theory Ref
  imports Block Index_Alpha
begin

text \<open>
  \<^verbatim>\<open>src/blake2/blamka-round-ref.h\<close> and \<^verbatim>\<open>src/ref.c\<close>: the round function, \<open>fill_block\<close>,
  \<open>next_addresses\<close> and \<open>fill_segment\<close>. The macros work on lvalues of the array \<open>blockR.v\<close>, here
  indices of the block. The local variables of the loop of \<open>fill_segment\<close> are the record
  \<open>segment_state\<close>; its body is \<open>fill_segment_step\<close>. \<open>junk\<close> is the indeterminate initial value of
  the local blocks, which the code leaves uninitialised unless addressing is data-independent.
\<close>

section \<open>The round function\<close>

definition fBlaMka :: "u64 \<Rightarrow> u64 \<Rightarrow> u64" where
  "fBlaMka x y =
     (let m = 0xFFFFFFFF;
          xy = (x AND m) * (y AND m)
      in x + y + 2 * xy)"

definition blamka_G :: "nat \<Rightarrow> nat \<Rightarrow> nat \<Rightarrow> nat \<Rightarrow> block \<Rightarrow> block" where
  "blamka_G a b c d v =
     (let v = v[a := fBlaMka (v ! a) (v ! b)];
          v = v[d := rotr64 (v ! d XOR v ! a) 32];
          v = v[c := fBlaMka (v ! c) (v ! d)];
          v = v[b := rotr64 (v ! b XOR v ! c) 24];
          v = v[a := fBlaMka (v ! a) (v ! b)];
          v = v[d := rotr64 (v ! d XOR v ! a) 16];
          v = v[c := fBlaMka (v ! c) (v ! d)];
          v = v[b := rotr64 (v ! b XOR v ! c) 63]
      in v)"

text \<open>The sixteen macro arguments are the list \<open>x\<close>.\<close>

definition BLAKE2_ROUND_NOMSG :: "nat list \<Rightarrow> block \<Rightarrow> block" where
  "BLAKE2_ROUND_NOMSG x v =
     (let v = blamka_G (x ! 0) (x ! 4) (x ! 8) (x ! 12) v;
          v = blamka_G (x ! 1) (x ! 5) (x ! 9) (x ! 13) v;
          v = blamka_G (x ! 2) (x ! 6) (x ! 10) (x ! 14) v;
          v = blamka_G (x ! 3) (x ! 7) (x ! 11) (x ! 15) v;
          v = blamka_G (x ! 0) (x ! 5) (x ! 10) (x ! 15) v;
          v = blamka_G (x ! 1) (x ! 6) (x ! 11) (x ! 12) v;
          v = blamka_G (x ! 2) (x ! 7) (x ! 8) (x ! 13) v;
          v = blamka_G (x ! 3) (x ! 4) (x ! 9) (x ! 14) v
      in v)"

section \<open>Filling a block\<close>

definition column_args :: "nat \<Rightarrow> nat list" where
  "column_args i =
     [16 * i, 16 * i + 1, 16 * i + 2, 16 * i + 3, 16 * i + 4, 16 * i + 5, 16 * i + 6, 16 * i + 7,
      16 * i + 8, 16 * i + 9, 16 * i + 10, 16 * i + 11, 16 * i + 12, 16 * i + 13, 16 * i + 14,
      16 * i + 15]"

definition row_args :: "nat \<Rightarrow> nat list" where
  "row_args i =
     [2 * i, 2 * i + 1, 2 * i + 16, 2 * i + 17, 2 * i + 32, 2 * i + 33, 2 * i + 48, 2 * i + 49,
      2 * i + 64, 2 * i + 65, 2 * i + 80, 2 * i + 81, 2 * i + 96, 2 * i + 97, 2 * i + 112,
      2 * i + 113]"

text \<open>The local blocks are overwritten before they are read; the result is the new content of
  \<^verbatim>\<open>*next_block\<close>.\<close>

definition fill_block :: "block \<Rightarrow> block \<Rightarrow> block \<Rightarrow> bool \<Rightarrow> block" where
  "fill_block prev_block ref_block next_block with_xor =
     (let blockR = copy_block (replicate 128 0) ref_block;
          blockR = xor_block blockR prev_block;
          block_tmp = copy_block (replicate 128 0) blockR;
          block_tmp = (if with_xor then xor_block block_tmp next_block else block_tmp);
          blockR = fold (\<lambda>i. BLAKE2_ROUND_NOMSG (column_args i)) [0..<8] blockR;
          blockR = fold (\<lambda>i. BLAKE2_ROUND_NOMSG (row_args i)) [0..<8] blockR;
          next_block = copy_block next_block block_tmp;
          next_block = xor_block next_block blockR
      in next_block)"

text \<open>Returns the new address block and the new input block.\<close>

definition next_addresses :: "block \<Rightarrow> block \<Rightarrow> block \<Rightarrow> block \<times> block" where
  "next_addresses address_block input_block zero_block =
     (let input_block = input_block[6 := input_block ! 6 + 1];
          address_block = fill_block zero_block input_block address_block False;
          address_block = fill_block zero_block address_block address_block False
      in (address_block, input_block))"

section \<open>Filling a segment\<close>

record segment_state =
  seg_memory :: "block list"
  seg_address_block :: block
  seg_input_block :: block
  seg_curr_offset :: u32
  seg_prev_offset :: u32

definition data_independent_addressing :: "argon2_instance_t \<Rightarrow> argon2_position_t \<Rightarrow> bool" where
  "data_independent_addressing inst pos \<longleftrightarrow>
     inst_type inst = Argon2_i \<or>
     inst_type inst = Argon2_id \<and> pos_pass pos = 0 \<and>
       ucast (pos_slice pos) < ARGON2_SYNC_POINTS div 2"

definition starting_index :: "argon2_position_t \<Rightarrow> nat" where
  "starting_index pos = (if 0 = pos_pass pos \<and> 0 = pos_slice pos then 2 else 0)"

definition fill_segment_init ::
  "block \<Rightarrow> argon2_instance_t \<Rightarrow> argon2_position_t \<Rightarrow> block list \<Rightarrow> segment_state" where
  "fill_segment_init junk inst pos mem =
     (let dia = data_independent_addressing inst pos;
          zero_block = init_block_value junk 0;
          input_block =
            (if dia then (init_block_value junk 0)
                [0 := ucast (pos_pass pos), 1 := ucast (pos_lane pos), 2 := ucast (pos_slice pos),
                 3 := ucast (inst_memory_blocks inst), 4 := ucast (inst_passes inst),
                 5 := ucast (type_code (inst_type inst))]
             else junk);
          (address_block, input_block) =
            (if 0 = pos_pass pos \<and> 0 = pos_slice pos \<and> dia
             then next_addresses junk input_block zero_block else (junk, input_block));
          curr_offset = pos_lane pos * inst_lane_length inst +
            ucast (pos_slice pos) * inst_segment_length inst + word_of_nat (starting_index pos);
          prev_offset =
            (if 0 = curr_offset mod inst_lane_length inst
             then curr_offset + inst_lane_length inst - 1 else curr_offset - 1)
      in \<lparr>seg_memory = mem, seg_address_block = address_block, seg_input_block = input_block,
          seg_curr_offset = curr_offset, seg_prev_offset = prev_offset\<rparr>)"

text \<open>The body of the loop for the counter value \<open>i\<close>, with the increments of both offsets.\<close>

definition fill_segment_step ::
  "argon2_instance_t \<Rightarrow> argon2_position_t \<Rightarrow> nat \<Rightarrow> segment_state \<Rightarrow> segment_state" where
  "fill_segment_step inst pos i s =
     (let mem = seg_memory s;
          curr_offset = seg_curr_offset s;
          prev_offset =
            (if curr_offset mod inst_lane_length inst = 1 then curr_offset - 1
             else seg_prev_offset s);
          (address_block, input_block) =
            (if data_independent_addressing inst pos \<and> i mod ARGON2_ADDRESSES_IN_BLOCK = 0
             then next_addresses (seg_address_block s) (seg_input_block s)
                    (init_block_value (seg_input_block s) 0)
             else (seg_address_block s, seg_input_block s));
          pseudo_rand =
            (if data_independent_addressing inst pos
             then address_block ! (i mod ARGON2_ADDRESSES_IN_BLOCK)
             else mem ! unat prev_offset ! 0);
          ref_lane = drop_bit 32 pseudo_rand mod ucast (inst_lanes inst);
          ref_lane = (if pos_pass pos = 0 \<and> pos_slice pos = 0 then ucast (pos_lane pos) else ref_lane);
          pos = pos\<lparr>pos_index := word_of_nat i\<rparr>;
          ref_index = (ucast (index_alpha inst pos (ucast (pseudo_rand AND 0xFFFFFFFF))
                         (ref_lane = ucast (pos_lane pos))) :: u64);
          ref_block = mem ! unat (ucast (inst_lane_length inst) * ref_lane + ref_index);
          curr_block = mem ! unat curr_offset;
          new_block =
            (if ARGON2_VERSION_10 = inst_version inst
             then fill_block (mem ! unat prev_offset) ref_block curr_block False
             else if 0 = pos_pass pos
             then fill_block (mem ! unat prev_offset) ref_block curr_block False
             else fill_block (mem ! unat prev_offset) ref_block curr_block True)
      in \<lparr>seg_memory = store_at mem (unat curr_offset) new_block, seg_address_block = address_block,
          seg_input_block = input_block, seg_curr_offset = curr_offset + 1,
          seg_prev_offset = prev_offset + 1\<rparr>)"

definition fill_segment ::
  "block \<Rightarrow> argon2_instance_t option \<Rightarrow> argon2_position_t \<Rightarrow> argon2_instance_t option" where
  "fill_segment junk inst pos =
     (case inst of None \<Rightarrow> None
      | Some inst \<Rightarrow>
          (let s = fold (fill_segment_step inst pos)
                     [starting_index pos..<unat (inst_segment_length inst)]
                     (fill_segment_init junk inst pos (the (inst_memory inst)))
           in Some (inst\<lparr>inst_memory := Some (seg_memory s)\<rparr>)))"

end
