(* ===== verification/Simd.thy ===== *)
theory Simd
  imports Ref
begin

text \<open>
  \<^verbatim>\<open>src/blake2/blamka-round-opt.h\<close>: the round function on vector registers, for SSE2, SSSE3, XOP, AVX2 and
  AVX-512. A register of 128, 256 or 512 bits is the list of its two, four or eight 64-bit lanes, lowest
  first. The compiler's intrinsics are defined first, by the operation that Intel's and AMD's manuals
  give for them; those that work lane by lane have the same definition for all widths. A macro that
  assigns to its eight arguments is a function from the list of the eight old values to the list of the
  eight new ones.
\<close>

type_synonym vec = "u64 list"

section \<open>Intrinsics\<close>

text \<open>Lane by lane: \<^verbatim>\<open>_mm_xor_si128\<close>, \<^verbatim>\<open>_mm256_xor_si256\<close>, \<^verbatim>\<open>_mm512_xor_si512\<close>, and so on.\<close>

definition mm_xor :: "vec \<Rightarrow> vec \<Rightarrow> vec" where
  "mm_xor x y = map2 (XOR) x y"

definition mm_add_epi64 :: "vec \<Rightarrow> vec \<Rightarrow> vec" where
  "mm_add_epi64 x y = map2 (+) x y"

definition mm_mul_epu32 :: "vec \<Rightarrow> vec \<Rightarrow> vec" where
  "mm_mul_epu32 x y = map2 (\<lambda>a b. take_bit 32 a * take_bit 32 b) x y"

definition mm_srli_epi64 :: "vec \<Rightarrow> nat \<Rightarrow> vec" where
  "mm_srli_epi64 x n = map (drop_bit n) x"

definition mm_slli_epi64 :: "vec \<Rightarrow> nat \<Rightarrow> vec" where
  "mm_slli_epi64 x n = map (push_bit n) x"

text \<open>Rotations: of XOP, to the left, by a count that may be negative; of AVX-512, to the right.\<close>

definition xop_roti_epi64 :: "vec \<Rightarrow> int \<Rightarrow> vec" where
  "xop_roti_epi64 x c = map (word_rotl (nat (c mod 64))) x"

definition mm512_ror_epi64 :: "vec \<Rightarrow> nat \<Rightarrow> vec" where
  "mm512_ror_epi64 x n = map (word_rotr n) x"

text \<open>Selectors of four lanes, in the order of the lanes of the result.\<close>

definition MM_SHUFFLE :: "nat \<Rightarrow> nat \<Rightarrow> nat \<Rightarrow> nat \<Rightarrow> nat list" where
  "MM_SHUFFLE z y x w = [w, x, y, z]"

text \<open>The 32-bit lanes and the bytes of a register.\<close>

definition dwords :: "vec \<Rightarrow> u32 list" where
  "dwords x = concat (map (\<lambda>a. [ucast a, ucast (drop_bit 32 a)]) x)"

definition of_dwords :: "u32 list \<Rightarrow> vec" where
  "of_dwords d = map (\<lambda>i. ucast (d ! (2 * i)) OR push_bit 32 (ucast (d ! (2 * i + 1)))) [0..<length d div 2]"

definition vec_bytes :: "vec \<Rightarrow> u8 list" where
  "vec_bytes x = concat (map (store_bytes 8) x)"

definition of_vec_bytes :: "u8 list \<Rightarrow> vec" where
  "of_vec_bytes p = map (\<lambda>i. load64 (drop (8 * i) p)) [0..<length p div 8]"

text \<open>On 128 bits. No selector of \<^verbatim>\<open>_mm_shuffle_epi8\<close> that occurs has its top bit set, which would give a zero.\<close>

definition mm_shuffle_epi32 :: "vec \<Rightarrow> nat list \<Rightarrow> vec" where
  "mm_shuffle_epi32 x sel = of_dwords (map ((!) (dwords x)) sel)"

definition mm_shuffle_epi8 :: "vec \<Rightarrow> nat list \<Rightarrow> vec" where
  "mm_shuffle_epi8 x sel = of_vec_bytes (map (\<lambda>k. if 128 \<le> k then 0 else vec_bytes x ! (k mod 16)) sel)"

definition mm_alignr_epi8 :: "vec \<Rightarrow> vec \<Rightarrow> nat \<Rightarrow> vec" where
  "mm_alignr_epi8 x y n = of_vec_bytes (take 16 (drop n (vec_bytes y @ vec_bytes x)))"

definition mm_unpacklo_epi64 :: "vec \<Rightarrow> vec \<Rightarrow> vec" where
  "mm_unpacklo_epi64 x y = [x ! 0, y ! 0]"

definition mm_unpackhi_epi64 :: "vec \<Rightarrow> vec \<Rightarrow> vec" where
  "mm_unpackhi_epi64 x y = [x ! 1, y ! 1]"

text \<open>On 256 bits; the shuffles work on each 128-bit half.\<close>

definition mm256_shuffle_epi32 :: "vec \<Rightarrow> nat list \<Rightarrow> vec" where
  "mm256_shuffle_epi32 x sel = mm_shuffle_epi32 (take 2 x) sel @ mm_shuffle_epi32 (drop 2 x) sel"

definition mm256_shuffle_epi8 :: "vec \<Rightarrow> nat list \<Rightarrow> vec" where
  "mm256_shuffle_epi8 x sel = mm_shuffle_epi8 (take 2 x) (take 16 sel) @ mm_shuffle_epi8 (drop 2 x) (drop 16 sel)"

definition mm256_permute4x64_epi64 :: "vec \<Rightarrow> nat list \<Rightarrow> vec" where
  "mm256_permute4x64_epi64 x sel = map ((!) x) sel"

definition mm256_blend_epi32 :: "vec \<Rightarrow> vec \<Rightarrow> nat \<Rightarrow> vec" where
  "mm256_blend_epi32 x y imm =
     of_dwords (map (\<lambda>k. if odd (imm div 2 ^ k) then dwords y ! k else dwords x ! k) [0..<8])"

text \<open>On 512 bits: \<^verbatim>\<open>_mm512_permutex_epi64\<close> permutes each 256-bit half, \<^verbatim>\<open>_mm512_shuffle_i64x2\<close> takes two 128-bit
  lanes of each argument.\<close>

definition mm512_permutex_epi64 :: "vec \<Rightarrow> nat list \<Rightarrow> vec" where
  "mm512_permutex_epi64 x sel = map ((!) (take 4 x)) sel @ map ((!) (drop 4 x)) sel"

definition mm512_permutexvar_epi64 :: "nat list \<Rightarrow> vec \<Rightarrow> vec" where
  "mm512_permutexvar_epi64 sel x = map ((!) x) sel"

definition mm512_shuffle_i64x2 :: "vec \<Rightarrow> vec \<Rightarrow> nat list \<Rightarrow> vec" where
  "mm512_shuffle_i64x2 x y sel =
     (let lane = (\<lambda>z k. take 2 (drop (2 * k) z))
      in lane x (sel ! 0) @ lane x (sel ! 1) @ lane y (sel ! 2) @ lane y (sel ! 3))"

section \<open>The round on 128 bits\<close>

text \<open>The three branches of the preprocessor. A compiler for XOP defines \<^verbatim>\<open>__SSSE3__\<close>, too.\<close>

datatype sse = SSE2 | SSSE3 | XOP

definition r16 :: "nat list" where
  "r16 = [2, 3, 4, 5, 6, 7, 0, 1, 10, 11, 12, 13, 14, 15, 8, 9]"

definition r24 :: "nat list" where
  "r24 = [3, 4, 5, 6, 7, 0, 1, 2, 11, 12, 13, 14, 15, 8, 9, 10]"

definition mm_roti_epi64 :: "sse \<Rightarrow> vec \<Rightarrow> int \<Rightarrow> vec" where
  "mm_roti_epi64 isa x c =
     (case isa of
        XOP \<Rightarrow> xop_roti_epi64 x c
      | SSSE3 \<Rightarrow>
          (if - c = 32 then mm_shuffle_epi32 x (MM_SHUFFLE 2 3 0 1)
           else if - c = 24 then mm_shuffle_epi8 x r24
           else if - c = 16 then mm_shuffle_epi8 x r16
           else if - c = 63 then mm_xor (mm_srli_epi64 x (nat (- c))) (mm_add_epi64 x x)
           else mm_xor (mm_srli_epi64 x (nat (- c))) (mm_slli_epi64 x (nat (64 - (- c)))))
      | SSE2 \<Rightarrow> mm_xor (mm_srli_epi64 x (nat (- c))) (mm_slli_epi64 x (nat (64 - (- c)))))"

definition fBlaMka_sse :: "vec \<Rightarrow> vec \<Rightarrow> vec" where
  "fBlaMka_sse x y =
     (let z = mm_mul_epu32 x y in mm_add_epi64 (mm_add_epi64 x y) (mm_add_epi64 z z))"

text \<open>The eight registers of a round are \<^verbatim>\<open>A0, B0, C0, D0, A1, B1, C1, D1\<close>, in this order.\<close>

type_synonym regs = "vec \<times> vec \<times> vec \<times> vec \<times> vec \<times> vec \<times> vec \<times> vec"

definition G1_sse :: "sse \<Rightarrow> regs \<Rightarrow> regs" where
  "G1_sse isa = (\<lambda>(A0, B0, C0, D0, A1, B1, C1, D1).
     let A0 = fBlaMka_sse A0 B0; A1 = fBlaMka_sse A1 B1;
         D0 = mm_xor D0 A0; D1 = mm_xor D1 A1;
         D0 = mm_roti_epi64 isa D0 (-32); D1 = mm_roti_epi64 isa D1 (-32);
         C0 = fBlaMka_sse C0 D0; C1 = fBlaMka_sse C1 D1;
         B0 = mm_xor B0 C0; B1 = mm_xor B1 C1;
         B0 = mm_roti_epi64 isa B0 (-24); B1 = mm_roti_epi64 isa B1 (-24)
     in (A0, B0, C0, D0, A1, B1, C1, D1))"

definition G2_sse :: "sse \<Rightarrow> regs \<Rightarrow> regs" where
  "G2_sse isa = (\<lambda>(A0, B0, C0, D0, A1, B1, C1, D1).
     let A0 = fBlaMka_sse A0 B0; A1 = fBlaMka_sse A1 B1;
         D0 = mm_xor D0 A0; D1 = mm_xor D1 A1;
         D0 = mm_roti_epi64 isa D0 (-16); D1 = mm_roti_epi64 isa D1 (-16);
         C0 = fBlaMka_sse C0 D0; C1 = fBlaMka_sse C1 D1;
         B0 = mm_xor B0 C0; B1 = mm_xor B1 C1;
         B0 = mm_roti_epi64 isa B0 (-63); B1 = mm_roti_epi64 isa B1 (-63)
     in (A0, B0, C0, D0, A1, B1, C1, D1))"

definition DIAGONALIZE_ssse3 :: "regs \<Rightarrow> regs" where
  "DIAGONALIZE_ssse3 = (\<lambda>(A0, B0, C0, D0, A1, B1, C1, D1).
     let t0 = mm_alignr_epi8 B1 B0 8; t1 = mm_alignr_epi8 B0 B1 8;
         B0 = t0; B1 = t1;
         t0 = C0; C0 = C1; C1 = t0;
         t0 = mm_alignr_epi8 D1 D0 8; t1 = mm_alignr_epi8 D0 D1 8;
         D0 = t1; D1 = t0
     in (A0, B0, C0, D0, A1, B1, C1, D1))"

definition UNDIAGONALIZE_ssse3 :: "regs \<Rightarrow> regs" where
  "UNDIAGONALIZE_ssse3 = (\<lambda>(A0, B0, C0, D0, A1, B1, C1, D1).
     let t0 = mm_alignr_epi8 B0 B1 8; t1 = mm_alignr_epi8 B1 B0 8;
         B0 = t0; B1 = t1;
         t0 = C0; C0 = C1; C1 = t0;
         t0 = mm_alignr_epi8 D0 D1 8; t1 = mm_alignr_epi8 D1 D0 8;
         D0 = t1; D1 = t0
     in (A0, B0, C0, D0, A1, B1, C1, D1))"

definition DIAGONALIZE_sse2 :: "regs \<Rightarrow> regs" where
  "DIAGONALIZE_sse2 = (\<lambda>(A0, B0, C0, D0, A1, B1, C1, D1).
     let t0 = D0; t1 = B0;
         D0 = C0; C0 = C1; C1 = D0;
         D0 = mm_unpackhi_epi64 D1 (mm_unpacklo_epi64 t0 t0);
         D1 = mm_unpackhi_epi64 t0 (mm_unpacklo_epi64 D1 D1);
         B0 = mm_unpackhi_epi64 B0 (mm_unpacklo_epi64 B1 B1);
         B1 = mm_unpackhi_epi64 B1 (mm_unpacklo_epi64 t1 t1)
     in (A0, B0, C0, D0, A1, B1, C1, D1))"

definition UNDIAGONALIZE_sse2 :: "regs \<Rightarrow> regs" where
  "UNDIAGONALIZE_sse2 = (\<lambda>(A0, B0, C0, D0, A1, B1, C1, D1).
     let t0 = C0; C0 = C1; C1 = t0;
         t0 = B0; t1 = D0;
         B0 = mm_unpackhi_epi64 B1 (mm_unpacklo_epi64 B0 B0);
         B1 = mm_unpackhi_epi64 t0 (mm_unpacklo_epi64 B1 B1);
         D0 = mm_unpackhi_epi64 D0 (mm_unpacklo_epi64 D1 D1);
         D1 = mm_unpackhi_epi64 D1 (mm_unpacklo_epi64 t1 t1)
     in (A0, B0, C0, D0, A1, B1, C1, D1))"

definition BLAKE2_ROUND_sse :: "sse \<Rightarrow> vec list \<Rightarrow> vec list" where
  "BLAKE2_ROUND_sse isa x =
     (let (A0, A1, B0, B1, C0, C1, D0, D1) = (x ! 0, x ! 1, x ! 2, x ! 3, x ! 4, x ! 5, x ! 6, x ! 7);
          r = (A0, B0, C0, D0, A1, B1, C1, D1);
          r = G1_sse isa r;
          r = G2_sse isa r;
          r = (if isa = SSE2 then DIAGONALIZE_sse2 r else DIAGONALIZE_ssse3 r);
          r = G1_sse isa r;
          r = G2_sse isa r;
          r = (if isa = SSE2 then UNDIAGONALIZE_sse2 r else UNDIAGONALIZE_ssse3 r);
          (A0, B0, C0, D0, A1, B1, C1, D1) = r
      in [A0, A1, B0, B1, C0, C1, D0, D1])"

section \<open>The round on 256 bits\<close>

definition rotr32_avx2 :: "vec \<Rightarrow> vec" where
  "rotr32_avx2 x = mm256_shuffle_epi32 x (MM_SHUFFLE 2 3 0 1)"

definition rotr24_avx2 :: "vec \<Rightarrow> vec" where
  "rotr24_avx2 x = mm256_shuffle_epi8 x
     [3, 4, 5, 6, 7, 0, 1, 2, 11, 12, 13, 14, 15, 8, 9, 10, 3, 4, 5, 6, 7, 0, 1, 2, 11, 12, 13, 14, 15, 8, 9, 10]"

definition rotr16_avx2 :: "vec \<Rightarrow> vec" where
  "rotr16_avx2 x = mm256_shuffle_epi8 x
     [2, 3, 4, 5, 6, 7, 0, 1, 10, 11, 12, 13, 14, 15, 8, 9, 2, 3, 4, 5, 6, 7, 0, 1, 10, 11, 12, 13, 14, 15, 8, 9]"

definition rotr63_avx2 :: "vec \<Rightarrow> vec" where
  "rotr63_avx2 x = mm_xor (mm_srli_epi64 x 63) (mm_add_epi64 x x)"

definition G1_AVX2 :: "regs \<Rightarrow> regs" where
  "G1_AVX2 = (\<lambda>(A0, B0, C0, D0, A1, B1, C1, D1).
     let ml = mm_mul_epu32 A0 B0; ml = mm_add_epi64 ml ml; A0 = mm_add_epi64 A0 (mm_add_epi64 B0 ml);
         D0 = mm_xor D0 A0; D0 = rotr32_avx2 D0;
         ml = mm_mul_epu32 C0 D0; ml = mm_add_epi64 ml ml; C0 = mm_add_epi64 C0 (mm_add_epi64 D0 ml);
         B0 = mm_xor B0 C0; B0 = rotr24_avx2 B0;
         ml = mm_mul_epu32 A1 B1; ml = mm_add_epi64 ml ml; A1 = mm_add_epi64 A1 (mm_add_epi64 B1 ml);
         D1 = mm_xor D1 A1; D1 = rotr32_avx2 D1;
         ml = mm_mul_epu32 C1 D1; ml = mm_add_epi64 ml ml; C1 = mm_add_epi64 C1 (mm_add_epi64 D1 ml);
         B1 = mm_xor B1 C1; B1 = rotr24_avx2 B1
     in (A0, B0, C0, D0, A1, B1, C1, D1))"

definition G2_AVX2 :: "regs \<Rightarrow> regs" where
  "G2_AVX2 = (\<lambda>(A0, B0, C0, D0, A1, B1, C1, D1).
     let ml = mm_mul_epu32 A0 B0; ml = mm_add_epi64 ml ml; A0 = mm_add_epi64 A0 (mm_add_epi64 B0 ml);
         D0 = mm_xor D0 A0; D0 = rotr16_avx2 D0;
         ml = mm_mul_epu32 C0 D0; ml = mm_add_epi64 ml ml; C0 = mm_add_epi64 C0 (mm_add_epi64 D0 ml);
         B0 = mm_xor B0 C0; B0 = rotr63_avx2 B0;
         ml = mm_mul_epu32 A1 B1; ml = mm_add_epi64 ml ml; A1 = mm_add_epi64 A1 (mm_add_epi64 B1 ml);
         D1 = mm_xor D1 A1; D1 = rotr16_avx2 D1;
         ml = mm_mul_epu32 C1 D1; ml = mm_add_epi64 ml ml; C1 = mm_add_epi64 C1 (mm_add_epi64 D1 ml);
         B1 = mm_xor B1 C1; B1 = rotr63_avx2 B1
     in (A0, B0, C0, D0, A1, B1, C1, D1))"

definition DIAGONALIZE_1 :: "regs \<Rightarrow> regs" where
  "DIAGONALIZE_1 = (\<lambda>(A0, B0, C0, D0, A1, B1, C1, D1).
     let B0 = mm256_permute4x64_epi64 B0 (MM_SHUFFLE 0 3 2 1);
         C0 = mm256_permute4x64_epi64 C0 (MM_SHUFFLE 1 0 3 2);
         D0 = mm256_permute4x64_epi64 D0 (MM_SHUFFLE 2 1 0 3);
         B1 = mm256_permute4x64_epi64 B1 (MM_SHUFFLE 0 3 2 1);
         C1 = mm256_permute4x64_epi64 C1 (MM_SHUFFLE 1 0 3 2);
         D1 = mm256_permute4x64_epi64 D1 (MM_SHUFFLE 2 1 0 3)
     in (A0, B0, C0, D0, A1, B1, C1, D1))"

definition DIAGONALIZE_2 :: "regs \<Rightarrow> regs" where
  "DIAGONALIZE_2 = (\<lambda>(A0, B0, C0, D0, A1, B1, C1, D1).
     let tmp1 = mm256_blend_epi32 B0 B1 0xCC; tmp2 = mm256_blend_epi32 B0 B1 0x33;
         B1 = mm256_permute4x64_epi64 tmp1 (MM_SHUFFLE 2 3 0 1);
         B0 = mm256_permute4x64_epi64 tmp2 (MM_SHUFFLE 2 3 0 1);
         tmp1 = C0; C0 = C1; C1 = tmp1;
         tmp1 = mm256_blend_epi32 D0 D1 0xCC; tmp2 = mm256_blend_epi32 D0 D1 0x33;
         D0 = mm256_permute4x64_epi64 tmp1 (MM_SHUFFLE 2 3 0 1);
         D1 = mm256_permute4x64_epi64 tmp2 (MM_SHUFFLE 2 3 0 1)
     in (A0, B0, C0, D0, A1, B1, C1, D1))"

definition UNDIAGONALIZE_1 :: "regs \<Rightarrow> regs" where
  "UNDIAGONALIZE_1 = (\<lambda>(A0, B0, C0, D0, A1, B1, C1, D1).
     let B0 = mm256_permute4x64_epi64 B0 (MM_SHUFFLE 2 1 0 3);
         C0 = mm256_permute4x64_epi64 C0 (MM_SHUFFLE 1 0 3 2);
         D0 = mm256_permute4x64_epi64 D0 (MM_SHUFFLE 0 3 2 1);
         B1 = mm256_permute4x64_epi64 B1 (MM_SHUFFLE 2 1 0 3);
         C1 = mm256_permute4x64_epi64 C1 (MM_SHUFFLE 1 0 3 2);
         D1 = mm256_permute4x64_epi64 D1 (MM_SHUFFLE 0 3 2 1)
     in (A0, B0, C0, D0, A1, B1, C1, D1))"

definition UNDIAGONALIZE_2 :: "regs \<Rightarrow> regs" where
  "UNDIAGONALIZE_2 = (\<lambda>(A0, B0, C0, D0, A1, B1, C1, D1).
     let tmp1 = mm256_blend_epi32 B0 B1 0xCC; tmp2 = mm256_blend_epi32 B0 B1 0x33;
         B0 = mm256_permute4x64_epi64 tmp1 (MM_SHUFFLE 2 3 0 1);
         B1 = mm256_permute4x64_epi64 tmp2 (MM_SHUFFLE 2 3 0 1);
         tmp1 = C0; C0 = C1; C1 = tmp1;
         tmp1 = mm256_blend_epi32 D0 D1 0x33; tmp2 = mm256_blend_epi32 D0 D1 0xCC;
         D0 = mm256_permute4x64_epi64 tmp1 (MM_SHUFFLE 2 3 0 1);
         D1 = mm256_permute4x64_epi64 tmp2 (MM_SHUFFLE 2 3 0 1)
     in (A0, B0, C0, D0, A1, B1, C1, D1))"

definition BLAKE2_ROUND_1_avx2 :: "vec list \<Rightarrow> vec list" where
  "BLAKE2_ROUND_1_avx2 x =
     (let (A0, A1, B0, B1, C0, C1, D0, D1) = (x ! 0, x ! 1, x ! 2, x ! 3, x ! 4, x ! 5, x ! 6, x ! 7);
          r = (A0, B0, C0, D0, A1, B1, C1, D1);
          r = G1_AVX2 r; r = G2_AVX2 r;
          r = DIAGONALIZE_1 r;
          r = G1_AVX2 r; r = G2_AVX2 r;
          r = UNDIAGONALIZE_1 r;
          (A0, B0, C0, D0, A1, B1, C1, D1) = r
      in [A0, A1, B0, B1, C0, C1, D0, D1])"

definition BLAKE2_ROUND_2_avx2 :: "vec list \<Rightarrow> vec list" where
  "BLAKE2_ROUND_2_avx2 x =
     (let (A0, A1, B0, B1, C0, C1, D0, D1) = (x ! 0, x ! 1, x ! 2, x ! 3, x ! 4, x ! 5, x ! 6, x ! 7);
          r = (A0, B0, C0, D0, A1, B1, C1, D1);
          r = G1_AVX2 r; r = G2_AVX2 r;
          r = DIAGONALIZE_2 r;
          r = G1_AVX2 r; r = G2_AVX2 r;
          r = UNDIAGONALIZE_2 r;
          (A0, B0, C0, D0, A1, B1, C1, D1) = r
      in [A0, A1, B0, B1, C0, C1, D0, D1])"

section \<open>The round on 512 bits\<close>

definition muladd :: "vec \<Rightarrow> vec \<Rightarrow> vec" where
  "muladd x y =
     (let z = mm_mul_epu32 x y in mm_add_epi64 (mm_add_epi64 x y) (mm_add_epi64 z z))"

definition G1_avx512 :: "regs \<Rightarrow> regs" where
  "G1_avx512 = (\<lambda>(A0, B0, C0, D0, A1, B1, C1, D1).
     let A0 = muladd A0 B0; A1 = muladd A1 B1;
         D0 = mm_xor D0 A0; D1 = mm_xor D1 A1;
         D0 = mm512_ror_epi64 D0 32; D1 = mm512_ror_epi64 D1 32;
         C0 = muladd C0 D0; C1 = muladd C1 D1;
         B0 = mm_xor B0 C0; B1 = mm_xor B1 C1;
         B0 = mm512_ror_epi64 B0 24; B1 = mm512_ror_epi64 B1 24
     in (A0, B0, C0, D0, A1, B1, C1, D1))"

definition G2_avx512 :: "regs \<Rightarrow> regs" where
  "G2_avx512 = (\<lambda>(A0, B0, C0, D0, A1, B1, C1, D1).
     let A0 = muladd A0 B0; A1 = muladd A1 B1;
         D0 = mm_xor D0 A0; D1 = mm_xor D1 A1;
         D0 = mm512_ror_epi64 D0 16; D1 = mm512_ror_epi64 D1 16;
         C0 = muladd C0 D0; C1 = muladd C1 D1;
         B0 = mm_xor B0 C0; B1 = mm_xor B1 C1;
         B0 = mm512_ror_epi64 B0 63; B1 = mm512_ror_epi64 B1 63
     in (A0, B0, C0, D0, A1, B1, C1, D1))"

definition DIAGONALIZE_avx512 :: "regs \<Rightarrow> regs" where
  "DIAGONALIZE_avx512 = (\<lambda>(A0, B0, C0, D0, A1, B1, C1, D1).
     let B0 = mm512_permutex_epi64 B0 (MM_SHUFFLE 0 3 2 1); B1 = mm512_permutex_epi64 B1 (MM_SHUFFLE 0 3 2 1);
         C0 = mm512_permutex_epi64 C0 (MM_SHUFFLE 1 0 3 2); C1 = mm512_permutex_epi64 C1 (MM_SHUFFLE 1 0 3 2);
         D0 = mm512_permutex_epi64 D0 (MM_SHUFFLE 2 1 0 3); D1 = mm512_permutex_epi64 D1 (MM_SHUFFLE 2 1 0 3)
     in (A0, B0, C0, D0, A1, B1, C1, D1))"

definition UNDIAGONALIZE_avx512 :: "regs \<Rightarrow> regs" where
  "UNDIAGONALIZE_avx512 = (\<lambda>(A0, B0, C0, D0, A1, B1, C1, D1).
     let B0 = mm512_permutex_epi64 B0 (MM_SHUFFLE 2 1 0 3); B1 = mm512_permutex_epi64 B1 (MM_SHUFFLE 2 1 0 3);
         C0 = mm512_permutex_epi64 C0 (MM_SHUFFLE 1 0 3 2); C1 = mm512_permutex_epi64 C1 (MM_SHUFFLE 1 0 3 2);
         D0 = mm512_permutex_epi64 D0 (MM_SHUFFLE 0 3 2 1); D1 = mm512_permutex_epi64 D1 (MM_SHUFFLE 0 3 2 1)
     in (A0, B0, C0, D0, A1, B1, C1, D1))"

definition BLAKE2_ROUND_avx512 :: "regs \<Rightarrow> regs" where
  "BLAKE2_ROUND_avx512 r =
     (let r = G1_avx512 r; r = G2_avx512 r;
          r = DIAGONALIZE_avx512 r;
          r = G1_avx512 r; r = G2_avx512 r
      in UNDIAGONALIZE_avx512 r)"

definition SWAP_HALVES :: "vec \<times> vec \<Rightarrow> vec \<times> vec" where
  "SWAP_HALVES = (\<lambda>(A0, A1).
     let t0 = mm512_shuffle_i64x2 A0 A1 (MM_SHUFFLE 1 0 1 0);
         t1 = mm512_shuffle_i64x2 A0 A1 (MM_SHUFFLE 3 2 3 2)
     in (t0, t1))"

definition SWAP_QUARTERS :: "vec \<times> vec \<Rightarrow> vec \<times> vec" where
  "SWAP_QUARTERS = (\<lambda>(A0, A1).
     let (A0, A1) = SWAP_HALVES (A0, A1);
         A0 = mm512_permutexvar_epi64 [0, 1, 4, 5, 2, 3, 6, 7] A0;
         A1 = mm512_permutexvar_epi64 [0, 1, 4, 5, 2, 3, 6, 7] A1
     in (A0, A1))"

definition UNSWAP_QUARTERS :: "vec \<times> vec \<Rightarrow> vec \<times> vec" where
  "UNSWAP_QUARTERS = (\<lambda>(A0, A1).
     let A0 = mm512_permutexvar_epi64 [0, 1, 4, 5, 2, 3, 6, 7] A0;
         A1 = mm512_permutexvar_epi64 [0, 1, 4, 5, 2, 3, 6, 7] A1
     in SWAP_HALVES (A0, A1))"

definition BLAKE2_ROUND_1_avx512 :: "vec list \<Rightarrow> vec list" where
  "BLAKE2_ROUND_1_avx512 x =
     (let (A0, C0, B0, D0, A1, C1, B1, D1) = (x ! 0, x ! 1, x ! 2, x ! 3, x ! 4, x ! 5, x ! 6, x ! 7);
          (A0, B0) = SWAP_HALVES (A0, B0); (C0, D0) = SWAP_HALVES (C0, D0);
          (A1, B1) = SWAP_HALVES (A1, B1); (C1, D1) = SWAP_HALVES (C1, D1);
          (A0, B0, C0, D0, A1, B1, C1, D1) = BLAKE2_ROUND_avx512 (A0, B0, C0, D0, A1, B1, C1, D1);
          (A0, B0) = SWAP_HALVES (A0, B0); (C0, D0) = SWAP_HALVES (C0, D0);
          (A1, B1) = SWAP_HALVES (A1, B1); (C1, D1) = SWAP_HALVES (C1, D1)
      in [A0, C0, B0, D0, A1, C1, B1, D1])"

definition BLAKE2_ROUND_2_avx512 :: "vec list \<Rightarrow> vec list" where
  "BLAKE2_ROUND_2_avx512 x =
     (let (A0, A1, B0, B1, C0, C1, D0, D1) = (x ! 0, x ! 1, x ! 2, x ! 3, x ! 4, x ! 5, x ! 6, x ! 7);
          (A0, A1) = SWAP_QUARTERS (A0, A1); (B0, B1) = SWAP_QUARTERS (B0, B1);
          (C0, C1) = SWAP_QUARTERS (C0, C1); (D0, D1) = SWAP_QUARTERS (D0, D1);
          (A0, B0, C0, D0, A1, B1, C1, D1) = BLAKE2_ROUND_avx512 (A0, B0, C0, D0, A1, B1, C1, D1);
          (A0, A1) = UNSWAP_QUARTERS (A0, A1); (B0, B1) = UNSWAP_QUARTERS (B0, B1);
          (C0, C1) = UNSWAP_QUARTERS (C0, C1); (D0, D1) = UNSWAP_QUARTERS (D0, D1)
      in [A0, A1, B0, B1, C0, C1, D0, D1])"

end
