(* ===== verification/Compress.thy ===== *)
theory Compress
  imports Ref
begin

text \<open>
  The compression function G of RFC 9106, section 3.5, on blocks of 128 words, and the proof that
  \<open>fill_block\<close> of \<open>Ref\<close> computes it. The reference gathers the rows and the columns of the 8 by 8
  matrix of 16-byte registers, applies the permutation P to each and puts the results together;
  the code permutes words of one array in place.
\<close>

section \<open>RFC 9106: GB, P and G\<close>

definition rfc_GB :: "u64 \<times> u64 \<times> u64 \<times> u64 \<Rightarrow> u64 \<times> u64 \<times> u64 \<times> u64" where
  "rfc_GB = (\<lambda>(a0, b0, c0, d0).
     let trunc = take_bit 32;
         a1 = a0 + b0 + 2 * trunc a0 * trunc b0;
         d1 = word_rotr 32 (d0 XOR a1);
         c1 = c0 + d1 + 2 * trunc c0 * trunc d1;
         b1 = word_rotr 24 (b0 XOR c1);
         a2 = a1 + b1 + 2 * trunc a1 * trunc b1;
         d2 = word_rotr 16 (d1 XOR a2);
         c2 = c1 + d2 + 2 * trunc c1 * trunc d2;
         b2 = word_rotr 63 (b1 XOR c2)
     in (a2, b2, c2, d2))"

definition rfc_P :: "u64 list \<Rightarrow> u64 list" where
  "rfc_P v =
     fold (\<lambda>(a, b, c, d) v.
         let (a', b', c', d') = rfc_GB (v ! a, v ! b, v ! c, v ! d)
         in v[a := a', b := b', c := c', d := d'])
       [(0, 4, 8, 12), (1, 5, 9, 13), (2, 6, 10, 14), (3, 7, 11, 15),
        (0, 5, 10, 15), (1, 6, 11, 12), (2, 7, 8, 13), (3, 4, 9, 14)] v"

definition rfc_rows :: "block \<Rightarrow> block" where
  "rfc_rows R = concat (map (\<lambda>i. rfc_P (take 16 (drop (16 * i) R))) [0..<8])"

definition rfc_columns :: "block \<Rightarrow> block" where
  "rfc_columns Q =
     (let cols = map (\<lambda>j. rfc_P (concat (map (\<lambda>k. take 2 (drop (16 * k + 2 * j) Q)) [0..<8]))) [0..<8]
      in map (\<lambda>n. cols ! (n mod 16 div 2) ! (2 * (n div 16) + n mod 2)) [0..<128])"

definition rfc_compress :: "block \<Rightarrow> block \<Rightarrow> block" where
  "rfc_compress X Y =
     (let R = map2 (XOR) X Y;
          Z = rfc_columns (rfc_rows R)
      in map2 (XOR) Z R)"

section \<open>The round on any sixteen words of an array\<close>

lemma fBlaMka_rfc: "fBlaMka x y = x + y + 2 * take_bit 32 x * take_bit 32 y"
proof -
  have m: "(0xFFFFFFFF :: u64) = mask 32" by (simp add: mask_eq_exp_minus_1)
  show ?thesis unfolding fBlaMka_def Let_def m take_bit_eq_mask by (simp add: mult.assoc)
qed

definition quad_update :: "nat \<Rightarrow> nat \<Rightarrow> nat \<Rightarrow> nat \<Rightarrow> block \<Rightarrow> block" where
  "quad_update a b c d v =
     (let (a', b', c', d') = rfc_GB (v ! a, v ! b, v ! c, v ! d)
      in v[a := a', b := b', c := c', d := d'])"

lemma length_quad_update [len_simps, simp]: "length (quad_update a b c d v) = length v"
  by (simp add: quad_update_def split: prod.split)

text \<open>Each half of G assigns the four words once.\<close>

definition half_G :: "nat \<Rightarrow> nat \<Rightarrow> nat \<Rightarrow> nat \<Rightarrow> nat \<Rightarrow> nat \<Rightarrow> block \<Rightarrow> block" where
  "half_G r1 r2 a b c d v =
     (let v = v[a := fBlaMka (v ! a) (v ! b)];
          v = v[d := rotr64 (v ! d XOR v ! a) r1];
          v = v[c := fBlaMka (v ! c) (v ! d)];
          v = v[b := rotr64 (v ! b XOR v ! c) r2]
      in v)"

definition half_GB :: "nat \<Rightarrow> nat \<Rightarrow> u64 \<times> u64 \<times> u64 \<times> u64 \<Rightarrow> u64 \<times> u64 \<times> u64 \<times> u64" where
  "half_GB r1 r2 = (\<lambda>(a0, b0, c0, d0).
     let a1 = fBlaMka a0 b0;
         d1 = rotr64 (d0 XOR a1) r1;
         c1 = fBlaMka c0 d1;
         b1 = rotr64 (b0 XOR c1) r2
     in (a1, b1, c1, d1))"

lemma blamka_G_halves: "blamka_G a b c d v = half_G 16 63 a b c d (half_G 32 24 a b c d v)"
  by (simp only: blamka_G_def half_G_def Let_def)

lemma rfc_GB_halves: "rfc_GB q = half_GB 16 63 (half_GB 32 24 q)"
  by (cases q) (simp add: rfc_GB_def half_GB_def Let_def fBlaMka_rfc rotr64_eq_word_rotr)

lemma half_G_quad:
  assumes "distinct [a, b, c, d]" "{a, b, c, d} \<subseteq> {..<length v}"
  shows "half_G r1 r2 a b c d v =
    (let (a', b', c', d') = half_GB r1 r2 (v ! a, v ! b, v ! c, v ! d)
     in v[a := a', b := b', c := c', d := d'])"
  using assms by (simp add: half_G_def half_GB_def Let_def list_update_swap)

lemma blamka_G_quad:
  assumes "distinct [a, b, c, d]" "{a, b, c, d} \<subseteq> {..<length v}"
  shows "blamka_G a b c d v = quad_update a b c d v"
proof -
  obtain a1 b1 c1 d1 where h1: "half_GB 32 24 (v ! a, v ! b, v ! c, v ! d) = (a1, b1, c1, d1)"
    by (metis prod_cases4)
  obtain a2 b2 c2 d2 where h2: "half_GB 16 63 (a1, b1, c1, d1) = (a2, b2, c2, d2)"
    by (metis prod_cases4)
  define w where "w = v[a := a1, b := b1, c := c1, d := d1]"
  have w: "half_G 32 24 a b c d v = w" using assms by (simp add: half_G_quad h1 w_def)
  have wn: "w ! a = a1" "w ! b = b1" "w ! c = c1" "w ! d = d1" "length w = length v"
    using assms by (auto simp: w_def)
  have "half_G 16 63 a b c d w = w[a := a2, b := b2, c := c2, d := d2]"
    using assms wn by (simp add: half_G_quad h2)
  also have "\<dots> = v[a := a2, b := b2, c := c2, d := d2]"
    using assms wn(5) unfolding w_def by (intro list_eq_nthI) (auto simp: nth_list_update)
  finally show ?thesis
    by (simp add: blamka_G_halves w quad_update_def rfc_GB_halves h1 h2)
qed

text \<open>The words of \<open>v\<close> at the indices \<open>x\<close>.\<close>

abbreviation gather :: "nat list \<Rightarrow> 'a list \<Rightarrow> 'a list" where
  "gather x v \<equiv> map ((!) v) x"

lemma gather_update:
  assumes "distinct x" "a < length x" "x ! a < length v"
  shows "gather x (v[x ! a := w]) = (gather x v)[a := w]"
  using assms by (intro list_eq_nthI) (auto simp: nth_list_update nth_eq_iff_index_eq)

lemma gather_quad:
  assumes "distinct x" "a < length x" "b < length x" "c < length x" "d < length x"
    "set x \<subseteq> {..<length v}"
  shows "gather x (quad_update (x ! a) (x ! b) (x ! c) (x ! d) v) = quad_update a b c d (gather x v)"
proof -
  obtain a' b' c' d' where g: "rfc_GB (v ! (x ! a), v ! (x ! b), v ! (x ! c), v ! (x ! d)) = (a', b', c', d')"
    by (metis prod_cases4)
  have m: "x ! j < length v" if "j < length x" for j using assms(6) that nth_mem by blast
  show ?thesis
    using assms g m by (simp add: quad_update_def gather_update)
qed

lemma quad_frame:
  "n \<notin> {a, b, c, d} \<Longrightarrow> quad_update a b c d v ! n = v ! n"
  by (simp add: quad_update_def split: prod.split)

definition good_quad :: "nat \<times> nat \<times> nat \<times> nat \<Rightarrow> bool" where
  "good_quad = (\<lambda>(a, b, c, d). distinct [a, b, c, d] \<and> {a, b, c, d} \<subseteq> {..<16})"

definition quads :: "(nat \<times> nat \<times> nat \<times> nat) list" where
  "quads = [(0, 4, 8, 12), (1, 5, 9, 13), (2, 6, 10, 14), (3, 7, 11, 15),
     (0, 5, 10, 15), (1, 6, 11, 12), (2, 7, 8, 13), (3, 4, 9, 14)]"

lemma good_quads: "q \<in> set quads \<Longrightarrow> good_quad q"
  by (auto simp: quads_def good_quad_def)

lemma rfc_P_quads: "rfc_P v = fold (\<lambda>(a, b, c, d). quad_update a b c d) quads v"
proof -
  have "(\<lambda>(a, b, c, d) v. let (a', b', c', d') = rfc_GB (v ! a, v ! b, v ! c, v ! d)
      in v[a := a', b := b', c := c', d := d']) = (\<lambda>(a, b, c, d). quad_update a b c d)"
    by (simp add: fun_eq_iff quad_update_def)
  then show ?thesis by (simp only: rfc_P_def quads_def)
qed

lemma ROUND_quads:
  "BLAKE2_ROUND_NOMSG x v = fold (\<lambda>(a, b, c, d). blamka_G (x ! a) (x ! b) (x ! c) (x ! d)) quads v"
  by (simp add: BLAKE2_ROUND_NOMSG_def quads_def Let_def)

definition good_args :: "nat list \<Rightarrow> 'a list \<Rightarrow> bool" where
  "good_args x v \<longleftrightarrow> length x = 16 \<and> distinct x \<and> set x \<subseteq> {..<length v}"

lemma fold_quads:
  assumes "good_args x v" "\<forall>q \<in> set qs. good_quad q"
  shows "(let r = fold (\<lambda>(a, b, c, d). blamka_G (x ! a) (x ! b) (x ! c) (x ! d)) qs v in
    length r = length v \<and> gather x r = fold (\<lambda>(a, b, c, d). quad_update a b c d) qs (gather x v) \<and>
    (\<forall>n. n \<notin> set x \<longrightarrow> r ! n = v ! n))"
  using assms
proof (induction qs arbitrary: v)
  case Nil
  then show ?case by simp
next
  case (Cons q qs)
  obtain a b c d where q: "q = (a, b, c, d)" by (cases q)
  have g: "a < 16" "b < 16" "c < 16" "d < 16" "distinct [a, b, c, d]"
    using Cons.prems(2) by (auto simp: q good_quad_def)
  have x: "length x = 16" "distinct x" "set x \<subseteq> {..<length v}"
    using Cons.prems(1) by (simp_all add: good_args_def)
  have mem: "x ! j \<in> set x" if "j < 16" for j using x(1) that by simp
  then have m: "x ! j < length v" if "j < 16" for j using x(3) that by blast
  have step: "blamka_G (x ! a) (x ! b) (x ! c) (x ! d) v = quad_update (x ! a) (x ! b) (x ! c) (x ! d) v"
    using g x m by (intro blamka_G_quad) (auto simp: nth_eq_iff_index_eq)
  define v1 where "v1 = quad_update (x ! a) (x ! b) (x ! c) (x ! d) v"
  have v1: "good_args x v1" "length v1 = length v"
    using Cons.prems(1) by (simp_all add: v1_def good_args_def)
  have gv1: "gather x v1 = quad_update a b c d (gather x v)"
    using g x unfolding v1_def by (intro gather_quad) auto
  have fr: "v1 ! n = v ! n" if "n \<notin> set x" for n
    using that mem g unfolding v1_def by (intro quad_frame) auto
  show ?case
    using Cons.IH [OF v1(1)] Cons.prems(2) v1(2) fr by (simp add: q step v1_def [symmetric] gv1 Let_def)
qed

lemma ROUND_P:
  assumes "good_args x v"
  shows "length (BLAKE2_ROUND_NOMSG x v) = length v"
    and "gather x (BLAKE2_ROUND_NOMSG x v) = rfc_P (gather x v)"
    and "n \<notin> set x \<Longrightarrow> BLAKE2_ROUND_NOMSG x v ! n = v ! n"
  using fold_quads [OF assms, of quads] good_quads by (simp_all add: ROUND_quads rfc_P_quads Let_def)

lemma length_rfc_P [len_simps, simp]: "length (rfc_P v) = length v"
  unfolding rfc_P_quads by (rule fold_length_inv) (auto split: prod.split)

section \<open>Eight rounds on disjoint words\<close>

lemma fold_rounds:
  assumes "\<forall>i < k. good_args (A i) v"
    and "\<forall>i < k. \<forall>j < k. i \<noteq> j \<longrightarrow> set (A i) \<inter> set (A j) = {}"
  shows "(let r = fold (\<lambda>i. BLAKE2_ROUND_NOMSG (A i)) [0..<k] v in
    length r = length v \<and> (\<forall>i < k. gather (A i) r = rfc_P (gather (A i) v)) \<and>
    (\<forall>n. (\<forall>i < k. n \<notin> set (A i)) \<longrightarrow> r ! n = v ! n))"
  using assms
proof (induction k)
  case 0
  then show ?case by simp
next
  case (Suc k)
  define w where "w = fold (\<lambda>i. BLAKE2_ROUND_NOMSG (A i)) [0..<k] v"
  have w: "length w = length v" "\<forall>i < k. gather (A i) w = rfc_P (gather (A i) v)"
    "\<And>n. (\<forall>i < k. n \<notin> set (A i)) \<Longrightarrow> w ! n = v ! n"
    using Suc.IH Suc.prems by (simp_all add: w_def Let_def)
  have g: "good_args (A k) w" using Suc.prems(1) w(1) by (simp add: good_args_def)
  have disj: "n \<notin> set (A k)" if "i < k" "n \<in> set (A i)" for i n
    using Suc.prems(2) that by (metis disjoint_iff less_Suc_eq less_irrefl)
  have gk: "gather (A k) w = gather (A k) v"
    using disj by (intro map_cong refl w(3)) blast
  have k: "gather (A k) (BLAKE2_ROUND_NOMSG (A k) w) = rfc_P (gather (A k) v)"
    using ROUND_P(2) [OF g] unfolding gk .
  have i: "gather (A i) (BLAKE2_ROUND_NOMSG (A k) w) = rfc_P (gather (A i) v)" if "i < k" for i
  proof -
    have "gather (A i) (BLAKE2_ROUND_NOMSG (A k) w) = gather (A i) w"
      using disj [OF that] by (intro map_cong refl ROUND_P(3) [OF g]) blast
    then show ?thesis using w(2) that by simp
  qed
  show ?case
    using k i ROUND_P(1,3) [OF g] w(1,3) by (auto simp: w_def [symmetric] less_Suc_eq Let_def)
qed

lemma less16: "j < 16 \<Longrightarrow> j = 0 \<or> j = 1 \<or> j = 2 \<or> j = 3 \<or> j = 4 \<or> j = 5 \<or> j = 6 \<or> j = 7 \<or> j = 8 \<or>
    j = 9 \<or> j = 10 \<or> j = 11 \<or> j = 12 \<or> j = 13 \<or> j = 14 \<or> j = (15 :: nat)"
  by arith

lemma column_args_eq: "column_args i = map (\<lambda>j. 16 * i + j) [0..<16]"
  by (simp add: column_args_def upt_rec)

lemma row_args_eq: "row_args i = map (\<lambda>j. 2 * i + 16 * (j div 2) + j mod 2) [0..<16]"
  by (simp add: row_args_def upt_rec)

lemma column_args_good: "i < 8 \<Longrightarrow> wf_block v \<Longrightarrow> good_args (column_args i) v"
  by (auto simp: good_args_def column_args_eq distinct_map inj_on_def)

lemma row_index_inj:
  fixes i i' j j' :: nat
  assumes "i < 8" "i' < 8" "2 * i + 16 * (j div 2) + j mod 2 = 2 * i' + 16 * (j' div 2) + j' mod 2"
  shows "i = i' \<and> j = j'"
proof -
  have d: "(2 * i + 16 * a + b) div 16 = a" "(2 * i + 16 * a + b) mod 16 = 2 * i + b" if "i < 8" "b < 2"
    for i a b :: nat
  proof -
    have e: "2 * i + 16 * a + b = (2 * i + b) + a * 16" by simp
    have l: "2 * i + b < 16" using that by simp
    show "(2 * i + 16 * a + b) div 16 = a" "(2 * i + 16 * a + b) mod 16 = 2 * i + b"
      unfolding e using l by simp_all
  qed
  have b: "j mod 2 < 2" "j' mod 2 < 2" by simp_all
  have hi: "j div 2 = j' div 2" using d(1) [OF assms(1) b(1)] d(1) [OF assms(2) b(2)] assms(3) by metis
  have lo: "2 * i + j mod 2 = 2 * i' + j' mod 2"
    using d(2) [OF assms(1) b(1)] d(2) [OF assms(2) b(2)] assms(3) by metis
  have "i = i'" using lo b by arith
  moreover have "j mod 2 = j' mod 2" using lo b by arith
  ultimately show ?thesis using hi by (metis div_mult_mod_eq)
qed

lemma row_args_good: "i < 8 \<Longrightarrow> wf_block v \<Longrightarrow> good_args (row_args i) v"
proof -
  assume i: "i < 8" and v: "wf_block v"
  have "inj_on (\<lambda>j. 2 * i + 16 * (j div 2) + j mod 2) {0..<16}"
    using row_index_inj [OF i i] by (intro inj_onI) blast
  moreover have "2 * i + 16 * (j div 2) + j mod 2 < 128" if "j < 16" for j
  proof -
    have "j div 2 < 8" "j mod 2 < 2" using that by simp_all
    then show ?thesis using i by linarith
  qed
  ultimately show ?thesis using v by (auto simp: good_args_def row_args_eq distinct_map)
qed

lemma column_args_disj: "i \<noteq> j \<Longrightarrow> set (column_args i) \<inter> set (column_args j) = {}"
  by (auto simp: column_args_eq)

lemma row_args_disj: "i < 8 \<Longrightarrow> j < 8 \<Longrightarrow> i \<noteq> j \<Longrightarrow> set (row_args i) \<inter> set (row_args j) = {}"
proof (rule ccontr)
  assume a: "i < 8" "j < 8" "i \<noteq> j" "set (row_args i) \<inter> set (row_args j) \<noteq> {}"
  then obtain n where "n \<in> set (row_args i)" "n \<in> set (row_args j)" by blast
  then obtain k k' where "n = 2 * i + 16 * (k div 2) + k mod 2" "n = 2 * j + 16 * (k' div 2) + k' mod 2"
    unfolding row_args_eq set_map by blast
  then show False using row_index_inj [OF a(1,2), of k k'] a(3) by simp
qed

text \<open>The reference is the only block whose sixteens are the permuted ones.\<close>

lemma rows_unique:
  assumes "wf_block v" "length r = length v"
    and f: "\<forall>i < 8. gather (column_args i) r = rfc_P (gather (column_args i) v)"
  shows "r = rfc_rows v"
proof (rule list_eq_nthI)
  have g: "gather (column_args i) v = take 16 (drop (16 * i) v)" if "i < 8" for i
    using that assms by (intro list_eq_nthI) (auto simp: column_args_eq)
  have len: "length (rfc_rows v) = 16 * 8"
    unfolding rfc_rows_def using assms by (subst length_concat_uniform [where k = 16]) auto
  show "length r = length (rfc_rows v)" using assms len by simp
  fix n assume "n < length r"
  then have n: "n < 128" using assms by simp
  define i where "i = n div 16"
  define j where "j = n mod 16"
  have ij: "i < 8" "j < 16" "16 * i + j = n" using n by (simp_all add: i_def j_def)
  have "r ! n = gather (column_args i) r ! j" using ij by (simp add: column_args_eq)
  also have "\<dots> = rfc_P (take 16 (drop (16 * i) v)) ! j" using f ij g by simp
  also have "\<dots> = rfc_rows v ! n"
    unfolding rfc_rows_def using assms n ij
    by (subst nth_concat_uniform [where k = 16]) (auto simp: i_def j_def)
  finally show "r ! n = rfc_rows v ! n" .
qed

lemma rows_eq:
  assumes "wf_block v"
  shows "fold (\<lambda>i. BLAKE2_ROUND_NOMSG (column_args i)) [0..<8] v = rfc_rows v"
  using fold_rounds [of 8 column_args v] column_args_good [OF _ assms] column_args_disj
  unfolding Let_def by (intro rows_unique assms) blast+

lemma concat_map_upt:
  assumes "\<And>k. k < m \<Longrightarrow> length (f k) = c"
  shows "length (concat (map f [0..<m])) = c * m"
    and "n < c * m \<Longrightarrow> concat (map f [0..<m]) ! n = f (n div c) ! (n mod c)"
proof -
  have u: "length x = c" if "x \<in> set (map f [0..<m])" for x using that assms by auto
  show "length (concat (map f [0..<m])) = c * m"
    using length_concat_uniform [of "map f [0..<m]" c, OF u] by simp
  assume n: "n < c * m"
  then have "n div c < m" by (simp add: less_mult_imp_div_less mult.commute)
  then show "concat (map f [0..<m]) ! n = f (n div c) ! (n mod c)"
    using nth_concat_uniform [of "map f [0..<m]" c n, OF u] n by simp
qed

lemma concat_pairs:
  "wf_block v \<Longrightarrow> i < 8 \<Longrightarrow>
    concat (map (\<lambda>k. take 2 (drop (16 * k + 2 * i) v)) [0..<8]) = gather (row_args i) v"
proof (rule list_eq_nthI)
  assume v: "wf_block v" "i < 8"
  define f where "f = (\<lambda>k. take 2 (drop (16 * k + 2 * i) v))"
  have u: "length (f k) = 2" if "k < 8" for k using that v by (simp add: f_def)
  have len: "length (concat (map f [0..<8])) = 2 * 8" by (rule concat_map_upt(1)) (rule u)
  then show "length (concat (map (\<lambda>k. take 2 (drop (16 * k + 2 * i) v)) [0..<8])) =
      length (gather (row_args i) v)"
    unfolding f_def [symmetric] by (simp only: row_args_def) simp
  fix j assume "j < length (concat (map (\<lambda>k. take 2 (drop (16 * k + 2 * i) v)) [0..<8]))"
  then have j: "j < 2 * 8" unfolding f_def [symmetric] len .
  have "concat (map (\<lambda>k. take 2 (drop (16 * k + 2 * i) v)) [0..<8]) ! j = f (j div 2) ! (j mod 2)"
    unfolding f_def [symmetric] by (rule concat_map_upt(2)) (use u j in auto)
  also have "\<dots> = v ! (16 * (j div 2) + 2 * i + j mod 2)"
  proof -
    have "j div 2 < 8" using j by simp
    then have "16 * (j div 2) + 2 * i \<le> length v" using v by linarith
    then show ?thesis by (simp add: f_def)
  qed
  also have "\<dots> = gather (row_args i) v ! j"
    using j unfolding row_args_eq by (simp add: add.commute add.left_commute)
  finally show "concat (map (\<lambda>k. take 2 (drop (16 * k + 2 * i) v)) [0..<8]) ! j = gather (row_args i) v ! j" .
qed

lemma columns_unique:
  assumes "wf_block v" "length r = length v"
    and f: "\<forall>i < 8. gather (row_args i) r = rfc_P (gather (row_args i) v)"
  shows "r = rfc_columns v"
proof (rule list_eq_nthI)
  show "length r = length (rfc_columns v)" using assms by (simp add: rfc_columns_def Let_def)
  fix n assume "n < length r"
  then have n: "n < 128" using assms by simp
  define i where "i = n mod 16 div 2"
  define j where "j = 2 * (n div 16) + n mod 2"
  have i: "i < 8" by (simp add: i_def)
  have "n div 16 < 8" "n mod 2 < 2" using n by simp_all
  then have j: "j < 16" unfolding j_def by linarith
  have jd: "j div 2 = n div 16" "j mod 2 = n mod 2" by (simp_all add: j_def)
  have nij: "2 * i + 16 * (j div 2) + j mod 2 = n"
  proof -
    have "n mod 16 = 2 * i + n mod 16 mod 2" unfolding i_def by simp
    also have "n mod 16 mod 2 = n mod 2" by (rule mod_mod_cancel) simp
    finally show ?thesis unfolding jd by (metis add.assoc add.commute mult_div_mod_eq)
  qed
  have "r ! n = gather (row_args i) r ! j"
    using j nij unfolding row_args_eq by simp
  also have "\<dots> = rfc_P (gather (row_args i) v) ! j" using f i by simp
  also have "\<dots> = rfc_columns v ! n"
    using n i unfolding rfc_columns_def Let_def j_def
    by (simp add: concat_pairs [OF assms(1)] i_def)
  finally show "r ! n = rfc_columns v ! n" .
qed

lemma columns_eq:
  assumes "wf_block v"
  shows "fold (\<lambda>i. BLAKE2_ROUND_NOMSG (row_args i)) [0..<8] v = rfc_columns v"
  using fold_rounds [of 8 row_args v] row_args_good [OF _ assms] row_args_disj
  unfolding Let_def by (intro columns_unique assms) blast+

lemma length_rfc_rows [len_simps, simp]: "wf_block v \<Longrightarrow> length (rfc_rows v) = 128"
  unfolding rows_eq [symmetric] using fold_rounds [of 8 column_args v] column_args_good column_args_disj
  by (metis (no_types, lifting))

lemma length_rfc_columns [len_simps, simp]: "length (rfc_columns v) = 128"
  by (simp add: rfc_columns_def Let_def)

lemma length_rfc_compress [len_simps, simp]: "wf_block a \<Longrightarrow> wf_block b \<Longrightarrow> length (rfc_compress a b) = 128"
  by (simp add: rfc_compress_def Let_def)

lemma map2_xor_commute: "length a = length b \<Longrightarrow> map2 (XOR) a b = map2 (XOR) b a"
  for a b :: "'a::len word list"
  by (auto intro: list_eq_nthI simp: xor.commute)

lemma fill_block_eq:
  assumes "wf_block p" "wf_block r" "wf_block n"
  shows "fill_block p r n with_xor =
    (if with_xor then map2 (XOR) (rfc_compress p r) n else rfc_compress p r)"
proof -
  define R where "R = map2 (XOR) r p"
  have R: "wf_block R" "map2 (XOR) p r = R"
    using assms map2_xor_commute [of p r] by (simp_all add: R_def)
  have "fill_block p r n with_xor =
      xor_block (if with_xor then xor_block R n else R) (rfc_columns (rfc_rows R))"
    using assms R(1) unfolding fill_block_def Let_def
    by (simp add: xor_block_eq [symmetric] rows_eq columns_eq R_def)
  also have "\<dots> = (if with_xor then map2 (XOR) (rfc_compress p r) n else rfc_compress p r)"
    using assms R by (auto simp: xor_block_eq rfc_compress_def Let_def intro!: list_eq_nthI)
      (simp_all add: xor.assoc xor.commute xor.left_commute)
  finally show ?thesis .
qed

section \<open>The property\<close>

text \<open>C19: \<^verbatim>\<open>fill_block\<close> of ref.c computes the compression function G of RFC 9106, permuting in place
  the words that the reference gathers, and with \<open>with_xor\<close> it XORs the old content of the block
  over the result; the order of the two input blocks does not matter.\<close>

theorem fill_block_rfc9106:
  assumes "length prev_block = 128" "length ref_block = 128" "length next_block = 128"
  shows "fill_block prev_block ref_block next_block with_xor =
      (if with_xor then map2 (XOR) (rfc_compress prev_block ref_block) next_block
       else rfc_compress prev_block ref_block) \<and>
    fill_block prev_block ref_block next_block with_xor =
      fill_block ref_block prev_block next_block with_xor"
  using assms fill_block_eq map2_xor_commute [of prev_block ref_block]
  by (simp add: rfc_compress_def Let_def)

theorem fill_block_rfc9106_witness:
  "fill_block (replicate 128 1) (replicate 128 2) (replicate 128 5) True =
    map2 (XOR) (rfc_compress (replicate 128 1) (replicate 128 2)) (replicate 128 5)"
  using fill_block_rfc9106 [of "replicate 128 1" "replicate 128 2" "replicate 128 5" True] by simp

end
