(* ===== verification/Simd_Props.thy ===== *)
theory Simd_Props
  imports Simd Compress
begin

text \<open>
  The vector rounds compute the permutation P of RFC 9106, one to four times at once: each rotation by
  shuffling or shifting is a rotation, each G works lane by lane, and the diagonalisations move the words
  to where the second half of the round needs them.
\<close>

section \<open>Rotations\<close>

lemma xor_or_disjoint: "(\<And>n. bit x n \<Longrightarrow> bit y n \<Longrightarrow> False) \<Longrightarrow> x XOR y = x OR (y :: u64)"
  by (rule bit_word_eqI) (auto simp: bit_simps)

lemma shifts_rotate:
  assumes "0 < c" "c < 64"
  shows "drop_bit c x XOR push_bit (64 - c) x = rotr64 x c"
  unfolding rotr64_def
proof (rule xor_or_disjoint)
  fix n assume "bit (drop_bit c x) n" "bit (push_bit (64 - c) x) n"
  then have "c + n < 64" "64 - c \<le> n" using bit_imp_le_length [of x "c + n"] by (auto simp: bit_simps)
  then show False using assms by linarith
qed

lemma double_rotate: "drop_bit 63 x XOR (x + x) = rotr64 x 63"
proof -
  have e: "x + x = push_bit (64 - 63) x" by (simp add: push_bit_eq_mult)
  show ?thesis unfolding e by (rule shifts_rotate) simp_all
qed

lemma rotl_rotate: "0 < c \<Longrightarrow> c < 64 \<Longrightarrow> word_rotl (64 - c) x = rotr64 x c"
  by (rule bit_word_eqI) (auto simp: rotr64_def bit_simps rotr_mod add.commute dest: bit_imp_le_length)

text \<open>Moving bytes.\<close>

lemma rotate_index: "8 * ((n div 8 + k) mod 8) + n mod 8 = (n + 8 * k) mod 64" for n k :: nat
  using mod_mult2_eq [of "n + 8 * k" 8 8] by (simp add: add.commute)

lemma bytes_rotate:
  assumes "0 < k" "k < 8" "\<And>i. i < 8 \<Longrightarrow> p ! i = store_bytes 8 x ! ((i + k) mod 8)"
  shows "load64 p = rotr64 x (8 * k)"
proof (rule bit_word_eqI)
  fix n assume "n < LENGTH(64)"
  then have n: "n < 64" by simp
  then have "bit (load64 p) n = bit (store_bytes 8 x ! ((n div 8 + k) mod 8)) (n mod 8)"
    using assms(3) by (simp add: bit_load64)
  also have "\<dots> = bit x (8 * ((n div 8 + k) mod 8) + n mod 8)"
    by (simp add: nth_store_bytes bit_simps)
  also have "\<dots> = bit x ((n + 8 * k) mod 64)" unfolding rotate_index ..
  also have "\<dots> = bit (rotr64 x (8 * k)) n"
    using assms(1,2) n by (subst rotr64_eq_word_rotr) (auto simp: bit_simps add.commute)
  finally show "bit (load64 p) n = bit (rotr64 x (8 * k)) n" .
qed

lemma length_8: "length p = 8 \<Longrightarrow> p = [p ! 0, p ! 1, p ! 2, p ! 3, p ! 4, p ! 5, p ! 6, p ! 7]"
  by (intro list_eq_nthI) (auto simp: nth_Cons numeral_eq_Suc less_Suc_eq split: nat.split)

lemma less8: "i < 8 \<Longrightarrow> i = 0 \<or> i = 1 \<or> i = 2 \<or> i = 3 \<or> i = 4 \<or> i = 5 \<or> i = 6 \<or> i = (7 :: nat)"
  by arith

text \<open>On the sixteen bytes of two lanes.\<close>

lemma of_vec_bytes_2: "length p = 8 \<Longrightarrow> length q = 8 \<Longrightarrow> of_vec_bytes (p @ q) = [load64 p, load64 q]"
  by (simp add: of_vec_bytes_def upt_rec)

lemma nth_vec_bytes: "i < 8 \<Longrightarrow> vec_bytes [x, y] ! i = store_bytes 8 x ! i"
  "8 \<le> i \<Longrightarrow> i < 16 \<Longrightarrow> vec_bytes [x, y] ! i = store_bytes 8 y ! (i - 8)"
  by (simp_all add: vec_bytes_def nth_append)

lemma shuffle_bytes:
  assumes "sel = map (\<lambda>i. (i + k) mod 8) [0..<8] @ map (\<lambda>i. (i + k) mod 8 + 8) [0..<8]" "0 < k" "k < 8"
  shows "mm_shuffle_epi8 [x, y] sel = [rotr64 x (8 * k), rotr64 y (8 * k)]"
proof -
  define p q where "p = map (\<lambda>i. vec_bytes [x, y] ! ((i + k) mod 8)) [0..<8]"
    and "q = map (\<lambda>i. vec_bytes [x, y] ! ((i + k) mod 8 + 8)) [0..<8]"
  have b: "(i + k) mod 8 < 8" for i :: nat by simp
  have c: "(128 \<le> (i + k) mod 8) = False" "(128 \<le> (i + k) mod 8 + 8) = False" "(i + k) mod 8 mod 16 = (i + k) mod 8"
    "((i + k) mod 8 + 8) mod 16 = (i + k) mod 8 + 8" for i
    using b [of i] by simp_all
  have "mm_shuffle_epi8 [x, y] sel = of_vec_bytes (p @ q)"
    unfolding mm_shuffle_epi8_def assms(1) map_append map_map comp_def c p_def q_def if_False ..
  also have "\<dots> = [load64 p, load64 q]" by (rule of_vec_bytes_2) (simp_all add: p_def q_def)
  also have "load64 p = rotr64 x (8 * k)"
    by (rule bytes_rotate [OF assms(2,3)]) (simp add: p_def nth_vec_bytes)
  also have "load64 q = rotr64 y (8 * k)"
    by (rule bytes_rotate [OF assms(2,3)]) (simp add: q_def nth_vec_bytes)
  finally show ?thesis .
qed

lemma shuffle_24:
  "mm_shuffle_epi8 [x, y] [3, 4, 5, 6, 7, 0, 1, 2, 11, 12, 13, 14, 15, 8, 9, 10] = [rotr64 x 24, rotr64 y 24]"
proof -
  have "[3, 4, 5, 6, 7, 0, 1, 2, 11, 12, 13, 14, 15, 8, 9, 10 :: nat] =
      map (\<lambda>i. (i + 3) mod 8) [0..<8] @ map (\<lambda>i. (i + 3) mod 8 + 8) [0..<8]" by code_simp
  from shuffle_bytes [OF this, of x y] show ?thesis by simp
qed

lemma shuffle_16:
  "mm_shuffle_epi8 [x, y] [2, 3, 4, 5, 6, 7, 0, 1, 10, 11, 12, 13, 14, 15, 8, 9] = [rotr64 x 16, rotr64 y 16]"
proof -
  have "[2, 3, 4, 5, 6, 7, 0, 1, 10, 11, 12, 13, 14, 15, 8, 9 :: nat] =
      map (\<lambda>i. (i + 2) mod 8) [0..<8] @ map (\<lambda>i. (i + 2) mod 8 + 8) [0..<8]" by code_simp
  from shuffle_bytes [OF this, of x y] show ?thesis by simp
qed

lemma shuffle_32: "mm_shuffle_epi32 [x, y] (MM_SHUFFLE 2 3 0 1) = [rotr64 x 32, rotr64 y 32]"
proof -
  have r: "ucast (ucast (drop_bit 32 x) :: u32) OR push_bit 32 (ucast (ucast x :: u32)) = rotr64 x 32" for x :: u64
    by (rule bit_word_eqI) (auto simp: rotr64_def bit_simps dest: bit_imp_le_length)
  show ?thesis
    by (simp add: mm_shuffle_epi32_def MM_SHUFFLE_def dwords_def of_dwords_def upt_rec r)
qed

lemma alignr_8: "mm_alignr_epi8 [x0, x1] [y0, y1] 8 = [y1, x0]"
  by (simp add: mm_alignr_epi8_def vec_bytes_def of_vec_bytes_def upt_rec)

section \<open>Two lanes\<close>

lemma lanes:
  "mm_xor [] [] = []" "mm_xor (x # xs) (y # ys) = (x XOR y) # mm_xor xs ys"
  "mm_add_epi64 [] [] = []" "mm_add_epi64 (x # xs) (y # ys) = (x + y) # mm_add_epi64 xs ys"
  "mm_mul_epu32 [] [] = []" "mm_mul_epu32 (x # xs) (y # ys) = (take_bit 32 x * take_bit 32 y) # mm_mul_epu32 xs ys"
  "mm_srli_epi64 [] n = []" "mm_srli_epi64 (x # xs) n = drop_bit n x # mm_srli_epi64 xs n"
  "mm_slli_epi64 [] n = []" "mm_slli_epi64 (x # xs) n = push_bit n x # mm_slli_epi64 xs n"
  "xop_roti_epi64 [] c = []" "xop_roti_epi64 (x # xs) c = word_rotl (nat (c mod 64)) x # xop_roti_epi64 xs c"
  "mm512_ror_epi64 [] n = []" "mm512_ror_epi64 (x # xs) n = word_rotr n x # mm512_ror_epi64 xs n"
  by (simp_all add: mm_xor_def mm_add_epi64_def mm_mul_epu32_def mm_srli_epi64_def mm_slli_epi64_def
      xop_roti_epi64_def mm512_ror_epi64_def)

lemma roti_sse:
  "mm_roti_epi64 isa [x, y] (-32) = [rotr64 x 32, rotr64 y 32]"
  "mm_roti_epi64 isa [x, y] (-24) = [rotr64 x 24, rotr64 y 24]"
  "mm_roti_epi64 isa [x, y] (-16) = [rotr64 x 16, rotr64 y 16]"
  "mm_roti_epi64 isa [x, y] (-63) = [rotr64 x 63, rotr64 y 63]"
proof -
  have s: "drop_bit 32 x XOR push_bit 32 x = rotr64 x 32" "drop_bit 24 x XOR push_bit 40 x = rotr64 x 24"
    "drop_bit 16 x XOR push_bit 48 x = rotr64 x 16" "drop_bit 63 x XOR push_bit 1 x = rotr64 x 63"
    "word_rotl 32 x = rotr64 x 32" "word_rotl 40 x = rotr64 x 24" "word_rotl 48 x = rotr64 x 16"
    "word_rotl 1 x = rotr64 x 63" for x
    using shifts_rotate [of 32 x] shifts_rotate [of 24 x] shifts_rotate [of 16 x] shifts_rotate [of 63 x]
      rotl_rotate [of 32 x] rotl_rotate [of 24 x] rotl_rotate [of 16 x] rotl_rotate [of 63 x] by simp_all
  note d = mm_roti_epi64_def lanes shuffle_32 [simplified] shuffle_24 [simplified] shuffle_16 [simplified] r16_def r24_def double_rotate s
  show "mm_roti_epi64 isa [x, y] (-32) = [rotr64 x 32, rotr64 y 32]" by (cases isa) (simp_all add: d)
  show "mm_roti_epi64 isa [x, y] (-24) = [rotr64 x 24, rotr64 y 24]" by (cases isa) (simp_all add: d)
  show "mm_roti_epi64 isa [x, y] (-16) = [rotr64 x 16, rotr64 y 16]" by (cases isa) (simp_all add: d)
  show "mm_roti_epi64 isa [x, y] (-63) = [rotr64 x 63, rotr64 y 63]" by (cases isa) (simp_all add: d s [simplified] double_rotate [simplified])
qed

lemma blamka_sum: "x + y + (take_bit 32 x * take_bit 32 y + take_bit 32 x * take_bit 32 y) = fBlaMka x y"
  "x + (y + (take_bit 32 x * take_bit 32 y + take_bit 32 x * take_bit 32 y)) = fBlaMka x y"
  "x + y + 2 * (take_bit 32 x * take_bit 32 y) = fBlaMka x y"
  "x + (y + 2 * (take_bit 32 x * take_bit 32 y)) = fBlaMka x y"
  "x + (y + 2 * (take_bit 32 y * take_bit 32 x)) = fBlaMka x y"
proof -
  show "x + y + (take_bit 32 x * take_bit 32 y + take_bit 32 x * take_bit 32 y) = fBlaMka x y"
    unfolding fBlaMka_rfc mult_2 distrib_right ..
  then show "x + (y + (take_bit 32 x * take_bit 32 y + take_bit 32 x * take_bit 32 y)) = fBlaMka x y"
    by (simp only: add.assoc)
  show "x + y + 2 * (take_bit 32 x * take_bit 32 y) = fBlaMka x y"
    "x + (y + 2 * (take_bit 32 x * take_bit 32 y)) = fBlaMka x y"
    "x + (y + 2 * (take_bit 32 y * take_bit 32 x)) = fBlaMka x y"
    unfolding fBlaMka_rfc mult.commute [of "take_bit 32 y"] by (simp_all only: mult.assoc add.assoc)
qed

lemma fBlaMka_vec:
  "fBlaMka_sse [] [] = []" "fBlaMka_sse (x # xs) (y # ys) = fBlaMka x y # fBlaMka_sse xs ys"
  "muladd [] [] = []" "muladd (x # xs) (y # ys) = fBlaMka x y # muladd xs ys"
  by (simp_all add: fBlaMka_sse_def muladd_def Let_def lanes blamka_sum)


section \<open>The permutation P, word by word\<close>

text \<open>The four results of GB.\<close>

definition GBa :: "u64 \<Rightarrow> u64 \<Rightarrow> u64 \<Rightarrow> u64 \<Rightarrow> u64" where
  "GBa a b c d = fst (rfc_GB (a, b, c, d))"

definition GBb :: "u64 \<Rightarrow> u64 \<Rightarrow> u64 \<Rightarrow> u64 \<Rightarrow> u64" where
  "GBb a b c d = fst (snd (rfc_GB (a, b, c, d)))"

definition GBc :: "u64 \<Rightarrow> u64 \<Rightarrow> u64 \<Rightarrow> u64 \<Rightarrow> u64" where
  "GBc a b c d = fst (snd (snd (rfc_GB (a, b, c, d))))"

definition GBd :: "u64 \<Rightarrow> u64 \<Rightarrow> u64 \<Rightarrow> u64 \<Rightarrow> u64" where
  "GBd a b c d = snd (snd (snd (rfc_GB (a, b, c, d))))"

lemma rfc_GB_parts: "rfc_GB (a, b, c, d) = (GBa a b c d, GBb a b c d, GBc a b c d, GBd a b c d)"
  by (simp add: GBa_def GBb_def GBc_def GBd_def)

lemma GB_eval:
  "GBa a b c d = (let a = fBlaMka a b; d = rotr64 (d XOR a) 32; c = fBlaMka c d; b = rotr64 (b XOR c) 24
     in fBlaMka a b)"
  "GBb a b c d = (let a = fBlaMka a b; d = rotr64 (d XOR a) 32; c = fBlaMka c d; b = rotr64 (b XOR c) 24;
       a = fBlaMka a b; d = rotr64 (d XOR a) 16; c = fBlaMka c d in rotr64 (b XOR c) 63)"
  "GBc a b c d = (let a = fBlaMka a b; d = rotr64 (d XOR a) 32; c = fBlaMka c d; b = rotr64 (b XOR c) 24;
       a = fBlaMka a b; d = rotr64 (d XOR a) 16 in fBlaMka c d)"
  "GBd a b c d = (let a = fBlaMka a b; d = rotr64 (d XOR a) 32; c = fBlaMka c d; b = rotr64 (b XOR c) 24;
       a = fBlaMka a b in rotr64 (d XOR a) 16)"
  by (simp_all only: GBa_def GBb_def GBc_def GBd_def rfc_GB_halves half_GB_def prod.case Let_def fst_conv snd_conv)

lemma GB_fold:
  "fBlaMka (fBlaMka a b) (rotr64 (b XOR fBlaMka c (rotr64 (d XOR fBlaMka a b) 32)) 24) = GBa a b c d"
  "rotr64 (rotr64 (d XOR fBlaMka a b) 32 XOR GBa a b c d) 16 = GBd a b c d"
  "fBlaMka (fBlaMka c (rotr64 (d XOR fBlaMka a b) 32)) (GBd a b c d) = GBc a b c d"
  "rotr64 (rotr64 (b XOR fBlaMka c (rotr64 (d XOR fBlaMka a b) 32)) 24 XOR GBc a b c d) 63 = GBb a b c d"
  by (simp_all add: GB_eval Let_def)

text \<open>P is the four columns and then the four diagonals of a 4 by 4 matrix of words.\<close>

definition P_column :: "u64 list \<Rightarrow> nat \<Rightarrow> u64" where
  "P_column r n =
     ([GBa, GBb, GBc, GBd] ! (n div 4)) (r ! (n mod 4)) (r ! (n mod 4 + 4)) (r ! (n mod 4 + 8)) (r ! (n mod 4 + 12))"

lemma length_16: "length r = 16 \<Longrightarrow> r = [r ! 0, r ! 1, r ! 2, r ! 3, r ! 4, r ! 5, r ! 6, r ! 7, r ! 8, r ! 9, r ! 10,
    r ! 11, r ! 12, r ! 13, r ! 14, r ! 15]"
  by (intro list_eq_nthI) (auto dest!: less16)

lemma P_column_eqs:
  "P_column r 0 = GBa (r ! 0) (r ! 4) (r ! 8) (r ! 12)"
  "P_column r 1 = GBa (r ! 1) (r ! 5) (r ! 9) (r ! 13)"
  "P_column r 2 = GBa (r ! 2) (r ! 6) (r ! 10) (r ! 14)"
  "P_column r 3 = GBa (r ! 3) (r ! 7) (r ! 11) (r ! 15)"
  "P_column r 4 = GBb (r ! 0) (r ! 4) (r ! 8) (r ! 12)"
  "P_column r 5 = GBb (r ! 1) (r ! 5) (r ! 9) (r ! 13)"
  "P_column r 6 = GBb (r ! 2) (r ! 6) (r ! 10) (r ! 14)"
  "P_column r 7 = GBb (r ! 3) (r ! 7) (r ! 11) (r ! 15)"
  "P_column r 8 = GBc (r ! 0) (r ! 4) (r ! 8) (r ! 12)"
  "P_column r 9 = GBc (r ! 1) (r ! 5) (r ! 9) (r ! 13)"
  "P_column r 10 = GBc (r ! 2) (r ! 6) (r ! 10) (r ! 14)"
  "P_column r 11 = GBc (r ! 3) (r ! 7) (r ! 11) (r ! 15)"
  "P_column r 12 = GBd (r ! 0) (r ! 4) (r ! 8) (r ! 12)"
  "P_column r 13 = GBd (r ! 1) (r ! 5) (r ! 9) (r ! 13)"
  "P_column r 14 = GBd (r ! 2) (r ! 6) (r ! 10) (r ! 14)"
  "P_column r 15 = GBd (r ! 3) (r ! 7) (r ! 11) (r ! 15)"
  by (simp_all add: P_column_def)

lemma rfc_P_explicit:
  assumes "r = [r0, r1, r2, r3, r4, r5, r6, r7, r8, r9, r10, r11, r12, r13, r14, r15]"
  shows "rfc_P r = [GBa (P_column r 0) (P_column r 5) (P_column r 10) (P_column r 15), GBa (P_column r 1) (P_column r 6) (P_column r 11) (P_column r 12), GBa (P_column r 2) (P_column r 7) (P_column r 8) (P_column r 13), GBa (P_column r 3) (P_column r 4) (P_column r 9) (P_column r 14), GBb (P_column r 3) (P_column r 4) (P_column r 9) (P_column r 14), GBb (P_column r 0) (P_column r 5) (P_column r 10) (P_column r 15), GBb (P_column r 1) (P_column r 6) (P_column r 11) (P_column r 12), GBb (P_column r 2) (P_column r 7) (P_column r 8) (P_column r 13), GBc (P_column r 2) (P_column r 7) (P_column r 8) (P_column r 13), GBc (P_column r 3) (P_column r 4) (P_column r 9) (P_column r 14), GBc (P_column r 0) (P_column r 5) (P_column r 10) (P_column r 15), GBc (P_column r 1) (P_column r 6) (P_column r 11) (P_column r 12), GBd (P_column r 1) (P_column r 6) (P_column r 11) (P_column r 12), GBd (P_column r 2) (P_column r 7) (P_column r 8) (P_column r 13), GBd (P_column r 3) (P_column r 4) (P_column r 9) (P_column r 14), GBd (P_column r 0) (P_column r 5) (P_column r 10) (P_column r 15)]"
  unfolding P_column_eqs assms
  by (simp add: rfc_P_quads quads_def quad_update_def rfc_GB_parts)

lemma rfc_P_nth:
  assumes "length r = 16"
  shows "rfc_P r ! 0 = GBa (P_column r 0) (P_column r 5) (P_column r 10) (P_column r 15)"
    "rfc_P r ! 1 = GBa (P_column r 1) (P_column r 6) (P_column r 11) (P_column r 12)"
    "rfc_P r ! 2 = GBa (P_column r 2) (P_column r 7) (P_column r 8) (P_column r 13)"
    "rfc_P r ! 3 = GBa (P_column r 3) (P_column r 4) (P_column r 9) (P_column r 14)"
    "rfc_P r ! 4 = GBb (P_column r 3) (P_column r 4) (P_column r 9) (P_column r 14)"
    "rfc_P r ! 5 = GBb (P_column r 0) (P_column r 5) (P_column r 10) (P_column r 15)"
    "rfc_P r ! 6 = GBb (P_column r 1) (P_column r 6) (P_column r 11) (P_column r 12)"
    "rfc_P r ! 7 = GBb (P_column r 2) (P_column r 7) (P_column r 8) (P_column r 13)"
    "rfc_P r ! 8 = GBc (P_column r 2) (P_column r 7) (P_column r 8) (P_column r 13)"
    "rfc_P r ! 9 = GBc (P_column r 3) (P_column r 4) (P_column r 9) (P_column r 14)"
    "rfc_P r ! 10 = GBc (P_column r 0) (P_column r 5) (P_column r 10) (P_column r 15)"
    "rfc_P r ! 11 = GBc (P_column r 1) (P_column r 6) (P_column r 11) (P_column r 12)"
    "rfc_P r ! 12 = GBd (P_column r 1) (P_column r 6) (P_column r 11) (P_column r 12)"
    "rfc_P r ! 13 = GBd (P_column r 2) (P_column r 7) (P_column r 8) (P_column r 13)"
    "rfc_P r ! 14 = GBd (P_column r 3) (P_column r 4) (P_column r 9) (P_column r 14)"
    "rfc_P r ! 15 = GBd (P_column r 0) (P_column r 5) (P_column r 10) (P_column r 15)"
  unfolding rfc_P_explicit [OF length_16 [OF assms]] by simp_all


section \<open>G on registers\<close>

fun lane4 :: "(u64 \<Rightarrow> u64 \<Rightarrow> u64 \<Rightarrow> u64 \<Rightarrow> u64) \<Rightarrow> vec \<Rightarrow> vec \<Rightarrow> vec \<Rightarrow> vec \<Rightarrow> vec" where
  "lane4 f (a # A) (b # B) (c # C) (d # D) = f a b c d # lane4 f A B C D"
| "lane4 f _ _ _ _ = []"

definition vrot :: "nat \<Rightarrow> vec \<Rightarrow> vec" where
  "vrot n x = map (\<lambda>a. rotr64 a n) x"

lemma vrot_simps: "vrot n [] = []" "vrot n (x # xs) = rotr64 x n # vrot n xs"
  by (simp_all add: vrot_def)

definition vhalf :: "nat \<Rightarrow> nat \<Rightarrow> vec \<times> vec \<times> vec \<times> vec \<Rightarrow> vec \<times> vec \<times> vec \<times> vec" where
  "vhalf r1 r2 = (\<lambda>(A, B, C, D).
     let A = fBlaMka_sse A B; D = vrot r1 (mm_xor D A); C = fBlaMka_sse C D; B = vrot r2 (mm_xor B C)
     in (A, B, C, D))"

lemma vhalf_GB:
  assumes "length A = n" "length B = n" "length C = n" "length D = n"
  shows "vhalf 16 63 (vhalf 32 24 (A, B, C, D)) =
    (lane4 GBa A B C D, lane4 GBb A B C D, lane4 GBc A B C D, lane4 GBd A B C D)"
proof -
  have "length A = length B" "length B = length C" "length C = length D" using assms by simp_all
  then show ?thesis
  proof (induction rule: list_induct4)
    case (Cons a A b B c C d D)
    note unf = vhalf_def Let_def prod.case prod.inject
    from Cons.IH [unfolded unf] show ?case
      unfolding unf lane4.simps fBlaMka_vec lanes vrot_simps GB_fold list.inject by (intro conjI refl) (elim conjE, assumption)+
  qed (simp add: vhalf_def fBlaMka_vec lanes vrot_simps)
qed

definition vG :: "(vec \<times> vec \<times> vec \<times> vec \<Rightarrow> vec \<times> vec \<times> vec \<times> vec) \<Rightarrow> regs \<Rightarrow> regs" where
  "vG h = (\<lambda>(A0, B0, C0, D0, A1, B1, C1, D1).
     let (A0, B0, C0, D0) = h (A0, B0, C0, D0); (A1, B1, C1, D1) = h (A1, B1, C1, D1)
     in (A0, B0, C0, D0, A1, B1, C1, D1))"

definition sized :: "nat \<Rightarrow> regs \<Rightarrow> bool" where
  "sized n = (\<lambda>(A0, B0, C0, D0, A1, B1, C1, D1).
     length A0 = n \<and> length B0 = n \<and> length C0 = n \<and> length D0 = n \<and>
     length A1 = n \<and> length B1 = n \<and> length C1 = n \<and> length D1 = n)"

lemma vec_lengths [simp]:
  "length (mm_xor x y) = min (length x) (length y)" "length (mm_add_epi64 x y) = min (length x) (length y)"
  "length (mm_mul_epu32 x y) = min (length x) (length y)"
  "length (fBlaMka_sse x y) = min (length x) (length y)" "length (vrot n x) = length x"
  by (simp_all add: mm_xor_def mm_add_epi64_def mm_mul_epu32_def fBlaMka_sse_def Let_def vrot_def)

lemma regs_cases:
  obtains A0 B0 C0 D0 A1 B1 C1 D1 where "r = (A0, B0, C0, D0, A1, B1, C1, D1 :: vec)"
  by (metis surj_pair)

lemma vG_sized: "sized n r \<Longrightarrow> sized n (vG (vhalf k l) r)"
  by (rule regs_cases [of r]) (simp add: sized_def vG_def vhalf_def Let_def)

lemma vG_GB:
  "sized n (A0, B0, C0, D0, A1, B1, C1, D1) \<Longrightarrow>
    vG (vhalf 16 63) (vG (vhalf 32 24) (A0, B0, C0, D0, A1, B1, C1, D1)) =
    (lane4 GBa A0 B0 C0 D0, lane4 GBb A0 B0 C0 D0, lane4 GBc A0 B0 C0 D0, lane4 GBd A0 B0 C0 D0,
     lane4 GBa A1 B1 C1 D1, lane4 GBb A1 B1 C1 D1, lane4 GBc A1 B1 C1 D1, lane4 GBd A1 B1 C1 D1)"
  using vhalf_GB [of A0 n B0 C0 D0] vhalf_GB [of A1 n B1 C1 D1]
  by (cases "vhalf 32 24 (A0, B0, C0, D0)"; cases "vhalf 32 24 (A1, B1, C1, D1)") (simp add: sized_def vG_def)

lemma list_length_2: "length x = 2 \<longleftrightarrow> (\<exists>a b. x = [a, b])"
  by (auto simp: numeral_eq_Suc length_Suc_conv)

lemma list_length_4: "length x = 4 \<longleftrightarrow> (\<exists>a b c d. x = [a, b, c, d])"
  by (auto simp: numeral_eq_Suc length_Suc_conv)

lemma rot_sse:
  assumes "length x = 2"
  shows "mm_roti_epi64 isa x (-32) = vrot 32 x" "mm_roti_epi64 isa x (-24) = vrot 24 x"
    "mm_roti_epi64 isa x (-16) = vrot 16 x" "mm_roti_epi64 isa x (-63) = vrot 63 x"
  using assms unfolding list_length_2 by (auto simp only: roti_sse vrot_simps)

lemma G_sse:
  assumes "sized 2 r"
  shows "G1_sse isa r = vG (vhalf 32 24) r" "G2_sse isa r = vG (vhalf 16 63) r"
  by (rule regs_cases [of r]; insert assms; simp add: G1_sse_def G2_sse_def vG_def vhalf_def sized_def Let_def rot_sse)+

lemma blend_shuffle_32: "mm256_shuffle_epi32 [a, b, c, d] (MM_SHUFFLE 2 3 0 1) = [rotr64 a 32, rotr64 b 32, rotr64 c 32, rotr64 d 32]"
  by (simp add: mm256_shuffle_epi32_def shuffle_32 [simplified])

lemma rot_avx2:
  assumes "length x = 4"
  shows "rotr32_avx2 x = vrot 32 x" "rotr24_avx2 x = vrot 24 x" "rotr16_avx2 x = vrot 16 x" "rotr63_avx2 x = vrot 63 x"
  using assms unfolding list_length_4
  by (auto simp: rotr32_avx2_def rotr24_avx2_def rotr16_avx2_def rotr63_avx2_def vrot_simps lanes mm256_shuffle_epi8_def
      mm256_shuffle_epi32_def shuffle_32 [simplified] shuffle_24 [simplified] shuffle_16 [simplified] double_rotate double_rotate [simplified])

lemma muladd_eq: "muladd x y = fBlaMka_sse x y"
  by (simp add: muladd_def fBlaMka_sse_def)

lemma lanes_short [simp]:
  "mm_add_epi64 [] y = []" "mm_add_epi64 x [] = []" "mm_mul_epu32 [] y = []" "mm_mul_epu32 x [] = []"
  by (simp_all add: mm_add_epi64_def mm_mul_epu32_def)

lemma muladd_avx2:
  "mm_add_epi64 x (mm_add_epi64 y (mm_add_epi64 (mm_mul_epu32 x y) (mm_mul_epu32 x y))) = fBlaMka_sse x y"
proof (induction x arbitrary: y)
  case (Cons a x)
  then show ?case by (cases y) (simp_all add: lanes fBlaMka_vec blamka_sum, simp add: fBlaMka_sse_def)
qed (simp add: fBlaMka_sse_def)

lemma G_avx2:
  assumes "sized 4 r"
  shows "G1_AVX2 r = vG (vhalf 32 24) r" "G2_AVX2 r = vG (vhalf 16 63) r"
  by (rule regs_cases [of r]; insert assms; simp only: G1_AVX2_def G2_AVX2_def prod.case Let_def muladd_avx2;
      simp add: vG_def vhalf_def sized_def Let_def rot_avx2)+

lemma rot_avx512: "0 < n \<Longrightarrow> n < 64 \<Longrightarrow> mm512_ror_epi64 x n = vrot n x"
  by (simp add: mm512_ror_epi64_def vrot_def rotr64_eq_word_rotr)

lemma G_avx512: "G1_avx512 r = vG (vhalf 32 24) r" "G2_avx512 r = vG (vhalf 16 63) r"
  by (rule regs_cases [of r]; simp add: G1_avx512_def G2_avx512_def vG_def vhalf_def Let_def rot_avx512 muladd_eq)+

end
