(* ===== verification/Simd_Rounds.thy ===== *)
theory Simd_Rounds
  imports Simd_Props
begin

text \<open>
  The rounds of \<open>Simd\<close>, evaluated on registers given lane by lane. A layout says which words of which
  of the sixteens that are permuted at once are in the lanes of the eight registers.
\<close>

text \<open>The words of the sixteens that a round permutes, in the registers it is given.\<close>

definition place :: "(nat \<Rightarrow> u64 list) \<Rightarrow> (nat \<times> nat) list list \<Rightarrow> vec list" where
  "place M lay = map (map (\<lambda>(a, m). M a ! m)) lay"

definition lay_sse :: "(nat \<times> nat) list list" where
  "lay_sse = map (\<lambda>q. map (\<lambda>l. (0, 2 * q + l)) [0..<2]) [0..<8]"

definition lay_rows_avx2 :: "(nat \<times> nat) list list" where
  "lay_rows_avx2 = map (\<lambda>q. map (\<lambda>l. (q mod 2, 4 * (q div 2) + l)) [0..<4]) [0..<8]"

definition lay_columns_avx2 :: "(nat \<times> nat) list list" where
  "lay_columns_avx2 = map (\<lambda>q. map (\<lambda>l. (l div 2, 2 * q + l mod 2)) [0..<4]) [0..<8]"

definition lay_rows_avx512 :: "(nat \<times> nat) list list" where
  "lay_rows_avx512 = map (\<lambda>q. map (\<lambda>l. (q div 2, 8 * (q mod 2) + l)) [0..<8]) [0..<8]"

definition lay_columns_avx512 :: "(nat \<times> nat) list list" where
  "lay_columns_avx512 = map (\<lambda>q. map (\<lambda>l. (l div 2, 2 * q + l mod 2)) [0..<8]) [0..<8]"

lemma vG_round: "sized n r \<Longrightarrow> vG (vhalf 16 63) (vG (vhalf 32 24) r) =
   (case r of (A0, B0, C0, D0, A1, B1, C1, D1) \<Rightarrow>
    (lane4 GBa A0 B0 C0 D0, lane4 GBb A0 B0 C0 D0, lane4 GBc A0 B0 C0 D0, lane4 GBd A0 B0 C0 D0,
     lane4 GBa A1 B1 C1 D1, lane4 GBb A1 B1 C1 D1, lane4 GBc A1 B1 C1 D1, lane4 GBd A1 B1 C1 D1))"
  by (rule regs_cases [of r]) (simp add: vG_GB)

lemma GG_sse: "sized 2 r \<Longrightarrow> G2_sse isa (G1_sse isa r) = vG (vhalf 16 63) (vG (vhalf 32 24) r)"
  by (simp add: G_sse vG_sized)

lemma GG_avx2: "sized 4 r \<Longrightarrow> G2_AVX2 (G1_AVX2 r) = vG (vhalf 16 63) (vG (vhalf 32 24) r)"
  by (simp add: G_avx2 vG_sized)

lemma diag_sse:
  "DIAGONALIZE_sse2 ([a0, a1], [b0, b1], [c0, c1], [d0, d1], [a2, a3], [b2, b3], [c2, c3], [d2, d3]) =
   ([a0, a1], [b1, b2], [c2, c3], [d3, d0], [a2, a3], [b3, b0], [c0, c1], [d1, d2])"
  "DIAGONALIZE_ssse3 ([a0, a1], [b0, b1], [c0, c1], [d0, d1], [a2, a3], [b2, b3], [c2, c3], [d2, d3]) =
   ([a0, a1], [b1, b2], [c2, c3], [d3, d0], [a2, a3], [b3, b0], [c0, c1], [d1, d2])"
  "UNDIAGONALIZE_sse2 ([a0, a1], [b0, b1], [c0, c1], [d0, d1], [a2, a3], [b2, b3], [c2, c3], [d2, d3]) =
   ([a0, a1], [b3, b0], [c2, c3], [d1, d2], [a2, a3], [b1, b2], [c0, c1], [d3, d0])"
  "UNDIAGONALIZE_ssse3 ([a0, a1], [b0, b1], [c0, c1], [d0, d1], [a2, a3], [b2, b3], [c2, c3], [d2, d3]) =
   ([a0, a1], [b3, b0], [c2, c3], [d1, d2], [a2, a3], [b1, b2], [c0, c1], [d3, d0])"
  by (simp_all add: DIAGONALIZE_sse2_def DIAGONALIZE_ssse3_def UNDIAGONALIZE_sse2_def UNDIAGONALIZE_ssse3_def Let_def
      alignr_8 mm_unpacklo_epi64_def mm_unpackhi_epi64_def)

text \<open>The rules that evaluate a round on registers given lane by lane.\<close>

lemmas round_simps = place_def upt_rec Let_def vG_round sized_def P_column_eqs P_column_eqs(2) [simplified] numeral_2_eq_2 [symmetric]

lemma round_sse:
  assumes "length (M 0) = 16"
  shows "BLAKE2_ROUND_sse isa (place M lay_sse) = place (\<lambda>a. rfc_P (M a)) lay_sse"
  using rfc_P_explicit [OF length_16 [OF assms]]
  by (cases "isa = SSE2") (simp_all add: round_simps lay_sse_def BLAKE2_ROUND_sse_def GG_sse diag_sse)

lemma diag_avx2:
  "DIAGONALIZE_1 (A0, [b0, b1, b2, b3], [c0, c1, c2, c3], [d0, d1, d2, d3], A1, [b4, b5, b6, b7], [c4, c5, c6, c7], [d4, d5, d6, d7]) =
   (A0, [b1, b2, b3, b0], [c2, c3, c0, c1], [d3, d0, d1, d2], A1, [b5, b6, b7, b4], [c6, c7, c4, c5], [d7, d4, d5, d6])"
  "UNDIAGONALIZE_1 (A0, [b0, b1, b2, b3], [c0, c1, c2, c3], [d0, d1, d2, d3], A1, [b4, b5, b6, b7], [c4, c5, c6, c7], [d4, d5, d6, d7]) =
   (A0, [b3, b0, b1, b2], [c2, c3, c0, c1], [d1, d2, d3, d0], A1, [b7, b4, b5, b6], [c6, c7, c4, c5], [d5, d6, d7, d4])"
  by (simp_all add: DIAGONALIZE_1_def UNDIAGONALIZE_1_def mm256_permute4x64_epi64_def MM_SHUFFLE_def)

lemma dword_pair: "ucast (ucast x :: u32) OR push_bit 32 (ucast (ucast (drop_bit 32 x) :: u32)) = (x :: u64)"
  by (rule bit_word_eqI) (auto simp: bit_simps dest: bit_imp_le_length)

lemma blend:
  "mm256_blend_epi32 [x0, x1, x2, x3] [y0, y1, y2, y3] 0xCC = [x0, y1, x2, y3]"
  "mm256_blend_epi32 [x0, x1, x2, x3] [y0, y1, y2, y3] 0x33 = [y0, x1, y2, x3]"
  by (simp_all add: mm256_blend_epi32_def dwords_def of_dwords_def upt_rec dword_pair)

lemma diag2_avx2:
  "DIAGONALIZE_2 (A0, [b0, b1, b2, b3], [c0, c1, c2, c3], [d0, d1, d2, d3], A1, [b4, b5, b6, b7], [c4, c5, c6, c7], [d4, d5, d6, d7]) =
   (A0, [b1, b4, b3, b6], [c4, c5, c6, c7], [d5, d0, d7, d2], A1, [b5, b0, b7, b2], [c0, c1, c2, c3], [d1, d4, d3, d6])"
  "UNDIAGONALIZE_2 (A0, [b0, b1, b2, b3], [c0, c1, c2, c3], [d0, d1, d2, d3], A1, [b4, b5, b6, b7], [c4, c5, c6, c7], [d4, d5, d6, d7]) =
   (A0, [b5, b0, b7, b2], [c4, c5, c6, c7], [d1, d4, d3, d6], A1, [b1, b4, b3, b6], [c0, c1, c2, c3], [d5, d0, d7, d2])"
  by (simp_all add: DIAGONALIZE_2_def UNDIAGONALIZE_2_def mm256_permute4x64_epi64_def MM_SHUFFLE_def Let_def blend [simplified] blend)


lemma round_avx2_rows:
  assumes "length (M 0) = 16" "length (M 1) = 16"
  shows "BLAKE2_ROUND_1_avx2 (place M lay_rows_avx2) = place (\<lambda>a. rfc_P (M a)) lay_rows_avx2"
  using rfc_P_explicit [OF length_16 [OF assms(1)]] rfc_P_explicit [OF length_16 [OF assms(2)]]
  by (simp add: round_simps lay_rows_avx2_def BLAKE2_ROUND_1_avx2_def GG_avx2 diag_avx2)

lemma round_avx2_columns:
  assumes "length (M 0) = 16" "length (M 1) = 16"
  shows "BLAKE2_ROUND_2_avx2 (place M lay_columns_avx2) = place (\<lambda>a. rfc_P (M a)) lay_columns_avx2"
  using rfc_P_explicit [OF length_16 [OF assms(1)]] rfc_P_explicit [OF length_16 [OF assms(2)]]
  by (simp add: round_simps lay_columns_avx2_def BLAKE2_ROUND_2_avx2_def GG_avx2 diag2_avx2)


lemma diag_avx512:
  "DIAGONALIZE_avx512 (A0, [b0, b1, b2, b3, b4, b5, b6, b7], [c0, c1, c2, c3, c4, c5, c6, c7], [d0, d1, d2, d3, d4, d5, d6, d7], A1,
     [e0, e1, e2, e3, e4, e5, e6, e7], [f0, f1, f2, f3, f4, f5, f6, f7], [g0, g1, g2, g3, g4, g5, g6, g7]) =
   (A0, [b1, b2, b3, b0, b5, b6, b7, b4], [c2, c3, c0, c1, c6, c7, c4, c5], [d3, d0, d1, d2, d7, d4, d5, d6], A1,
     [e1, e2, e3, e0, e5, e6, e7, e4], [f2, f3, f0, f1, f6, f7, f4, f5], [g3, g0, g1, g2, g7, g4, g5, g6])"
  "UNDIAGONALIZE_avx512 (A0, [b0, b1, b2, b3, b4, b5, b6, b7], [c0, c1, c2, c3, c4, c5, c6, c7], [d0, d1, d2, d3, d4, d5, d6, d7], A1,
     [e0, e1, e2, e3, e4, e5, e6, e7], [f0, f1, f2, f3, f4, f5, f6, f7], [g0, g1, g2, g3, g4, g5, g6, g7]) =
   (A0, [b3, b0, b1, b2, b7, b4, b5, b6], [c2, c3, c0, c1, c6, c7, c4, c5], [d1, d2, d3, d0, d5, d6, d7, d4], A1,
     [e3, e0, e1, e2, e7, e4, e5, e6], [f2, f3, f0, f1, f6, f7, f4, f5], [g1, g2, g3, g0, g5, g6, g7, g4])"
  by (simp_all add: DIAGONALIZE_avx512_def UNDIAGONALIZE_avx512_def mm512_permutex_epi64_def MM_SHUFFLE_def)

lemma swap_avx512:
  "SWAP_HALVES ([a0, a1, a2, a3, a4, a5, a6, a7], [b0, b1, b2, b3, b4, b5, b6, b7]) =
    ([a0, a1, a2, a3, b0, b1, b2, b3], [a4, a5, a6, a7, b4, b5, b6, b7])"
  "SWAP_QUARTERS ([a0, a1, a2, a3, a4, a5, a6, a7], [b0, b1, b2, b3, b4, b5, b6, b7]) =
    ([a0, a1, b0, b1, a2, a3, b2, b3], [a4, a5, b4, b5, a6, a7, b6, b7])"
  "UNSWAP_QUARTERS ([a0, a1, a2, a3, a4, a5, a6, a7], [b0, b1, b2, b3, b4, b5, b6, b7]) =
    ([a0, a1, a4, a5, b0, b1, b4, b5], [a2, a3, a6, a7, b2, b3, b6, b7])"
  by (simp_all add: SWAP_HALVES_def SWAP_QUARTERS_def UNSWAP_QUARTERS_def Let_def mm512_shuffle_i64x2_def
      mm512_permutexvar_epi64_def MM_SHUFFLE_def)

lemma round_avx512_rows:
  assumes "length (M 0) = 16" "length (M 1) = 16" "length (M 2) = 16" "length (M 3) = 16"
  shows "BLAKE2_ROUND_1_avx512 (place M lay_rows_avx512) = place (\<lambda>a. rfc_P (M a)) lay_rows_avx512"
  using rfc_P_explicit [OF length_16 [OF assms(1)]] rfc_P_explicit [OF length_16 [OF assms(2)]]
    rfc_P_explicit [OF length_16 [OF assms(3)]] rfc_P_explicit [OF length_16 [OF assms(4)]]
  by (simp add: round_simps lay_rows_avx512_def BLAKE2_ROUND_1_avx512_def BLAKE2_ROUND_avx512_def G_avx512 diag_avx512 swap_avx512)

lemma round_avx512_columns:
  assumes "length (M 0) = 16" "length (M 1) = 16" "length (M 2) = 16" "length (M 3) = 16"
  shows "BLAKE2_ROUND_2_avx512 (place M lay_columns_avx512) = place (\<lambda>a. rfc_P (M a)) lay_columns_avx512"
  using rfc_P_explicit [OF length_16 [OF assms(1)]] rfc_P_explicit [OF length_16 [OF assms(2)]]
    rfc_P_explicit [OF length_16 [OF assms(3)]] rfc_P_explicit [OF length_16 [OF assms(4)]]
  by (simp add: round_simps lay_columns_avx512_def BLAKE2_ROUND_2_avx512_def BLAKE2_ROUND_avx512_def G_avx512 diag_avx512 swap_avx512)

end
