(* ===== verification/Opt.thy ===== *)
theory Opt
  imports Simd
begin

text \<open>
  \<^verbatim>\<open>src/opt.c\<close>: \<open>fill_block\<close>, \<open>next_addresses\<close> and \<open>fill_segment\<close> on vector registers, for the three
  register widths. The code keeps the block it has just produced in the array \<^verbatim>\<open>state\<close> of registers
  and never reads it back from memory; the record of the loop's variables extends that of \<open>Ref\<close> by
  this array. A value of \<open>isa\<close> is a choice of the preprocessor.
\<close>

datatype isa = Sse sse | Avx2 | Avx512

definition ARGON2_OWORDS_IN_BLOCK :: nat where
  "ARGON2_OWORDS_IN_BLOCK = ARGON2_BLOCK_SIZE div 16"

definition ARGON2_HWORDS_IN_BLOCK :: nat where
  "ARGON2_HWORDS_IN_BLOCK = ARGON2_BLOCK_SIZE div 32"

definition ARGON2_512BIT_WORDS_IN_BLOCK :: nat where
  "ARGON2_512BIT_WORDS_IN_BLOCK = ARGON2_BLOCK_SIZE div 64"

section \<open>Registers and memory\<close>

text \<open>\<^verbatim>\<open>loadu\<close> and \<^verbatim>\<open>storeu\<close> of the register number \<open>i\<close>, of \<open>n\<close> lanes, of a block.\<close>

definition mm_loadu :: "nat \<Rightarrow> block \<Rightarrow> nat \<Rightarrow> vec" where
  "mm_loadu n b i = take n (drop (n * i) b)"

definition mm_storeu :: "nat \<Rightarrow> block \<Rightarrow> nat \<Rightarrow> vec \<Rightarrow> block" where
  "mm_storeu n b i x = memcpy_at b (n * i) x n"

text \<open>A macro applied to the array elements with the indices \<open>x\<close>, which it assigns.\<close>

definition on_regs :: "nat list \<Rightarrow> (vec list \<Rightarrow> vec list) \<Rightarrow> vec list \<Rightarrow> vec list" where
  "on_regs x f state = fold (\<lambda>(j, v) state. state[j := v]) (zip x (f (map ((!) state) x))) state"

section \<open>Filling a block\<close>

text \<open>The first and the last loop, the same for every width: \<open>n\<close> lanes, \<open>k\<close> registers. The array
  \<^verbatim>\<open>block_XY\<close> is written before it is read.\<close>

definition xor_blocks_in ::
  "nat \<Rightarrow> nat \<Rightarrow> vec list \<Rightarrow> block \<Rightarrow> block \<Rightarrow> bool \<Rightarrow> vec list \<times> vec list" where
  "xor_blocks_in n k state ref_block next_block with_xor =
     fold (\<lambda>i (state, block_XY).
         let state = state[i := mm_xor (state ! i) (mm_loadu n ref_block i)]
         in (state, block_XY[i := if with_xor then mm_xor (state ! i) (mm_loadu n next_block i) else state ! i]))
       [0..<k] (state, replicate k [])"

definition xor_blocks_out :: "nat \<Rightarrow> nat \<Rightarrow> vec list \<Rightarrow> vec list \<Rightarrow> block \<Rightarrow> vec list \<times> block" where
  "xor_blocks_out n k state block_XY next_block =
     fold (\<lambda>i (state, next_block).
         let state = state[i := mm_xor (state ! i) (block_XY ! i)]
         in (state, mm_storeu n next_block i (state ! i)))
       [0..<k] (state, next_block)"

text \<open>The results are the new \<^verbatim>\<open>state\<close> and the new content of \<^verbatim>\<open>*next_block\<close>.\<close>

definition fill_block_avx512 :: "vec list \<Rightarrow> block \<Rightarrow> block \<Rightarrow> bool \<Rightarrow> vec list \<times> block" where
  "fill_block_avx512 state ref_block next_block with_xor =
     (let (state, block_XY) = xor_blocks_in 8 ARGON2_512BIT_WORDS_IN_BLOCK state ref_block next_block with_xor;
          state = fold (\<lambda>i. on_regs
              [8 * i + 0, 8 * i + 1, 8 * i + 2, 8 * i + 3, 8 * i + 4, 8 * i + 5, 8 * i + 6, 8 * i + 7]
              BLAKE2_ROUND_1_avx512) [0..<2] state;
          state = fold (\<lambda>i. on_regs
              [2 * 0 + i, 2 * 1 + i, 2 * 2 + i, 2 * 3 + i, 2 * 4 + i, 2 * 5 + i, 2 * 6 + i, 2 * 7 + i]
              BLAKE2_ROUND_2_avx512) [0..<2] state
      in xor_blocks_out 8 ARGON2_512BIT_WORDS_IN_BLOCK state block_XY next_block)"

definition fill_block_avx2 :: "vec list \<Rightarrow> block \<Rightarrow> block \<Rightarrow> bool \<Rightarrow> vec list \<times> block" where
  "fill_block_avx2 state ref_block next_block with_xor =
     (let (state, block_XY) = xor_blocks_in 4 ARGON2_HWORDS_IN_BLOCK state ref_block next_block with_xor;
          state = fold (\<lambda>i. on_regs
              [8 * i + 0, 8 * i + 4, 8 * i + 1, 8 * i + 5, 8 * i + 2, 8 * i + 6, 8 * i + 3, 8 * i + 7]
              BLAKE2_ROUND_1_avx2) [0..<4] state;
          state = fold (\<lambda>i. on_regs
              [0 + i, 4 + i, 8 + i, 12 + i, 16 + i, 20 + i, 24 + i, 28 + i]
              BLAKE2_ROUND_2_avx2) [0..<4] state
      in xor_blocks_out 4 ARGON2_HWORDS_IN_BLOCK state block_XY next_block)"

definition fill_block_sse :: "sse \<Rightarrow> vec list \<Rightarrow> block \<Rightarrow> block \<Rightarrow> bool \<Rightarrow> vec list \<times> block" where
  "fill_block_sse sse state ref_block next_block with_xor =
     (let (state, block_XY) = xor_blocks_in 2 ARGON2_OWORDS_IN_BLOCK state ref_block next_block with_xor;
          state = fold (\<lambda>i. on_regs
              [8 * i + 0, 8 * i + 1, 8 * i + 2, 8 * i + 3, 8 * i + 4, 8 * i + 5, 8 * i + 6, 8 * i + 7]
              (BLAKE2_ROUND_sse sse)) [0..<8] state;
          state = fold (\<lambda>i. on_regs
              [8 * 0 + i, 8 * 1 + i, 8 * 2 + i, 8 * 3 + i, 8 * 4 + i, 8 * 5 + i, 8 * 6 + i, 8 * 7 + i]
              (BLAKE2_ROUND_sse sse)) [0..<8] state
      in xor_blocks_out 2 ARGON2_OWORDS_IN_BLOCK state block_XY next_block)"

definition fill_block_opt :: "isa \<Rightarrow> vec list \<Rightarrow> block \<Rightarrow> block \<Rightarrow> bool \<Rightarrow> vec list \<times> block" where
  "fill_block_opt isa =
     (case isa of Avx512 \<Rightarrow> fill_block_avx512 | Avx2 \<Rightarrow> fill_block_avx2 | Sse sse \<Rightarrow> fill_block_sse sse)"

text \<open>The array \<^verbatim>\<open>state\<close> that holds a block, as \<^verbatim>\<open>memcpy\<close> fills it.\<close>

fun isa_lanes :: "isa \<Rightarrow> nat" where
  "isa_lanes (Sse _) = 2"
| "isa_lanes Avx2 = 4"
| "isa_lanes Avx512 = 8"

definition vecs :: "nat \<Rightarrow> block \<Rightarrow> vec list" where
  "vecs n b = map (mm_loadu n b) [0..<ARGON2_QWORDS_IN_BLOCK div n]"

definition next_addresses_opt :: "isa \<Rightarrow> block \<Rightarrow> block \<Rightarrow> block \<times> block" where
  "next_addresses_opt isa address_block input_block =
     (let zero_block = vecs (isa_lanes isa) (replicate ARGON2_QWORDS_IN_BLOCK 0);
          zero2_block = vecs (isa_lanes isa) (replicate ARGON2_QWORDS_IN_BLOCK 0);
          input_block = input_block[6 := input_block ! 6 + 1];
          (zero_block, address_block) = fill_block_opt isa zero_block input_block address_block False;
          (zero2_block, address_block) = fill_block_opt isa zero2_block address_block address_block False
      in (address_block, input_block))"

section \<open>Filling a segment\<close>

record opt_segment_state = segment_state +
  seg_state :: "vec list"

definition fill_segment_opt_init ::
  "isa \<Rightarrow> block \<Rightarrow> argon2_instance_t \<Rightarrow> argon2_position_t \<Rightarrow> block list \<Rightarrow> opt_segment_state" where
  "fill_segment_opt_init isa junk inst pos mem =
     (let dia = data_independent_addressing inst pos;
          input_block =
            (if dia then (init_block_value junk 0)
                [0 := ucast (pos_pass pos), 1 := ucast (pos_lane pos), 2 := ucast (pos_slice pos),
                 3 := ucast (inst_memory_blocks inst), 4 := ucast (inst_passes inst),
                 5 := ucast (type_code (inst_type inst))]
             else junk);
          (address_block, input_block) =
            (if 0 = pos_pass pos \<and> 0 = pos_slice pos \<and> dia
             then next_addresses_opt isa junk input_block else (junk, input_block));
          curr_offset = pos_lane pos * inst_lane_length inst +
            ucast (pos_slice pos) * inst_segment_length inst + word_of_nat (starting_index pos);
          prev_offset =
            (if 0 = curr_offset mod inst_lane_length inst
             then curr_offset + inst_lane_length inst - 1 else curr_offset - 1)
      in \<lparr>seg_memory = mem, seg_address_block = address_block, seg_input_block = input_block,
          seg_curr_offset = curr_offset, seg_prev_offset = prev_offset,
          seg_state = vecs (isa_lanes isa) (mem ! unat prev_offset)\<rparr>)"

definition fill_segment_opt_step ::
  "isa \<Rightarrow> argon2_instance_t \<Rightarrow> argon2_position_t \<Rightarrow> nat \<Rightarrow> opt_segment_state \<Rightarrow> opt_segment_state" where
  "fill_segment_opt_step isa inst pos i s =
     (let mem = seg_memory s;
          curr_offset = seg_curr_offset s;
          prev_offset =
            (if curr_offset mod inst_lane_length inst = 1 then curr_offset - 1
             else seg_prev_offset s);
          (address_block, input_block) =
            (if data_independent_addressing inst pos \<and> i mod ARGON2_ADDRESSES_IN_BLOCK = 0
             then next_addresses_opt isa (seg_address_block s) (seg_input_block s)
             else (seg_address_block s, seg_input_block s));
          pseudo_rand =
            (if data_independent_addressing inst pos
             then address_block ! (i mod ARGON2_ADDRESSES_IN_BLOCK)
             else mem ! unat prev_offset ! 0);
          ref_lane = drop_bit 32 pseudo_rand mod ucast (inst_lanes inst);
          ref_lane = (if pos_pass pos = 0 \<and> pos_slice pos = 0 then ucast (pos_lane pos) else ref_lane);
          pos = pos\<lparr>pos_index := word_of_nat i\<rparr>;
          ref_index = (ucast (index_alpha inst pos (ucast (pseudo_rand AND 0xFFFFFFFF))
                         (ref_lane = ucast (pos_lane pos))) :: u64);
          ref_block = mem ! unat (ucast (inst_lane_length inst) * ref_lane + ref_index);
          curr_block = mem ! unat curr_offset;
          (state, new_block) =
            (if ARGON2_VERSION_10 = inst_version inst
             then fill_block_opt isa (seg_state s) ref_block curr_block False
             else if 0 = pos_pass pos
             then fill_block_opt isa (seg_state s) ref_block curr_block False
             else fill_block_opt isa (seg_state s) ref_block curr_block True)
      in \<lparr>seg_memory = store_at mem (unat curr_offset) new_block, seg_address_block = address_block,
          seg_input_block = input_block, seg_curr_offset = curr_offset + 1,
          seg_prev_offset = prev_offset + 1, seg_state = state\<rparr>)"

definition fill_segment_opt ::
  "isa \<Rightarrow> block \<Rightarrow> argon2_instance_t option \<Rightarrow> argon2_position_t \<Rightarrow> argon2_instance_t option" where
  "fill_segment_opt isa junk inst pos =
     (case inst of None \<Rightarrow> None
      | Some inst \<Rightarrow>
          (let s = fold (fill_segment_opt_step isa inst pos)
                     [starting_index pos..<unat (inst_segment_length inst)]
                     (fill_segment_opt_init isa junk inst pos (the (inst_memory inst)))
           in Some (inst\<lparr>inst_memory := Some (seg_memory s)\<rparr>)))"

end
