(* ===== verification/Simd_Phase.thy ===== *)
theory Simd_Phase
  imports Simd_Rounds Opt
begin

text \<open>
  Blocks as arrays of registers, and the interface between the vector rounds of \<open>Simd_Rounds\<close> and the
  loops of \<^verbatim>\<open>fill_block\<close> in \<^verbatim>\<open>src/opt.c\<close>: which registers a round is given and where it finds the words
  of the rows or columns it permutes. A loop that keeps to the interface permutes all eight of them.
\<close>

section \<open>A block in registers\<close>

definition uniform :: "nat \<Rightarrow> vec list \<Rightarrow> bool" where
  "uniform n s \<longleftrightarrow> n * length s = 128 \<and> (\<forall>x \<in> set s. length x = n)"

lemma uniform_pos: "uniform n s \<Longrightarrow> 0 < n"
  by (auto simp: uniform_def intro: Nat.gr0I)

lemma nth_concat_lane:
  assumes "uniform n s" "q < length s" "l < n"
  shows "concat s ! (n * q + l) = s ! q ! l"
proof -
  have "n * q + l < n * Suc q" using assms(3) by simp
  also have "\<dots> \<le> n * length s" using assms(2) by (intro mult_le_mono2) simp
  finally have "n * q + l < n * length s" .
  then show ?thesis
    using assms by (subst nth_concat_uniform [where k = n]) (auto simp: uniform_def)
qed

lemma uniform_concat: "uniform n s \<Longrightarrow> length (concat s) = 128"
  by (subst length_concat_uniform [where k = n]) (auto simp: uniform_def)

text \<open>Applying a macro to array elements.\<close>

lemma fold_update_zip:
  assumes "distinct x" "length y = length x" "set x \<subseteq> {..<length s}"
  shows "length (fold (\<lambda>(j, v) s. s[j := v]) (zip x y) s) = length s"
    and "map ((!) (fold (\<lambda>(j, v) s. s[j := v]) (zip x y) s)) x = y"
    and "j \<notin> set x \<Longrightarrow> fold (\<lambda>(j, v) s. s[j := v]) (zip x y) s ! j = s ! j"
proof -
  have "length (fold (\<lambda>(j, v) s. s[j := v]) (zip x y) s) = length s \<and>
      map ((!) (fold (\<lambda>(j, v) s. s[j := v]) (zip x y) s)) x = y \<and>
      (\<forall>j. j \<notin> set x \<longrightarrow> fold (\<lambda>(j, v) s. s[j := v]) (zip x y) s ! j = s ! j)"
    using assms
  proof (induction x arbitrary: y s)
    case Nil
    then show ?case by simp
  next
    case (Cons a x)
    then obtain v y' where y: "y = v # y'" by (cases y) auto
    have "length y' = length x" "set x \<subseteq> {..<length (s[a := v])}" "distinct x"
      using Cons.prems by (simp_all add: y)
    from Cons.IH [OF this(3,1,2)] show ?case using Cons.prems by (simp add: y)
  qed
  then show "length (fold (\<lambda>(j, v) s. s[j := v]) (zip x y) s) = length s"
    and "map ((!) (fold (\<lambda>(j, v) s. s[j := v]) (zip x y) s)) x = y"
    and "j \<notin> set x \<Longrightarrow> fold (\<lambda>(j, v) s. s[j := v]) (zip x y) s ! j = s ! j" by blast+
qed

lemma on_regs_facts:
  assumes "distinct x" "length (f (map ((!) s) x)) = length x" "set x \<subseteq> {..<length s}"
  shows "length (on_regs x f s) = length s"
    and "map ((!) (on_regs x f s)) x = f (map ((!) s) x)"
    and "j \<notin> set x \<Longrightarrow> on_regs x f s ! j = s ! j"
  unfolding on_regs_def using fold_update_zip [OF assms] by blast+

section \<open>Eight permutations by vector rounds\<close>

text \<open>A loop of \<open>k\<close> vector rounds: round \<open>i\<close> is applied to the registers \<open>X i\<close>, of \<open>n\<close> lanes, in which it
  finds the \<open>g\<close> sixteens of words with the indices \<open>args (g * i)\<close> and following, laid out as \<open>lay\<close> says, and
  permutes each of them.\<close>

locale vec_phase =
  fixes n k g :: nat and X :: "nat \<Rightarrow> nat list" and lay :: "(nat \<times> nat) list list"
    and args :: "nat \<Rightarrow> nat list" and f :: "vec list \<Rightarrow> vec list"
  assumes registers: "i < k \<Longrightarrow> length (X i) = 8 \<and> distinct (X i) \<and> (\<forall>q \<in> set (X i). n * q < 128)"
    and disjoint: "i < k \<Longrightarrow> j < k \<Longrightarrow> i \<noteq> j \<Longrightarrow> set (X i) \<inter> set (X j) = {}"
    and layout: "length lay = 8 \<and> (\<forall>x \<in> set lay. length x = n)"
    and placed: "i < k \<Longrightarrow> map (map (\<lambda>(a, m). args (g * i + a) ! m)) lay = map (\<lambda>q. map (\<lambda>l. n * q + l) [0..<n]) (X i)"
    and covered: "set (concat lay) = {..<g} \<times> {..<16}"
    and round: "(\<And>a. a < g \<Longrightarrow> length (M a) = 16) \<Longrightarrow> f (place M lay) = place (\<lambda>a. rfc_P (M a)) lay"
    and sixteens: "length (args j) = 16"
    and eight: "g * k = 8"
begin

lemma length_place: "length (place M lay) = 8" "x \<in> set (place M lay) \<Longrightarrow> length x = n"
  using layout by (auto simp: place_def)

lemma place_eqD:
  assumes "place M lay = place M' lay" "\<And>a. a < g \<Longrightarrow> length (M a) = 16 \<and> length (M' a) = 16" "a < g"
  shows "M a = M' a"
proof (rule list_eq_nthI)
  show "length (M a) = length (M' a)" using assms(2,3) by simp
  fix m assume "m < length (M a)"
  then have "(a, m) \<in> set (concat lay)" using assms(2,3) covered by auto
  then obtain x where x: "x \<in> set lay" "(a, m) \<in> set x" by auto
  have "map (\<lambda>(a, m). M a ! m) x = map (\<lambda>(a, m). M' a ! m) x"
    using assms(1) x(1) unfolding place_def by (auto simp: map_eq_conv)
  then show "M a ! m = M' a ! m" using x(2) by (auto simp: map_eq_conv)
qed

text \<open>The registers of round \<open>i\<close> hold its words.\<close>

lemma registers_place:
  assumes "uniform n s" "i < k"
  shows "map ((!) s) (X i) = place (\<lambda>a. gather (args (g * i + a)) (concat s)) lay"
proof -
  have r: "q < length s" if "q \<in> set (X i)" for q
  proof -
    have "n * q < n * length s" using registers [OF assms(2)] that assms(1) by (simp add: uniform_def)
    then show ?thesis by simp
  qed
  have "map ((!) s) (X i) = map (map ((!) (concat s))) (map (\<lambda>q. map (\<lambda>l. n * q + l) [0..<n]) (X i))"
  proof (simp only: map_map, rule map_cong [OF refl])
    fix q assume "q \<in> set (X i)"
    then have "q < length s" by (rule r)
    then show "s ! q = (map ((!) (concat s)) \<circ> (\<lambda>q. map (\<lambda>l. n * q + l) [0..<n])) q"
      using assms(1) nth_concat_lane [OF assms(1)] by (intro list_eq_nthI) (auto simp: uniform_def)
  qed
  also have "\<dots> = map (map ((!) (concat s))) (map (map (\<lambda>(a, m). args (g * i + a) ! m)) lay)"
    unfolding placed [OF assms(2)] ..
  also have "\<dots> = place (\<lambda>a. gather (args (g * i + a)) (concat s)) lay"
    unfolding place_def map_map
  proof (rule map_cong [OF refl], unfold comp_def map_map, rule map_cong [OF refl])
    fix x p assume x: "x \<in> set lay" "p \<in> set x"
    then have "p \<in> {..<g} \<times> {..<16}" unfolding covered [symmetric] by auto
    then show "concat s ! (case p of (a, m) \<Rightarrow> args (g * i + a) ! m) =
        (case p of (a, m) \<Rightarrow> gather (args (g * i + a)) (concat s) ! m)" by (auto simp: sixteens)
  qed
  finally show ?thesis .
qed

lemma round_step:
  assumes "uniform n s" "i < k"
  shows "uniform n (on_regs (X i) f s)"
    and "a < g \<Longrightarrow> gather (args (g * i + a)) (concat (on_regs (X i) f s)) =
      rfc_P (gather (args (g * i + a)) (concat s))"
    and "i' < k \<Longrightarrow> i' \<noteq> i \<Longrightarrow> a < g \<Longrightarrow> gather (args (g * i' + a)) (concat (on_regs (X i) f s)) =
      gather (args (g * i' + a)) (concat s)"
proof -
  define s' where "s' = on_regs (X i) f s"
  have fr: "f (map ((!) s) (X i)) = place (\<lambda>a. rfc_P (gather (args (g * i + a)) (concat s))) lay"
    unfolding registers_place [OF assms] by (rule round) (simp add: sixteens)
  have "q < length s" if "q \<in> set (X i)" for q
  proof -
    have "n * q < n * length s" using registers [OF assms(2)] that assms(1) by (simp add: uniform_def)
    then show ?thesis by simp
  qed
  then have sub: "set (X i) \<subseteq> {..<length s}" by auto
  have l8: "length (f (map ((!) s) (X i))) = length (X i)"
    unfolding fr using registers [OF assms(2)] by (simp add: length_place)
  note o = on_regs_facts [of "X i" f s, OF conjunct1 [OF conjunct2 [OF registers [OF assms(2)]]] l8 sub, folded s'_def]
  have len: "length (s' ! q) = n" if "q < length s" for q
  proof (cases "q \<in> set (X i)")
    case True
    then have "s' ! q \<in> set (map ((!) s') (X i))" by simp
    then show ?thesis unfolding o(2) fr by (rule length_place)
  next
    case False
    then show ?thesis using o(3) that assms(1) by (simp add: uniform_def)
  qed
  then show u: "uniform n (on_regs (X i) f s)"
    using assms(1) o(1) unfolding s'_def [symmetric] uniform_def by (auto simp: in_set_conv_nth)
  then have u: "uniform n s'" unfolding s'_def .
  have "place (\<lambda>a. gather (args (g * i + a)) (concat s')) lay =
      place (\<lambda>a. rfc_P (gather (args (g * i + a)) (concat s))) lay"
    using registers_place [OF u assms(2)] o(2) fr by simp
  then show "a < g \<Longrightarrow> gather (args (g * i + a)) (concat (on_regs (X i) f s)) =
      rfc_P (gather (args (g * i + a)) (concat s))"
    unfolding s'_def [symmetric] by (rule place_eqD) (simp_all add: sixteens)
  assume i': "i' < k" "i' \<noteq> i"
  then have "map ((!) s') (X i') = map ((!) s) (X i')"
    using disjoint [OF i'(1) assms(2) i'(2)] by (intro map_cong refl o(3)) auto
  then have "place (\<lambda>a. gather (args (g * i' + a)) (concat s')) lay =
      place (\<lambda>a. gather (args (g * i' + a)) (concat s)) lay"
    using registers_place [OF u i'(1)] registers_place [OF assms(1) i'(1)] by simp
  then show "a < g \<Longrightarrow> gather (args (g * i' + a)) (concat (on_regs (X i) f s)) =
      gather (args (g * i' + a)) (concat s)"
    unfolding s'_def [symmetric] by (rule place_eqD) (simp_all add: sixteens)
qed

lemma rounds_upto:
  assumes "uniform n s" "j \<le> k"
  shows "uniform n (fold (\<lambda>i. on_regs (X i) f) [0..<j] s) \<and>
    (\<forall>i < k. \<forall>a < g. gather (args (g * i + a)) (concat (fold (\<lambda>i. on_regs (X i) f) [0..<j] s)) =
       (if i < j then rfc_P (gather (args (g * i + a)) (concat s)) else gather (args (g * i + a)) (concat s)))"
  using assms(2)
proof (induction j)
  case 0
  then show ?case using assms(1) by simp
next
  case (Suc j)
  define t where "t = fold (\<lambda>i. on_regs (X i) f) [0..<j] s"
  have t: "uniform n t" "\<forall>i < k. \<forall>a < g. gather (args (g * i + a)) (concat t) =
       (if i < j then rfc_P (gather (args (g * i + a)) (concat s)) else gather (args (g * i + a)) (concat s))"
    using Suc unfolding t_def by simp_all
  have j: "j < k" using Suc.prems by simp
  have "gather (args (g * i + a)) (concat (on_regs (X j) f t)) =
       (if i < Suc j then rfc_P (gather (args (g * i + a)) (concat s)) else gather (args (g * i + a)) (concat s))"
    if "i < k" "a < g" for i a
    using round_step(2) [OF t(1) j that(2)] round_step(3) [OF t(1) j that(1) _ that(2)] t(2) that
    by (cases "i = j") (simp_all add: less_Suc_eq)
  then show ?case using round_step(1) [OF t(1) j] by (simp add: t_def [symmetric])
qed

theorem phase:
  assumes "uniform n s"
  shows "uniform n (fold (\<lambda>i. on_regs (X i) f) [0..<k] s)"
    and "\<forall>j < 8. gather (args j) (concat (fold (\<lambda>i. on_regs (X i) f) [0..<k] s)) = rfc_P (gather (args j) (concat s))"
proof -
  note r = rounds_upto [OF assms order_refl]
  show "uniform n (fold (\<lambda>i. on_regs (X i) f) [0..<k] s)" using r by blast
  show "\<forall>j < 8. gather (args j) (concat (fold (\<lambda>i. on_regs (X i) f) [0..<k] s)) = rfc_P (gather (args j) (concat s))"
  proof (intro allI impI)
    fix j :: nat assume "j < 8"
    then have j: "j < g * k" by (simp add: eight)
    then have g: "0 < g" by (cases g) simp_all
    have d: "j div g < k" using j by (simp add: less_mult_imp_div_less mult.commute)
    have m: "j mod g < g" using g by simp
    have "j = g * (j div g) + j mod g" by simp
    then show "gather (args j) (concat (fold (\<lambda>i. on_regs (X i) f) [0..<k] s)) = rfc_P (gather (args j) (concat s))"
      using r d m by metis
  qed
qed

end

end
