(* ===== verification/Opt_Block.thy ===== *)
theory Opt_Block
  imports Simd_Phase
begin

text \<open>
  \<^verbatim>\<open>fill_block\<close> of \<^verbatim>\<open>src/opt.c\<close>, for each register width, writes the block that \<^verbatim>\<open>fill_block\<close> of
  \<^verbatim>\<open>src/ref.c\<close> writes, and leaves it in the registers, too. The six interpretations say that the index
  expressions of the C loops hand the vector rounds the rows and then the columns of the block.
\<close>

section \<open>The loops of the rounds\<close>

lemma pairs_code: "(A = {..<g} \<times> {..<c}) = (A = set (List.product [0..<g] [0..<c]))" for g c :: nat
  by (auto simp: lessThan_atLeast0)

interpretation sse_rows: vec_phase 2 8 1
  "\<lambda>i. [8 * i + 0, 8 * i + 1, 8 * i + 2, 8 * i + 3, 8 * i + 4, 8 * i + 5, 8 * i + 6, 8 * i + 7]"
  lay_sse column_args "BLAKE2_ROUND_sse isa" for isa
proof unfold_locales
  show "set (concat lay_sse) = {..<1} \<times> {..<16}" unfolding pairs_code by code_simp
  show "BLAKE2_ROUND_sse isa (place M lay_sse) = place (\<lambda>a. rfc_P (M a)) lay_sse"
    if "\<And>a. a < 1 \<Longrightarrow> length (M a) = 16" for M
    using round_sse that by simp
qed (auto simp: lay_sse_def column_args_def upt_rec)

interpretation sse_columns: vec_phase 2 8 1
  "\<lambda>i. [8 * 0 + i, 8 * 1 + i, 8 * 2 + i, 8 * 3 + i, 8 * 4 + i, 8 * 5 + i, 8 * 6 + i, 8 * 7 + i]"
  lay_sse row_args "BLAKE2_ROUND_sse isa" for isa
proof unfold_locales
  show "set (concat lay_sse) = {..<1} \<times> {..<16}" unfolding pairs_code by code_simp
  show "BLAKE2_ROUND_sse isa (place M lay_sse) = place (\<lambda>a. rfc_P (M a)) lay_sse"
    if "\<And>a. a < 1 \<Longrightarrow> length (M a) = 16" for M
    using round_sse that by simp
qed (auto simp: lay_sse_def row_args_def upt_rec)

interpretation avx2_rows: vec_phase 4 4 2
  "\<lambda>i. [8 * i + 0, 8 * i + 4, 8 * i + 1, 8 * i + 5, 8 * i + 2, 8 * i + 6, 8 * i + 3, 8 * i + 7]"
  lay_rows_avx2 column_args BLAKE2_ROUND_1_avx2
proof unfold_locales
  show "set (concat lay_rows_avx2) = {..<2} \<times> {..<16}" unfolding pairs_code by code_simp
  show "BLAKE2_ROUND_1_avx2 (place M lay_rows_avx2) = place (\<lambda>a. rfc_P (M a)) lay_rows_avx2"
    if "\<And>a. a < 2 \<Longrightarrow> length (M a) = 16" for M
    using round_avx2_rows that by simp
qed (auto simp: lay_rows_avx2_def column_args_def upt_rec)

interpretation avx2_columns: vec_phase 4 4 2
  "\<lambda>i. [0 + i, 4 + i, 8 + i, 12 + i, 16 + i, 20 + i, 24 + i, 28 + i]"
  lay_columns_avx2 row_args BLAKE2_ROUND_2_avx2
proof unfold_locales
  show "set (concat lay_columns_avx2) = {..<2} \<times> {..<16}" unfolding pairs_code by code_simp
  show "BLAKE2_ROUND_2_avx2 (place M lay_columns_avx2) = place (\<lambda>a. rfc_P (M a)) lay_columns_avx2"
    if "\<And>a. a < 2 \<Longrightarrow> length (M a) = 16" for M
    using round_avx2_columns that by simp
qed (auto simp: lay_columns_avx2_def row_args_def upt_rec)

interpretation avx512_rows: vec_phase 8 2 4
  "\<lambda>i. [8 * i + 0, 8 * i + 1, 8 * i + 2, 8 * i + 3, 8 * i + 4, 8 * i + 5, 8 * i + 6, 8 * i + 7]"
  lay_rows_avx512 column_args BLAKE2_ROUND_1_avx512
proof unfold_locales
  show "set (concat lay_rows_avx512) = {..<4} \<times> {..<16}" unfolding pairs_code by code_simp
  show "BLAKE2_ROUND_1_avx512 (place M lay_rows_avx512) = place (\<lambda>a. rfc_P (M a)) lay_rows_avx512"
    if "\<And>a. a < 4 \<Longrightarrow> length (M a) = 16" for M
    using round_avx512_rows that by simp
qed (auto simp: lay_rows_avx512_def column_args_def upt_rec)

interpretation avx512_columns: vec_phase 8 2 4
  "\<lambda>i. [2 * 0 + i, 2 * 1 + i, 2 * 2 + i, 2 * 3 + i, 2 * 4 + i, 2 * 5 + i, 2 * 6 + i, 2 * 7 + i]"
  lay_columns_avx512 row_args BLAKE2_ROUND_2_avx512
proof unfold_locales
  show "set (concat lay_columns_avx512) = {..<4} \<times> {..<16}" unfolding pairs_code by code_simp
  show "BLAKE2_ROUND_2_avx512 (place M lay_columns_avx512) = place (\<lambda>a. rfc_P (M a)) lay_columns_avx512"
    if "\<And>a. a < 4 \<Longrightarrow> length (M a) = 16" for M
    using round_avx512_columns that by simp
qed (auto simp: lay_columns_avx512_def row_args_def upt_rec)

section \<open>A block is its registers\<close>

abbreviation register_size :: "nat \<Rightarrow> bool" where
  "register_size n \<equiv> n = 2 \<or> n = 4 \<or> n = 8"

lemma vecs_nth: "i < 128 div n \<Longrightarrow> vecs n b ! i = take n (drop (n * i) b)"
  by (simp add: vecs_def mm_loadu_def)

lemma length_vecs [len_simps, simp]: "length (vecs n b) = 128 div n"
  by (simp add: vecs_def)

lemma mm_loadu_length: "register_size n \<Longrightarrow> wf_block b \<Longrightarrow> i < 128 div n \<Longrightarrow> length (mm_loadu n b i) = n"
  by (auto simp: mm_loadu_def)

lemma uniform_vecs: "register_size n \<Longrightarrow> wf_block b \<Longrightarrow> uniform n (vecs n b)"
  unfolding uniform_def by (auto simp: vecs_def mm_loadu_length)

lemma take_mult_Suc: "take (n * Suc k) b = take (n * k) b @ take n (drop (n * k) b)"
  unfolding mult_Suc_right add.commute [of n] by (rule take_add)

lemma concat_vecs:
  assumes "register_size n" "wf_block b"
  shows "concat (vecs n b) = b"
proof -
  have "concat (map (mm_loadu n b) [0..<k]) = take (n * k) b" for k
    by (induction k) (simp_all add: mm_loadu_def take_mult_Suc del: mult_Suc_right)
  then show ?thesis using assms by (auto simp: vecs_def)
qed

lemma concat_uniform_inj:
  assumes "uniform n s" "uniform n t" "concat s = concat t"
  shows "s = t"
proof (rule list_eq_nthI)
  have n: "0 < n" using assms(1) by (rule uniform_pos)
  have "n * length s = n * length t" using assms(1,2) by (simp add: uniform_def)
  then show l: "length s = length t" using n by simp
  fix q assume q: "q < length s"
  then show "s ! q = t ! q"
    using assms nth_concat_lane [OF assms(1)] nth_concat_lane [OF assms(2)] l
    by (intro list_eq_nthI) (auto simp: uniform_def)
qed

lemma vecs_concat: "register_size n \<Longrightarrow> uniform n s \<Longrightarrow> vecs n (concat s) = s"
  by (rule concat_uniform_inj [of n]) (auto simp: uniform_vecs concat_vecs uniform_concat)

section \<open>The loops\<close>

lemma mm_xor_loadu: "mm_xor (mm_loadu n a i) (mm_loadu n b i) = mm_loadu n (map2 (XOR) a b) i"
  by (simp add: mm_xor_def mm_loadu_def take_map drop_map take_zip drop_zip)

lemma xor_blocks_in_eq:
  assumes "register_size n"
  shows "xor_blocks_in n (128 div n) (vecs n p) r x with_xor =
    (let b = map2 (XOR) p r in (vecs n b, vecs n (if with_xor then map2 (XOR) b x else b)))"
proof -
  define b where "b = map2 (XOR) p r"
  define y where "y = (if with_xor then map2 (XOR) b x else b)"
  define F where "F = (\<lambda>i (state, block_XY).
         let state = state[i := mm_xor (state ! i) (mm_loadu n r i)]
         in (state, block_XY[i := if with_xor then mm_xor (state ! i) (mm_loadu n x i) else state ! i]))"
  have "fold F [0..<j] (vecs n p, replicate (128 div n) []) =
      (map (mm_loadu n b) [0..<j] @ drop j (vecs n p), map (mm_loadu n y) [0..<j] @ replicate (128 div n - j) [])"
    if "j \<le> 128 div n" for j
    using that
  proof (induction j)
    case 0
    then show ?case by simp
  next
    case (Suc j)
    have d: "drop j (vecs n p) = mm_loadu n p j # drop (Suc j) (vecs n p)"
      using Suc.prems by (subst Cons_nth_drop_Suc [symmetric]) (simp_all add: vecs_def)
    have e: "replicate (128 div n - j) [] = [] # replicate (128 div n - Suc j) []"
      using Suc.prems by (simp add: Suc_diff_Suc flip: replicate_Suc)
    show ?case
      using Suc unfolding d e
      by (simp add: F_def Let_def list_update_append nth_append mm_xor_loadu b_def y_def)
  qed
  moreover have "xor_blocks_in n (128 div n) (vecs n p) r x with_xor =
      fold F [0..<128 div n] (vecs n p, replicate (128 div n) [])"
    by (simp only: xor_blocks_in_def F_def)
  ultimately show ?thesis
    unfolding Let_def b_def [symmetric] y_def [symmetric] by (simp add: vecs_def [of _ b] vecs_def [of _ y])
qed

lemma mm_storeu_append:
  "length a = n * j \<Longrightarrow> length x = n \<Longrightarrow> mm_storeu n (a @ drop (n * j) b) j x = (a @ x) @ drop (n * Suc j) b"
  by (simp add: mm_storeu_def memcpy_at_def add.commute)

lemma xor_blocks_out_eq:
  assumes "register_size n" "wf_block q" "wf_block y" "wf_block x"
  shows "xor_blocks_out n (128 div n) (vecs n q) (vecs n y) x =
    (vecs n (map2 (XOR) q y), map2 (XOR) q y)"
proof -
  define b where "b = map2 (XOR) q y"
  have wb: "wf_block b" using assms by (simp add: b_def)
  define F where "F = (\<lambda>i (state, next_block).
         let state = state[i := mm_xor (state ! i) (vecs n y ! i)]
         in (state, mm_storeu n next_block i (state ! i)))"
  have "fold F [0..<j] (vecs n q, x) =
      (map (mm_loadu n b) [0..<j] @ drop j (vecs n q), take (n * j) b @ drop (n * j) x)"
    if "j \<le> 128 div n" for j
    using that
  proof (induction j)
    case 0
    then show ?case by simp
  next
    case (Suc j)
    have d: "drop j (vecs n q) = mm_loadu n q j # drop (Suc j) (vecs n q)"
      using Suc.prems by (subst Cons_nth_drop_Suc [symmetric]) (simp_all add: vecs_def)
    have yj: "vecs n y ! j = mm_loadu n y j" using Suc.prems by (simp add: vecs_def)
    have l: "length (mm_loadu n b j) = n" using mm_loadu_length [OF assms(1) wb] Suc.prems by simp
    have "n * j \<le> n * (128 div n)" using Suc.prems by (intro mult_le_mono2) simp
    also have "\<dots> \<le> 128" by simp
    finally have tl: "length (take (n * j) b) = n * j" using wb by simp
    have tb: "take (n * j) b @ mm_loadu n b j = take (n * Suc j) b"
      by (simp only: mm_loadu_def take_mult_Suc)
    have m: "mm_storeu n (take (n * j) b @ drop (n * j) x) j (mm_loadu n b j) =
        take (n * Suc j) b @ drop (n * Suc j) x"
      unfolding mm_storeu_append [OF tl l] tb ..
    show ?case
      using Suc m unfolding d
      by (simp add: F_def Let_def list_update_append nth_append mm_xor_loadu yj b_def [symmetric])
  qed
  from this [OF order_refl] show ?thesis
    unfolding xor_blocks_out_def F_def [symmetric] b_def [symmetric] using assms(1,4) wb
    by (auto simp: vecs_def)
qed

section \<open>\<open>fill_block\<close>\<close>

text \<open>Two loops of vector rounds, for the rows and for the columns.\<close>

lemma rounds_rfc:
  assumes "register_size n" "wf_block b"
    and "\<And>s. uniform n s \<Longrightarrow> uniform n (R s)"
    and "\<And>s. uniform n s \<Longrightarrow> \<forall>j < 8. gather (column_args j) (concat (R s)) = rfc_P (gather (column_args j) (concat s))"
    and "\<And>s. uniform n s \<Longrightarrow> uniform n (C s)"
    and "\<And>s. uniform n s \<Longrightarrow> \<forall>j < 8. gather (row_args j) (concat (C s)) = rfc_P (gather (row_args j) (concat s))"
  shows "C (R (vecs n b)) = vecs n (rfc_columns (rfc_rows b))"
proof -
  have u0: "uniform n (vecs n b)" using assms(1,2) by (rule uniform_vecs)
  note u1 = assms(3) [OF u0] and u2 = assms(5) [OF assms(3) [OF u0]]
  have r: "concat (R (vecs n b)) = rfc_rows b"
    using assms(4) [OF u0] assms(2) uniform_concat [OF u1]
    by (intro rows_unique) (simp_all add: concat_vecs [OF assms(1,2)])
  have "concat (C (R (vecs n b))) = rfc_columns (rfc_rows b)"
    using assms(6) [OF u1] uniform_concat [OF u2] length_rfc_rows [OF assms(2)]
    by (intro columns_unique) (simp_all add: r)
  then show ?thesis using vecs_concat [OF assms(1) u2] by simp
qed

lemma fill_block_loops:
  assumes "register_size n" "wf_block p" "wf_block r" "wf_block x"
    and "\<And>b. wf_block b \<Longrightarrow> P (vecs n b) = vecs n (rfc_columns (rfc_rows b))"
  shows "(let (state, block_XY) = xor_blocks_in n (128 div n) (vecs n p) r x with_xor
      in xor_blocks_out n (128 div n) (P state) block_XY x) =
    (let b = fill_block p r x with_xor in (vecs n b, b))"
proof -
  define b where "b = map2 (XOR) p r"
  define y where "y = (if with_xor then map2 (XOR) b x else b)"
  have wf: "wf_block b" "wf_block y" using assms(2-4) by (simp_all add: b_def y_def)
  have "map2 (XOR) (rfc_columns (rfc_rows b)) y = fill_block p r x with_xor"
    using assms(2-4) wf(1) unfolding fill_block_eq [OF assms(2-4)] rfc_compress_def Let_def b_def [symmetric] y_def
    by (auto intro!: list_eq_nthI simp: xor.assoc)
  then show ?thesis
    using xor_blocks_in_eq [OF assms(1), of p r x with_xor]
      xor_blocks_out_eq [OF assms(1) _ wf(2) assms(4), of "rfc_columns (rfc_rows b)"] assms(5) [OF wf(1)]
    by (simp add: Let_def b_def [symmetric] y_def [symmetric])
qed

lemma opt_words:
  "ARGON2_512BIT_WORDS_IN_BLOCK = 128 div 8" "ARGON2_HWORDS_IN_BLOCK = 128 div 4" "ARGON2_OWORDS_IN_BLOCK = 128 div 2"
  by (simp_all add: ARGON2_512BIT_WORDS_IN_BLOCK_def ARGON2_HWORDS_IN_BLOCK_def ARGON2_OWORDS_IN_BLOCK_def)

lemma fill_block_opt_eq:
  assumes "wf_block p" "wf_block r" "wf_block x"
  shows "fill_block_opt isa (vecs (isa_lanes isa) p) r x with_xor =
    (let b = fill_block p r x with_xor in (vecs (isa_lanes isa) b, b))"
proof (cases isa)
  case (Sse sse)
  show ?thesis unfolding Sse fill_block_opt_def isa.case isa_lanes.simps fill_block_sse_def opt_words Let_def
    by (rule fill_block_loops [unfolded Let_def, OF _ assms], simp)
      (rule rounds_rfc, simp, assumption, erule sse_rows.phase(1), erule sse_rows.phase(2),
        erule sse_columns.phase(1), erule sse_columns.phase(2))
next
  case Avx2
  show ?thesis unfolding Avx2 fill_block_opt_def isa.case isa_lanes.simps fill_block_avx2_def opt_words Let_def
    by (rule fill_block_loops [unfolded Let_def, OF _ assms], simp)
      (rule rounds_rfc, simp, assumption, erule avx2_rows.phase(1), erule avx2_rows.phase(2),
        erule avx2_columns.phase(1), erule avx2_columns.phase(2))
next
  case Avx512
  show ?thesis unfolding Avx512 fill_block_opt_def isa.case isa_lanes.simps fill_block_avx512_def opt_words Let_def
    by (rule fill_block_loops [unfolded Let_def, OF _ assms], simp)
      (rule rounds_rfc, simp, assumption, erule avx512_rows.phase(1), erule avx512_rows.phase(2),
        erule avx512_columns.phase(1), erule avx512_columns.phase(2))
qed

text \<open>The vector rounds of blamka-round-opt.h compute the permutation P of RFC 9106: with SSE2, SSSE3
  or XOP rotations and shuffles, one sixteen of words; with AVX2, two at once; with AVX-512, four. Each
  result is in the place of its argument.\<close>

lemma vector_rounds_rfc9106:
  assumes "\<And>a. length (M a) = 16"
  shows "BLAKE2_ROUND_sse isa (place M lay_sse) = place (\<lambda>a. rfc_P (M a)) lay_sse \<and>
    BLAKE2_ROUND_1_avx2 (place M lay_rows_avx2) = place (\<lambda>a. rfc_P (M a)) lay_rows_avx2 \<and>
    BLAKE2_ROUND_2_avx2 (place M lay_columns_avx2) = place (\<lambda>a. rfc_P (M a)) lay_columns_avx2 \<and>
    BLAKE2_ROUND_1_avx512 (place M lay_rows_avx512) = place (\<lambda>a. rfc_P (M a)) lay_rows_avx512 \<and>
    BLAKE2_ROUND_2_avx512 (place M lay_columns_avx512) = place (\<lambda>a. rfc_P (M a)) lay_columns_avx512"
  by (intro conjI round_sse round_avx2_rows round_avx2_columns round_avx512_rows round_avx512_columns assms)

lemma vector_rounds_rfc9106_witness:
  "BLAKE2_ROUND_1_avx2 (place (\<lambda>a. replicate 16 (word_of_nat a)) lay_rows_avx2) =
    place (\<lambda>a. rfc_P (replicate 16 (word_of_nat a))) lay_rows_avx2"
  using vector_rounds_rfc9106 [of "\<lambda>a. replicate 16 (word_of_nat a)"] by simp

text \<open>C22: \<^verbatim>\<open>fill_block\<close> of opt.c, on registers of 128, 256 or 512 bits, writes to \<^verbatim>\<open>*next_block\<close> what
  \<^verbatim>\<open>fill_block\<close> of ref.c writes when the registers hold the previous block, with and without
  \<open>with_xor\<close>; and it leaves the new block in the registers.\<close>

theorem fill_block_opt_reference:
  assumes "length prev_block = 128" "length ref_block = 128" "length next_block = 128"
  shows "fill_block_opt isa (vecs (isa_lanes isa) prev_block) ref_block next_block with_xor =
    (let b = fill_block prev_block ref_block next_block with_xor in (vecs (isa_lanes isa) b, b))"
  using assms by (rule fill_block_opt_eq)

theorem fill_block_opt_reference_witness:
  "snd (fill_block_opt Avx512 (vecs 8 (replicate 128 1)) (replicate 128 2) (replicate 128 5) True) =
    fill_block (replicate 128 1) (replicate 128 2) (replicate 128 5) True"
  using fill_block_opt_reference [of "replicate 128 1" "replicate 128 2" "replicate 128 5" Avx512 True]
  by (simp add: Let_def)

end
