(* ===== verification/Fill_Spec.thy ===== *)
theory Fill_Spec
  imports Compress
begin

text \<open>
  The filling of the memory matrix as RFC 9106, section 3.2, defines it, on unbounded numbers: a
  matrix of \<open>p\<close> lanes of \<open>4 * seg\<close> blocks, stored lane after lane, and for every block the
  values J1 and J2, the reference block, and the new content. The addresses of data-independent
  addressing are given in closed form: word \<open>i mod 128\<close> of the address block number
  \<open>i div 128 + 1\<close> of the segment.
\<close>

record rfc_cfg =
  cf_p :: nat
  cf_seg :: nat
  cf_t :: nat
  cf_y :: argon2_type
  cf_v :: nat

definition rfc_lane_len :: "rfc_cfg \<Rightarrow> nat" where "rfc_lane_len c = 4 * cf_seg c"
definition rfc_blocks :: "rfc_cfg \<Rightarrow> nat" where "rfc_blocks c = cf_p c * rfc_lane_len c"

definition rfc_address :: "rfc_cfg \<Rightarrow> nat \<Rightarrow> nat \<Rightarrow> nat \<Rightarrow> nat \<Rightarrow> block" where
  "rfc_address c r l sl ctr =
     (let Z = replicate 128 0;
          input = map word_of_nat [r, l, sl, rfc_blocks c, cf_t c, unat (type_code (cf_y c)), ctr] @
                  replicate 121 0
      in rfc_compress Z (rfc_compress Z input))"

definition rfc_independent :: "rfc_cfg \<Rightarrow> nat \<Rightarrow> nat \<Rightarrow> bool" where
  "rfc_independent c r sl \<longleftrightarrow> cf_y c = Argon2_i \<or> cf_y c = Argon2_id \<and> r = 0 \<and> sl < 2"

definition rfc_prev :: "rfc_cfg \<Rightarrow> nat \<Rightarrow> nat \<Rightarrow> nat \<Rightarrow> nat" where
  "rfc_prev c sl l i = l * rfc_lane_len c + prev_index (cf_seg c) sl i"

definition rfc_J :: "rfc_cfg \<Rightarrow> nat \<Rightarrow> nat \<Rightarrow> nat \<Rightarrow> block list \<Rightarrow> nat \<Rightarrow> u64" where
  "rfc_J c r sl l mem i =
     (if rfc_independent c r sl then rfc_address c r l sl (i div 128 + 1) ! (i mod 128)
      else mem ! rfc_prev c sl l i ! 0)"

definition rfc_ref_lane :: "rfc_cfg \<Rightarrow> nat \<Rightarrow> nat \<Rightarrow> nat \<Rightarrow> u64 \<Rightarrow> nat" where
  "rfc_ref_lane c r sl l J = (if r = 0 \<and> sl = 0 then l else (unat J div 2 ^ 32) mod cf_p c)"

definition rfc_ref :: "rfc_cfg \<Rightarrow> nat \<Rightarrow> nat \<Rightarrow> nat \<Rightarrow> nat \<Rightarrow> u64 \<Rightarrow> nat" where
  "rfc_ref c r sl l i J =
     (let l' = rfc_ref_lane c r sl l J
      in l' * rfc_lane_len c +
         rfc_ref_index (cf_seg c) (r = 0) sl i (l' = l) (unat J mod 2 ^ 32))"

definition rfc_fill_one ::
  "rfc_cfg \<Rightarrow> nat \<Rightarrow> nat \<Rightarrow> nat \<Rightarrow> nat \<Rightarrow> block list \<Rightarrow> block list" where
  "rfc_fill_one c r sl l i mem =
     (let cur = l * rfc_lane_len c + sl * cf_seg c + i;
          B = rfc_compress (mem ! rfc_prev c sl l i) (mem ! rfc_ref c r sl l i (rfc_J c r sl l mem i))
      in mem[cur := (if r = 0 \<or> cf_v c = 16 then B else map2 (XOR) B (mem ! cur))])"

definition rfc_first :: "nat \<Rightarrow> nat \<Rightarrow> nat" where
  "rfc_first r sl = (if r = 0 \<and> sl = 0 then 2 else 0)"

definition rfc_fill_segment ::
  "rfc_cfg \<Rightarrow> nat \<Rightarrow> nat \<Rightarrow> nat \<Rightarrow> block list \<Rightarrow> block list" where
  "rfc_fill_segment c r sl l mem = fold (rfc_fill_one c r sl l) [rfc_first r sl..<cf_seg c] mem"

definition rfc_fill :: "rfc_cfg \<Rightarrow> block list \<Rightarrow> block list" where
  "rfc_fill c mem =
     fold (\<lambda>r. fold (\<lambda>sl. fold (\<lambda>l. rfc_fill_segment c r sl l) [0..<cf_p c]) [0..<4]) [0..<cf_t c] mem"

text \<open>One pass over the matrix.\<close>

definition rfc_pass :: "rfc_cfg \<Rightarrow> nat \<Rightarrow> block list \<Rightarrow> block list" where
  "rfc_pass c r mem = fold (\<lambda>sl. fold (\<lambda>l. rfc_fill_segment c r sl l) [0..<cf_p c]) [0..<4] mem"

lemma rfc_fill_passes: "rfc_fill c mem = fold (rfc_pass c) [0..<cf_t c] mem"
  by (simp add: rfc_fill_def rfc_pass_def [abs_def])

section \<open>Well-formed matrices\<close>

definition rfc_ok :: "rfc_cfg \<Rightarrow> bool" where
  "rfc_ok c \<longleftrightarrow> 1 \<le> cf_p c \<and> 2 \<le> cf_seg c"

definition wf_mem :: "rfc_cfg \<Rightarrow> block list \<Rightarrow> bool" where
  "wf_mem c mem \<longleftrightarrow> length mem = rfc_blocks c \<and> (\<forall>b \<in> set mem. wf_block b)"

lemma wf_mem_nth: "wf_mem c mem \<Longrightarrow> k < rfc_blocks c \<Longrightarrow> wf_block (mem ! k)"
  by (simp add: wf_mem_def)

lemma wf_mem_update: "wf_mem c mem \<Longrightarrow> wf_block b \<Longrightarrow> wf_mem c (mem[k := b])"
  unfolding wf_mem_def by (metis length_list_update set_update_subset_insert insert_iff subsetD)

text \<open>A column of a lane is a block of the matrix.\<close>

lemma in_matrix: "l < cf_p c \<Longrightarrow> j < rfc_lane_len c \<Longrightarrow> l * rfc_lane_len c + j < rfc_blocks c"
proof -
  assume "l < cf_p c" "j < rfc_lane_len c"
  then have "l * rfc_lane_len c + j < (l + 1) * rfc_lane_len c" by simp
  also have "\<dots> \<le> cf_p c * rfc_lane_len c"
    using \<open>l < cf_p c\<close> by (intro mult_le_mono1) simp
  finally show ?thesis by (simp add: rfc_blocks_def)
qed

lemma column_bound: "sl < 4 \<Longrightarrow> i < cf_seg c \<Longrightarrow> sl * cf_seg c + i < rfc_lane_len c"
proof -
  assume a: "sl < 4" "i < cf_seg c"
  have "(sl + 1) * cf_seg c \<le> 4 * cf_seg c" using a(1) by (intro mult_le_mono1) simp
  then have "sl * cf_seg c + cf_seg c \<le> 4 * cf_seg c" by simp
  then show ?thesis using a(2) unfolding rfc_lane_len_def by linarith
qed

lemma prev_bound: "rfc_ok c \<Longrightarrow> l < cf_p c \<Longrightarrow> rfc_prev c sl l i < rfc_blocks c"
  unfolding rfc_prev_def by (rule in_matrix) (auto simp: prev_index_def rfc_lane_len_def rfc_ok_def)

lemma ref_lane_bound: "rfc_ok c \<Longrightarrow> l < cf_p c \<Longrightarrow> rfc_ref_lane c r sl l J < cf_p c"
  by (auto simp: rfc_ref_lane_def rfc_ok_def)

lemma ref_bound: "rfc_ok c \<Longrightarrow> l < cf_p c \<Longrightarrow> rfc_ref c r sl l i J < rfc_blocks c"
  unfolding rfc_ref_def Let_def
  by (rule in_matrix [OF ref_lane_bound]) (auto simp: rfc_ref_index_def Let_def rfc_lane_len_def rfc_ok_def)

lemma length_rfc_address [len_simps, simp]: "wf_block (rfc_address c r l sl ctr)"
  by (simp add: rfc_address_def Let_def)

lemma wf_mem_fill_one:
  assumes "rfc_ok c" "wf_mem c mem" "l < cf_p c" "sl < 4" "i < cf_seg c"
  shows "wf_mem c (rfc_fill_one c r sl l i mem)"
proof -
  have "wf_block (mem ! rfc_prev c sl l i)" "wf_block (mem ! rfc_ref c r sl l i J)" for J
    using assms prev_bound ref_bound wf_mem_nth by blast+
  moreover have "wf_block (mem ! (l * rfc_lane_len c + sl * cf_seg c + i))"
    using wf_mem_nth [OF assms(2) in_matrix [OF assms(3) column_bound [OF assms(4,5)]]]
    by (simp add: add.assoc)
  ultimately show ?thesis
    unfolding rfc_fill_one_def Let_def using assms(2) by (intro wf_mem_update) auto
qed

lemma wf_mem_fill_segment:
  assumes "rfc_ok c" "wf_mem c mem" "l < cf_p c" "sl < 4"
  shows "wf_mem c (rfc_fill_segment c r sl l mem)"
  unfolding rfc_fill_segment_def
  by (rule fold_invar [where P = "wf_mem c"]) (use assms in \<open>auto intro: wf_mem_fill_one\<close>)

lemma wf_mem_pass: "rfc_ok c \<Longrightarrow> wf_mem c mem \<Longrightarrow> wf_mem c (rfc_pass c r mem)"
  unfolding rfc_pass_def
  by (erule fold_invar [where P = "wf_mem c"], erule fold_invar [where P = "wf_mem c"], rule wf_mem_fill_segment) auto

lemma wf_mem_passes: "rfc_ok c \<Longrightarrow> wf_mem c mem \<Longrightarrow> wf_mem c (fold (rfc_pass c) rs mem)"
  by (erule fold_invar [where P = "wf_mem c"]) (rule wf_mem_pass)

lemma wf_mem_fill: "rfc_ok c \<Longrightarrow> wf_mem c mem \<Longrightarrow> wf_mem c (rfc_fill c mem)"
  unfolding rfc_fill_passes by (rule wf_mem_passes)

end
