(* ===== verification/Ref_Props.thy ===== *)
theory Ref_Props
  imports Fill_Spec
begin

text \<open>
  \<open>fill_segment\<close> of \<open>Ref\<close> computes the segment of \<open>Fill_Spec\<close>: a simulation, block by block, between
  the loop of the code, with its running offsets, its address generator and its 32-bit and 64-bit
  index computations, and the reference on unbounded numbers.
\<close>

definition cfg_of :: "argon2_instance_t \<Rightarrow> rfc_cfg" where
  "cfg_of inst = \<lparr>cf_p = unat (inst_lanes inst), cf_seg = unat (inst_segment_length inst),
     cf_t = unat (inst_passes inst), cf_y = inst_type inst, cf_v = unat (inst_version inst)\<rparr>"

lemma cfg_of_fields [simp]:
  "cf_p (cfg_of inst) = unat (inst_lanes inst)" "cf_seg (cfg_of inst) = unat (inst_segment_length inst)"
  "cf_t (cfg_of inst) = unat (inst_passes inst)" "cf_y (cfg_of inst) = inst_type inst"
  "cf_v (cfg_of inst) = unat (inst_version inst)"
  by (simp_all add: cfg_of_def)

lemma cfg_of_wf:
  assumes "wf_inst inst"
  shows "rfc_ok (cfg_of inst)" "rfc_lane_len (cfg_of inst) = unat (inst_lane_length inst)"
    "rfc_blocks (cfg_of inst) = unat (inst_memory_blocks inst)"
  using assms by (simp_all add: rfc_ok_def rfc_lane_len_def rfc_blocks_def wf_inst_def)

text \<open>A segment of the instance.\<close>

definition wf_seg :: "argon2_instance_t \<Rightarrow> argon2_position_t \<Rightarrow> bool" where
  "wf_seg inst pos \<longleftrightarrow> unat (pos_lane pos) < unat (inst_lanes inst) \<and> unat (pos_slice pos) < 4"

section \<open>Addresses\<close>

lemma fill_block_plain:
  "wf_block p \<Longrightarrow> wf_block r \<Longrightarrow> wf_block n \<Longrightarrow> fill_block p r n False = rfc_compress p r"
  by (simp add: fill_block_eq)

definition address_input :: "rfc_cfg \<Rightarrow> nat \<Rightarrow> nat \<Rightarrow> nat \<Rightarrow> nat \<Rightarrow> block" where
  "address_input c r l sl ctr =
     map word_of_nat [r, l, sl, rfc_blocks c, cf_t c, unat (type_code (cf_y c)), ctr] @ replicate 121 0"

lemma length_address_input [len_simps, simp]: "wf_block (address_input c r l sl ctr)"
  by (simp add: address_input_def)

lemma rfc_address_input:
  "rfc_address c r l sl ctr =
    rfc_compress (replicate 128 0) (rfc_compress (replicate 128 0) (address_input c r l sl ctr))"
  by (simp only: rfc_address_def address_input_def Let_def)

lemma next_addresses_rfc:
  assumes "wf_block a"
  shows "next_addresses a (address_input c r l sl ctr) (replicate 128 0) =
    (rfc_address c r l sl (ctr + 1), address_input c r l sl (ctr + 1))"
proof -
  have "(address_input c r l sl ctr)[6 := address_input c r l sl ctr ! 6 + 1] = address_input c r l sl (ctr + 1)"
    by (simp add: address_input_def numeral_eq_Suc add.commute)
  then show ?thesis
    using assms by (simp add: next_addresses_def Let_def fill_block_plain rfc_address_input)
qed

lemma initial_input:
  assumes "wf_inst inst"
  shows "(init_block_value junk 0)
      [0 := ucast (pos_pass pos), 1 := ucast (pos_lane pos), 2 := ucast (pos_slice pos),
       3 := ucast (inst_memory_blocks inst), 4 := ucast (inst_passes inst),
       5 := ucast (type_code (inst_type inst))] =
    address_input (cfg_of inst) (unat (pos_pass pos)) (unat (pos_lane pos)) (unat (pos_slice pos)) 0"
  unfolding init_block_value_0 address_input_def
  by (simp add: cfg_of_wf [OF assms] numeral_eq_Suc)

section \<open>Offsets\<close>

definition eff_prev :: "argon2_instance_t \<Rightarrow> segment_state \<Rightarrow> u32" where
  "eff_prev inst s =
     (if seg_curr_offset s mod inst_lane_length inst = 1 then seg_curr_offset s - 1 else seg_prev_offset s)"

definition seg_col :: "argon2_instance_t \<Rightarrow> argon2_position_t \<Rightarrow> nat \<Rightarrow> nat" where
  "seg_col inst pos i = unat (pos_slice pos) * unat (inst_segment_length inst) + i"

lemma seg_col_bound:
  assumes "wf_inst inst" "wf_seg inst pos" "i < unat (inst_segment_length inst)"
  shows "seg_col inst pos i < unat (inst_lane_length inst)"
    and "unat (pos_lane pos) * unat (inst_lane_length inst) + seg_col inst pos i < unat (inst_memory_blocks inst)"
  using column_bound [of "unat (pos_slice pos)" i "cfg_of inst"] assms(2,3)
    in_matrix [of "unat (pos_lane pos)" "cfg_of inst" "seg_col inst pos i"]
  by (simp_all add: cfg_of_wf [OF assms(1)] wf_seg_def seg_col_def)

lemma mod_column: "j < L \<Longrightarrow> (l * L + j) mod L = j" for j L l :: nat
  by simp

lemma prev_index_col:
  assumes "wf_inst inst" "wf_seg inst pos" "i < unat (inst_segment_length inst)"
  shows "prev_index (unat (inst_segment_length inst)) (unat (pos_slice pos)) i =
    (if seg_col inst pos i = 0 then unat (inst_lane_length inst) - 1 else seg_col inst pos i - 1)"
  using assms by (subst prev_index_eq) (auto simp: wf_inst_def wf_seg_def seg_col_def)

section \<open>The loop invariant\<close>

definition seg_inv ::
  "argon2_instance_t \<Rightarrow> argon2_position_t \<Rightarrow> block list \<Rightarrow> nat \<Rightarrow> segment_state \<Rightarrow> bool" where
  "seg_inv inst pos mem i s \<longleftrightarrow>
     (let c = cfg_of inst; r = unat (pos_pass pos); l = unat (pos_lane pos); sl = unat (pos_slice pos);
          ctr = (i + 127) div 128
      in seg_memory s = mem \<and> wf_mem c mem \<and>
         (i < cf_seg c \<longrightarrow>
            unat (seg_curr_offset s) = l * rfc_lane_len c + seg_col inst pos i \<and>
            unat (eff_prev inst s) = rfc_prev c sl l i) \<and>
         wf_block (seg_address_block s) \<and> wf_block (seg_input_block s) \<and>
         (data_independent_addressing inst pos \<longrightarrow>
            seg_input_block s = address_input c r l sl ctr \<and>
            (0 < ctr \<longrightarrow> seg_address_block s = rfc_address c r l sl ctr)))"

lemma unat_mod_one:
  fixes w m :: u32
  shows "(w mod m = 1) = (unat w mod unat m = 1)" "(0 = w mod m) = (unat w mod unat m = 0)"
  by (auto simp add: word_unat_eq_iff unat_mod_distrib)

lemma independent_rfc:
  "wf_seg inst pos \<Longrightarrow> data_independent_addressing inst pos =
    rfc_independent (cfg_of inst) (unat (pos_pass pos)) (unat (pos_slice pos))"
proof -
  have "((ucast (pos_slice pos) :: u32) < ARGON2_SYNC_POINTS div 2) = (unat (pos_slice pos) < 2)"
    by (simp add: word_less_nat_alt unat_ucast_slice)
  then show ?thesis by (simp add: data_independent_addressing_def rfc_independent_def unat_eq_0)
qed

lemma starting_index_rfc:
  "starting_index pos = rfc_first (unat (pos_pass pos)) (unat (pos_slice pos))"
  by (auto simp: starting_index_def rfc_first_def unat_eq_0)

lemma word32_eqI: "unat (a :: u32) = n \<Longrightarrow> unat b = n \<Longrightarrow> a = b"
  by (simp add: word_unat_eq_iff)

text \<open>The first offsets of a segment.\<close>

lemma offset_nat:
  fixes a b d e :: u32
  assumes "unat a * unat b + unat d * unat e + n < 2 ^ 32"
  shows "unat (a * b + d * e + word_of_nat n) = unat a * unat b + unat d * unat e + n"
proof -
  have "unat (a * b + d * e + word_of_nat n) = (unat a * unat b + unat d * unat e + n) mod 2 ^ 32"
    by (simp add: unat_word_ariths unat_of_nat take_bit_eq_mod mod_simps)
  then show ?thesis using assms by (simp only: mod_less)
qed

lemma first_offset:
  assumes "wf_inst inst" "wf_seg inst pos"
  defines "cur \<equiv> pos_lane pos * inst_lane_length inst +
      ucast (pos_slice pos) * inst_segment_length inst + word_of_nat (starting_index pos)"
  shows "starting_index pos < unat (inst_segment_length inst) \<Longrightarrow>
    unat cur = unat (pos_lane pos) * unat (inst_lane_length inst) + seg_col inst pos (starting_index pos)"
proof -
  assume st: "starting_index pos < unat (inst_segment_length inst)"
  have b: "unat (pos_lane pos) * unat (inst_lane_length inst) + seg_col inst pos (starting_index pos) < 2 ^ 32"
    using seg_col_bound(2) [OF assms(1,2) st] unat_lt_u32 [of "inst_memory_blocks inst"] by linarith
  then show ?thesis
    using offset_nat [of "pos_lane pos" "inst_lane_length inst" "ucast (pos_slice pos)"
        "inst_segment_length inst" "starting_index pos"]
    unfolding cur_def seg_col_def unat_ucast_slice by linarith
qed

lemma eff_prev_first:
  assumes "wf_inst inst" "wf_seg inst pos" "i < unat (inst_segment_length inst)"
    and "unat cur = unat (pos_lane pos) * unat (inst_lane_length inst) + seg_col inst pos i"
    and "seg_curr_offset s = cur"
    and "seg_prev_offset s =
      (if 0 = cur mod inst_lane_length inst then cur + inst_lane_length inst - 1 else cur - 1)"
  shows "unat (eff_prev inst s) = rfc_prev (cfg_of inst) (unat (pos_slice pos)) (unat (pos_lane pos)) i"
proof -
  define L where "L = unat (inst_lane_length inst)"
  define l where "l = unat (pos_lane pos)"
  define j where "j = seg_col inst pos i"
  have j: "j < L" and tot: "l * L + j < 2 ^ 32" and L: "2 \<le> L"
    using seg_col_bound [OF assms(1-3)] unat_lt_u32 [of "inst_memory_blocks inst"] assms(1)
    by (simp_all add: j_def L_def l_def wf_inst_def)
  have cur: "unat cur = l * L + j" using assms(4) by (simp add: l_def L_def j_def)
  have prev: "rfc_prev (cfg_of inst) (unat (pos_slice pos)) (unat (pos_lane pos)) i =
      l * L + (if j = 0 then L - 1 else j - 1)"
    using prev_index_col [OF assms(1-3)]
    by (simp add: rfc_prev_def cfg_of_wf [OF assms(1)] l_def L_def j_def)
  have md: "(cur mod inst_lane_length inst = 1) = (j = 1)" "(0 = cur mod inst_lane_length inst) = (j = 0)"
    unfolding unat_mod_one cur L_def [symmetric] mod_column [OF j] by simp_all
  show ?thesis
  proof (cases "j = 0")
    case True
    have "l < unat (inst_lanes inst)" using assms(2) by (simp add: wf_seg_def l_def)
    then have "l * L + (L - 1) < unat (inst_memory_blocks inst)"
      using in_matrix [of l "cfg_of inst" "L - 1"] L by (simp add: cfg_of_wf [OF assms(1)] L_def)
    then have b: "l * L + (L - 1) < 2 ^ 32"
      using unat_lt_u32 [of "inst_memory_blocks inst"] by linarith
    have p: "0 < cur + inst_lane_length inst \<or> True" by simp
    have e: "cur + inst_lane_length inst - 1 = cur + (inst_lane_length inst - 1)" by simp
    have "unat (inst_lane_length inst - 1) = L - 1" using L by (simp add: unat_minus_one_add L_def)
    then have "unat (cur + inst_lane_length inst - 1) = l * L + (L - 1)"
      unfolding e using b True by (subst unat_add_small) (simp_all add: cur)
    then show ?thesis unfolding prev eff_prev_def assms(5,6) md using True L by simp
  next
    case False
    then have "unat (cur - 1) = l * L + (j - 1)"
      using unat_minus_one_add(2) [of cur] by (simp add: cur)
    then show ?thesis unfolding prev eff_prev_def assms(5,6) md using False by simp
  qed
qed

lemma seg_inv_init:
  assumes "wf_inst inst" "wf_seg inst pos" "wf_mem (cfg_of inst) mem" "wf_block junk"
  shows "seg_inv inst pos mem (starting_index pos) (fill_segment_init junk inst pos mem)"
proof -
  define s where "s = fill_segment_init junk inst pos mem"
  define dia where "dia = data_independent_addressing inst pos"
  define inp where "inp = address_input (cfg_of inst) (unat (pos_pass pos)) (unat (pos_lane pos))
      (unat (pos_slice pos))"
  define adr where "adr = rfc_address (cfg_of inst) (unat (pos_pass pos)) (unat (pos_lane pos))
      (unat (pos_slice pos))"
  define first where "first \<longleftrightarrow> 0 = pos_pass pos \<and> 0 = pos_slice pos"
  have na: "next_addresses junk (inp 0) (replicate 128 0) = (adr 1, inp 1)"
    using next_addresses_rfc [OF assms(4)] by (simp add: inp_def adr_def)
  have s: "seg_memory s = mem"
    "seg_address_block s = (if first \<and> dia then adr 1 else junk)"
    "seg_input_block s = (if dia then if first then inp 1 else inp 0 else junk)"
    "seg_curr_offset s = pos_lane pos * inst_lane_length inst +
      ucast (pos_slice pos) * inst_segment_length inst + word_of_nat (starting_index pos)"
    "seg_prev_offset s = (if 0 = seg_curr_offset s mod inst_lane_length inst
      then seg_curr_offset s + inst_lane_length inst - 1 else seg_curr_offset s - 1)"
    unfolding s_def fill_segment_init_def Let_def initial_input [OF assms(1)] inp_def [symmetric]
    unfolding init_block_value_0 dia_def [symmetric]
    by (auto simp: na first_def)
  have ctr: "(starting_index pos + 127) div 128 = (if first then 1 else 0)"
    by (simp add: starting_index_def first_def)
  have off: "unat (seg_curr_offset s) = unat (pos_lane pos) * unat (inst_lane_length inst) +
      seg_col inst pos (starting_index pos)"
    if "starting_index pos < unat (inst_segment_length inst)"
    unfolding s(4) by (rule first_offset [OF assms(1,2) that])
  have prev: "unat (eff_prev inst s) =
      rfc_prev (cfg_of inst) (unat (pos_slice pos)) (unat (pos_lane pos)) (starting_index pos)"
    if "starting_index pos < unat (inst_segment_length inst)"
    using eff_prev_first [OF assms(1,2) that off [OF that] refl s(5)] .
  show ?thesis
    unfolding seg_inv_def Let_def s_def [symmetric] ctr cfg_of_wf [OF assms(1)] inp_def [symmetric]
      adr_def [symmetric] dia_def [symmetric]
    using off prev assms(3,4) s(1-3) by (simp add: adr_def inp_def)
qed

lemma unat_J_parts:
  fixes J :: u64 and p :: u32
  shows "unat (drop_bit 32 J mod ucast p) = (unat J div 2 ^ 32) mod unat p"
    and "unat (ucast (J AND 0xFFFFFFFF) :: u32) = unat J mod 2 ^ 32"
proof -
  show "unat (drop_bit 32 J mod ucast p) = (unat J div 2 ^ 32) mod unat p"
    unfolding unat_mod_distrib unat_drop_bit_eq
    by (simp add: drop_bit_eq_div unsigned_ucast_eq take_bit_nat_eq_self order_less_le_trans [OF unat_lt_u32])
  have m: "(0xFFFFFFFF :: u64) = mask 32" by (simp add: mask_eq_exp_minus_1)
  have e: "J AND 0xFFFFFFFF = take_bit 32 J" unfolding m take_bit_eq_mask ..
  show "unat (ucast (J AND 0xFFFFFFFF) :: u32) = unat J mod 2 ^ 32"
    unfolding e unsigned_ucast_eq unsigned_take_bit_eq by (simp add: take_bit_eq_mod)
qed

text \<open>The reference block of the code is the reference block of the specification.\<close>

lemma ref_block_index:
  fixes J :: u64
  assumes "wf_inst inst" "wf_seg inst pos" "i < unat (inst_segment_length inst)" "starting_index pos \<le> i"
  defines "c \<equiv> cfg_of inst" and "r \<equiv> unat (pos_pass pos)" and "l \<equiv> unat (pos_lane pos)"
    and "sl \<equiv> unat (pos_slice pos)"
    and "ref_lane \<equiv> (if pos_pass pos = 0 \<and> pos_slice pos = 0 then ucast (pos_lane pos)
      else drop_bit 32 J mod (ucast (inst_lanes inst) :: u64))"
  shows "unat (ucast (inst_lane_length inst) * ref_lane +
    (ucast (index_alpha inst (pos\<lparr>pos_index := word_of_nat i\<rparr>) (ucast (J AND 0xFFFFFFFF))
       (ref_lane = ucast (pos_lane pos))) :: u64)) = rfc_ref c r sl l i J"
proof -
  have up: "unat (ucast w :: u64) = unat w" for w :: u32
    by (simp add: unsigned_ucast_eq take_bit_nat_eq_self order_less_le_trans [OF unat_lt_u32])
  have rl: "unat ref_lane = rfc_ref_lane c r sl l J"
    unfolding ref_lane_def rfc_ref_lane_def c_def r_def sl_def l_def
    by (simp add: up unat_J_parts unat_eq_0)
  have same: "(ref_lane = ucast (pos_lane pos)) = (rfc_ref_lane c r sl l J = l)"
    unfolding word_unat_eq_iff rl up l_def ..
  have i: "unat (word_of_nat i :: u32) = i"
    using assms(3) unat_lt_u32 [of "inst_segment_length inst"]
    by (simp add: unat_of_nat take_bit_nat_eq_self)
  have wp: "wf_pos inst (pos\<lparr>pos_index := word_of_nat i\<rparr>)"
    using assms(2-4) by (auto simp: wf_pos_def wf_seg_def i starting_index_def)
  have z: "unat (index_alpha inst (pos\<lparr>pos_index := word_of_nat i\<rparr>) (ucast (J AND 0xFFFFFFFF)) b) =
      rfc_ref_index (cf_seg c) (r = 0) sl i b (unat J mod 2 ^ 32)" for b
    using index_alpha_eq [OF assms(1) wp, of "ucast (J AND 0xFFFFFFFF)" b]
    by (simp only: i unat_J_parts) (simp add: c_def r_def sl_def i unat_eq_0)
  have "rfc_ref c r sl l i J < rfc_blocks c"
    using ref_bound [OF cfg_of_wf(1) [OF assms(1)], of l] assms(2)
    by (simp add: c_def l_def wf_seg_def)
  then have b: "rfc_ref c r sl l i J < 2 ^ 32"
    using unat_lt_u32 [of "inst_memory_blocks inst"] by (simp add: c_def cfg_of_wf [OF assms(1)])
  have e: "rfc_ref c r sl l i J = unat (inst_lane_length inst) * unat ref_lane +
      unat (index_alpha inst (pos\<lparr>pos_index := word_of_nat i\<rparr>) (ucast (J AND 0xFFFFFFFF))
        (ref_lane = ucast (pos_lane pos)))"
    unfolding z same rl rfc_ref_def Let_def by (simp add: c_def cfg_of_wf [OF assms(1)] mult.commute)
  show ?thesis
    using b unfolding e by (simp add: unat_word_ariths up)
qed

lemma eff_prev_next:
  assumes "wf_inst inst" "wf_seg inst pos" "Suc i < unat (inst_segment_length inst)"
    and "unat cur = unat (pos_lane pos) * unat (inst_lane_length inst) + seg_col inst pos i"
    and "unat prev = rfc_prev (cfg_of inst) (unat (pos_slice pos)) (unat (pos_lane pos)) i"
    and "seg_curr_offset s = cur + 1" "seg_prev_offset s = prev + 1"
  shows "unat (seg_curr_offset s) =
      unat (pos_lane pos) * unat (inst_lane_length inst) + seg_col inst pos (Suc i)"
    and "unat (eff_prev inst s) =
      rfc_prev (cfg_of inst) (unat (pos_slice pos)) (unat (pos_lane pos)) (Suc i)"
proof -
  define L where "L = unat (inst_lane_length inst)"
  define l where "l = unat (pos_lane pos)"
  define j where "j = seg_col inst pos i"
  have i: "i < unat (inst_segment_length inst)" using assms(3) by simp
  have col: "seg_col inst pos (Suc i) = Suc j" by (simp add: j_def seg_col_def)
  have j: "Suc j < L" and tot: "l * L + Suc j < 2 ^ 32"
    using seg_col_bound [OF assms(1-3)] unat_lt_u32 [of "inst_memory_blocks inst"]
    by (simp_all add: col L_def l_def)
  have cur: "unat cur = l * L + j" using assms(4) by (simp add: l_def L_def j_def)
  have cur1: "unat (cur + 1) = l * L + Suc j"
    using tot cur by (subst unat_add_small) simp_all
  then show "unat (seg_curr_offset s) =
      unat (pos_lane pos) * unat (inst_lane_length inst) + seg_col inst pos (Suc i)"
    by (simp add: assms(6) col l_def L_def)
  have prev: "unat prev = l * L + (if j = 0 then L - 1 else j - 1)"
    using prev_index_col [OF assms(1,2) i]
    by (simp add: assms(5) rfc_prev_def cfg_of_wf [OF assms(1)] l_def L_def j_def)
  have goal: "rfc_prev (cfg_of inst) (unat (pos_slice pos)) (unat (pos_lane pos)) (Suc i) = l * L + j"
    using prev_index_col [OF assms(1-3)]
    by (simp add: rfc_prev_def cfg_of_wf [OF assms(1)] l_def L_def col)
  have md: "((cur + 1) mod inst_lane_length inst = 1) = (j = 0)"
    unfolding unat_mod_one cur1 L_def [symmetric] mod_column [OF j] by simp
  show "unat (eff_prev inst s) =
      rfc_prev (cfg_of inst) (unat (pos_slice pos)) (unat (pos_lane pos)) (Suc i)"
  proof (cases "j = 0")
    case True
    then show ?thesis unfolding goal eff_prev_def assms(6,7) md using cur by simp
  next
    case False
    then have "unat (prev + 1) = l * L + j"
      using prev tot by (subst unat_add_small) simp_all
    then show ?thesis unfolding goal eff_prev_def assms(6,7) md using False by simp
  qed
qed

lemma ctr_div: "(i + 127) div 128 = (if i mod 128 = 0 then i div 128 else i div 128 + 1)" for i :: nat
proof -
  define q where "q = i div 128"
  define m where "m = i mod 128"
  have i: "i = 128 * q + m" "m < 128" by (simp_all add: q_def m_def)
  show ?thesis
    unfolding q_def [symmetric] m_def [symmetric]
  proof (cases "m = 0")
    case True
    then show "(i + 127) div 128 = (if m = 0 then q else q + 1)" using i by simp
  next
    case False
    then have "(i + 127) div 128 = q + 1" using i by (intro div_nat_eqI) simp_all
    then show "(i + 127) div 128 = (if m = 0 then q else q + 1)" using False by simp
  qed
qed

lemma seg_inv_step:
  assumes "wf_inst inst" "wf_seg inst pos" "i < unat (inst_segment_length inst)" "starting_index pos \<le> i"
    and "seg_inv inst pos mem i s"
  shows "seg_inv inst pos (rfc_fill_one (cfg_of inst) (unat (pos_pass pos)) (unat (pos_slice pos))
    (unat (pos_lane pos)) i mem) (Suc i) (fill_segment_step inst pos i s)"
proof -
  define c where "c = cfg_of inst"
  define r where "r = unat (pos_pass pos)"
  define l where "l = unat (pos_lane pos)"
  define sl where "sl = unat (pos_slice pos)"
  define dia where "dia = data_independent_addressing inst pos"
  define prev where "prev = eff_prev inst s"
  define cur where "cur = seg_curr_offset s"
  define adr where "adr = (if dia then rfc_address c r l sl (i div 128 + 1) else seg_address_block s)"
  define inp where "inp = (if dia then address_input c r l sl (i div 128 + 1) else seg_input_block s)"
  have cw: "rfc_ok c" "rfc_lane_len c = unat (inst_lane_length inst)"
    "cf_seg c = unat (inst_segment_length inst)" "l < cf_p c" "sl < 4"
    using assms(2) by (simp_all add: c_def cfg_of_wf [OF assms(1)] wf_seg_def l_def sl_def)
  have inv: "seg_memory s = mem" "wf_mem c mem" "unat cur = l * rfc_lane_len c + seg_col inst pos i"
    "unat prev = rfc_prev c sl l i" "wf_block (seg_address_block s)" "wf_block (seg_input_block s)"
    "dia \<Longrightarrow> seg_input_block s = address_input c r l sl ((i + 127) div 128)"
    "dia \<Longrightarrow> 0 < (i + 127) div 128 \<Longrightarrow> seg_address_block s = rfc_address c r l sl ((i + 127) div 128)"
    using assms(3,5) by (simp_all add: seg_inv_def Let_def c_def r_def l_def sl_def dia_def prev_def cur_def)
  have next_adr: "(if dia \<and> i mod 128 = 0 then next_addresses (seg_address_block s) (seg_input_block s)
      (init_block_value (seg_input_block s) 0) else (seg_address_block s, seg_input_block s)) = (adr, inp)"
  proof (cases "dia")
    case True
    have "(i + 127) div 128 = (if i mod 128 = 0 then i div 128 else i div 128 + 1)"
      by (rule ctr_div)
    then show ?thesis
      using True inv(7,8) next_addresses_rfc [OF inv(5), of c r l sl "i div 128"]
      by (simp add: adr_def inp_def init_block_value_0)
  qed (simp add: adr_def inp_def)
  define J where "J = (if dia then adr ! (i mod 128) else mem ! unat prev ! 0)"
  have J: "J = rfc_J c r sl l mem i"
    using independent_rfc [OF assms(2)]
    by (simp add: J_def rfc_J_def adr_def dia_def c_def r_def sl_def inv(4) [unfolded c_def sl_def])
  define ref_lane where "ref_lane = (if pos_pass pos = 0 \<and> pos_slice pos = 0 then ucast (pos_lane pos)
      else drop_bit 32 J mod (ucast (inst_lanes inst) :: u64))"
  define ri where "ri = unat (ucast (inst_lane_length inst) * ref_lane +
    (ucast (index_alpha inst (pos\<lparr>pos_index := word_of_nat i\<rparr>) (ucast (J AND 0xFFFFFFFF))
       (ref_lane = ucast (pos_lane pos))) :: u64))"
  have ri: "ri = rfc_ref c r sl l i J"
    using ref_block_index [OF assms(1-4), of J]
    unfolding ri_def ref_lane_def c_def r_def sl_def l_def by simp
  define B where "B = (if ARGON2_VERSION_10 = inst_version inst
      then fill_block (mem ! unat prev) (mem ! ri) (mem ! unat cur) False
      else if 0 = pos_pass pos then fill_block (mem ! unat prev) (mem ! ri) (mem ! unat cur) False
      else fill_block (mem ! unat prev) (mem ! ri) (mem ! unat cur) True)"
  have curn: "unat cur = l * rfc_lane_len c + sl * cf_seg c + i"
    by (simp add: inv(3) seg_col_def sl_def cw(3))
  have cb: "unat cur < rfc_blocks c"
    using in_matrix [OF cw(4) column_bound [OF cw(5)], of i] assms(3) by (simp add: curn cw(3) add.assoc)
  have wfb: "wf_block (mem ! unat prev)" "wf_block (mem ! ri)" "wf_block (mem ! unat cur)"
    using wf_mem_nth [OF inv(2) prev_bound [OF cw(1,4)]] wf_mem_nth [OF inv(2) ref_bound [OF cw(1,4)]]
      wf_mem_nth [OF inv(2) cb] by (simp_all add: inv(4) ri)
  have v10: "(ARGON2_VERSION_10 = inst_version inst) = (cf_v c = 16)"
    by (auto simp: ARGON2_VERSION_10_def c_def word_unat_eq_iff)
  have p0: "(0 = pos_pass pos) = (r = 0)" by (auto simp: r_def unat_eq_0)
  have B: "B = (if r = 0 \<or> cf_v c = 16 then rfc_compress (mem ! unat prev) (mem ! ri)
      else map2 (XOR) (rfc_compress (mem ! unat prev) (mem ! ri)) (mem ! unat cur))"
    unfolding B_def v10 p0 using wfb by (simp add: fill_block_eq)
  have "store_at mem (unat cur) B = mem[unat cur := B]" using cb inv(2) by (simp add: wf_mem_def)
  then have mem': "store_at mem (unat cur) B = rfc_fill_one c r sl l i mem"
    unfolding rfc_fill_one_def Let_def B inv(4) ri J [symmetric] curn .
  have pu: "pos_lane (pos\<lparr>pos_index := x\<rparr>) = pos_lane pos" "pos_pass (pos\<lparr>pos_index := x\<rparr>) = pos_pass pos"
    for x by simp_all
  have step: "fill_segment_step inst pos i s =
      \<lparr>seg_memory = rfc_fill_one c r sl l i mem, seg_address_block = adr, seg_input_block = inp,
        seg_curr_offset = cur + 1, seg_prev_offset = prev + 1\<rparr>"
    unfolding fill_segment_step_def Let_def argon2_core_constants pu cur_def [symmetric]
      eff_prev_def [symmetric, of s inst, folded cur_def] prev_def [symmetric] dia_def [symmetric]
      next_adr prod.case inv(1) J_def [symmetric] ref_lane_def [symmetric] ri_def [symmetric]
      B_def [symmetric] mem' ..
  have wf': "wf_mem c (rfc_fill_one c r sl l i mem)"
    using wf_mem_fill_one [OF cw(1) inv(2) cw(4,5)] assms(3) cw(3) by simp
  have ctr: "(Suc i + 127) div 128 = i div 128 + 1" by simp
  have off: "unat (cur + 1) = l * rfc_lane_len c + seg_col inst pos (Suc i) \<and>
      unat (eff_prev inst (fill_segment_step inst pos i s)) = rfc_prev c sl l (Suc i)"
    if "Suc i < cf_seg c"
    using eff_prev_next [OF assms(1,2) that [unfolded cw(3)], of cur prev "fill_segment_step inst pos i s"]
      inv(3,4) by (simp add: step cfg_of_wf [OF assms(1)] l_def c_def sl_def)
  show ?thesis
    unfolding seg_inv_def Let_def ctr c_def [symmetric] r_def [symmetric] l_def [symmetric]
      sl_def [symmetric] dia_def [symmetric]
    using wf' off inv(5,6) by (simp add: step adr_def inp_def)
qed

lemma fold_seg_inv:
  assumes "wf_inst inst" "wf_seg inst pos" "seg_inv inst pos mem (starting_index pos) s"
    and "starting_index pos + k \<le> unat (inst_segment_length inst)"
  shows "seg_inv inst pos (fold (rfc_fill_one (cfg_of inst) (unat (pos_pass pos)) (unat (pos_slice pos))
      (unat (pos_lane pos))) [starting_index pos..<starting_index pos + k] mem) (starting_index pos + k)
    (fold (fill_segment_step inst pos) [starting_index pos..<starting_index pos + k] s)"
  using assms(4)
proof (induction k)
  case 0
  then show ?case using assms(3) by simp
next
  case (Suc k)
  then show ?case
    using seg_inv_step [OF assms(1,2), of "starting_index pos + k"] by simp
qed

lemma fill_segment_eq:
  assumes "wf_inst inst" "wf_seg inst pos" "inst_memory inst = Some mem" "wf_mem (cfg_of inst) mem"
    and "wf_block junk"
  shows "fill_segment junk (Some inst) pos = Some (inst\<lparr>inst_memory :=
    Some (rfc_fill_segment (cfg_of inst) (unat (pos_pass pos)) (unat (pos_slice pos)) (unat (pos_lane pos)) mem)\<rparr>)"
proof -
  define st where "st = starting_index pos"
  define seg where "seg = unat (inst_segment_length inst)"
  have le: "st \<le> seg" using assms(1) by (simp add: st_def seg_def starting_index_def wf_inst_def)
  have e: "st + (seg - st) = seg" using le by simp
  have "st + (seg - st) \<le> seg" using le by simp
  from fold_seg_inv [OF assms(1,2) seg_inv_init [OF assms(1,2,4,5)], folded st_def seg_def, OF this]
  have "seg_memory (fold (fill_segment_step inst pos) [st..<seg] (fill_segment_init junk inst pos mem)) =
      fold (rfc_fill_one (cfg_of inst) (unat (pos_pass pos)) (unat (pos_slice pos)) (unat (pos_lane pos)))
        [st..<seg] mem"
    unfolding e seg_inv_def Let_def by blast
  then show ?thesis
    unfolding fill_segment_def option.case Let_def assms(3) option.sel st_def [symmetric] seg_def [symmetric]
      rfc_fill_segment_def starting_index_rfc [symmetric] cfg_of_fields
    by simp
qed

text \<open>C15: \<^verbatim>\<open>fill_segment\<close> computes the segment of RFC 9106: with the address generator, the rotating
  previous offset, the 32-bit offsets and the 64-bit reference index of the code, every block gets
  the content the specification gives it and no other block changes; whatever the uninitialised
  local blocks hold does not matter. All array accesses are within the matrix.\<close>

theorem fill_segment_rfc9106:
  assumes "wf_inst inst" "unat (pos_lane pos) < unat (inst_lanes inst)" "unat (pos_slice pos) < 4"
    and "inst_memory inst = Some mem" "length mem = unat (inst_memory_blocks inst)"
    and "\<forall>b \<in> set mem. length b = 128" "length junk = 128"
  shows "fill_segment junk (Some inst) pos = Some (inst\<lparr>inst_memory :=
    Some (rfc_fill_segment (cfg_of inst) (unat (pos_pass pos)) (unat (pos_slice pos)) (unat (pos_lane pos)) mem)\<rparr>)"
  by (rule fill_segment_eq) (use assms in \<open>simp_all add: wf_seg_def wf_mem_def cfg_of_wf\<close>)

theorem fill_segment_rfc9106_witness:
  "fill_segment (replicate 128 9) (Some (tiny_inst\<lparr>inst_memory := Some (replicate 16 (replicate 128 1))\<rparr>)) tiny_pos =
    Some (tiny_inst\<lparr>inst_memory := Some (rfc_fill_segment (cfg_of tiny_inst) 1 2 1 (replicate 16 (replicate 128 1)))\<rparr>)"
proof -
  define i where "i = tiny_inst\<lparr>inst_memory := Some (replicate 16 (replicate 128 1))\<rparr>"
  have i: "inst_lanes i = 2" "inst_memory_blocks i = 16" "inst_memory i = Some (replicate 16 (replicate 128 1))"
    "wf_inst i" "cfg_of i = cfg_of tiny_inst" "pos_lane tiny_pos = 1"
    by (simp_all add: i_def tiny_inst_def wf_inst_def cfg_of_def tiny_pos_def)
  have "fill_segment (replicate 128 9) (Some i) tiny_pos = Some (i\<lparr>inst_memory :=
      Some (rfc_fill_segment (cfg_of i) (unat (pos_pass tiny_pos)) (unat (pos_slice tiny_pos))
        (unat (pos_lane tiny_pos)) (replicate 16 (replicate 128 1)))\<rparr>)"
    by (rule fill_segment_rfc9106) (simp_all add: i)
  then show ?thesis by (simp add: i(5,6)) (simp add: i_def)
qed

end
