(* ===== verification/Opt_Props.thy ===== *)
theory Opt_Props
  imports Opt_Block Ref_Props
begin

text \<open>
  \<open>fill_segment\<close> of \<^verbatim>\<open>src/opt.c\<close> computes what \<open>fill_segment\<close> of \<^verbatim>\<open>src/ref.c\<close> computes. The two loops differ
  in where the previous block comes from: the reference reads it from memory, the optimised loop has it
  in the registers. The relation \<open>opt_rel\<close> of their states says that it is the same block.
\<close>

section \<open>\<open>fill_segment\<close>\<close>

lemma fill_block_opt_pair:
  "wf_block p \<Longrightarrow> wf_block r \<Longrightarrow> wf_block x \<Longrightarrow> fill_block_opt isa (vecs (isa_lanes isa) p) r x with_xor =
    (vecs (isa_lanes isa) (fill_block p r x with_xor), fill_block p r x with_xor)"
  by (simp add: fill_block_opt_eq Let_def)

lemma next_addresses_opt_eq:
  assumes "wf_block a" "wf_block b"
  shows "next_addresses_opt isa a b = next_addresses a b (replicate 128 0)"
proof -
  have "wf_block (fill_block (replicate 128 0) b' a False)" if "wf_block b'" for b'
    using assms(1) that by (simp add: fill_block_plain)
  then show ?thesis
    using assms by (simp add: next_addresses_opt_def next_addresses_def Let_def fill_block_opt_pair)
qed

text \<open>The registers hold the block before the current one; everything else is as in \<open>Ref\<close>.\<close>

definition opt_rel :: "isa \<Rightarrow> argon2_instance_t \<Rightarrow> nat \<Rightarrow> opt_segment_state \<Rightarrow> segment_state \<Rightarrow> bool" where
  "opt_rel isa inst i so s \<longleftrightarrow> segment_state.truncate so = s \<and>
     (i < unat (inst_segment_length inst) \<longrightarrow>
       seg_state so = vecs (isa_lanes isa) (seg_memory s ! unat (eff_prev inst s)))"

lemma truncate_fields:
  "segment_state.truncate so = s \<longleftrightarrow> seg_memory so = seg_memory s \<and> seg_address_block so = seg_address_block s \<and>
     seg_input_block so = seg_input_block s \<and> seg_curr_offset so = seg_curr_offset s \<and>
     seg_prev_offset so = seg_prev_offset s"
  by (cases so; cases s) (simp add: segment_state.defs)

lemma opt_rel_init:
  assumes "wf_block junk"
  shows "opt_rel isa inst i (fill_segment_opt_init isa junk inst pos mem) (fill_segment_init junk inst pos mem)"
proof -
  define inp where "inp = (if data_independent_addressing inst pos then (init_block_value junk 0)
                [0 := ucast (pos_pass pos), 1 := ucast (pos_lane pos), 2 := ucast (pos_slice pos),
                 3 := ucast (inst_memory_blocks inst), 4 := ucast (inst_passes inst),
                 5 := ucast (type_code (inst_type inst))] else junk)"
  have wf: "wf_block inp" using assms by (simp add: inp_def)
  have na: "next_addresses_opt isa junk inp = next_addresses junk inp (init_block_value junk 0)"
    unfolding init_block_value_0 by (rule next_addresses_opt_eq [OF assms wf])
  define so where "so = fill_segment_opt_init isa junk inst pos mem"
  define s where "s = fill_segment_init junk inst pos mem"
  have t: "segment_state.truncate so = s"
    unfolding so_def s_def fill_segment_opt_init_def fill_segment_init_def Let_def inp_def [symmetric] na
    by (simp add: segment_state.defs split: prod.split)
  have p: "seg_prev_offset s = (if 0 = seg_curr_offset s mod inst_lane_length inst
      then seg_curr_offset s + inst_lane_length inst - 1 else seg_curr_offset s - 1)"
    unfolding s_def fill_segment_init_def Let_def by (simp split: prod.split)
  have "seg_state so = vecs (isa_lanes isa) (mem ! unat (seg_prev_offset s))" "seg_memory s = mem"
    unfolding so_def s_def fill_segment_opt_init_def fill_segment_init_def Let_def
    by (simp_all split: prod.split)
  moreover have "eff_prev inst s = seg_prev_offset s"
    unfolding eff_prev_def p by auto
  ultimately show ?thesis unfolding opt_rel_def so_def [symmetric] s_def [symmetric] using t by simp
qed

text \<open>The block just written is the one before the next.\<close>

lemma rfc_prev_Suc:
  assumes "wf_inst inst" "wf_seg inst pos" "Suc i < unat (inst_segment_length inst)"
  shows "rfc_prev (cfg_of inst) (unat (pos_slice pos)) (unat (pos_lane pos)) (Suc i) =
    unat (pos_lane pos) * unat (inst_lane_length inst) + seg_col inst pos i"
  using prev_index_col [OF assms] by (simp add: rfc_prev_def cfg_of_wf [OF assms(1)] seg_col_def)

lemma opt_rel_step:
  assumes "wf_inst inst" "wf_seg inst pos" "i < unat (inst_segment_length inst)" "starting_index pos \<le> i"
    and "seg_inv inst pos mem i s" "opt_rel isa inst i so s"
  shows "opt_rel isa inst (Suc i) (fill_segment_opt_step isa inst pos i so) (fill_segment_step inst pos i s)"
proof -
  define c where "c = cfg_of inst"
  define l where "l = unat (pos_lane pos)"
  define sl where "sl = unat (pos_slice pos)"
  define prev where "prev = eff_prev inst s"
  define cur where "cur = seg_curr_offset s"
  have cw: "rfc_ok c" "rfc_lane_len c = unat (inst_lane_length inst)"
    "cf_seg c = unat (inst_segment_length inst)" "l < cf_p c" "sl < 4"
    using assms(2) by (simp_all add: c_def cfg_of_wf [OF assms(1)] wf_seg_def l_def sl_def)
  have inv: "seg_memory s = mem" "wf_mem c mem" "unat cur = l * rfc_lane_len c + seg_col inst pos i"
    "unat prev = rfc_prev c sl l i" "wf_block (seg_address_block s)" "wf_block (seg_input_block s)"
    using assms(3,5) by (simp_all add: seg_inv_def Let_def c_def l_def sl_def prev_def cur_def)
  have so: "seg_memory so = mem" "seg_address_block so = seg_address_block s"
    "seg_input_block so = seg_input_block s" "seg_curr_offset so = cur" "seg_prev_offset so = seg_prev_offset s"
    "seg_state so = vecs (isa_lanes isa) (mem ! unat prev)"
    using assms(3,6) by (simp_all add: opt_rel_def truncate_fields inv(1) prev_def cur_def)
  have prev: "(if cur mod inst_lane_length inst = 1 then cur - 1 else seg_prev_offset s) = prev"
    by (simp add: prev_def eff_prev_def cur_def)
  define dia where "dia = data_independent_addressing inst pos"
  obtain adr inp where adr: "(if dia \<and> i mod ARGON2_ADDRESSES_IN_BLOCK = 0
      then next_addresses (seg_address_block s) (seg_input_block s) (init_block_value (seg_input_block s) 0)
      else (seg_address_block s, seg_input_block s)) = (adr, inp)"
    by (cases "if dia \<and> i mod ARGON2_ADDRESSES_IN_BLOCK = 0
      then next_addresses (seg_address_block s) (seg_input_block s) (init_block_value (seg_input_block s) 0)
      else (seg_address_block s, seg_input_block s)")
  have adr': "(if dia \<and> i mod ARGON2_ADDRESSES_IN_BLOCK = 0
      then next_addresses_opt isa (seg_address_block s) (seg_input_block s)
      else (seg_address_block s, seg_input_block s)) = (adr, inp)"
    unfolding next_addresses_opt_eq [OF inv(5,6)] using adr by (simp only: init_block_value_0)
  define J where "J = (if dia then adr ! (i mod ARGON2_ADDRESSES_IN_BLOCK) else mem ! unat prev ! 0)"
  define ref_lane where "ref_lane = (if pos_pass pos = 0 \<and> pos_slice pos = 0 then ucast (pos_lane pos)
      else drop_bit 32 J mod (ucast (inst_lanes inst) :: u64))"
  define ri where "ri = unat (ucast (inst_lane_length inst) * ref_lane +
    (ucast (index_alpha inst (pos\<lparr>pos_index := word_of_nat i\<rparr>) (ucast (J AND 0xFFFFFFFF))
       (ref_lane = ucast (pos_lane pos))) :: u64))"
  have ri: "ri = rfc_ref c (unat (pos_pass pos)) sl l i J"
    using ref_block_index [OF assms(1-4), of J] unfolding ri_def ref_lane_def c_def sl_def l_def by simp
  have curn: "unat cur = l * rfc_lane_len c + sl * cf_seg c + i"
    by (simp add: inv(3) seg_col_def sl_def cw(3))
  have cb: "unat cur < rfc_blocks c"
    using in_matrix [OF cw(4) column_bound [OF cw(5)], of i] assms(3) by (simp add: curn cw(3) add.assoc)
  have wfb: "wf_block (mem ! unat prev)" "wf_block (mem ! ri)" "wf_block (mem ! unat cur)"
    using wf_mem_nth [OF inv(2) prev_bound [OF cw(1,4)]] wf_mem_nth [OF inv(2) ref_bound [OF cw(1,4)]]
      wf_mem_nth [OF inv(2) cb] by (simp_all add: inv(4) ri)
  define wx where "wx = (if ARGON2_VERSION_10 = inst_version inst then False else if 0 = pos_pass pos then False else True)"
  define B where "B = fill_block (mem ! unat prev) (mem ! ri) (mem ! unat cur) wx"
  have pu: "pos_lane (pos\<lparr>pos_index := x\<rparr>) = pos_lane pos" "pos_pass (pos\<lparr>pos_index := x\<rparr>) = pos_pass pos"
    for x by simp_all
  have ifs: "(if ARGON2_VERSION_10 = inst_version inst then f False
      else if 0 = pos_pass pos then f False else f True) = f wx" for f :: "bool \<Rightarrow> 'a"
    by (simp add: wx_def)
  have step: "fill_segment_step inst pos i s =
      \<lparr>seg_memory = store_at mem (unat cur) B, seg_address_block = adr, seg_input_block = inp,
        seg_curr_offset = cur + 1, seg_prev_offset = prev + 1\<rparr>"
    unfolding fill_segment_step_def Let_def inv(1) cur_def [symmetric] dia_def [symmetric] adr prev prod.case pu
      J_def [symmetric] ref_lane_def [symmetric] ri_def [symmetric]
      ifs [of "fill_block (mem ! unat prev) (mem ! ri) (mem ! unat cur)"] B_def [symmetric] ..
  have opt_step: "fill_segment_opt_step isa inst pos i so =
      \<lparr>seg_memory = store_at mem (unat cur) B, seg_address_block = adr, seg_input_block = inp,
        seg_curr_offset = cur + 1, seg_prev_offset = prev + 1, seg_state = vecs (isa_lanes isa) B\<rparr>"
    unfolding fill_segment_opt_step_def Let_def so dia_def [symmetric] adr' prev prod.case pu
      J_def [symmetric] ref_lane_def [symmetric] ri_def [symmetric]
      fill_block_opt_pair [OF wfb] by (simp add: B_def wx_def)
  have "store_at mem (unat cur) B ! unat (eff_prev inst (fill_segment_step inst pos i s)) = B"
    if "Suc i < unat (inst_segment_length inst)"
  proof -
    have "unat (eff_prev inst (fill_segment_step inst pos i s)) = rfc_prev c sl l (Suc i)"
      using eff_prev_next(2) [OF assms(1,2) that, of cur prev "fill_segment_step inst pos i s"] inv(3,4)
      by (simp add: step cfg_of_wf [OF assms(1)] l_def c_def sl_def)
    also have "\<dots> = unat cur"
      using rfc_prev_Suc [OF assms(1,2) that] inv(3) by (simp add: c_def l_def sl_def cfg_of_wf [OF assms(1)])
    finally show ?thesis using cb inv(2) by (simp add: wf_mem_def)
  qed
  then show ?thesis by (simp add: opt_rel_def opt_step segment_state.defs) (simp add: step)
qed

lemma fold_opt_rel:
  assumes "wf_inst inst" "wf_seg inst pos" "wf_mem (cfg_of inst) mem" "wf_block junk"
    and "starting_index pos + k \<le> unat (inst_segment_length inst)"
  shows "opt_rel isa inst (starting_index pos + k)
    (fold (fill_segment_opt_step isa inst pos) [starting_index pos..<starting_index pos + k]
      (fill_segment_opt_init isa junk inst pos mem))
    (fold (fill_segment_step inst pos) [starting_index pos..<starting_index pos + k]
      (fill_segment_init junk inst pos mem))"
  using assms(5)
proof (induction k)
  case 0
  then show ?case using opt_rel_init [OF assms(4)] by simp
next
  case (Suc k)
  then show ?case
    using opt_rel_step [OF assms(1,2), of "starting_index pos + k"]
      fold_seg_inv [OF assms(1,2) seg_inv_init [OF assms(1-4)], of k] by simp
qed

lemma fill_segment_opt_eq:
  assumes "wf_inst inst" "wf_seg inst pos" "inst_memory inst = Some mem" "wf_mem (cfg_of inst) mem" "wf_block junk"
  shows "fill_segment_opt isa junk (Some inst) pos = fill_segment junk (Some inst) pos"
proof -
  define st where "st = starting_index pos"
  define seg where "seg = unat (inst_segment_length inst)"
  have e: "st + (seg - st) = seg" using assms(1) by (simp add: st_def seg_def starting_index_def wf_inst_def)
  have "opt_rel isa inst seg (fold (fill_segment_opt_step isa inst pos) [st..<seg] (fill_segment_opt_init isa junk inst pos mem))
      (fold (fill_segment_step inst pos) [st..<seg] (fill_segment_init junk inst pos mem))"
    using fold_opt_rel [OF assms(1,2,4,5), of "seg - st" isa, folded st_def seg_def, unfolded e] by simp
  then show ?thesis
    unfolding fill_segment_opt_def fill_segment_def option.case Let_def assms(3) option.sel st_def [symmetric]
      seg_def [symmetric] opt_rel_def truncate_fields by simp
qed

section \<open>The properties\<close>

text \<open>C23: throughout the loop of \<^verbatim>\<open>fill_segment\<close> of opt.c the registers hold the block of memory that
  \<^verbatim>\<open>prev_offset\<close>, after its rotation, denotes: the code may go on from the registers and never reads the
  previous block back, also where the offset wraps from the end of a lane to its start.\<close>

theorem opt_registers_hold_previous_block:
  assumes "wf_inst inst" "unat (pos_lane pos) < unat (inst_lanes inst)" "unat (pos_slice pos) < 4"
    and "length mem = unat (inst_memory_blocks inst)" "\<forall>b \<in> set mem. length b = 128" "length junk = 128"
    and "starting_index pos + k < unat (inst_segment_length inst)"
  shows "let s = fold (fill_segment_opt_step isa inst pos) [starting_index pos..<starting_index pos + k]
        (fill_segment_opt_init isa junk inst pos mem)
    in seg_state s = vecs (isa_lanes isa) (seg_memory s ! unat (eff_prev inst (segment_state.truncate s)))"
proof -
  have "wf_seg inst pos" "wf_mem (cfg_of inst) mem"
    using assms by (simp_all add: wf_seg_def wf_mem_def cfg_of_wf)
  from fold_opt_rel [OF assms(1) this assms(6), of k isa] show ?thesis
    using assms(7) unfolding Let_def opt_rel_def by (metis less_imp_le_nat truncate_fields)
qed

theorem opt_registers_hold_previous_block_witness:
  "\<exists>s. s = fill_segment_opt_step Avx2 tiny_inst tiny_pos 0
      (fill_segment_opt_init Avx2 (replicate 128 9) tiny_inst tiny_pos (replicate 16 (replicate 128 1))) \<and>
    seg_state s = vecs 4 (seg_memory s ! unat (eff_prev tiny_inst (segment_state.truncate s)))"
proof -
  have i: "wf_inst tiny_inst" "starting_index tiny_pos = 0" "inst_lanes tiny_inst = 2" "pos_lane tiny_pos = 1"
    "pos_slice tiny_pos = 2" "inst_memory_blocks tiny_inst = 16" "inst_segment_length tiny_inst = 2"
    by (simp_all add: tiny_inst_def wf_inst_def tiny_pos_def starting_index_def)
  show ?thesis
    using opt_registers_hold_previous_block [of tiny_inst tiny_pos "replicate 16 (replicate 128 1)" "replicate 128 9" 1 Avx2]
    by (simp add: i Let_def)
qed

text \<open>C21: \<^verbatim>\<open>fill_segment\<close> of opt.c, with any instruction set, computes the same memory as \<^verbatim>\<open>fill_segment\<close> of
  ref.c, which is that of RFC 9106: a password hash does not depend on the build.\<close>

theorem fill_segment_opt_reference:
  assumes "wf_inst inst" "unat (pos_lane pos) < unat (inst_lanes inst)" "unat (pos_slice pos) < 4"
    and "inst_memory inst = Some mem" "length mem = unat (inst_memory_blocks inst)"
    and "\<forall>b \<in> set mem. length b = 128" "length junk = 128" "length junk' = 128"
  shows "fill_segment_opt isa junk (Some inst) pos = fill_segment junk' (Some inst) pos \<and>
    fill_segment_opt isa junk (Some inst) pos = Some (inst\<lparr>inst_memory :=
      Some (rfc_fill_segment (cfg_of inst) (unat (pos_pass pos)) (unat (pos_slice pos)) (unat (pos_lane pos)) mem)\<rparr>)"
proof -
  have w: "wf_seg inst pos" "wf_mem (cfg_of inst) mem"
    using assms by (simp_all add: wf_seg_def wf_mem_def cfg_of_wf)
  show ?thesis
    using fill_segment_opt_eq [OF assms(1) w(1) assms(4) w(2) assms(7), of isa]
      fill_segment_eq [OF assms(1) w(1) assms(4) w(2) assms(7)]
      fill_segment_eq [OF assms(1) w(1) assms(4) w(2) assms(8)] by simp
qed

theorem fill_segment_opt_reference_witness:
  "fill_segment_opt (Sse SSE2) (replicate 128 9) (Some (tiny_inst\<lparr>inst_memory := Some (replicate 16 (replicate 128 1))\<rparr>)) tiny_pos =
    fill_segment (replicate 128 0) (Some (tiny_inst\<lparr>inst_memory := Some (replicate 16 (replicate 128 1))\<rparr>)) tiny_pos"
proof -
  define i where "i = tiny_inst\<lparr>inst_memory := Some (replicate 16 (replicate 128 1))\<rparr>"
  have i: "inst_lanes i = 2" "inst_memory_blocks i = 16" "inst_memory i = Some (replicate 16 (replicate 128 1))"
    "wf_inst i" "pos_lane tiny_pos = 1" "pos_slice tiny_pos = 2"
    by (simp_all add: i_def tiny_inst_def wf_inst_def tiny_pos_def)
  have "fill_segment_opt (Sse SSE2) (replicate 128 9) (Some i) tiny_pos = fill_segment (replicate 128 0) (Some i) tiny_pos"
    using fill_segment_opt_reference [of i tiny_pos "replicate 16 (replicate 128 1)" "replicate 128 9" "replicate 128 0" "Sse SSE2"]
    by (simp add: i)
  then show ?thesis unfolding i_def .
qed

end
