(* ===== verification/Wipe.thy ===== *)
theory Wipe
  imports Prelude
begin

text \<open>
  The wiping functions of \<^verbatim>\<open>src/core.c\<close>: \<^verbatim>\<open>secure_wipe_memory\<close> and \<^verbatim>\<open>clear_internal_memory\<close>.

  Every platform branch of \<^verbatim>\<open>secure_wipe_memory\<close> (\<^verbatim>\<open>SecureZeroMemory\<close>, \<^verbatim>\<open>memset_s\<close>,
  \<^verbatim>\<open>explicit_bzero\<close>, \<^verbatim>\<open>memset\<close> through a volatile pointer) writes \<open>n\<close> zero bytes. The global
  \<^verbatim>\<open>FLAG_clear_internal_memory\<close> can be changed by the program that links the library, so it is
  the argument \<open>fl\<close> of every function that wipes internal memory; \<^term>\<open>1 :: int\<close> is its default.
  A call on a whole typed object \<^verbatim>\<open>(v, sizeof v)\<close> is \<open>clear_internal_object\<close>, which is given the
  value \<open>z\<close> that the all-zero representation of the type stands for.
\<close>

definition FLAG_clear_internal_memory :: int where
  "FLAG_clear_internal_memory = 1"

definition secure_wipe_memory :: "'a::zero list \<Rightarrow> nat \<Rightarrow> 'a list" where
  "secure_wipe_memory v n = memset_at v 0 0 n"

definition clear_internal_memory :: "int \<Rightarrow> 'a::zero list option \<Rightarrow> nat \<Rightarrow> 'a list option" where
  "clear_internal_memory fl v n =
     (case v of None \<Rightarrow> None
      | Some b \<Rightarrow> if fl \<noteq> 0 then Some (secure_wipe_memory b n) else Some b)"

definition clear_internal_object :: "int \<Rightarrow> 'a \<Rightarrow> 'a \<Rightarrow> 'a" where
  "clear_internal_object fl z v = (if fl \<noteq> 0 then z else v)"

lemma length_secure_wipe_memory [len_simps, simp]:
  "n \<le> length v \<Longrightarrow> length (secure_wipe_memory v n) = length v"
  by (simp add: secure_wipe_memory_def)

lemma secure_wipe_memory_all [wipe_simps]:
  "n = length v \<Longrightarrow> secure_wipe_memory v n = replicate n 0"
  by (simp add: secure_wipe_memory_def wipe_simps)

lemma clear_internal_memory_on [wipe_simps]:
  "fl \<noteq> 0 \<Longrightarrow> clear_internal_memory fl (Some v) n = Some (secure_wipe_memory v n)"
  by (simp add: clear_internal_memory_def)

lemma clear_internal_object_on [wipe_simps]: "fl \<noteq> 0 \<Longrightarrow> clear_internal_object fl z v = z"
  by (simp add: clear_internal_object_def)

end
