(* ===== verification/Blake2b.thy ===== *)
theory Blake2b
  imports Blake2_Impl Wipe
begin

text \<open>
  \<^verbatim>\<open>src/blake2/blake2.h\<close> and \<^verbatim>\<open>src/blake2/blake2b.c\<close>: the streaming BLAKE2b hash
  (\<open>blake2b_init\<close>, \<open>blake2b_update\<close>, \<open>blake2b_final\<close>), the one-shot \<open>blake2b\<close> and the
  variable-length \<open>blake2b_long\<close>. Each function returns the C result (\<open>0\<close> or \<open>-1\<close>) and the
  contents of the objects its pointers lead to. The arrays \<^verbatim>\<open>t[2]\<close> and \<^verbatim>\<open>f[2]\<close> of the state are
  the pairs of fields \<open>bs_t0\<close>, \<open>bs_t1\<close> and \<open>bs_f0\<close>, \<open>bs_f1\<close>. A local state that the C leaves
  uninitialised starts as \<open>blake2b_zero\<close>; \<open>blake2b_init_overwrites\<close> shows that its
  contents do not matter.
\<close>

section \<open>Constants and data\<close>

definition BLAKE2B_BLOCKBYTES :: nat where "BLAKE2B_BLOCKBYTES = 128"
definition BLAKE2B_OUTBYTES :: nat where "BLAKE2B_OUTBYTES = 64"
definition BLAKE2B_KEYBYTES :: nat where "BLAKE2B_KEYBYTES = 64"
definition BLAKE2B_SALTBYTES :: nat where "BLAKE2B_SALTBYTES = 16"
definition BLAKE2B_PERSONALBYTES :: nat where "BLAKE2B_PERSONALBYTES = 16"

lemmas blake2b_constants [simp] = BLAKE2B_BLOCKBYTES_def BLAKE2B_OUTBYTES_def BLAKE2B_KEYBYTES_def
  BLAKE2B_SALTBYTES_def BLAKE2B_PERSONALBYTES_def

record blake2b_param =
  P_digest_length :: u8
  P_key_length :: u8
  P_fanout :: u8
  P_depth :: u8
  P_leaf_length :: u32
  P_node_offset :: u64
  P_node_depth :: u8
  P_inner_length :: u8
  P_reserved :: "u8 list"
  P_salt :: "u8 list"
  P_personal :: "u8 list"

record blake2b_state =
  bs_h :: "u64 list"
  bs_t0 :: u64
  bs_t1 :: u64
  bs_f0 :: u64
  bs_f1 :: u64
  bs_buf :: "u8 list"
  bs_buflen :: u32
  bs_outlen :: u32
  bs_last_node :: u8

text \<open>The packed object representation of a parameter block on a little-endian host.\<close>

definition param_bytes :: "blake2b_param \<Rightarrow> u8 list" where
  "param_bytes P =
     [P_digest_length P, P_key_length P, P_fanout P, P_depth P] @ store_bytes 4 (P_leaf_length P) @
     store_bytes 8 (P_node_offset P) @ [P_node_depth P, P_inner_length P] @
     P_reserved P @ P_salt P @ P_personal P"

definition blake2b_zero :: blake2b_state where
  "blake2b_zero = \<lparr>bs_h = replicate 8 0, bs_t0 = 0, bs_t1 = 0, bs_f0 = 0, bs_f1 = 0,
     bs_buf = replicate BLAKE2B_BLOCKBYTES 0, bs_buflen = 0, bs_outlen = 0, bs_last_node = 0\<rparr>"

definition blake2b_IV :: "u64 list" where
  "blake2b_IV =
    [0x6a09e667f3bcc908, 0xbb67ae8584caa73b, 0x3c6ef372fe94f82b, 0xa54ff53a5f1d36f1,
     0x510e527fade682d1, 0x9b05688c2b3e6c1f, 0x1f83d9abfb41bd6b, 0x5be0cd19137e2179]"

definition blake2b_sigma :: "nat list list" where
  "blake2b_sigma =
    [[0, 1, 2, 3, 4, 5, 6, 7, 8, 9, 10, 11, 12, 13, 14, 15],
     [14, 10, 4, 8, 9, 15, 13, 6, 1, 12, 0, 2, 11, 7, 5, 3],
     [11, 8, 12, 0, 5, 2, 15, 13, 10, 14, 3, 6, 7, 1, 9, 4],
     [7, 9, 3, 1, 13, 12, 11, 14, 2, 6, 5, 10, 4, 0, 15, 8],
     [9, 0, 5, 7, 2, 4, 10, 15, 14, 1, 11, 12, 6, 8, 3, 13],
     [2, 12, 6, 10, 0, 11, 8, 3, 4, 13, 7, 5, 15, 14, 1, 9],
     [12, 5, 1, 15, 14, 13, 4, 10, 0, 7, 6, 3, 9, 2, 8, 11],
     [13, 11, 7, 14, 12, 1, 3, 9, 5, 0, 15, 4, 8, 6, 2, 10],
     [6, 15, 14, 9, 11, 3, 0, 8, 12, 2, 13, 7, 1, 4, 10, 5],
     [10, 2, 8, 4, 7, 6, 1, 5, 15, 11, 9, 14, 3, 12, 13, 0],
     [0, 1, 2, 3, 4, 5, 6, 7, 8, 9, 10, 11, 12, 13, 14, 15],
     [14, 10, 4, 8, 9, 15, 13, 6, 1, 12, 0, 2, 11, 7, 5, 3]]"

section \<open>State updates\<close>

definition blake2b_set_lastnode :: "blake2b_state \<Rightarrow> blake2b_state" where
  "blake2b_set_lastnode S = S\<lparr>bs_f1 := -1\<rparr>"

definition blake2b_set_lastblock :: "blake2b_state \<Rightarrow> blake2b_state" where
  "blake2b_set_lastblock S =
     (let S = (if bs_last_node S \<noteq> 0 then blake2b_set_lastnode S else S)
      in S\<lparr>bs_f0 := -1\<rparr>)"

definition blake2b_increment_counter :: "blake2b_state \<Rightarrow> u64 \<Rightarrow> blake2b_state" where
  "blake2b_increment_counter S inc =
     (let S = S\<lparr>bs_t0 := bs_t0 S + inc\<rparr>
      in S\<lparr>bs_t1 := bs_t1 S + (if bs_t0 S < inc then 1 else 0)\<rparr>)"

definition blake2b_invalidate_state :: "int \<Rightarrow> blake2b_state \<Rightarrow> blake2b_state" where
  "blake2b_invalidate_state fl S = blake2b_set_lastblock (clear_internal_object fl blake2b_zero S)"

definition blake2b_init0 :: "blake2b_state \<Rightarrow> blake2b_state" where
  "blake2b_init0 S = blake2b_zero\<lparr>bs_h := blake2b_IV\<rparr>"

definition blake2b_init_param ::
  "blake2b_state option \<Rightarrow> blake2b_param option \<Rightarrow> int \<times> blake2b_state option" where
  "blake2b_init_param S P =
     (case (P, S) of
        (Some P, Some S) \<Rightarrow>
          (let p = param_bytes P;
               S = blake2b_init0 S;
               S = fold (\<lambda>i S. S\<lparr>bs_h := (bs_h S)[i := bs_h S ! i XOR load64 (drop (i * 8) p)]\<rparr>)
                     [0..<8] S;
               S = S\<lparr>bs_outlen := ucast (P_digest_length P)\<rparr>
           in (0, Some S))
      | _ \<Rightarrow> (-1, S))"

definition blake2b_init :: "int \<Rightarrow> blake2b_state option \<Rightarrow> nat \<Rightarrow> int \<times> blake2b_state option" where
  "blake2b_init fl S outlen =
     (case S of None \<Rightarrow> (-1, None)
      | Some s \<Rightarrow>
          if outlen = 0 \<or> outlen > BLAKE2B_OUTBYTES
          then (-1, Some (blake2b_invalidate_state fl s))
          else blake2b_init_param (Some s)
            (Some \<lparr>P_digest_length = word_of_nat outlen, P_key_length = 0, P_fanout = 1, P_depth = 1,
               P_leaf_length = 0, P_node_offset = 0, P_node_depth = 0, P_inner_length = 0,
               P_reserved = replicate 14 0, P_salt = replicate BLAKE2B_SALTBYTES 0,
               P_personal = replicate BLAKE2B_PERSONALBYTES 0\<rparr>))"

section \<open>Compression\<close>

definition blake2b_G ::
  "u64 list \<Rightarrow> nat \<Rightarrow> nat \<Rightarrow> nat \<Rightarrow> nat \<Rightarrow> nat \<Rightarrow> nat \<Rightarrow> u64 list \<Rightarrow> u64 list" where
  "blake2b_G m r i a b c d v =
     (let v = v[a := v ! a + v ! b + m ! (blake2b_sigma ! r ! (2 * i + 0))];
          v = v[d := rotr64 (v ! d XOR v ! a) 32];
          v = v[c := v ! c + v ! d];
          v = v[b := rotr64 (v ! b XOR v ! c) 24];
          v = v[a := v ! a + v ! b + m ! (blake2b_sigma ! r ! (2 * i + 1))];
          v = v[d := rotr64 (v ! d XOR v ! a) 16];
          v = v[c := v ! c + v ! d];
          v = v[b := rotr64 (v ! b XOR v ! c) 63]
      in v)"

definition blake2b_ROUND :: "u64 list \<Rightarrow> nat \<Rightarrow> u64 list \<Rightarrow> u64 list" where
  "blake2b_ROUND m r v =
     (let v = blake2b_G m r 0 0 4 8 12 v;
          v = blake2b_G m r 1 1 5 9 13 v;
          v = blake2b_G m r 2 2 6 10 14 v;
          v = blake2b_G m r 3 3 7 11 15 v;
          v = blake2b_G m r 4 0 5 10 15 v;
          v = blake2b_G m r 5 1 6 11 12 v;
          v = blake2b_G m r 6 2 7 8 13 v;
          v = blake2b_G m r 7 3 4 9 14 v
      in v)"

definition blake2b_compress :: "blake2b_state \<Rightarrow> u8 list \<Rightarrow> blake2b_state" where
  "blake2b_compress S block =
     (let m = map (\<lambda>i. load64 (drop (i * 8) block)) [0..<16];
          v = map (\<lambda>i. bs_h S ! i) [0..<8] @
            [blake2b_IV ! 0, blake2b_IV ! 1, blake2b_IV ! 2, blake2b_IV ! 3,
             blake2b_IV ! 4 XOR bs_t0 S, blake2b_IV ! 5 XOR bs_t1 S,
             blake2b_IV ! 6 XOR bs_f0 S, blake2b_IV ! 7 XOR bs_f1 S];
          v = fold (blake2b_ROUND m) [0..<12] v
      in fold (\<lambda>i S. S\<lparr>bs_h := (bs_h S)[i := bs_h S ! i XOR v ! i XOR v ! (i + 8)]\<rparr>) [0..<8] S)"

section \<open>The streaming interface\<close>

fun blake2b_update_loop ::
  "blake2b_state \<Rightarrow> u8 list \<Rightarrow> nat \<Rightarrow> blake2b_state \<times> u8 list \<times> nat" where
  "blake2b_update_loop S pin inlen =
     (if inlen > BLAKE2B_BLOCKBYTES
      then blake2b_update_loop
             (blake2b_compress
                (blake2b_increment_counter S (word_of_nat BLAKE2B_BLOCKBYTES)) pin)
             (drop BLAKE2B_BLOCKBYTES pin) (inlen - BLAKE2B_BLOCKBYTES)
      else (S, pin, inlen))"

declare blake2b_update_loop.simps [simp del]

definition blake2b_update ::
  "blake2b_state option \<Rightarrow> u8 list option \<Rightarrow> nat \<Rightarrow> int \<times> blake2b_state option" where
  "blake2b_update S inp inlen =
     (if inlen = 0 then (0, S)
      else case (S, inp) of
        (Some s, Some pin) \<Rightarrow>
          if bs_f0 s \<noteq> 0 then (-1, Some s)
          else
            (let (s, pin, inlen) =
               (if size_add (unat (bs_buflen s)) inlen > BLAKE2B_BLOCKBYTES
                then let left = unat (bs_buflen s);
                         fill = BLAKE2B_BLOCKBYTES - left;
                         s = s\<lparr>bs_buf := memcpy_at (bs_buf s) left pin fill\<rparr>;
                         s = blake2b_increment_counter s (word_of_nat BLAKE2B_BLOCKBYTES);
                         s = blake2b_compress s (bs_buf s);
                         s = s\<lparr>bs_buflen := 0\<rparr>
                     in blake2b_update_loop s (drop fill pin) (inlen - fill)
                else (s, pin, inlen));
                 s = s\<lparr>bs_buf := memcpy_at (bs_buf s) (unat (bs_buflen s)) pin inlen\<rparr>;
                 s = s\<lparr>bs_buflen := bs_buflen s + word_of_nat inlen\<rparr>
             in (0, Some s))
      | _ \<Rightarrow> (-1, S))"

definition blake2b_init_key ::
  "int \<Rightarrow> blake2b_state option \<Rightarrow> nat \<Rightarrow> u8 list option \<Rightarrow> nat \<Rightarrow> int \<times> blake2b_state option" where
  "blake2b_init_key fl S outlen key keylen =
     (case S of None \<Rightarrow> (-1, None)
      | Some s \<Rightarrow>
          if outlen = 0 \<or> outlen > BLAKE2B_OUTBYTES
          then (-1, Some (blake2b_invalidate_state fl s))
          else if key = None \<or> keylen = 0 \<or> keylen > BLAKE2B_KEYBYTES
          then (-1, Some (blake2b_invalidate_state fl s))
          else
            (let (r, S) = blake2b_init_param (Some s)
               (Some \<lparr>P_digest_length = word_of_nat outlen, P_key_length = word_of_nat keylen,
                  P_fanout = 1, P_depth = 1, P_leaf_length = 0, P_node_offset = 0, P_node_depth = 0,
                  P_inner_length = 0, P_reserved = replicate 14 0,
                  P_salt = replicate BLAKE2B_SALTBYTES 0,
                  P_personal = replicate BLAKE2B_PERSONALBYTES 0\<rparr>)
             in if r < 0 then (-1, map_option (blake2b_invalidate_state fl) S)
                else let block = memcpy_at (replicate BLAKE2B_BLOCKBYTES 0) 0 (the key) keylen;
                         (_, S) = blake2b_update S (Some block) BLAKE2B_BLOCKBYTES
                     in (0, S)))"

definition blake2b_final ::
  "int \<Rightarrow> blake2b_state option \<Rightarrow> u8 list option \<Rightarrow> nat \<Rightarrow>
    int \<times> blake2b_state option \<times> u8 list option" where
  "blake2b_final fl S out outlen =
     (case (S, out) of
        (Some s, Some o') \<Rightarrow>
          if outlen < unat (bs_outlen s) then (-1, S, out)
          else if bs_f0 s \<noteq> 0 then (-1, S, out)
          else
            (let s = blake2b_increment_counter s (ucast (bs_buflen s));
                 s = blake2b_set_lastblock s;
                 s = s\<lparr>bs_buf := memset_at (bs_buf s) (unat (bs_buflen s)) 0
                           (BLAKE2B_BLOCKBYTES - unat (bs_buflen s))\<rparr>;
                 s = blake2b_compress s (bs_buf s);
                 buffer = fold (\<lambda>i b. store64 b (8 * i) (bs_h s ! i)) [0..<8]
                            (replicate BLAKE2B_OUTBYTES 0);
                 o' = memcpy_at o' 0 buffer (unat (bs_outlen s));
                 s = s\<lparr>bs_buf := clear_internal_object fl (replicate BLAKE2B_BLOCKBYTES 0) (bs_buf s)\<rparr>;
                 s = s\<lparr>bs_h := clear_internal_object fl (replicate 8 0) (bs_h s)\<rparr>
             in (0, Some s, Some o'))
      | _ \<Rightarrow> (-1, S, out))"

section \<open>The one-shot interface\<close>

text \<open>The third component is the final contents of the local state, which the code wipes.\<close>

definition blake2b ::
  "int \<Rightarrow> u8 list option \<Rightarrow> nat \<Rightarrow> u8 list option \<Rightarrow> nat \<Rightarrow> u8 list option \<Rightarrow> nat \<Rightarrow>
    int \<times> u8 list option \<times> blake2b_state option" where
  "blake2b fl out outlen inp inlen key keylen =
     (let S = Some blake2b_zero;
          fail = (\<lambda>S out. (-1, out, map_option (clear_internal_object fl blake2b_zero) S))
      in
      if inp = None \<and> inlen > 0 then fail S out
      else if out = None \<or> outlen = 0 \<or> outlen > BLAKE2B_OUTBYTES then fail S out
      else if (key = None \<and> keylen > 0) \<or> keylen > BLAKE2B_KEYBYTES then fail S out
      else
        (let (r, S) = (if keylen > 0 then blake2b_init_key fl S outlen key keylen
                       else blake2b_init fl S outlen)
         in if r < 0 then fail S out
         else let (r, S) = blake2b_update S inp inlen
         in if r < 0 then fail S out
         else let (ret, S, out) = blake2b_final fl S out outlen
         in (ret, out, map_option (clear_internal_object fl blake2b_zero) S)))"

definition UINT32_MAX :: nat where "UINT32_MAX = 2 ^ 32 - 1"

lemma UINT32_MAX_simp [simp]: "UINT32_MAX = 4294967295"
  by (simp add: UINT32_MAX_def)

text \<open>The \<^verbatim>\<open>while (toproduce > BLAKE2B_OUTBYTES)\<close> loop: result code, output buffer, position in it,
  \<^verbatim>\<open>out_buffer\<close>, bytes still to produce. \<^verbatim>\<open>in_buffer\<close> is a copy of \<^verbatim>\<open>out_buffer\<close>.\<close>

function blake2b_long_loop ::
  "int \<Rightarrow> u8 list option \<Rightarrow> nat \<Rightarrow> u8 list \<Rightarrow> u32 \<Rightarrow> int \<times> u8 list option \<times> nat \<times> u8 list \<times> u32" where
  "blake2b_long_loop fl out pos out_buffer toproduce =
     (if unat toproduce > BLAKE2B_OUTBYTES
      then let in_buffer = out_buffer;
               (ret, ob, _) = blake2b fl (Some out_buffer) BLAKE2B_OUTBYTES (Some in_buffer)
                                BLAKE2B_OUTBYTES None 0
           in if ret < 0 then (ret, out, pos, out_buffer, toproduce)
              else blake2b_long_loop fl
                     (map_option (\<lambda>o'. memcpy_at o' pos (the ob) (BLAKE2B_OUTBYTES div 2)) out)
                     (pos + BLAKE2B_OUTBYTES div 2) (the ob)
                     (toproduce - word_of_nat (BLAKE2B_OUTBYTES div 2))
      else (0, out, pos, out_buffer, toproduce))"
  by pat_completeness auto
termination
  by (relation "measure (\<lambda>(fl, out, pos, ob, n). unat n)") (simp_all, unat_arith)

declare blake2b_long_loop.simps [simp del]

definition blake2b_long ::
  "int \<Rightarrow> u8 list option \<Rightarrow> nat \<Rightarrow> u8 list option \<Rightarrow> nat \<Rightarrow>
    int \<times> u8 list option \<times> blake2b_state option" where
  "blake2b_long fl pout outlen inp inlen =
     (let S = Some blake2b_zero;
          exit = (\<lambda>ret out S. (ret, out, map_option (clear_internal_object fl blake2b_zero) S))
      in
      if outlen > UINT32_MAX then exit (-1) pout S
      else
       let outlen_bytes = store32 (replicate 4 0) 0 (word_of_nat outlen) in
       if outlen \<le> BLAKE2B_OUTBYTES
       then let (ret, S) = blake2b_init fl S outlen in
         if ret < 0 then exit ret pout S
         else let (ret, S) = blake2b_update S (Some outlen_bytes) 4 in
         if ret < 0 then exit ret pout S
         else let (ret, S) = blake2b_update S inp inlen in
         if ret < 0 then exit ret pout S
         else let (ret, S, out) = blake2b_final fl S pout outlen in
         exit ret out S
       else let (ret, S) = blake2b_init fl S BLAKE2B_OUTBYTES in
         if ret < 0 then exit ret pout S
         else let (ret, S) = blake2b_update S (Some outlen_bytes) 4 in
         if ret < 0 then exit ret pout S
         else let (ret, S) = blake2b_update S inp inlen in
         if ret < 0 then exit ret pout S
         else let (ret, S, ob) = blake2b_final fl S (Some (replicate BLAKE2B_OUTBYTES 0))
                                   BLAKE2B_OUTBYTES in
         if ret < 0 then exit ret pout S
         else let out = map_option (\<lambda>o'. memcpy_at o' 0 (the ob) (BLAKE2B_OUTBYTES div 2)) pout;
                  (ret, out, pos, out_buffer, toproduce) =
                    blake2b_long_loop fl out (BLAKE2B_OUTBYTES div 2) (the ob)
                      (word_of_nat outlen - word_of_nat (BLAKE2B_OUTBYTES div 2)) in
         if ret < 0 then exit ret out S
         else let in_buffer = out_buffer;
                  (ret, ob, _) = blake2b fl (Some out_buffer) (unat toproduce) (Some in_buffer)
                                   BLAKE2B_OUTBYTES None 0 in
         if ret < 0 then exit ret out S
         else exit ret (map_option (\<lambda>o'. memcpy_at o' pos (the ob) (unat toproduce)) out) S)"

end
