(* ===== verification/Core.thy ===== *)
theory Core
  imports Ref Blake2b
begin

text \<open>
  \<^verbatim>\<open>src/core.c\<close> and \<^verbatim>\<open>src/thread.c\<close>: allocation and release of the matrix, input validation, the initial hash, the first
  blocks, the filling of the matrix by one or several threads, and the final tag. What the
  environment decides is the record \<open>env\<close>: the results of the allocators, of thread creation
  and joining, the order in which running threads advance, and the garbage in uninitialised
  locals. The matrix is the field \<open>inst_memory\<close> of the instance, and the functions that take
  a pointer to the instance return it. The code guarded by \<^verbatim>\<open>GENKAT\<close> is not compiled into the
  library; it is in \<open>Genkat\<close>.
\<close>

section \<open>The environment\<close>

text \<open>The calls of \<^verbatim>\<open>malloc\<close> in the library.\<close>

datatype alloc_site = Alloc_matrix | Alloc_hash_out | Alloc_verify_salt | Alloc_verify_out | Alloc_verify_result

text \<open>What the functions of \<^verbatim>\<open>src/thread.c\<close> get from the operating system: the results of \<^verbatim>\<open>pthread_create\<close> and
  \<^verbatim>\<open>pthread_join\<close>; on Windows, the handle that \<^verbatim>\<open>_beginthreadex\<close> returns, and whether waiting for the
  thread and closing its handle have succeeded.\<close>

datatype os_create = Pthread_create int | Beginthreadex nat

datatype os_join = Pthread_join int | Wait_close bool bool

record env =
  env_flag :: int
  env_malloc :: "alloc_site \<Rightarrow> nat \<Rightarrow> u8 list option"
  env_junk :: "nat \<Rightarrow> nat \<Rightarrow> nat \<Rightarrow> block"
  env_calloc_thread :: bool
  env_calloc_data :: bool
  env_create :: "nat \<Rightarrow> nat \<Rightarrow> nat \<Rightarrow> os_create"
  env_join :: "nat \<Rightarrow> nat \<Rightarrow> nat \<Rightarrow> os_join"
  env_sched :: "nat \<Rightarrow> nat \<Rightarrow> nat \<Rightarrow> nat list"

section \<open>Memory functions\<close>

text \<open>The outer option is the pointer \<^verbatim>\<open>memory\<close>, the inner one the pointer it points to.\<close>

definition allocate_memory ::
  "env \<Rightarrow> argon2_context \<Rightarrow> u8 list option option \<Rightarrow> nat \<Rightarrow> nat \<Rightarrow>
    argon2_error_codes \<times> u8 list option option" where
  "allocate_memory e context memory num sz =
     (let memory_size = (num * sz) mod 2 ^ 64 in
      if memory = None then (ARGON2_MEMORY_ALLOCATION_ERROR, memory)
      else if sz \<noteq> 0 \<and> memory_size div sz \<noteq> num then (ARGON2_MEMORY_ALLOCATION_ERROR, memory)
      else let memory = Some (case ctx_allocate_cbk context of
                 Some cbk \<Rightarrow> cbk memory_size
               | None \<Rightarrow> env_malloc e Alloc_matrix memory_size) in
      if memory = Some None then (ARGON2_MEMORY_ALLOCATION_ERROR, memory)
      else (ARGON2_OK, memory))"

text \<open>The call that gives the memory back, with the content it is given back with.\<close>

datatype release =
    Release_cbk nat "u8 list option" nat
  | Release_free "u8 list option"

definition free_memory :: "env \<Rightarrow> argon2_context \<Rightarrow> u8 list option \<Rightarrow> nat \<Rightarrow> nat \<Rightarrow> release" where
  "free_memory e context memory num sz =
     (let memory_size = (num * sz) mod 2 ^ 64;
          memory = clear_internal_memory (env_flag e) memory memory_size
      in case ctx_free_cbk context of
           Some cbk \<Rightarrow> Release_cbk cbk memory memory_size
         | None \<Rightarrow> Release_free memory)"

section \<open>Input validation\<close>

definition validate_inputs :: "argon2_context option \<Rightarrow> argon2_error_codes" where
  "validate_inputs context =
     (case context of None \<Rightarrow> ARGON2_INCORRECT_PARAMETER
      | Some context \<Rightarrow>
        if ctx_out context = None then ARGON2_OUTPUT_PTR_NULL
        else if ARGON2_MIN_OUTLEN > ctx_outlen context then ARGON2_OUTPUT_TOO_SHORT
        else if ARGON2_MAX_OUTLEN < ctx_outlen context then ARGON2_OUTPUT_TOO_LONG
        else if ctx_pwd context = None \<and> 0 \<noteq> ctx_pwdlen context then ARGON2_PWD_PTR_MISMATCH
        else if ARGON2_MIN_PWD_LENGTH > ctx_pwdlen context then ARGON2_PWD_TOO_SHORT
        else if ARGON2_MAX_PWD_LENGTH < ctx_pwdlen context then ARGON2_PWD_TOO_LONG
        else if ctx_salt context = None \<and> 0 \<noteq> ctx_saltlen context then ARGON2_SALT_PTR_MISMATCH
        else if ARGON2_MIN_SALT_LENGTH > ctx_saltlen context then ARGON2_SALT_TOO_SHORT
        else if ARGON2_MAX_SALT_LENGTH < ctx_saltlen context then ARGON2_SALT_TOO_LONG
        else if ctx_secret context = None \<and> 0 \<noteq> ctx_secretlen context then ARGON2_SECRET_PTR_MISMATCH
        else if ctx_secret context \<noteq> None \<and> ARGON2_MIN_SECRET > ctx_secretlen context
        then ARGON2_SECRET_TOO_SHORT
        else if ctx_secret context \<noteq> None \<and> ARGON2_MAX_SECRET < ctx_secretlen context
        then ARGON2_SECRET_TOO_LONG
        else if ctx_ad context = None \<and> 0 \<noteq> ctx_adlen context then ARGON2_AD_PTR_MISMATCH
        else if ctx_ad context \<noteq> None \<and> ARGON2_MIN_AD_LENGTH > ctx_adlen context then ARGON2_AD_TOO_SHORT
        else if ctx_ad context \<noteq> None \<and> ARGON2_MAX_AD_LENGTH < ctx_adlen context then ARGON2_AD_TOO_LONG
        else if ARGON2_MIN_MEMORY > ctx_m_cost context then ARGON2_MEMORY_TOO_LITTLE
        else if ARGON2_MAX_MEMORY < ucast (ctx_m_cost context) then ARGON2_MEMORY_TOO_MUCH
        else if ctx_m_cost context < 8 * ctx_lanes context then ARGON2_MEMORY_TOO_LITTLE
        else if ARGON2_MIN_TIME > ctx_t_cost context then ARGON2_TIME_TOO_SMALL
        else if ARGON2_MAX_TIME < ctx_t_cost context then ARGON2_TIME_TOO_LARGE
        else if ARGON2_MIN_LANES > ctx_lanes context then ARGON2_LANES_TOO_FEW
        else if ARGON2_MAX_LANES < ctx_lanes context then ARGON2_LANES_TOO_MANY
        else if ARGON2_MIN_THREADS > ctx_threads context then ARGON2_THREADS_TOO_FEW
        else if ARGON2_MAX_THREADS < ctx_threads context then ARGON2_THREADS_TOO_MANY
        else if ctx_allocate_cbk context \<noteq> None \<and> ctx_free_cbk context = None
        then ARGON2_FREE_MEMORY_CBK_NULL
        else if ctx_allocate_cbk context = None \<and> ctx_free_cbk context \<noteq> None
        then ARGON2_ALLOCATE_MEMORY_CBK_NULL
        else ARGON2_OK)"

section \<open>The initial hash and the first blocks\<close>

text \<open>\<open>hash_u32\<close> is the pair of statements \<^verbatim>\<open>store32(&value, x); blake2b_update(&BlakeHash, &value, 4)\<close>.\<close>

definition hash_u32 :: "u32 \<Rightarrow> blake2b_state option \<Rightarrow> blake2b_state option" where
  "hash_u32 x S = snd (blake2b_update S (Some (store32 (replicate 4 0) 0 x)) 4)"

definition initial_hash ::
  "env \<Rightarrow> u8 list option \<Rightarrow> argon2_context option \<Rightarrow> argon2_type \<Rightarrow>
    u8 list option \<times> argon2_context option" where
  "initial_hash e blockhash context type =
     (case (context, blockhash) of
        (Some context, Some blockhash) \<Rightarrow>
          (let S = snd (blake2b_init (env_flag e) (Some blake2b_zero) ARGON2_PREHASH_DIGEST_LENGTH);
               S = hash_u32 (ctx_lanes context) S;
               S = hash_u32 (ctx_outlen context) S;
               S = hash_u32 (ctx_m_cost context) S;
               S = hash_u32 (ctx_t_cost context) S;
               S = hash_u32 (ctx_version context) S;
               S = hash_u32 (type_code type) S;
               S = hash_u32 (ctx_pwdlen context) S;
               (S, context) =
                 (case ctx_pwd context of None \<Rightarrow> (S, context)
                  | Some pwd \<Rightarrow>
                      (snd (blake2b_update S (Some pwd) (unat (ctx_pwdlen context))),
                       if ctx_flags context AND ARGON2_FLAG_CLEAR_PASSWORD \<noteq> 0
                       then context\<lparr>ctx_pwd := Some (secure_wipe_memory pwd (unat (ctx_pwdlen context))),
                                    ctx_pwdlen := 0\<rparr>
                       else context));
               S = hash_u32 (ctx_saltlen context) S;
               S = (case ctx_salt context of None \<Rightarrow> S
                    | Some salt \<Rightarrow> snd (blake2b_update S (Some salt) (unat (ctx_saltlen context))));
               S = hash_u32 (ctx_secretlen context) S;
               (S, context) =
                 (case ctx_secret context of None \<Rightarrow> (S, context)
                  | Some secret \<Rightarrow>
                      (snd (blake2b_update S (Some secret) (unat (ctx_secretlen context))),
                       if ctx_flags context AND ARGON2_FLAG_CLEAR_SECRET \<noteq> 0
                       then context\<lparr>ctx_secret := Some (secure_wipe_memory secret (unat (ctx_secretlen context))),
                                    ctx_secretlen := 0\<rparr>
                       else context));
               S = hash_u32 (ctx_adlen context) S;
               S = (case ctx_ad context of None \<Rightarrow> S
                    | Some ad \<Rightarrow> snd (blake2b_update S (Some ad) (unat (ctx_adlen context))));
               (_, _, blockhash) =
                 blake2b_final (env_flag e) S (Some blockhash) ARGON2_PREHASH_DIGEST_LENGTH
           in (blockhash, Some context))
      | _ \<Rightarrow> (blockhash, context))"

text \<open>One round of the loop of \<^verbatim>\<open>fill_first_blocks\<close>; the local buffer \<^verbatim>\<open>blockhash_bytes\<close> is written
  before it is read.\<close>

definition fill_first_lane ::
  "env \<Rightarrow> argon2_instance_t \<Rightarrow> nat \<Rightarrow> u8 list \<times> block list \<Rightarrow> u8 list \<times> block list" where
  "fill_first_lane e inst l =
     (\<lambda>(blockhash, mem).
        let at = unat (word_of_nat l * inst_lane_length inst);
            bytes = replicate ARGON2_BLOCK_SIZE 0;
            blockhash = store32 blockhash ARGON2_PREHASH_DIGEST_LENGTH 0;
            blockhash = store32 blockhash (ARGON2_PREHASH_DIGEST_LENGTH + 4) (word_of_nat l);
            (_, bytes, _) = blake2b_long (env_flag e) (Some bytes) ARGON2_BLOCK_SIZE (Some blockhash)
                              ARGON2_PREHASH_SEED_LENGTH;
            mem = store_at mem at (load_block (mem ! at) (the bytes));
            blockhash = store32 blockhash ARGON2_PREHASH_DIGEST_LENGTH 1;
            (_, bytes, _) = blake2b_long (env_flag e) bytes ARGON2_BLOCK_SIZE (Some blockhash)
                              ARGON2_PREHASH_SEED_LENGTH;
            at = unat (word_of_nat l * inst_lane_length inst + 1);
            mem = store_at mem at (load_block (mem ! at) (the bytes))
        in (blockhash, mem))"

definition fill_first_blocks ::
  "env \<Rightarrow> u8 list \<Rightarrow> argon2_instance_t \<Rightarrow> u8 list \<times> argon2_instance_t" where
  "fill_first_blocks e blockhash inst =
     (let (blockhash, mem) = fold (fill_first_lane e inst) [0..<unat (inst_lanes inst)]
                               (blockhash, the (inst_memory inst))
      in (blockhash, inst\<lparr>inst_memory := Some mem\<rparr>))"

text \<open>The last component is the content of the local \<^verbatim>\<open>blockhash\<close> when the function returns;
  \<^verbatim>\<open>sizeof(block)\<close> is \<^verbatim>\<open>ARGON2_BLOCK_SIZE\<close>.\<close>

definition initialize ::
  "env \<Rightarrow> argon2_instance_t option \<Rightarrow> argon2_context option \<Rightarrow>
    argon2_error_codes \<times> argon2_instance_t option \<times> argon2_context option \<times> u8 list" where
  "initialize e inst context =
     (let blockhash = replicate ARGON2_PREHASH_SEED_LENGTH 0 in
      case (inst, context) of
        (Some inst, Some context) \<Rightarrow>
          (let (result, memory) = allocate_memory e context (Some (map_option bytes_of_blocks (inst_memory inst)))
                                    (unat (inst_memory_blocks inst)) ARGON2_BLOCK_SIZE;
               inst = inst\<lparr>inst_memory := map_option blocks_of_bytes (the memory)\<rparr>
           in if result \<noteq> ARGON2_OK then (result, Some inst, Some context, blockhash)
              else let (bh, context) = initial_hash e (Some blockhash) (Some context) (inst_type inst);
                       blockhash = the bh;
                       blockhash = take ARGON2_PREHASH_DIGEST_LENGTH blockhash @
                         the (clear_internal_memory (env_flag e)
                               (Some (drop ARGON2_PREHASH_DIGEST_LENGTH blockhash))
                               (ARGON2_PREHASH_SEED_LENGTH - ARGON2_PREHASH_DIGEST_LENGTH));
                       (blockhash, inst) = fill_first_blocks e blockhash inst;
                       blockhash = the (clear_internal_memory (env_flag e) (Some blockhash)
                                          ARGON2_PREHASH_SEED_LENGTH)
                   in (ARGON2_OK, Some inst, context, blockhash))
      | _ \<Rightarrow> (ARGON2_INCORRECT_PARAMETER, inst, context, blockhash))"

section \<open>Finalisation\<close>

definition finalize ::
  "env \<Rightarrow> argon2_context option \<Rightarrow> argon2_instance_t option \<Rightarrow>
    argon2_context option \<times> release option" where
  "finalize e context inst =
     (case (context, inst) of
        (Some context, Some inst) \<Rightarrow>
          (let mem = the (inst_memory inst);
               blockhash = copy_block (replicate 128 0) (mem ! (unat (inst_lane_length inst) - 1));
               blockhash = fold (\<lambda>l b.
                   let last_block_in_lane =
                     word_of_nat l * inst_lane_length inst + (inst_lane_length inst - 1)
                   in xor_block b (mem ! unat last_block_in_lane)) [1..<unat (inst_lanes inst)] blockhash;
               blockhash_bytes = store_block (replicate ARGON2_BLOCK_SIZE 0) blockhash;
               (_, out, _) = blake2b_long (env_flag e) (ctx_out context) (unat (ctx_outlen context))
                               (Some blockhash_bytes) ARGON2_BLOCK_SIZE;
               context = context\<lparr>ctx_out := out\<rparr>
           in (Some context,
               Some (free_memory e context (map_option bytes_of_blocks (inst_memory inst))
                       (unat (inst_memory_blocks inst)) ARGON2_BLOCK_SIZE)))
      | _ \<Rightarrow> (context, None))"

section \<open>Filling by one thread\<close>

definition position :: "nat \<Rightarrow> nat \<Rightarrow> nat \<Rightarrow> argon2_position_t" where
  "position r s l = \<lparr>pos_pass = word_of_nat r, pos_lane = word_of_nat l, pos_slice = word_of_nat s,
     pos_index = 0\<rparr>"

definition fill_memory_blocks_st ::
  "env \<Rightarrow> argon2_instance_t \<Rightarrow> argon2_error_codes \<times> argon2_instance_t" where
  "fill_memory_blocks_st e inst =
     (ARGON2_OK,
      fold (\<lambda>r. fold (\<lambda>s. fold (\<lambda>l inst. the (fill_segment (env_junk e r s l) (Some inst) (position r s l)))
              [0..<unat (inst_lanes inst)]) [0..<unat ARGON2_SYNC_POINTS])
        [0..<unat (inst_passes inst)] inst)"

section \<open>Filling by several threads\<close>

text \<open>
  A running thread executes \<^verbatim>\<open>fill_segment\<close> for its position; its locals are those of the loop, with
  the memory left out, since all threads share it. A thread advances by one block at a time, in
  whatever order the scheduler picks: before every action of the main thread in slice \<open>(r, s)\<close>,
  the lanes of a list \<open>env_sched e r s action\<close> advance, one block for every entry. A join that
  succeeds returns when the thread is done. A block update is one step of the
  interleaving: no thread reads what another one writes in the same slice, as
  \<open>index_alpha_safe\<close> shows, so a finer interleaving of the words gives nothing else.
\<close>

record thread =
  thr_pos :: argon2_position_t
  thr_next :: nat
  thr_seg :: segment_state

type_synonym mt_state = "thread option list \<times> block list"

definition argon2_thread_create :: "'h option \<Rightarrow> 'f option \<Rightarrow> os_create \<Rightarrow> int" where
  "argon2_thread_create handle func r =
     (if None = handle \<or> func = None then -1
      else case r of Pthread_create rc \<Rightarrow> rc | Beginthreadex h \<Rightarrow> if h \<noteq> 0 then 0 else -1)"

definition argon2_thread_join :: "os_join \<Rightarrow> int" where
  "argon2_thread_join r =
     (case r of Pthread_join rc \<Rightarrow> rc | Wait_close waited closed \<Rightarrow> if waited then if closed then 0 else -1 else -1)"

lemma thread_results [simp]:
  "argon2_thread_create (Some h) (Some f) (Pthread_create rc) = rc" "argon2_thread_join (Pthread_join rc) = rc"
  by (simp_all add: argon2_thread_create_def argon2_thread_join_def)

text \<open>In \<^verbatim>\<open>core.c\<close>, neither \<^verbatim>\<open>&thread[l]\<close> nor \<^verbatim>\<open>&fill_segment_thr\<close> is null.\<close>

abbreviation create_result :: "env \<Rightarrow> nat \<Rightarrow> nat \<Rightarrow> nat \<Rightarrow> int" where
  "create_result e r s l \<equiv> argon2_thread_create (Some l) (Some ()) (env_create e r s l)"

abbreviation join_result :: "env \<Rightarrow> nat \<Rightarrow> nat \<Rightarrow> nat \<Rightarrow> int" where
  "join_result e r s l \<equiv> argon2_thread_join (env_join e r s l)"

definition start_thread :: "block \<Rightarrow> argon2_instance_t \<Rightarrow> argon2_position_t \<Rightarrow> thread" where
  "start_thread junk inst pos =
     \<lparr>thr_pos = pos, thr_next = starting_index pos, thr_seg = fill_segment_init junk inst pos []\<rparr>"

definition advance :: "argon2_instance_t \<Rightarrow> nat \<Rightarrow> mt_state \<Rightarrow> mt_state" where
  "advance inst l =
     (\<lambda>(ths, mem).
        if l < length ths
        then case ths ! l of
            None \<Rightarrow> (ths, mem)
          | Some t \<Rightarrow>
              if thr_next t < unat (inst_segment_length inst)
              then let s = fill_segment_step inst (thr_pos t) (thr_next t) ((thr_seg t)\<lparr>seg_memory := mem\<rparr>)
                   in (ths[l := Some (t\<lparr>thr_next := thr_next t + 1, thr_seg := s\<lparr>seg_memory := []\<rparr>\<rparr>)],
                       seg_memory s)
              else (ths, mem)
        else (ths, mem))"

definition run_threads :: "argon2_instance_t \<Rightarrow> nat list \<Rightarrow> mt_state \<Rightarrow> mt_state" where
  "run_threads inst ls = fold (advance inst) ls"

definition thread_join ::
  "env \<Rightarrow> argon2_instance_t \<Rightarrow> nat \<Rightarrow> nat \<Rightarrow> nat \<Rightarrow> nat \<Rightarrow> mt_state \<Rightarrow> int \<times> mt_state" where
  "thread_join e inst r s action l st =
     (let st = run_threads inst (env_sched e r s action) st in
      if join_result e r s l \<noteq> 0 then (join_result e r s l, st)
      else (0, run_threads inst (replicate (unat (inst_segment_length inst)) l) st))"

text \<open>The loop that creates the threads of a slice: action \<open>2 * l\<close> is the join that keeps the number
  of threads within the limit, action \<open>2 * l + 1\<close> the creation of thread \<open>l\<close>.\<close>

fun create_threads ::
  "env \<Rightarrow> argon2_instance_t \<Rightarrow> nat \<Rightarrow> nat \<Rightarrow> nat list \<Rightarrow> mt_state \<Rightarrow> argon2_error_codes \<times> mt_state" where
  "create_threads e inst r s [] st = (ARGON2_OK, st)"
| "create_threads e inst r s (l # ls) st =
     (let (j, st) = (if l \<ge> unat (inst_threads inst)
                     then thread_join e inst r s (2 * l) (l - unat (inst_threads inst)) st else (0, st)) in
      if j \<noteq> 0 then (ARGON2_THREAD_FAIL, st)
      else let (ths, mem) = run_threads inst (env_sched e r s (2 * l + 1)) st in
      if create_result e r s l \<noteq> 0
      then (ARGON2_THREAD_FAIL,
            fold (\<lambda>ll st. snd (thread_join e inst r s (2 * l + 1) ll st)) [0..<l] (ths, mem))
      else create_threads e inst r s ls
             (ths[l := Some (start_thread (env_junk e r s l) inst (position r s l))], mem))"

text \<open>The loop that joins the remaining threads; action \<open>2 * (lanes + l)\<close> is the join of thread \<open>l\<close>.\<close>

fun join_threads ::
  "env \<Rightarrow> argon2_instance_t \<Rightarrow> nat \<Rightarrow> nat \<Rightarrow> nat list \<Rightarrow> mt_state \<Rightarrow> argon2_error_codes \<times> mt_state" where
  "join_threads e inst r s [] st = (ARGON2_OK, st)"
| "join_threads e inst r s (l # ls) st =
     (let (j, st) = thread_join e inst r s (2 * (unat (inst_lanes inst) + l)) l st in
      if j \<noteq> 0 then (ARGON2_THREAD_FAIL, st) else join_threads e inst r s ls st)"

text \<open>The threads of the slice before have been joined, so that no thread runs when a slice starts.\<close>

definition fill_slice_mt ::
  "env \<Rightarrow> argon2_instance_t \<Rightarrow> nat \<Rightarrow> nat \<Rightarrow> block list \<Rightarrow> argon2_error_codes \<times> block list" where
  "fill_slice_mt e inst r s mem =
     (let lanes = unat (inst_lanes inst);
          (rc, st) = create_threads e inst r s [0..<lanes] (replicate lanes None, mem)
      in if rc \<noteq> ARGON2_OK then (rc, snd st)
         else let (rc, st) = join_threads e inst r s [unat (inst_lanes inst - inst_threads inst)..<lanes] st
              in (rc, snd st))"

fun fill_slices_mt ::
  "env \<Rightarrow> argon2_instance_t \<Rightarrow> (nat \<times> nat) list \<Rightarrow> block list \<Rightarrow> argon2_error_codes \<times> block list" where
  "fill_slices_mt e inst [] mem = (ARGON2_OK, mem)"
| "fill_slices_mt e inst ((r, s) # rs) mem =
     (let (rc, mem) = fill_slice_mt e inst r s mem in
      if rc \<noteq> ARGON2_OK then (rc, mem) else fill_slices_mt e inst rs mem)"

definition fill_memory_blocks_mt ::
  "env \<Rightarrow> argon2_instance_t \<Rightarrow> argon2_error_codes \<times> argon2_instance_t" where
  "fill_memory_blocks_mt e inst =
     (if \<not> env_calloc_thread e then (ARGON2_MEMORY_ALLOCATION_ERROR, inst)
      else if \<not> env_calloc_data e then (ARGON2_MEMORY_ALLOCATION_ERROR, inst)
      else let (rc, mem) = fill_slices_mt e inst
                 (List.product [0..<unat (inst_passes inst)] [0..<unat ARGON2_SYNC_POINTS])
                 (the (inst_memory inst))
           in (rc, inst\<lparr>inst_memory := Some mem\<rparr>))"

definition fill_memory_blocks ::
  "env \<Rightarrow> argon2_instance_t option \<Rightarrow> argon2_error_codes \<times> argon2_instance_t option" where
  "fill_memory_blocks e inst =
     (case inst of None \<Rightarrow> (ARGON2_INCORRECT_PARAMETER, None)
      | Some inst \<Rightarrow>
          if inst_lanes inst = 0 then (ARGON2_INCORRECT_PARAMETER, Some inst)
          else let (rc, inst) = (if inst_threads inst = 1 then fill_memory_blocks_st e inst
                                 else fill_memory_blocks_mt e inst)
               in (rc, Some inst))"

end
