(* ===== verification/Encoding.thy ===== *)
theory Encoding
  imports Core "HOL-Library.While_Combinator"
begin

text \<open>
  \<^verbatim>\<open>src/encoding.c\<close>: Base64 without padding, decimal numbers, and the encoded form of a hash with its
  parameters; and \<^verbatim>\<open>argon2_type2string\<close> of \<^verbatim>\<open>src/argon2.c\<close>, which both directions use.

  A C string that is only read is the list of its characters before the terminating zero; reading
  at its end gives the zero. A \<^verbatim>\<open>char\<close> is a byte, and \<^verbatim>\<open>char\<close> is signed, as it is on the platforms the
  library is built for: converted to \<^verbatim>\<open>int\<close>, a byte is sign-extended. An \<^verbatim>\<open>int\<close> that the macros
  convert to \<^verbatim>\<open>unsigned\<close> is the word of its bits. The write position in an output buffer is an
  offset; \<open>put\<close> and \<open>memcpy_at\<close> past the end make the buffer longer, so that a lemma on the length
  of a result says that no write left the buffer.
\<close>

section \<open>Strings\<close>

definition chars :: "string \<Rightarrow> u8 list" where
  "chars s = map of_char s"

abbreviation uc :: "char \<Rightarrow> u32" where
  "uc c \<equiv> of_char c"

definition put :: "u8 list \<Rightarrow> nat \<Rightarrow> u8 \<Rightarrow> u8 list" where
  "put dst at c = memcpy_at dst at [c] 1"

text \<open>The \<^verbatim>\<open>%lu\<close> conversion of \<^verbatim>\<open>sprintf\<close>.\<close>

fun decimal :: "nat \<Rightarrow> u8 list" where
  "decimal n = (if n < 10 then [of_nat (48 + n)] else decimal (n div 10) @ [of_nat (48 + n mod 10)])"

declare decimal.simps [simp del]

definition argon2_type2string :: "argon2_type \<Rightarrow> int \<Rightarrow> string option" where
  "argon2_type2string type uppercase =
     (case type of
        Argon2_d \<Rightarrow> Some (if uppercase \<noteq> 0 then ''Argon2d'' else ''argon2d'')
      | Argon2_i \<Rightarrow> Some (if uppercase \<noteq> 0 then ''Argon2i'' else ''argon2i'')
      | Argon2_id \<Rightarrow> Some (if uppercase \<noteq> 0 then ''Argon2id'' else ''argon2id'')
      | _ \<Rightarrow> None)"

section \<open>Constant-time comparisons\<close>

definition EQ :: "u32 \<Rightarrow> u32 \<Rightarrow> u32" where
  "EQ x y = (drop_bit 8 (0 - (x XOR y)) AND 0xFF) XOR 0xFF"

definition GT :: "u32 \<Rightarrow> u32 \<Rightarrow> u32" where
  "GT x y = drop_bit 8 (y - x) AND 0xFF"

definition GE :: "u32 \<Rightarrow> u32 \<Rightarrow> u32" where
  "GE x y = GT y x XOR 0xFF"

definition LT :: "u32 \<Rightarrow> u32 \<Rightarrow> u32" where
  "LT x y = GT y x"

definition LE :: "u32 \<Rightarrow> u32 \<Rightarrow> u32" where
  "LE x y = GE y x"

section \<open>Base64\<close>

definition b64_byte_to_char :: "u32 \<Rightarrow> u32" where
  "b64_byte_to_char x =
     (LT x 26 AND (x + uc CHR ''A'')) OR
     (GE x 26 AND LT x 52 AND (x + (uc CHR ''a'' - 26))) OR
     (GE x 52 AND LT x 62 AND (x + (uc CHR ''0'' - 52))) OR (EQ x 62 AND uc CHR ''+'') OR
     (EQ x 63 AND uc CHR ''/'')"

definition b64_char_to_byte :: "u32 \<Rightarrow> u32" where
  "b64_char_to_byte c =
     (let x = (GE c (uc CHR ''A'') AND LE c (uc CHR ''Z'') AND (c - uc CHR ''A'')) OR
              (GE c (uc CHR ''a'') AND LE c (uc CHR ''z'') AND (c - (uc CHR ''a'' - 26))) OR
              (GE c (uc CHR ''0'') AND LE c (uc CHR ''9'') AND (c - (uc CHR ''0'' - 52))) OR
              (EQ c (uc CHR ''+'') AND 62) OR
              (EQ c (uc CHR ''/'') AND 63)
      in x OR (EQ x 0 AND (EQ c (uc CHR ''A'') XOR 0xFF)))"

text \<open>The length of the encoding, computed in \<^verbatim>\<open>size_t\<close>, as \<^verbatim>\<open>to_base64\<close> and \<^verbatim>\<open>b64len\<close> compute it.\<close>

definition b64_olen :: "nat \<Rightarrow> nat" where
  "b64_olen n =
     (let olen = (n div 3) * 4 mod 2 ^ 64;
          olen = (if n mod 3 = 2 then size_add olen 1 else olen)
      in if n mod 3 = 2 \<or> n mod 3 = 1 then size_add olen 2 else olen)"

definition b64len :: "u32 \<Rightarrow> nat" where
  "b64len len = b64_olen (unat len)"

text \<open>The inner loop of \<^verbatim>\<open>to_base64\<close>.\<close>

fun to_base64_emit :: "u32 \<Rightarrow> nat \<Rightarrow> u8 list \<times> nat \<Rightarrow> nat \<times> u8 list \<times> nat" where
  "to_base64_emit acc acc_len (dst, at) =
     (if acc_len \<ge> 6
      then to_base64_emit acc (acc_len - 6)
             (put dst at (ucast (b64_byte_to_char (drop_bit (acc_len - 6) acc AND 0x3F))), at + 1)
      else (acc_len, dst, at))"

declare to_base64_emit.simps [simp del]

definition to_base64_step :: "u8 \<Rightarrow> u32 \<times> nat \<times> u8 list \<times> nat \<Rightarrow> u32 \<times> nat \<times> u8 list \<times> nat" where
  "to_base64_step c =
     (\<lambda>(acc, acc_len, dst, at).
        let acc = push_bit 8 acc + ucast c; acc_len = acc_len + 8
        in (acc, to_base64_emit acc acc_len (dst, at)))"

definition SIZE_MAX :: nat where "SIZE_MAX = 2 ^ 64 - 1"

text \<open>The result is the value returned, with \<open>SIZE_MAX\<close> for \<^verbatim>\<open>(size_t)-1\<close>, and the buffer, in which
  \<^verbatim>\<open>dst\<close> points to offset \<open>at\<close>.\<close>

definition to_base64 :: "u8 list \<Rightarrow> nat \<Rightarrow> nat \<Rightarrow> u8 list \<Rightarrow> nat \<Rightarrow> nat \<times> u8 list" where
  "to_base64 dst at dst_len src src_len =
     (let olen = b64_olen src_len in
      if dst_len \<le> olen then (SIZE_MAX, dst)
      else let (acc, acc_len, dst, at) = fold to_base64_step (take src_len src) (0, 0, dst, at);
               (dst, at) = (if acc_len > 0
                 then (put dst at (ucast (b64_byte_to_char (push_bit (6 - acc_len) acc AND 0x3F))), at + 1)
                 else (dst, at))
           in (olen, put dst at 0))"

text \<open>The loop of \<^verbatim>\<open>from_base64\<close>: the outer option is the return of \<^verbatim>\<open>NULL\<close>, the last component is the
  buffer. The terminating zero is not a Base64 character.\<close>

fun from_base64_loop ::
  "nat \<Rightarrow> u8 list \<Rightarrow> u32 \<Rightarrow> nat \<Rightarrow> nat \<Rightarrow> u8 list \<Rightarrow> (u8 list \<times> u32 \<times> nat \<times> nat) option \<times> u8 list" where
  "from_base64_loop dst_len [] acc acc_len len buf = (Some ([], acc, acc_len, len), buf)"
| "from_base64_loop dst_len (c # src) acc acc_len len buf =
     (let d = b64_char_to_byte (scast c) in
      if d = 0xFF then (Some (c # src, acc, acc_len, len), buf)
      else let acc = push_bit 6 acc + d; acc_len = acc_len + 6 in
           if acc_len \<ge> 8
           then let acc_len = acc_len - 8 in
                if len \<ge> dst_len then (None, buf)
                else from_base64_loop dst_len src acc acc_len (len + 1)
                       (put buf len (ucast (drop_bit acc_len acc AND 0xFF)))
           else from_base64_loop dst_len src acc acc_len len buf)"

lemma nul_not_base64: "b64_char_to_byte (scast (0 :: u8)) = 0xFF"
  by (simp add: b64_char_to_byte_def EQ_def GE_def LE_def GT_def)

declare from_base64_loop.simps(2) [simp del]

text \<open>The components of the result: the pointer returned, \<^verbatim>\<open>*dst_len\<close>, and the buffer.\<close>

definition from_base64 :: "u8 list \<Rightarrow> nat \<Rightarrow> u8 list \<Rightarrow> u8 list option \<times> nat \<times> u8 list" where
  "from_base64 dst dst_len src =
     (case from_base64_loop dst_len src 0 0 0 dst of
        (None, dst) \<Rightarrow> (None, dst_len, dst)
      | (Some (src, acc, acc_len, len), dst) \<Rightarrow>
          if acc_len > 4 \<or> acc AND (push_bit acc_len 1 - 1) \<noteq> 0 then (None, dst_len, dst)
          else (Some src, len, dst))"

section \<open>Decimal numbers\<close>

text \<open>The loop of \<^verbatim>\<open>decode_decimal\<close>; \<^verbatim>\<open>ULONG_MAX\<close> is the largest 64-bit word. The characters are compared
  as signed numbers.\<close>

fun decode_decimal_loop :: "u8 list \<Rightarrow> u64 \<Rightarrow> (u8 list \<times> u64) option" where
  "decode_decimal_loop [] acc = Some ([], acc)"
| "decode_decimal_loop (b # str) acc =
     (let c = sint b in
      if c < 48 \<or> c > 57 then Some (b # str, acc)
      else let c = c - 48 in
      if acc > - 1 div 10 then None
      else let acc = acc * 10 in
      if word_of_int c > - 1 - acc then None
      else decode_decimal_loop str (acc + word_of_int c))"

definition decode_decimal :: "u8 list \<Rightarrow> (u8 list \<times> u64) option" where
  "decode_decimal orig =
     (case decode_decimal_loop orig 0 of
        None \<Rightarrow> None
      | Some (str, acc) \<Rightarrow>
          if length str = length orig \<or> (hd orig = 48 \<and> length str \<noteq> length orig - 1) then None
          else Some (str, acc))"

definition numlen :: "u32 \<Rightarrow> nat" where
  "numlen num = snd (while (\<lambda>(num, len). num \<ge> 10) (\<lambda>(num, len). (num div 10, len + 1)) (num, 1))"

section \<open>Statements that may return\<close>

text \<open>A macro either returns from the function, with \<open>Inl\<close> of what the function leaves, or goes on
  with \<open>Inr\<close> of the state; a body is a list of such statements.\<close>

fun and_then :: "('s \<Rightarrow> 'e + 's) \<Rightarrow> 'e + 's \<Rightarrow> 'e + 's" where
  "and_then f (Inl e) = Inl e"
| "and_then f (Inr s) = f s"

definition run_body :: "('s \<Rightarrow> 'e + 's) list \<Rightarrow> 's \<Rightarrow> 'e + 's" where
  "run_body body s = fold and_then body (Inr s)"

section \<open>Encoding\<close>

text \<open>The state of \<^verbatim>\<open>encode_string\<close>: the buffer, the offset of \<^verbatim>\<open>dst\<close> in it, and \<^verbatim>\<open>dst_len\<close>.\<close>

type_synonym enc_state = "u8 list \<times> nat \<times> nat"
type_synonym enc_result = "(argon2_error_codes \<times> u8 list) + (u8 list \<times> nat \<times> nat)"

definition SS :: "u8 list \<Rightarrow> enc_state \<Rightarrow> enc_result" where
  "SS str =
     (\<lambda>(dst, at, dst_len).
        let pp_len = length str in
        if pp_len \<ge> dst_len then Inl (ARGON2_ENCODING_FAIL, dst)
        else Inr (memcpy_at dst at (str @ [0]) (pp_len + 1), at + pp_len, dst_len - pp_len))"

definition SX :: "u32 \<Rightarrow> enc_state \<Rightarrow> enc_result" where
  "SX x = SS (decimal (unat x))"

definition SB :: "u8 list \<Rightarrow> u32 \<Rightarrow> enc_state \<Rightarrow> enc_result" where
  "SB buf len =
     (\<lambda>(dst, at, dst_len).
        let (sb_len, dst) = to_base64 dst at dst_len buf (unat len) in
        if sb_len = SIZE_MAX then Inl (ARGON2_ENCODING_FAIL, dst)
        else Inr (dst, at + sb_len, dst_len - sb_len))"

definition encode_string ::
  "u8 list \<Rightarrow> nat \<Rightarrow> argon2_context option \<Rightarrow> argon2_type \<Rightarrow> argon2_error_codes \<times> u8 list" where
  "encode_string dst dst_len ctx type =
     (case argon2_type2string type 0 of
        None \<Rightarrow> (ARGON2_ENCODING_FAIL, dst)
      | Some type_string \<Rightarrow>
          if validate_inputs ctx \<noteq> ARGON2_OK then (validate_inputs ctx, dst)
          else let ctx = the ctx in
               case run_body
                 [SS (chars ''$''), SS (chars type_string),
                  SS (chars ''$v=''), SX (ctx_version ctx),
                  SS (chars ''$m=''), SX (ctx_m_cost ctx),
                  SS (chars '',t=''), SX (ctx_t_cost ctx),
                  SS (chars '',p=''), SX (ctx_lanes ctx),
                  SS (chars ''$''), SB (the (ctx_salt ctx)) (ctx_saltlen ctx),
                  SS (chars ''$''), SB (the (ctx_out ctx)) (ctx_outlen ctx)]
                 (dst, 0, dst_len) of
                 Inl r \<Rightarrow> r
               | Inr (dst, _) \<Rightarrow> (ARGON2_OK, dst))"

section \<open>Decoding\<close>

text \<open>The state of \<^verbatim>\<open>decode_string\<close>: the context and \<^verbatim>\<open>str\<close>, as the characters that are left.\<close>

type_synonym dec_state = "argon2_context \<times> u8 list"
type_synonym dec_result = "(argon2_error_codes \<times> argon2_context) + (argon2_context \<times> u8 list)"

definition CC :: "u8 list \<Rightarrow> dec_state \<Rightarrow> dec_result" where
  "CC prefix =
     (\<lambda>(ctx, str).
        let cc_len = length prefix in
        if take cc_len str \<noteq> prefix then Inl (ARGON2_DECODING_FAIL, ctx) else Inr (ctx, drop cc_len str))"

definition CC_opt :: "u8 list \<Rightarrow> (dec_state \<Rightarrow> dec_result) \<Rightarrow> dec_state \<Rightarrow> dec_result" where
  "CC_opt prefix code =
     (\<lambda>(ctx, str).
        let cc_len = length prefix in
        if take cc_len str = prefix then code (ctx, drop cc_len str) else Inr (ctx, str))"

definition DECIMAL_U32 :: "(u32 \<Rightarrow> argon2_context \<Rightarrow> argon2_context) \<Rightarrow> dec_state \<Rightarrow> dec_result" where
  "DECIMAL_U32 assign =
     (\<lambda>(ctx, str).
        case decode_decimal str of
          None \<Rightarrow> Inl (ARGON2_DECODING_FAIL, ctx)
        | Some (str, dec_x) \<Rightarrow>
            if dec_x > 0xFFFFFFFF then Inl (ARGON2_DECODING_FAIL, ctx)
            else Inr (assign (ucast dec_x) ctx, str))"

text \<open>\<^verbatim>\<open>BIN\<close> on the two buffers of the context.\<close>

definition BIN_salt :: "nat \<Rightarrow> dec_state \<Rightarrow> dec_result" where
  "BIN_salt max_len =
     (\<lambda>(ctx, str).
        let (r, bin_len, buf) = from_base64 (the (ctx_salt ctx)) max_len str;
            ctx = ctx\<lparr>ctx_salt := Some buf\<rparr>
        in case r of
             None \<Rightarrow> Inl (ARGON2_DECODING_FAIL, ctx)
           | Some str \<Rightarrow>
               if bin_len > 0xFFFFFFFF then Inl (ARGON2_DECODING_FAIL, ctx)
               else Inr (ctx\<lparr>ctx_saltlen := word_of_nat bin_len\<rparr>, str))"

definition BIN_out :: "nat \<Rightarrow> dec_state \<Rightarrow> dec_result" where
  "BIN_out max_len =
     (\<lambda>(ctx, str).
        let (r, bin_len, buf) = from_base64 (the (ctx_out ctx)) max_len str;
            ctx = ctx\<lparr>ctx_out := Some buf\<rparr>
        in case r of
             None \<Rightarrow> Inl (ARGON2_DECODING_FAIL, ctx)
           | Some str \<Rightarrow>
               if bin_len > 0xFFFFFFFF then Inl (ARGON2_DECODING_FAIL, ctx)
               else Inr (ctx\<lparr>ctx_outlen := word_of_nat bin_len\<rparr>, str))"

definition assign :: "(argon2_context \<Rightarrow> argon2_context) \<Rightarrow> dec_state \<Rightarrow> dec_result" where
  "assign f = (\<lambda>(ctx, str). Inr (f ctx, str))"

definition decode_body :: "string \<Rightarrow> nat \<Rightarrow> nat \<Rightarrow> (dec_state \<Rightarrow> dec_result) list" where
  "decode_body type_string maxsaltlen maxoutlen =
     [CC (chars ''$''), CC (chars type_string),
      assign (\<lambda>ctx. ctx\<lparr>ctx_version := ARGON2_VERSION_10\<rparr>),
      CC_opt (chars ''$v='') (DECIMAL_U32 (\<lambda>x ctx. ctx\<lparr>ctx_version := x\<rparr>)),
      CC (chars ''$m=''), DECIMAL_U32 (\<lambda>x ctx. ctx\<lparr>ctx_m_cost := x\<rparr>),
      CC (chars '',t=''), DECIMAL_U32 (\<lambda>x ctx. ctx\<lparr>ctx_t_cost := x\<rparr>),
      CC (chars '',p=''), DECIMAL_U32 (\<lambda>x ctx. ctx\<lparr>ctx_lanes := x\<rparr>),
      assign (\<lambda>ctx. ctx\<lparr>ctx_threads := ctx_lanes ctx\<rparr>),
      CC (chars ''$''), BIN_salt maxsaltlen,
      CC (chars ''$''), BIN_out maxoutlen,
      assign (\<lambda>ctx. ctx\<lparr>ctx_secret := None, ctx_secretlen := 0, ctx_ad := None, ctx_adlen := 0,
        ctx_allocate_cbk := None, ctx_free_cbk := None, ctx_flags := ARGON2_DEFAULT_FLAGS\<rparr>)]"

definition decode_string ::
  "argon2_context \<Rightarrow> u8 list \<Rightarrow> argon2_type \<Rightarrow> argon2_error_codes \<times> argon2_context" where
  "decode_string ctx str type =
     (case argon2_type2string type 0 of
        None \<Rightarrow> (ARGON2_INCORRECT_TYPE, ctx)
      | Some type_string \<Rightarrow>
          case run_body (decode_body type_string (unat (ctx_saltlen ctx)) (unat (ctx_outlen ctx))) (ctx, str) of
            Inl r \<Rightarrow> r
          | Inr (ctx, str) \<Rightarrow>
              if validate_inputs (Some ctx) \<noteq> ARGON2_OK then (validate_inputs (Some ctx), ctx)
              else if str = [] then (ARGON2_OK, ctx)
              else (ARGON2_DECODING_FAIL, ctx))"

end
