(* ===== verification/Base64_Chars.thy ===== *)
theory Base64_Chars
  imports Encoding
begin

text \<open>
  The character level of \<open>Encoding\<close>: what the constant-time comparisons compute on \<^verbatim>\<open>char\<close> values,
  the Base64 alphabet of RFC 4648 and its two conversions, the bits that wait in the accumulator of
  the Base64 loops, and \<open>b64\<close>, the encoding itself.
\<close>

section \<open>Comparisons\<close>

lemma sint_byte: "sint (c :: u8) = (if unat c < 128 then int (unat c) else int (unat c) - 256)"
proof -
  define n where "n = unat c"
  have n: "n < 256" using unat_lt_u8 [of c] by (simp add: n_def)
  have l: "LENGTH(8) - Suc 0 = 7" "(2 :: int) ^ 7 = 128" "(2 :: int) ^ Suc 7 = 256" by simp_all
  have "sint c = (int n + 128) mod 256 - 128"
    unfolding sint_uint signed_take_bit_eq_take_bit_shift uint_nat n_def [symmetric] take_bit_int_def l ..
  also have "(int n + 128) mod 256 - 128 = (if n < 128 then int n else int n - 256)"
  proof (cases "n < 128")
    case False
    then have "int n + 128 = (int n - 128) + 256" by simp
    then have "(int n + 128) mod 256 = (int n - 128) mod 256" by (simp only: mod_add_self2)
    also have "\<dots> = int n - 128" using False n by (intro mod_pos_pos_trivial) simp_all
    finally show ?thesis using False by simp
  qed simp
  finally show ?thesis by (simp only: n_def)
qed

lemma scast_ascii: "unat c < 128 \<Longrightarrow> (scast (c :: u8) :: u32) = word_of_nat (unat c)"
  unfolding scast_eq sint_byte by (simp only: if_True of_int_of_nat_eq)

lemma scast_high: "\<not> unat c < 128 \<Longrightarrow> (scast (c :: u8) :: u32) = word_of_nat (2 ^ 32 + unat c - 256)"
proof -
  assume "\<not> unat c < 128"
  then have "(scast c :: u32) = word_of_int (int (unat c) - 256)"
    unfolding scast_eq sint_byte by (simp only: if_False)
  also have "\<dots> = word_of_int (int (unat c) - 256 + 2 ^ 32)" by simp
  also have "int (unat c) - 256 + 2 ^ 32 = int (2 ^ 32 + unat c - 256)" by simp
  finally show ?thesis by (simp only: of_int_of_nat_eq)
qed

lemma unat_small: "n < 2 ^ 32 \<Longrightarrow> unat (word_of_nat n :: u32) = n"
  by (simp add: unat_of_nat take_bit_nat_eq_self)



lemma unat_mask_255: "unat (x AND 255 :: u32) = unat x mod 256"
proof -
  have "x AND 255 = take_bit 8 x" by (simp add: take_bit_eq_mask mask_eq_exp_minus_1)
  then show ?thesis by (simp only: unsigned_take_bit_eq take_bit_nat_def) simp
qed

lemma unat_sub_u32:
  "unat (x - y :: u32) = (if unat y \<le> unat x then unat x - unat y else unat x + 2 ^ 32 - unat y)"
  by (simp add: unat_sub_if_size word_size)

lemma div_mod_byte: "n = 256 * k + r \<Longrightarrow> r < 256 \<Longrightarrow> n div 2 ^ 8 mod 256 = k mod (256 :: nat)"
  by simp

text \<open>The two ranges of an \<^verbatim>\<open>int\<close> made from a \<^verbatim>\<open>char\<close>.\<close>

lemma gt_nat:
  assumes "a < 256" "b < 256"
  shows "GT (word_of_nat a) (word_of_nat b) = (if a > b then 255 else 0)"
proof -
  have u: "unat (word_of_nat a :: u32) = a" "unat (word_of_nat b :: u32) = b"
    using assms by (auto intro!: unat_small)
  have "a > b \<Longrightarrow> (b + 2 ^ 32 - a) div 2 ^ 8 mod 256 = 255"
    using assms by (subst div_mod_byte [where k = 16777215 and r = "b + 256 - a"]) auto
  then have "unat (GT (word_of_nat a) (word_of_nat b)) = (if a > b then 255 else 0)"
    using assms unfolding GT_def unat_mask_255 unat_drop_bit_eq drop_bit_nat_def unat_sub_u32 u by auto
  then show ?thesis by (auto simp: word_unat_eq_iff)
qed

lemma gt_high:
  assumes "a < 128" "2 ^ 32 - 128 \<le> b" "b < 2 ^ 32"
  shows "GT (word_of_nat a) (word_of_nat b) = 255" "GT (word_of_nat b) (word_of_nat a) = 0"
proof -
  have u: "unat (word_of_nat a :: u32) = a" "unat (word_of_nat b :: u32) = b"
    using assms by (auto intro!: unat_small)
  have "(b - a) div 2 ^ 8 mod 256 = 255"
    using assms by (subst div_mod_byte [where k = 16777215 and r = "b - a - 4294967040"]) auto
  moreover have "(a + 2 ^ 32 - b) div 2 ^ 8 mod 256 = 0"
    using assms by (simp add: div_less)
  ultimately
  have "unat (GT (word_of_nat a) (word_of_nat b)) = 255" "unat (GT (word_of_nat b) (word_of_nat a)) = 0"
    using assms unfolding GT_def unat_mask_255 unat_drop_bit_eq drop_bit_nat_def unat_sub_u32 u by auto
  then show "GT (word_of_nat a) (word_of_nat b) = 255" "GT (word_of_nat b) (word_of_nat a) = 0"
    by (simp_all add: word_unat_eq_iff)
qed


lemma eq_of_gap:
  fixes z :: u32
  shows "unat z < 256 \<Longrightarrow> (drop_bit 8 (0 - z) AND 255) XOR 255 = (if z = 0 then 255 else 0)"
    and "2 ^ 32 - 128 \<le> unat z \<Longrightarrow> (drop_bit 8 (0 - z) AND 255) XOR 255 = 255"
proof -
  have z: "unat z < 2 ^ 32" by (rule unat_lt_u32)
  have m: "unat (drop_bit 8 (0 - z) AND 255) = (if unat z = 0 then 0 else (2 ^ 32 - unat z) div 2 ^ 8 mod 256)"
    unfolding unat_mask_255 unat_drop_bit_eq drop_bit_nat_def unat_sub_u32 by simp
  show "(drop_bit 8 (0 - z) AND 255) XOR 255 = (if z = 0 then 255 else 0)" if "unat z < 256"
  proof (cases "unat z = 0")
    case False
    have "(2 ^ 32 - unat z) div 2 ^ 8 mod 256 = 255"
      using that False by (subst div_mod_byte [where k = 16777215 and r = "256 - unat z"]) auto
    then have "drop_bit 8 (0 - z) AND 255 = 255" using m False by (simp add: word_unat_eq_iff)
    then show ?thesis using False by auto
  qed (simp add: unat_eq_0)
  show "(drop_bit 8 (0 - z) AND 255) XOR 255 = 255" if "2 ^ 32 - 128 \<le> unat z"
  proof -
    have "(2 ^ 32 - unat z) div 2 ^ 8 mod 256 = 0" using that z by (simp add: div_less)
    then have "drop_bit 8 (0 - z) AND 255 = 0" using m by (simp add: word_unat_eq_iff)
    then show ?thesis by simp
  qed
qed

lemma eq_nat:
  assumes "a < 256" "b < 256"
  shows "EQ (word_of_nat a) (word_of_nat b) = (if a = b then 255 else 0)"
proof -
  have u: "unat (word_of_nat a :: u32) = a" "unat (word_of_nat b :: u32) = b"
    using assms by (auto intro!: unat_small)
  let ?z = "word_of_nat a XOR word_of_nat b :: u32"
  have "drop_bit 8 (word_of_nat a :: u32) = 0" "drop_bit 8 (word_of_nat b :: u32) = 0"
    using assms by (simp_all add: word_unat_eq_iff unat_drop_bit_eq u drop_bit_nat_def)
  then have "drop_bit 8 ?z = 0" by simp
  then have "unat ?z div 2 ^ 8 = 0" by (simp only: word_unat_eq_iff unat_drop_bit_eq drop_bit_nat_def unsigned_0)
  then have "unat ?z < 256" unfolding div_eq_0_iff by simp
  moreover have "(?z = 0) = (a = b)" unfolding xor_zero_iff using u by metis
  ultimately show ?thesis unfolding EQ_def by (simp only: eq_of_gap(1))
qed

lemma eq_high:
  assumes "a < 128" "2 ^ 32 - 128 \<le> b" "b < 2 ^ 32"
  shows "EQ (word_of_nat b) (word_of_nat a) = 255"
proof -
  have u: "unat (word_of_nat a :: u32) = a" "unat (word_of_nat b :: u32) = b"
    using assms by (auto intro!: unat_small)
  let ?z = "word_of_nat b XOR word_of_nat a :: u32"
  have "b div 2 ^ 7 = 2 ^ 25 - 1" using assms by simp
  then have "drop_bit 7 (word_of_nat a :: u32) = 0" "drop_bit 7 (word_of_nat b :: u32) = 2 ^ 25 - 1"
    using assms by (simp_all add: word_unat_eq_iff unat_drop_bit_eq u drop_bit_nat_def)
  then have "drop_bit 7 ?z = 2 ^ 25 - 1" by simp
  then have "unat (drop_bit 7 ?z) = unat (2 ^ 25 - 1 :: u32)" by (simp only:)
  then have "unat ?z div 2 ^ 7 = 2 ^ 25 - 1" unfolding unat_drop_bit_eq drop_bit_nat_def by simp
  then have "2 ^ 32 - 128 \<le> unat ?z" by simp
  then show ?thesis unfolding EQ_def by (simp only: eq_of_gap(2))
qed


section \<open>The alphabet\<close>

definition b64_alphabet :: "u8 list" where
  "b64_alphabet = chars ''ABCDEFGHIJKLMNOPQRSTUVWXYZabcdefghijklmnopqrstuvwxyz0123456789+/''"

definition b64_char :: "nat \<Rightarrow> u8" where
  "b64_char v = b64_alphabet ! v"

text \<open>The code of a character, as ranges.\<close>

definition b64_code :: "nat \<Rightarrow> nat" where
  "b64_code v = (if v < 26 then v + 65 else if v < 52 then v + 71 else if v < 62 then v - 4
     else if v = 62 then 43 else 47)"

lemma b64_char_code: "v < 64 \<Longrightarrow> b64_char v = word_of_nat (b64_code v)"
proof -
  have "b64_alphabet = map (\<lambda>v. word_of_nat (b64_code v)) [0..<64]" by code_simp
  then have "b64_char v = map (\<lambda>v. word_of_nat (b64_code v)) [0..<64] ! v" by (simp only: b64_char_def)
  then show "v < 64 \<Longrightarrow> b64_char v = word_of_nat (b64_code v)" by (simp only: nth_map length_upt nth_upt) simp
qed

lemma gt_num:
  "b < 256 \<Longrightarrow> numeral m < (256 :: nat) \<Longrightarrow> GT (numeral m) (word_of_nat b) = (if numeral m > b then 255 else 0)"
  "a < 256 \<Longrightarrow> numeral m < (256 :: nat) \<Longrightarrow> GT (word_of_nat a) (numeral m) = (if a > numeral m then 255 else 0)"
  "a < 256 \<Longrightarrow> numeral m < (256 :: nat) \<Longrightarrow> EQ (word_of_nat a) (numeral m) = (if a = numeral m then 255 else 0)"
  using gt_nat [of "numeral m" b] gt_nat [of a "numeral m"] eq_nat [of a "numeral m"] by simp_all

lemma mask_small: "n < 256 \<Longrightarrow> (255 :: u32) AND word_of_nat n = word_of_nat n"
  using unat_mask_255 [of "word_of_nat n"] unat_small [of n]
  by (simp add: word_unat_eq_iff and.commute)

lemma b64_byte_to_char_nat: "v < 64 \<Longrightarrow> b64_byte_to_char (word_of_nat v) = word_of_nat (b64_code v)"
proof -
  assume v: "v < 64"
  define A B C where "A = (word_of_nat v + uc CHR ''A'' :: u32)" and "B = word_of_nat v + (uc CHR ''a'' - 26)"
    and "C = word_of_nat v + (uc CHR ''0'' - 52)"
  have A: "A = word_of_nat (v + 65)" by (simp add: A_def)
  have B: "B = word_of_nat (v + 71)" by (simp add: B_def)
  have C: "52 \<le> v \<Longrightarrow> C = word_of_nat (v - 4)" by (simp add: C_def of_nat_diff)
  have M: "255 AND A = A" "255 AND B = B" "52 \<le> v \<Longrightarrow> 255 AND C = C"
    using v mask_small [of "v + 65"] mask_small [of "v + 71"] mask_small [of "v - 4"] by (simp_all only: A B C)
  have "b64_byte_to_char (word_of_nat v) = (if v < 26 then A else if v < 52 then B else if v < 62 then C
      else if v = 62 then 43 else 47)"
    unfolding b64_byte_to_char_def A_def [symmetric] B_def [symmetric] C_def [symmetric] LT_def GE_def
    using v by (cases "v < 26"; cases "v < 52"; cases "v < 62") (simp_all add: gt_num M)
  then show ?thesis using v by (simp add: b64_code_def A B C)
qed

text \<open>The value of a character.\<close>

definition b64_value :: "nat \<Rightarrow> nat option" where
  "b64_value n = (if 65 \<le> n \<and> n \<le> 90 then Some (n - 65) else if 97 \<le> n \<and> n \<le> 122 then Some (n - 71)
     else if 48 \<le> n \<and> n \<le> 57 then Some (n + 4) else if n = 43 then Some 62 else if n = 47 then Some 63
     else None)"

lemma b64_value_code: "b64_value n = Some v \<longleftrightarrow> v < 64 \<and> n = b64_code v"
  by (auto simp: b64_value_def b64_code_def split: if_splits)

lemma b64_char_to_byte_nat:
  "n < 128 \<Longrightarrow> b64_char_to_byte (word_of_nat n) = (case b64_value n of None \<Rightarrow> 255 | Some v \<Rightarrow> word_of_nat v)"
proof -
  assume n: "n < 128"
  define A B C where "A = (word_of_nat n - uc CHR ''A'' :: u32)" and "B = word_of_nat n - (uc CHR ''a'' - 26)"
    and "C = word_of_nat n - (uc CHR ''0'' - 52)"
  have A: "65 \<le> n \<Longrightarrow> A = word_of_nat (n - 65)" by (simp add: A_def of_nat_diff)
  have B: "97 \<le> n \<Longrightarrow> B = word_of_nat (n - 71)" by (simp add: B_def of_nat_diff)
  have C: "C = word_of_nat (n + 4)" by (simp add: C_def)
  have M: "n \<le> 90 \<Longrightarrow> 65 \<le> n \<Longrightarrow> 255 AND A = A" "97 \<le> n \<Longrightarrow> 255 AND B = B" "255 AND C = C"
    using n mask_small [of "n - 65"] mask_small [of "n - 71"] mask_small [of "n + 4"] by (simp_all only: A B C)
  define k where "k = (case b64_value n of None \<Rightarrow> 0 | Some v \<Rightarrow> v)"
  have k: "k < 256" by (auto simp: k_def b64_value_code split: option.split)
  have c: "uc CHR ''A'' = 65" "uc CHR ''Z'' = 90" "uc CHR ''a'' = 97" "uc CHR ''z'' = 122" "uc CHR ''0'' = 48"
    "uc CHR ''9'' = 57" "uc CHR ''+'' = 43" "uc CHR ''/'' = 47" by simp_all
  have "b64_char_to_byte (word_of_nat n) =
      word_of_nat k OR (EQ (word_of_nat k) 0 AND (EQ (word_of_nat n) 65 XOR 255))"
  proof -
    have "(if 65 \<le> n \<and> n \<le> 90 then A else if 97 \<le> n \<and> n \<le> 122 then B
        else if 48 \<le> n \<and> n \<le> 57 then C else if n = 43 then 62 else if n = 47 then 63 else 0) = word_of_nat k"
      by (simp add: A B C k_def b64_value_def)
    moreover have "(GE (word_of_nat n) 65 AND LE (word_of_nat n) 90 AND A) OR
          (GE (word_of_nat n) 97 AND LE (word_of_nat n) 122 AND B) OR
          (GE (word_of_nat n) 48 AND LE (word_of_nat n) 57 AND C) OR
          (EQ (word_of_nat n) 43 AND 62) OR (EQ (word_of_nat n) 47 AND 63) =
        (if 65 \<le> n \<and> n \<le> 90 then A else if 97 \<le> n \<and> n \<le> 122 then B
        else if 48 \<le> n \<and> n \<le> 57 then C else if n = 43 then 62 else if n = 47 then 63 else 0)"
      unfolding GE_def LE_def using n by (simp add: gt_num M not_less)
    ultimately show ?thesis
      unfolding b64_char_to_byte_def Let_def c [symmetric] A_def [symmetric] B_def [symmetric] C_def [symmetric]
      by (simp only: c)
  qed
  moreover have "EQ (word_of_nat k) 0 = (if k = 0 then 255 else 0)" using eq_nat [OF k, of 0] by simp
  moreover have "EQ (word_of_nat n) 65 = (if n = 65 then 255 else 0)" using n by (simp add: gt_num)
  moreover have "k = 0 \<longleftrightarrow> n = 65 \<or> b64_value n = None" by (auto simp: k_def b64_value_def)
  ultimately show ?thesis by (auto simp: k_def b64_value_def split: option.split)
qed

lemma b64_char_to_byte_high: "2 ^ 32 - 128 \<le> n \<Longrightarrow> n < 2 ^ 32 \<Longrightarrow> b64_char_to_byte (word_of_nat n) = 63"
proof -
  assume n: "2 ^ 32 - 128 \<le> n" "n < 2 ^ 32"
  have g: "GT (numeral m) (word_of_nat n) = 255" "EQ (word_of_nat n) (numeral m) = 255"
    if "numeral m < (128 :: nat)" for m
    using gt_high(1) [OF that n] eq_high [OF that n] by simp_all
  have "EQ 63 0 = 0" using eq_nat [of 63 0] by simp
  then show ?thesis by (simp add: b64_char_to_byte_def GE_def g)
qed


text \<open>On the bytes of a string: a byte above 127 is a negative \<^verbatim>\<open>int\<close>.\<close>

lemma b64_char_to_byte_byte:
  "b64_char_to_byte (scast (c :: u8)) =
    (if unat c < 128 then (case b64_value (unat c) of None \<Rightarrow> 255 | Some v \<Rightarrow> word_of_nat v) else 63)"
proof (cases "unat c < 128")
  case True
  then show ?thesis by (simp only: scast_ascii b64_char_to_byte_nat if_True)
next
  case False
  have "b64_char_to_byte (word_of_nat (2 ^ 32 + unat c - 256)) = 63"
    using False unat_lt_u8 [of c] by (intro b64_char_to_byte_high) simp_all
  then show ?thesis using False by (simp only: scast_high [OF False] if_False)
qed


section \<open>Writing\<close>

definition poke :: "u8 list \<Rightarrow> nat \<Rightarrow> u8 list \<Rightarrow> u8 list" where
  "poke dst at w = memcpy_at dst at w (length w)"

lemma put_poke: "put dst at c = poke dst at [c]"
  by (simp add: put_def poke_def)

lemma poke_Nil [simp]: "poke dst at [] = dst"
  by (simp add: poke_def memcpy_at_def)

lemma length_poke [len_simps, simp]: "at + length w \<le> length dst \<Longrightarrow> length (poke dst at w) = length dst"
  by (simp add: poke_def)

lemma poke_poke:
  "at + length u + length w \<le> length dst \<Longrightarrow> poke (poke dst at u) (at + length u) w = poke dst at (u @ w)"
  by (simp add: poke_def memcpy_at_def ac_simps)

lemma poke_outside:
  "at + length w \<le> length dst \<Longrightarrow> take at (poke dst at w) = take at dst"
  "at + length w \<le> n \<Longrightarrow> at + length w \<le> length dst \<Longrightarrow> drop n (poke dst at w) = drop n dst"
  by (simp_all add: poke_def memcpy_at_def min_absorb2)

section \<open>The bits that wait in the accumulator\<close>

definition pend :: "u32 \<Rightarrow> nat \<Rightarrow> nat" where
  "pend acc l = unat acc mod 2 ^ l"

lemma pend_less: "pend acc l < 2 ^ l"
  by (simp add: pend_def)

lemma pend_0 [simp]: "pend acc 0 = 0"
  by (simp add: pend_def)

lemma pend_rest: "m \<le> l \<Longrightarrow> pend acc m = pend acc l mod 2 ^ m"
  by (simp add: pend_def mod_mod_cancel le_imp_power_dvd)

lemma pend_push:
  assumes "l + k \<le> 32" "d < 2 ^ k"
  shows "pend (push_bit k acc + word_of_nat d) (l + k) = pend acc l * 2 ^ k + d"
proof -
  have "unat (push_bit k acc + word_of_nat d) = (unat acc * 2 ^ k + d) mod 2 ^ 32"
    unfolding unat_word_ariths unsigned_push_bit_eq unat_of_nat take_bit_nat_def push_bit_nat_def
    by (simp add: mod_simps)
  then have "pend (push_bit k acc + word_of_nat d) (l + k) = (unat acc * 2 ^ k + d) mod 2 ^ (l + k)"
    using assms(1) le_imp_power_dvd [of "l + k" 32 "2 :: nat"] by (simp only: pend_def mod_mod_cancel)
  also have "\<dots> = (unat acc mod 2 ^ l) * 2 ^ k + d"
    using assms(2) by (simp add: power_add mod_mult2_eq mult.commute [of "2 ^ l"])
  finally show ?thesis by (simp add: pend_def)
qed

lemma pend_top: "unat (drop_bit m acc AND mask k) = pend acc (m + k) div 2 ^ m"
proof -
  have "unat (drop_bit m acc AND mask k) = take_bit k (drop_bit m (unat acc))"
    by (simp only: take_bit_eq_mask [symmetric] unsigned_take_bit_eq unat_drop_bit_eq)
  also have "\<dots> = drop_bit m (take_bit (m + k) (unat acc))" by (simp add: drop_bit_take_bit)
  finally show ?thesis by (simp add: pend_def take_bit_nat_def drop_bit_nat_def)
qed


section \<open>Encoding\<close>

text \<open>Base64 of RFC 4648, without padding.\<close>

fun b64 :: "u8 list \<Rightarrow> u8 list" where
  "b64 [] = []"
| "b64 [a] = map b64_char [unat a div 4, unat a mod 4 * 16]"
| "b64 [a, b] = map b64_char [unat a div 4, unat a mod 4 * 16 + unat b div 16, unat b mod 16 * 4]"
| "b64 (a # b # c # bs) =
     map b64_char [unat a div 4, unat a mod 4 * 16 + unat b div 16, unat b mod 16 * 4 + unat c div 64, unat c mod 64] @
     b64 bs"

lemma length_b64: "length (b64 bs) = length bs div 3 * 4 + (if length bs mod 3 = 0 then 0 else length bs mod 3 + 1)"
proof -
  have "(3 + n) div 3 = Suc (n div 3)" for n :: nat by simp
  then show ?thesis by (induction bs rule: b64.induct) (simp_all add: mod_Suc)
qed

lemma emit_char:
  assumes "6 \<le> l"
  shows "ucast (b64_byte_to_char (drop_bit (l - 6) acc AND 0x3F)) = b64_char (pend acc l div 2 ^ (l - 6))"
proof -
  define w where "w = drop_bit (l - 6) acc AND (0x3F :: u32)"
  have m: "(0x3F :: u32) = mask 6" by (simp add: mask_eq_exp_minus_1)
  have u: "unat w = pend acc l div 2 ^ (l - 6)"
    using assms pend_top [of "l - 6" acc 6] by (simp add: w_def m)
  have lt: "unat w < 64"
    unfolding w_def m take_bit_eq_mask [symmetric] unsigned_take_bit_eq by (simp add: take_bit_nat_def)
  have "word_of_nat (unat w) = w" by simp
  then have "b64_byte_to_char w = word_of_nat (b64_code (unat w))"
    using b64_byte_to_char_nat [OF lt] by (simp only:)
  then have "ucast (b64_byte_to_char w) = (word_of_nat (b64_code (unat w)) :: u8)"
    using lt by (simp add: unsigned_of_nat take_bit_nat_eq_self b64_code_def)
  then show ?thesis using b64_char_code [OF lt] u by (simp add: w_def)
qed

end
