(* ===== verification/Base64.thy ===== *)
theory Base64
  imports Base64_Chars
begin

text \<open>
  The Base64 routines of \<open>Encoding\<close> against \<open>b64\<close>: \<^verbatim>\<open>to_base64\<close> writes the encoding and its terminating zero
  when they fit, \<^verbatim>\<open>from_base64\<close> reads the longest run of Base64 characters and accepts it when it is the
  canonical encoding of bytes that fit, and the two are inverse.
\<close>

section \<open>Encoding a byte\<close>

lemma emit_stop: "l < 6 \<Longrightarrow> to_base64_emit acc l (dst, at) = (l, dst, at)"
  by (subst to_base64_emit.simps) simp

lemma emit_go:
  "6 \<le> l \<Longrightarrow> to_base64_emit acc l (dst, at) =
    to_base64_emit acc (l - 6) (poke dst at [b64_char (pend acc l div 2 ^ (l - 6))], at + 1)"
  by (subst to_base64_emit.simps) (simp add: emit_char put_poke)

text \<open>One byte, as the number of bits that wait is 0, 2 or 4.\<close>

lemma push_byte:
  assumes "l \<le> 24"
  shows "pend (push_bit 8 acc + ucast (c :: u8)) (l + 8) = pend acc l * 256 + unat c"
proof -
  have w: "ucast c = (word_of_nat (unat c) :: u32)" by simp
  show ?thesis unfolding w using pend_push [of l 8 "unat c" acc] assms unat_lt_u8 [of c] by simp
qed

lemma step_0:
  "\<exists>acc'. to_base64_step c (acc, 0, dst, at) = (acc', 2, poke dst at [b64_char (unat c div 4)], at + 1) \<and>
    pend acc' 2 = unat c mod 4"
proof -
  define acc' where "acc' = push_bit 8 acc + ucast c"
  have p: "pend acc' 8 = unat c" using push_byte [of 0 acc c] by (simp add: acc'_def)
  moreover have "pend acc' 2 = unat c mod 4" using pend_rest [of 2 8 acc'] p by simp
  ultimately show ?thesis
    by (simp add: to_base64_step_def Let_def acc'_def [symmetric] emit_go emit_stop)
qed

lemma step_2:
  "\<exists>acc'. to_base64_step c (acc, 2, dst, at) =
      (acc', 4, poke dst at [b64_char (pend acc 2 * 16 + unat c div 16)], at + 1) \<and> pend acc' 4 = unat c mod 16"
proof -
  define acc' where "acc' = push_bit 8 acc + ucast c"
  have p: "pend acc' 10 = 256 * pend acc 2 + unat c" using push_byte [of 2 acc c] by (simp add: acc'_def)
  moreover have "(256 * k + n) mod 16 = n mod 16" "(256 * k + n) div 16 = 16 * k + n div 16" for k n :: nat
    using mod_mult_self2 [of n 16 "16 * k"] div_mult_self2 [of 16 n "16 * k"] by (simp_all add: add.commute)
  ultimately show ?thesis
    using pend_rest [of 4 10 acc']
    by (simp add: to_base64_step_def Let_def acc'_def [symmetric] emit_go emit_stop mult.commute)
qed

lemma step_4:
  assumes "at + 2 \<le> length dst"
  shows "\<exists>acc'. to_base64_step c (acc, 4, dst, at) =
    (acc', 0, poke dst at [b64_char (pend acc 4 * 4 + unat c div 64), b64_char (unat c mod 64)], at + 2)"
proof -
  define acc' where "acc' = push_bit 8 acc + ucast c"
  have p: "pend acc' 12 = 256 * pend acc 4 + unat c" using push_byte [of 4 acc c] by (simp add: acc'_def)
  moreover have "(256 * k + n) mod 64 = n mod 64" "(256 * k + n) div 64 = 4 * k + n div 64" for k n :: nat
    using mod_mult_self2 [of n 64 "4 * k"] div_mult_self2 [of 64 n "4 * k"] by (simp_all add: add.commute)
  moreover have "poke (poke dst at [x]) (Suc at) [y] = poke dst at [x, y]" for x y
    using poke_poke [of at "[x]" "[y]" dst] assms by simp
  ultimately show ?thesis
    using pend_rest [of 6 12 acc']
    by (simp add: to_base64_step_def Let_def acc'_def [symmetric] emit_go emit_stop mult.commute)
qed

text \<open>The statement after the loop.\<close>

definition flush :: "u32 \<times> nat \<times> u8 list \<times> nat \<Rightarrow> u8 list \<times> nat" where
  "flush = (\<lambda>(acc, acc_len, dst, at).
     if acc_len > 0
     then (put dst at (ucast (b64_byte_to_char (push_bit (6 - acc_len) acc AND 0x3F))), at + 1)
     else (dst, at))"

lemma flush_eq:
  "0 < l \<Longrightarrow> l \<le> 4 \<Longrightarrow> flush (acc, l, dst, at) = (poke dst at [b64_char (pend acc l * 2 ^ (6 - l))], at + 1)"
proof -
  assume l: "0 < l" "l \<le> 4"
  have "pend (push_bit (6 - l) acc) 6 = pend acc l * 2 ^ (6 - l)"
    using pend_push [of l "6 - l" 0 acc] l by simp
  then show ?thesis
    using emit_char [of 6 "push_bit (6 - l) acc"] l by (simp add: flush_def put_poke)
qed

lemma fold_steps:
  "at + length (b64 bs) \<le> length dst \<Longrightarrow>
    flush (fold to_base64_step bs (acc, 0, dst, at)) = (poke dst at (b64 bs), at + length (b64 bs))"
proof (induction bs arbitrary: acc dst at rule: b64.induct)
  case 1
  then show ?case by (simp add: flush_def)
next
  case (2 a)
  obtain x where "to_base64_step a (acc, 0, dst, at) = (x, 2, poke dst at [b64_char (unat a div 4)], at + 1)"
    "pend x 2 = unat a mod 4"
    using step_0 by blast
  then show ?case using poke_poke [of at "[_]" "[_]" dst] 2 by (simp add: flush_eq)
next
  case (3 a b)
  obtain x where x: "to_base64_step a (acc, 0, dst, at) = (x, 2, poke dst at [b64_char (unat a div 4)], at + 1)"
    "pend x 2 = unat a mod 4"
    using step_0 by blast
  let ?d = "poke dst at [b64_char (unat a div 4)]"
  obtain y where y: "to_base64_step b (x, 2, ?d, at + 1) =
      (y, 4, poke ?d (at + 1) [b64_char (pend x 2 * 16 + unat b div 16)], at + 1 + 1)" "pend y 4 = unat b mod 16"
    using step_2 by blast
  show ?case
    using x y 3 poke_poke [of at "[_]" "[_]" dst] poke_poke [of at "[_, _]" "[_]" dst]
    by (simp add: flush_eq)
next
  case (4 a b c bs)
  obtain x where x: "to_base64_step a (acc, 0, dst, at) = (x, 2, poke dst at [b64_char (unat a div 4)], at + 1)"
    "pend x 2 = unat a mod 4"
    using step_0 by blast
  let ?d = "poke dst at [b64_char (unat a div 4)]"
  obtain y where y: "to_base64_step b (x, 2, ?d, at + 1) =
      (y, 4, poke ?d (at + 1) [b64_char (pend x 2 * 16 + unat b div 16)], at + 1 + 1)" "pend y 4 = unat b mod 16"
    using step_2 by blast
  let ?w = "map b64_char [unat a div 4, unat a mod 4 * 16 + unat b div 16]"
  have d2: "poke ?d (at + 1) [b64_char (pend x 2 * 16 + unat b div 16)] = poke dst at ?w"
    using poke_poke [of at "[_]" "[_]" dst] 4 by (simp add: x(2))
  obtain z where z: "to_base64_step c (y, 4, poke dst at ?w, at + 2) =
      (z, 0, poke (poke dst at ?w) (at + 2) [b64_char (pend y 4 * 4 + unat c div 64), b64_char (unat c mod 64)], at + 2 + 2)"
    using step_4 [of "at + 2" "poke dst at ?w" c y] 4(2) by auto
  let ?u = "?w @ map b64_char [unat b mod 16 * 4 + unat c div 64, unat c mod 64]"
  have d4: "poke (poke dst at ?w) (at + 2) [b64_char (pend y 4 * 4 + unat c div 64), b64_char (unat c mod 64)] =
      poke dst at ?u"
    using poke_poke [of at ?w "[_, _]" dst] 4(2) by (simp add: y(2))
  have "fold to_base64_step (a # b # c # bs) (acc, 0, dst, at) = fold to_base64_step bs (z, 0, poke dst at ?u, at + 4)"
  proof -
    have "to_base64_step b (x, 2, ?d, at + 1) = (y, 4, poke dst at ?w, at + 2)" using y(1) unfolding d2 by simp
    moreover have "to_base64_step c (y, 4, poke dst at ?w, at + 2) = (z, 0, poke dst at ?u, at + 4)"
      using z unfolding d4 by simp
    ultimately show ?thesis using x(1) by (simp only: fold_simps)
  qed
  moreover have lu: "length ?u = 4" by simp
  moreover have b: "b64 (a # b # c # bs) = ?u @ b64 bs" by simp
  moreover have len: "at + 4 + length (b64 bs) \<le> length dst" using 4(2) by simp
  moreover have "poke (poke dst at ?u) (at + 4) (b64 bs) = poke dst at (?u @ b64 bs)"
    using poke_poke [of at ?u "b64 bs" dst] len unfolding lu by simp
  moreover have "flush (fold to_base64_step bs (z, 0, poke dst at ?u, at + 4)) =
      (poke (poke dst at ?u) (at + 4) (b64 bs), at + 4 + length (b64 bs))"
    using len by (intro 4(1)) simp
  ultimately show ?case by (simp only: length_append add.assoc)
qed

lemma b64_olen_eq: "length bs < 2 ^ 32 \<Longrightarrow> b64_olen (length bs) = length (b64 bs)"
proof -
  assume "length bs < 2 ^ 32"
  then have "length bs div 3 * 4 + 3 < 2 ^ 64" by simp
  moreover have "length bs mod 3 = 0 \<or> length bs mod 3 = 1 \<or> length bs mod 3 = 2" by presburger
  ultimately show ?thesis unfolding b64_olen_def length_b64 Let_def by (auto simp: numeral_2_eq_2)
qed

lemma to_base64_eq:
  assumes "src_len \<le> length src" "src_len < 2 ^ 32" "at + dst_len \<le> length dst"
  defines "w \<equiv> b64 (take src_len src)"
  shows "to_base64 dst at dst_len src src_len =
    (if dst_len \<le> length w then (SIZE_MAX, dst) else (length w, poke dst at (w @ [0])))"
proof -
  have ol: "b64_olen src_len = length w"
    using b64_olen_eq [of "take src_len src"] assms(1,2) by (simp add: w_def)
  show ?thesis
  proof (cases "dst_len \<le> length w")
    case False
    then have "flush (fold to_base64_step (take src_len src) (0, 0, dst, at)) = (poke dst at w, at + length w)"
      using fold_steps [of at "take src_len src" dst 0] assms(3) by (simp add: w_def)
    then show ?thesis
      using False assms(3) poke_poke [of at w "[0]" dst]
      by (simp add: to_base64_def ol flush_def Let_def put_poke split: prod.splits if_splits)
  qed (simp add: to_base64_def ol)
qed


section \<open>Decoding\<close>

definition cv :: "u8 \<Rightarrow> nat" where
  "cv c = unat (b64_char_to_byte (scast c))"

lemma cv_word: "b64_char_to_byte (scast c) = word_of_nat (cv c)"
  by (simp add: cv_def)

lemma cv_eq: "cv c = (if unat c < 128 then (case b64_value (unat c) of None \<Rightarrow> 255 | Some v \<Rightarrow> v) else 63)"
proof (cases "b64_value (unat c)")
  case (Some v)
  then have "v < 2 ^ 32" by (simp add: b64_value_code)
  then show ?thesis using Some by (simp add: cv_def b64_char_to_byte_byte unat_small)
qed (simp add: cv_def b64_char_to_byte_byte)

lemma cv_cases: "cv c < 64 \<or> cv c = 255"
  by (auto simp: cv_eq b64_value_code split: option.split)

lemma not_base64: "(b64_char_to_byte (scast c) = 0xFF) = (cv c = 255)"
  by (simp add: cv_def word_unat_eq_iff)

text \<open>Unpadded Base64 of RFC 4648 read in the other direction, canonical encodings only.\<close>

fun unb64 :: "u8 list \<Rightarrow> u8 list option" where
  "unb64 [] = Some []"
| "unb64 [a] = None"
| "unb64 [a, b] = (if cv b mod 16 = 0 then Some [word_of_nat (cv a * 4 + cv b div 16)] else None)"
| "unb64 [a, b, c] =
     (if cv c mod 4 = 0
      then Some (map word_of_nat [cv a * 4 + cv b div 16, cv b mod 16 * 16 + cv c div 4]) else None)"
| "unb64 (a # b # c # d # cs) =
     map_option (\<lambda>bs. map word_of_nat
         [cv a * 4 + cv b div 16, cv b mod 16 * 16 + cv c div 4, cv c mod 4 * 64 + cv d] @ bs) (unb64 cs)"

lemma byte_top: "ucast (drop_bit m acc AND 0xFF) = (word_of_nat (pend acc (m + 8) div 2 ^ m) :: u8)"
proof -
  have m: "(0xFF :: u32) = mask 8" by (simp add: mask_eq_exp_minus_1)
  have "unat (drop_bit m acc AND 0xFF) = pend acc (m + 8) div 2 ^ m" unfolding m by (rule pend_top)
  moreover have "ucast w = (word_of_nat (unat w) :: u8)" for w :: u32 by simp
  ultimately show ?thesis by metis
qed

lemma loop_step:
  assumes "cv c < 64" "l \<le> 6"
  shows "\<exists>acc'. pend acc' (l + 6) = pend acc l * 64 + cv c \<and>
    from_base64_loop cap (c # s) acc l len buf =
      (if l < 2 then from_base64_loop cap s acc' (l + 6) len buf
       else if cap \<le> len then (None, buf)
       else from_base64_loop cap s acc' (l - 2) (len + 1)
              (poke buf len [word_of_nat (pend acc' (l + 6) div 2 ^ (l - 2))]))"
proof (intro exI conjI)
  let ?acc = "push_bit 6 acc + word_of_nat (cv c)"
  show "pend ?acc (l + 6) = pend acc l * 64 + cv c" using pend_push [of l 6 "cv c" acc] assms by simp
  have nd: "(word_of_nat (cv c) = (0xFF :: u32)) = False"
    unfolding cv_word [symmetric] not_base64 using assms(1) by simp
  show "from_base64_loop cap (c # s) acc l len buf =
      (if l < 2 then from_base64_loop cap s ?acc (l + 6) len buf
       else if cap \<le> len then (None, buf)
       else from_base64_loop cap s ?acc (l - 2) (len + 1)
              (poke buf len [word_of_nat (pend ?acc (l + 6) div 2 ^ (l - 2))]))"
  proof (cases "l < 2")
    case True
    then show ?thesis by (subst from_base64_loop.simps) (simp only: Let_def cv_word nd if_False, simp)
  next
    case False
    then have l: "l + 6 - 8 = l - 2" "(8 \<le> l + 6) = True" "l - 2 + 8 = l + 6" by simp_all
    show ?thesis
      using False
      by (subst from_base64_loop.simps) (simp only: Let_def cv_word nd l if_False if_True byte_top put_poke)
  qed
qed

text \<open>The end of \<^verbatim>\<open>from_base64\<close>.\<close>

definition decode_end ::
  "nat \<Rightarrow> (u8 list \<times> u32 \<times> nat \<times> nat) option \<times> u8 list \<Rightarrow> u8 list option \<times> nat \<times> u8 list" where
  "decode_end cap r =
     (case r of
        (None, dst) \<Rightarrow> (None, cap, dst)
      | (Some (src, acc, acc_len, len), dst) \<Rightarrow>
          if acc_len > 4 \<or> acc AND (push_bit acc_len 1 - 1) \<noteq> 0 then (None, cap, dst)
          else (Some src, len, dst))"

lemma from_base64_end: "from_base64 dst cap src = decode_end cap (from_base64_loop cap src 0 0 0 dst)"
  by (simp add: from_base64_def decode_end_def)

lemma leftover: "(acc AND (push_bit l 1 - 1) = 0) = (pend acc l = 0)"
proof -
  have "acc AND (push_bit l 1 - 1) = take_bit l acc"
    by (simp add: take_bit_eq_mask mask_eq_exp_minus_1 push_bit_eq_mult)
  moreover have "unat (take_bit l acc) = pend acc l" by (simp only: unsigned_take_bit_eq take_bit_nat_def pend_def)
  ultimately show ?thesis by (metis unat_eq_0)
qed

lemma loop_end:
  assumes "rest = [] \<or> cv (hd rest) = 255"
  shows "decode_end cap (from_base64_loop cap rest acc l len buf) =
    (if l > 4 \<or> pend acc l \<noteq> 0 then (None, cap, buf) else (Some rest, len, buf))"
proof -
  have "from_base64_loop cap rest acc l len buf = (Some (rest, acc, l, len), buf)"
    using assms by (cases rest) (simp_all add: not_base64 from_base64_loop.simps(2))
  then show ?thesis by (simp only: decode_end_def option.case prod.case leftover)
qed


lemma loop_2:
  assumes "cv a < 64" "cv b < 64"
  shows "\<exists>y. pend y 4 = cv b mod 16 \<and> from_base64_loop cap (a # b # s) acc 0 len buf =
    (if cap \<le> len then (None, buf)
     else from_base64_loop cap s y 4 (len + 1) (poke buf len [word_of_nat (cv a * 4 + cv b div 16)]))"
proof -
  obtain x where x: "from_base64_loop cap (a # b # s) acc 0 len buf = from_base64_loop cap (b # s) x 6 len buf"
    "pend x 6 = cv a"
    using loop_step [of a 0 acc cap "b # s" len buf] assms by auto
  obtain y where y: "pend y 12 = cv a * 64 + cv b" and
      "from_base64_loop cap (b # s) x 6 len buf =
       (if cap \<le> len then (None, buf) else from_base64_loop cap s y 4 (len + 1) (poke buf len [word_of_nat (pend y 12 div 16)]))"
    using loop_step [of b 6 x cap s len buf] x(2) assms by auto
  moreover have "(k * 64 + n) mod 16 = n mod 16" "(k * 64 + n) div 16 = k * 4 + n div 16" for k n :: nat
    using mod_mult_self2 [of n 16 "4 * k"] div_mult_self2 [of 16 n "4 * k"] by (simp_all add: ac_simps)
  ultimately show ?thesis using x(1) pend_rest [of 4 12 y] by auto
qed

lemma loop_3:
  assumes "cv c < 64"
  shows "\<exists>z. pend z 2 = cv c mod 4 \<and> from_base64_loop cap (c # s) y 4 len buf =
    (if cap \<le> len then (None, buf)
     else from_base64_loop cap s z 2 (len + 1) (poke buf len [word_of_nat (pend y 4 * 16 + cv c div 4)]))"
proof -
  obtain z where z: "pend z 10 = pend y 4 * 64 + cv c" and
      "from_base64_loop cap (c # s) y 4 len buf =
       (if cap \<le> len then (None, buf) else from_base64_loop cap s z 2 (len + 1) (poke buf len [word_of_nat (pend z 10 div 4)]))"
    using loop_step [of c 4 y cap s len buf] assms by auto
  moreover have "(k * 64 + n) mod 4 = n mod 4" "(k * 64 + n) div 4 = k * 16 + n div 4" for k n :: nat
    using mod_mult_self2 [of n 4 "16 * k"] div_mult_self2 [of 4 n "16 * k"] by (simp_all add: ac_simps)
  ultimately show ?thesis using pend_rest [of 2 10 z] by auto
qed

lemma loop_4:
  assumes "cv d < 64"
  shows "\<exists>u. from_base64_loop cap (d # s) z 2 len buf =
    (if cap \<le> len then (None, buf)
     else from_base64_loop cap s u 0 (len + 1) (poke buf len [word_of_nat (pend z 2 * 64 + cv d)]))"
  using loop_step [of d 2 z cap s len buf] assms by auto

abbreviation group_bytes :: "u8 \<Rightarrow> u8 \<Rightarrow> u8 \<Rightarrow> u8 \<Rightarrow> u8 list" where
  "group_bytes a b c d \<equiv> map word_of_nat
     [cv a * 4 + cv b div 16, cv b mod 16 * 16 + cv c div 4, cv c mod 4 * 64 + cv d]"

lemma loop_group:
  assumes "cv a < 64" "cv b < 64" "cv c < 64" "cv d < 64" "cap \<le> length buf" "len \<le> cap"
  shows "if len + 3 \<le> cap
    then \<exists>u. from_base64_loop cap (a # b # c # d # s) acc 0 len buf =
      from_base64_loop cap s u 0 (len + 3) (poke buf len (group_bytes a b c d))
    else \<exists>b'. from_base64_loop cap (a # b # c # d # s) acc 0 len buf = (None, b') \<and> length b' = length buf"
proof -
  let ?b1 = "poke buf len [word_of_nat (cv a * 4 + cv b div 16)]"
  obtain y where y: "pend y 4 = cv b mod 16" "from_base64_loop cap (a # b # c # d # s) acc 0 len buf =
      (if cap \<le> len then (None, buf) else from_base64_loop cap (c # d # s) y 4 (len + 1) ?b1)"
    using loop_2 [of a b cap "c # d # s" acc len buf] assms by auto
  let ?b2 = "poke ?b1 (len + 1) [word_of_nat (pend y 4 * 16 + cv c div 4)]"
  obtain z where z: "pend z 2 = cv c mod 4" "from_base64_loop cap (c # d # s) y 4 (len + 1) ?b1 =
      (if cap \<le> len + 1 then (None, ?b1) else from_base64_loop cap (d # s) z 2 (len + 1 + 1) ?b2)"
    using loop_3 [of c cap "d # s" y "len + 1" ?b1] assms by auto
  let ?b3 = "poke ?b2 (len + 1 + 1) [word_of_nat (pend z 2 * 64 + cv d)]"
  obtain u where u: "from_base64_loop cap (d # s) z 2 (len + 1 + 1) ?b2 =
      (if cap \<le> len + 1 + 1 then (None, ?b2) else from_base64_loop cap s u 0 (len + 1 + 1 + 1) ?b3)"
    using loop_4 [of d cap s z "len + 1 + 1" ?b2] assms by auto
  show ?thesis
  proof (cases "len + 3 \<le> cap")
    case True
    then have "?b3 = poke buf len (group_bytes a b c d)"
      using assms(5) poke_poke [of len "[_]" "[_]" buf] poke_poke [of len "[_, _]" "[_]" buf] y(1) z(1) by simp
    then show ?thesis using True y(2) z(2) u by (auto simp: numeral_3_eq_3)
  next
    case False
    then show ?thesis using y(2) z(2) u assms(5,6) by (auto simp: not_le)
  qed
qed

lemma decode_end_None: "decode_end cap (None, b) = (None, cap, b)"
  by (simp add: decode_end_def)

lemma decode_run:
  assumes "\<forall>c \<in> set run. cv c < 64" "rest = [] \<or> cv (hd rest) = 255" "cap \<le> length buf" "len \<le> cap"
  shows "case unb64 run of
      Some bs \<Rightarrow>
        if len + length bs \<le> cap
        then decode_end cap (from_base64_loop cap (run @ rest) acc 0 len buf) =
          (Some rest, len + length bs, poke buf len bs)
        else \<exists>b. decode_end cap (from_base64_loop cap (run @ rest) acc 0 len buf) = (None, cap, b) \<and> length b = length buf
    | None \<Rightarrow> \<exists>b. decode_end cap (from_base64_loop cap (run @ rest) acc 0 len buf) = (None, cap, b) \<and> length b = length buf"
  using assms
proof (induction run arbitrary: acc len buf rule: unb64.induct)
  case 1
  then show ?case by (simp add: loop_end)
next
  case (2 a)
  then obtain x where "from_base64_loop cap (a # rest) acc 0 len buf = from_base64_loop cap rest x 6 len buf"
    using loop_step [of a 0 acc cap rest len buf] by auto
  then show ?case using 2 by (simp add: loop_end)
next
  case (3 a b)
  obtain y where "pend y 4 = cv b mod 16" "from_base64_loop cap (a # b # rest) acc 0 len buf =
      (if cap \<le> len then (None, buf)
       else from_base64_loop cap rest y 4 (len + 1) (poke buf len [word_of_nat (cv a * 4 + cv b div 16)]))"
    using loop_2 [of a b cap rest acc len buf] 3(1) by auto
  then show ?case using 3(2-) by (auto simp: loop_end decode_end_None)
next
  case (4 a b c)
  obtain y where y: "pend y 4 = cv b mod 16" "from_base64_loop cap (a # b # c # rest) acc 0 len buf =
      (if cap \<le> len then (None, buf)
       else from_base64_loop cap (c # rest) y 4 (len + 1) (poke buf len [word_of_nat (cv a * 4 + cv b div 16)]))"
    using loop_2 [of a b cap "c # rest" acc len buf] 4(1) by auto
  obtain z where "pend z 2 = cv c mod 4" "from_base64_loop cap (c # rest) y 4 (len + 1) buf' =
      (if cap \<le> len + 1 then (None, buf')
       else from_base64_loop cap rest z 2 (len + 1 + 1) (poke buf' (len + 1) [word_of_nat (pend y 4 * 16 + cv c div 4)]))"
    if "buf' = poke buf len [word_of_nat (cv a * 4 + cv b div 16)]" for buf'
    using loop_3 [of c cap rest y "len + 1"] 4(1) by auto
  then show ?case using 4(2-) y poke_poke [of len "[_]" "[_]" buf] by (auto simp: loop_end decode_end_None)
next
  case (5 a b c d cs)
  have v: "cv a < 64" "cv b < 64" "cv c < 64" "cv d < 64" using 5(2) by simp_all
  note group = loop_group [OF v 5(4,5), of "cs @ rest" acc]
  show ?case
  proof (cases "len + 3 \<le> cap")
    case True
    then obtain u where u: "from_base64_loop cap (a # b # c # d # cs @ rest) acc 0 len buf =
        from_base64_loop cap (cs @ rest) u 0 (len + 3) (poke buf len (group_bytes a b c d))"
      using group by auto
    let ?buf = "poke buf len (group_bytes a b c d)"
    have lb: "length ?buf = length buf" using True 5(4) by simp
    have IH: "case unb64 cs of
        Some bs \<Rightarrow>
          if len + 3 + length bs \<le> cap
          then decode_end cap (from_base64_loop cap (cs @ rest) u 0 (len + 3) ?buf) =
            (Some rest, len + 3 + length bs, poke ?buf (len + 3) bs)
          else \<exists>b. decode_end cap (from_base64_loop cap (cs @ rest) u 0 (len + 3) ?buf) = (None, cap, b) \<and> length b = length ?buf
      | None \<Rightarrow> \<exists>b. decode_end cap (from_base64_loop cap (cs @ rest) u 0 (len + 3) ?buf) = (None, cap, b) \<and> length b = length ?buf"
      using 5(2-4) True lb by (intro 5(1)) auto
    have "poke ?buf (len + 3) bs = poke buf len (group_bytes a b c d @ bs)"
      if "len + 3 + length bs \<le> cap" for bs
      using poke_poke [of len "group_bytes a b c d" bs buf] that 5(4) by (simp add: numeral_3_eq_3)
    then show ?thesis using IH u lb by (auto simp: add.assoc split: option.splits)
  next
    case False
    then obtain b' where "from_base64_loop cap (a # b # c # d # cs @ rest) acc 0 len buf = (None, b')" "length b' = length buf"
      using group by auto
    then show ?thesis using False by (auto simp: decode_end_None split: option.split)
  qed
qed


section \<open>Decoding inverts encoding\<close>

definition ascii :: "u8 list \<Rightarrow> bool" where
  "ascii s \<longleftrightarrow> (\<forall>c \<in> set s. unat c < 128)"

lemma ascii_simps [simp]: "ascii []" "ascii (c # s) = (unat c < 128 \<and> ascii s)" "ascii (s @ t) = (ascii s \<and> ascii t)"
  by (auto simp: ascii_def)

definition b64_stop :: "u8 list \<Rightarrow> bool" where
  "b64_stop s \<longleftrightarrow> s = [] \<or> cv (hd s) = 255"

lemma unat_b64_char: "v < 64 \<Longrightarrow> unat (b64_char v) = b64_code v"
  by (simp add: b64_char_code unat_of_nat take_bit_nat_eq_self b64_code_def)

lemma cv_b64_char: "v < 64 \<Longrightarrow> cv (b64_char v) = v"
proof -
  assume v: "v < 64"
  then have "b64_value (b64_code v) = Some v" by (simp add: b64_value_code)
  moreover have "b64_code v < 128" using v by (auto simp: b64_code_def)
  ultimately show ?thesis using v by (simp add: cv_eq unat_b64_char)
qed

lemma b64_char_cv: "cv c < 64 \<Longrightarrow> unat c < 128 \<Longrightarrow> b64_char (cv c) = c"
proof -
  assume c: "cv c < 64" "unat c < 128"
  then obtain v where v: "b64_value (unat c) = Some v" "cv c = v" by (auto simp: cv_eq split: option.splits)
  then have "v < 64" "unat c = b64_code v" by (simp_all add: b64_value_code)
  then show ?thesis using v(2) by (metis unat_b64_char word_unat_eq_iff)
qed

lemma byte_bounds:
  fixes a b c :: u8
  shows "unat a div 4 < 64" "unat a mod 4 * 16 + unat b div 16 < 64" "unat b mod 16 * 4 + unat c div 64 < 64"
    "unat c mod 64 < 64" "unat a mod 4 * 16 < 64" "unat b mod 16 * 4 < 64"
proof -
  have "unat a < 256" "unat b < 256" "unat c < 256" using unat_lt_u8 by simp_all
  moreover have "unat a mod 4 < 4" "unat b mod 16 < 16" by simp_all
  ultimately show "unat a div 4 < 64" "unat a mod 4 * 16 + unat b div 16 < 64"
    "unat b mod 16 * 4 + unat c div 64 < 64" "unat c mod 64 < 64" "unat a mod 4 * 16 < 64" "unat b mod 16 * 4 < 64"
    by (simp_all add: div_less_iff_less_mult)
qed

lemma b64_chars: "c \<in> set (b64 bs) \<Longrightarrow> cv c < 64 \<and> unat c < 128"
proof (induction bs rule: b64.induct)
  case (4 a b c bs)
  then show ?case by (auto simp: cv_b64_char unat_b64_char byte_bounds b64_code_def)
qed (auto simp: cv_b64_char unat_b64_char byte_bounds b64_code_def)

lemma regroup:
  fixes a b c :: u8
  shows "unat a div 4 * 4 + (unat a mod 4 * 16 + unat b div 16) div 16 = unat a"
    "(unat a mod 4 * 16 + unat b div 16) mod 16 * 16 + (unat b mod 16 * 4 + unat c div 64) div 4 = unat b"
    "(unat b mod 16 * 4 + unat c div 64) mod 4 * 64 + unat c mod 64 = unat c"
    "(unat a mod 4 * 16 + unat b div 16) mod 16 * 16 + unat b mod 16 * 4 div 4 = unat b"
proof -
  have d: "(k * m + r) div m = k" "(k * m + r) mod m = r" if "r < m" for k m r :: nat
    using that by simp_all
  have "unat b div 16 < 16" "unat c div 64 < 4"
    using unat_lt_u8 [of b] unat_lt_u8 [of c] by (simp_all add: div_less_iff_less_mult)
  then show "unat a div 4 * 4 + (unat a mod 4 * 16 + unat b div 16) div 16 = unat a"
    "(unat a mod 4 * 16 + unat b div 16) mod 16 * 16 + (unat b mod 16 * 4 + unat c div 64) div 4 = unat b"
    "(unat b mod 16 * 4 + unat c div 64) mod 4 * 64 + unat c mod 64 = unat c"
    "(unat a mod 4 * 16 + unat b div 16) mod 16 * 16 + unat b mod 16 * 4 div 4 = unat b"
    by (simp_all add: d)
qed

lemma unb64_b64: "unb64 (b64 bs) = Some bs"
proof (induction bs rule: b64.induct)
  case (2 a)
  then show ?case using regroup(1) [of a 0] by (simp add: cv_b64_char byte_bounds flip: of_nat_add of_nat_mult)
next
  case (3 a b)
  then show ?case
    using regroup(1) [of a b] regroup(4) [of a b]
    by (simp add: cv_b64_char byte_bounds del: of_nat_add of_nat_mult)
next
  case (4 a b c bs)
  then show ?case
    using regroup(1) [of a b] regroup(2) [of a b c] regroup(3) [of b c]
    by (simp add: cv_b64_char byte_bounds del: of_nat_add of_nat_mult)
qed simp

lemma ungroup:
  fixes a b c d :: nat
  assumes "a < 64" "b < 64" "c < 64" "d < 64"
  shows "unat (word_of_nat (a * 4 + b div 16) :: u8) = a * 4 + b div 16"
    "unat (word_of_nat (b mod 16 * 16 + c div 4) :: u8) = b mod 16 * 16 + c div 4"
    "unat (word_of_nat (c mod 4 * 64 + d) :: u8) = c mod 4 * 64 + d"
proof -
  have "b div 16 < 4" "c div 4 < 16" "b mod 16 < 16" "c mod 4 < 4"
    using assms by (simp_all add: div_less_iff_less_mult)
  then have "a * 4 + b div 16 < 256" "b mod 16 * 16 + c div 4 < 256" "c mod 4 * 64 + d < 256"
    using assms by linarith+
  then show "unat (word_of_nat (a * 4 + b div 16) :: u8) = a * 4 + b div 16"
    "unat (word_of_nat (b mod 16 * 16 + c div 4) :: u8) = b mod 16 * 16 + c div 4"
    "unat (word_of_nat (c mod 4 * 64 + d) :: u8) = c mod 4 * 64 + d"
    by (simp_all add: unat_of_nat take_bit_nat_eq_self del: of_nat_add of_nat_mult)
qed

lemma ungroup_values:
  fixes a b c d :: nat
  assumes "a < 64" "b < 64" "c < 64" "d < 64"
  shows "(a * 4 + b div 16) div 4 = a" "(a * 4 + b div 16) mod 4 * 16 + (b mod 16 * 16 + c div 4) div 16 = b"
    "(b mod 16 * 16 + c div 4) mod 16 * 4 + (c mod 4 * 64 + d) div 64 = c" "(c mod 4 * 64 + d) mod 64 = d"
    "b mod 16 = 0 \<Longrightarrow> (a * 4 + b div 16) mod 4 * 16 = b"
    "c mod 4 = 0 \<Longrightarrow> (b mod 16 * 16 + c div 4) mod 16 * 4 = c"
proof -
  have e: "(k * m + r) div m = k" "(k * m + r) mod m = r" if "r < m" for k m r :: nat
    using that by simp_all
  have "b div 16 < 4" "c div 4 < 16" using assms by (simp_all add: div_less_iff_less_mult)
  then show "(a * 4 + b div 16) div 4 = a" "(a * 4 + b div 16) mod 4 * 16 + (b mod 16 * 16 + c div 4) div 16 = b"
    "(b mod 16 * 16 + c div 4) mod 16 * 4 + (c mod 4 * 64 + d) div 64 = c" "(c mod 4 * 64 + d) mod 64 = d"
    "b mod 16 = 0 \<Longrightarrow> (a * 4 + b div 16) mod 4 * 16 = b"
    "c mod 4 = 0 \<Longrightarrow> (b mod 16 * 16 + c div 4) mod 16 * 4 = c"
    using assms by (auto simp: e)
qed

lemma b64_unb64: "\<forall>c \<in> set cs. cv c < 64 \<and> unat c < 128 \<Longrightarrow> unb64 cs = Some bs \<Longrightarrow> b64 bs = cs"
proof (induction cs arbitrary: bs rule: unb64.induct)
  case (3 a b)
  have v: "cv a < 64" "cv b < 64" "b64_char (cv a) = a" "b64_char (cv b) = b"
    using 3(1) by (simp_all add: b64_char_cv)
  have m: "cv b mod 16 = 0" and bs: "bs = [word_of_nat (cv a * 4 + cv b div 16)]"
    using 3(2) unfolding unb64.simps by (metis option.distinct(1) option.inject)+
  note z = zero_less_numeral
  note u = ungroup(1) [OF v(1,2) z z] ungroup_values(1,5) [OF v(1,2) z z]
  show ?case unfolding bs b64.simps(2) u(1,2) u(3) [OF m] using v(3,4) by simp
next
  case (4 a b c)
  have v: "cv a < 64" "cv b < 64" "cv c < 64" "b64_char (cv a) = a" "b64_char (cv b) = b" "b64_char (cv c) = c"
    using 4(1) by (simp_all add: b64_char_cv)
  have m: "cv c mod 4 = 0"
    and bs: "bs = map word_of_nat [cv a * 4 + cv b div 16, cv b mod 16 * 16 + cv c div 4]"
    using 4(2) unfolding unb64.simps by (metis option.distinct(1) option.inject)+
  note u = ungroup(1,2) [OF v(1-3) zero_less_numeral] ungroup_values(1,2,6) [OF v(1-3) zero_less_numeral]
  show ?case unfolding bs list.map b64.simps(3) u(1,2) u(3,4) u(5) [OF m] v(4-6) ..
next
  case (5 a b c d cs)
  have v: "cv a < 64" "cv b < 64" "cv c < 64" "cv d < 64"
    "b64_char (cv a) = a" "b64_char (cv b) = b" "b64_char (cv c) = c" "b64_char (cv d) = d"
    using 5(2) by (simp_all add: b64_char_cv)
  obtain bs' where bs': "unb64 cs = Some bs'" and bs: "bs = group_bytes a b c d @ bs'"
    using 5(3) unfolding unb64.simps map_option_eq_Some by blast
  note u = ungroup [OF v(1-4)] ungroup_values(1-4) [OF v(1-4)]
  have "b64 bs' = cs" using 5(2) by (intro 5(1) bs') simp
  then show ?case unfolding bs list.map append.simps b64.simps(4) u v(5-8) by (simp only:)
qed simp_all

text \<open>\<^verbatim>\<open>from_base64\<close> decides whether the longest run of Base64 characters is a canonical encoding that
  fits.\<close>

lemma from_base64_eq:
  assumes "cap \<le> length buf"
  defines "run \<equiv> takeWhile (\<lambda>c. cv c < 64)" and "rest \<equiv> dropWhile (\<lambda>c. cv c < 64)"
  shows "unb64 (run src) = Some bs \<Longrightarrow> length bs \<le> cap \<Longrightarrow>
      from_base64 buf cap src = (Some (rest src), length bs, poke buf 0 bs)"
    and "unb64 (run src) = None \<or> (\<exists>bs. unb64 (run src) = Some bs \<and> cap < length bs) \<Longrightarrow>
      \<exists>b. from_base64 buf cap src = (None, cap, b) \<and> length b = length buf"
proof -
  have r: "rest src = [] \<or> cv (hd (rest src)) = 255"
    using hd_dropWhile [of "\<lambda>c. cv c < 64" src] cv_cases by (auto simp: rest_def)
  have "\<forall>c \<in> set (run src). cv c < 64" by (auto simp: run_def dest: set_takeWhileD)
  note d = decode_run [OF this r assms(1) le0, of 0]
  have s: "run src @ rest src = src" by (simp add: run_def rest_def)
  show "from_base64 buf cap src = (Some (rest src), length bs, poke buf 0 bs)"
    if "unb64 (run src) = Some bs" "length bs \<le> cap"
    using d that unfolding s from_base64_end by simp
  show "\<exists>b. from_base64 buf cap src = (None, cap, b) \<and> length b = length buf"
    if "unb64 (run src) = None \<or> (\<exists>bs. unb64 (run src) = Some bs \<and> cap < length bs)"
    using d that unfolding s from_base64_end by auto
qed

lemma from_base64_b64:
  assumes "b64_stop rest" "length bs \<le> cap" "cap \<le> length buf"
  shows "from_base64 buf cap (b64 bs @ rest) = (Some rest, length bs, poke buf 0 bs)"
proof -
  have s: "takeWhile (\<lambda>c. cv c < 64) rest = []" "dropWhile (\<lambda>c. cv c < 64) rest = rest"
    using assms(1) by (cases rest; simp add: b64_stop_def)+
  have "\<And>c. c \<in> set (b64 bs) \<Longrightarrow> cv c < 64" using b64_chars by blast
  then have "takeWhile (\<lambda>c. cv c < 64) (b64 bs @ rest) = b64 bs"
    "dropWhile (\<lambda>c. cv c < 64) (b64 bs @ rest) = rest"
    by (simp_all add: takeWhile_append2 dropWhile_append2 s)
  then show ?thesis
    using from_base64_eq(1) [OF assms(3), of "b64 bs @ rest" bs] assms(2) by (simp add: unb64_b64)
qed

lemma from_base64_cases:
  assumes "cap \<le> length buf"
  obtains bs where "unb64 (takeWhile (\<lambda>c. cv c < 64) src) = Some bs" "length bs \<le> cap"
      "from_base64 buf cap src = (Some (dropWhile (\<lambda>c. cv c < 64) src), length bs, poke buf 0 bs)"
    | b where "from_base64 buf cap src = (None, cap, b)" "length b = length buf"
proof (cases "unb64 (takeWhile (\<lambda>c. cv c < 64) src)")
  case None
  then show ?thesis using from_base64_eq(2) [OF assms, of src] that(2) by blast
next
  case (Some bs)
  then show ?thesis
    using from_base64_eq [OF assms, of src] that by (cases "length bs \<le> cap") (simp, meson not_le)
qed

lemma from_base64_Some:
  assumes "from_base64 buf cap src = (Some rest, n, buf')" "ascii src" "cap \<le> length buf"
  shows "\<exists>bs. src = b64 bs @ rest \<and> n = length bs \<and> n \<le> cap \<and> buf' = poke buf 0 bs \<and> b64_stop rest"
proof (rule from_base64_cases [OF assms(3), of src])
  let ?run = "takeWhile (\<lambda>c. cv c < 64) src"
  fix bs assume bs: "unb64 ?run = Some bs" "length bs \<le> cap"
    "from_base64 buf cap src = (Some (dropWhile (\<lambda>c. cv c < 64) src), length bs, poke buf 0 bs)"
  have "\<forall>c \<in> set ?run. cv c < 64 \<and> unat c < 128"
    using assms(2) by (auto simp: ascii_def dest: set_takeWhileD)
  then have "b64 bs = ?run" by (rule b64_unb64 [OF _ bs(1)])
  moreover have rest: "rest = dropWhile (\<lambda>c. cv c < 64) src" using bs(3) assms(1) by simp
  moreover have "b64_stop rest"
    using hd_dropWhile [of "\<lambda>c. cv c < 64" src] cv_cases unfolding b64_stop_def rest by blast
  ultimately show ?thesis using bs(2,3) assms(1) by (metis Pair_inject takeWhile_dropWhile_id)
qed (use assms(1) in simp)

lemma from_base64_length:
  assumes "cap \<le> length buf"
  shows "length (snd (snd (from_base64 buf cap src))) = length buf"
  by (rule from_base64_cases [OF assms, of src]) (use assms in simp_all)

section \<open>Bytes above 127\<close>

text \<open>The decoder has a value for a byte above 127, that of \<^verbatim>\<open>/\<close>: it reads every string as the string with \<^verbatim>\<open>/\<close> in the
  place of these bytes.\<close>

definition as_read :: "u8 list \<Rightarrow> u8 list" where
  "as_read s = map (\<lambda>c. if 128 \<le> unat c then 47 else c) s"

lemma as_read_simps [simp]:
  "as_read [] = []" "as_read (c # s) = (if 128 \<le> unat c then 47 else c) # as_read s" "as_read (s @ t) = as_read s @ as_read t"
  "as_read s = [] \<longleftrightarrow> s = []" "length (as_read s) = length s"
  by (simp_all add: as_read_def)

lemma as_read_take_drop: "take n (as_read s) = as_read (take n s)" "drop n (as_read s) = as_read (drop n s)"
  by (simp_all add: as_read_def take_map drop_map)

lemma ascii_as_read [simp]: "ascii (as_read s)"
  by (auto simp: ascii_def as_read_def)

lemma as_read_ascii: "ascii s \<Longrightarrow> as_read s = s"
  by (induction s) auto

lemma b64_char_as_read: "b64_char_to_byte (scast (if 128 \<le> unat c then 47 else c :: u8)) = b64_char_to_byte (scast c)"
proof (cases "unat c < 128")
  case False
  have "b64_char_to_byte (scast (47 :: u8)) = 63"
    by (simp only: b64_char_to_byte_byte) (simp add: b64_value_def)
  then show ?thesis using False b64_char_to_byte_byte [of c] by simp
qed simp

lemma cv_as_read [simp]: "cv (if 128 \<le> unat c then 47 else c) = cv c"
  using b64_char_as_read [of c] by (simp add: cv_def)

lemma b64_stop_as_read [simp]: "b64_stop (as_read s) = b64_stop s"
  by (cases s) (simp_all add: b64_stop_def)

lemma from_base64_loop_as_read:
  "from_base64_loop cap (as_read s) acc acc_len len buf =
    apfst (map_option (apfst as_read)) (from_base64_loop cap s acc acc_len len buf)"
proof (induction cap s acc acc_len len buf rule: from_base64_loop.induct)
  case (2 cap c s acc acc_len len buf)
  show ?case
    using 2 b64_char_as_read [of c] by (simp add: from_base64_loop.simps(2) Let_def if_distrib [of "apfst (map_option (apfst as_read))"] cong: if_cong)
qed simp

lemma from_base64_as_read: "from_base64 buf cap (as_read s) = apfst (map_option as_read) (from_base64 buf cap s)"
  by (auto simp: from_base64_def from_base64_loop_as_read split: prod.splits option.splits)

lemma from_base64_loop_rest:
  "from_base64_loop cap s acc acc_len len buf = (Some (r, x), b) \<Longrightarrow> \<exists>p. s = p @ r"
proof (induction cap s acc acc_len len buf rule: from_base64_loop.induct)
  case (2 cap c s acc acc_len len buf)
  then show ?case by (fastforce simp: from_base64_loop.simps(2) Let_def split: if_splits)
qed simp

lemma from_base64_rest:
  assumes "from_base64 buf cap s = (Some r, n, b)"
  obtains p where "s = p @ r"
  using assms from_base64_loop_rest [of cap s 0 0 0 buf]
  by (auto simp: from_base64_def split: prod.splits option.splits if_splits)

text \<open>The decoder succeeds exactly on what reads as an encoding.\<close>

lemma from_base64_exact:
  assumes "cap \<le> length buf"
  shows "from_base64 buf cap s = (Some r, n, b) \<longleftrightarrow>
    (\<exists>enc bs. s = enc @ r \<and> as_read enc = b64 bs \<and> b64_stop r \<and> length bs \<le> cap \<and> n = length bs \<and> b = poke buf 0 bs)"
proof (intro iffI)
  assume f: "from_base64 buf cap s = (Some r, n, b)"
  then obtain p where p: "s = p @ r" by (rule from_base64_rest)
  have "from_base64 buf cap (as_read s) = (Some (as_read r), n, b)" by (simp add: from_base64_as_read f)
  from from_base64_Some [OF this ascii_as_read assms] p show "\<exists>enc bs. s = enc @ r \<and> as_read enc = b64 bs \<and> b64_stop r \<and>
      length bs \<le> cap \<and> n = length bs \<and> b = poke buf 0 bs"
    by auto
next
  assume "\<exists>enc bs. s = enc @ r \<and> as_read enc = b64 bs \<and> b64_stop r \<and> length bs \<le> cap \<and> n = length bs \<and> b = poke buf 0 bs"
  then obtain enc bs where e: "s = enc @ r" "as_read enc = b64 bs" "b64_stop r" "length bs \<le> cap" "n = length bs" "b = poke buf 0 bs"
    by blast
  have "from_base64 buf cap (as_read s) = (Some (as_read r), n, b)"
    using from_base64_b64 [of "as_read r" bs cap buf] e assms by simp
  then obtain r' where r': "from_base64 buf cap s = (Some r', n, b)" "as_read r' = as_read r"
    by (cases "from_base64 buf cap s") (auto simp: from_base64_as_read)
  from r'(1) obtain p where p: "s = p @ r'" by (rule from_base64_rest)
  have "length r' = length r" using arg_cong [OF r'(2), of length] by simp
  then have "r' = r" using p e(1) by (metis append_eq_append_conv)
  then show "from_base64 buf cap s = (Some r, n, b)" using r'(1) by simp
qed

end
