(* ===== verification/Decimal.thy ===== *)
theory Decimal
  imports Base64_Chars
begin

text \<open>
  The decimal numbers of \<open>Encoding\<close>: \<^verbatim>\<open>decode_decimal\<close> reads exactly the minimal decimal representations of
  the 64-bit numbers, and \<^verbatim>\<open>numlen\<close> is the length of a printed 32-bit number.
\<close>

section \<open>Digits\<close>

definition digit :: "u8 \<Rightarrow> bool" where
  "digit b \<longleftrightarrow> 48 \<le> unat b \<and> unat b \<le> 57"

definition dec_value :: "nat \<Rightarrow> u8 list \<Rightarrow> nat" where
  "dec_value n ds = foldl (\<lambda>a b. a * 10 + (unat b - 48)) n ds"

lemma dec_value_simps [simp]:
  "dec_value n [] = n" "dec_value n (b # ds) = dec_value (n * 10 + (unat b - 48)) ds"
  "dec_value n (ds @ [b]) = dec_value n ds * 10 + (unat b - 48)"
  by (simp_all add: dec_value_def)

lemma dec_value_ge: "n \<le> dec_value n ds"
proof (induction ds arbitrary: n)
  case (Cons b ds)
  have "n \<le> n * 10 + (unat b - 48)" by simp
  also have "\<dots> \<le> dec_value n (b # ds)" using Cons by simp
  finally show ?case .
qed simp

lemma digit_sint: "(sint b < 48 \<or> sint b > 57) = (\<not> digit b)" "digit b \<Longrightarrow> sint b - 48 = int (unat b - 48)"
proof -
  define n where "n = unat b"
  have "n < 256" using unat_lt_u8 [of b] by (simp add: n_def)
  then show "(sint b < 48 \<or> sint b > 57) = (\<not> digit b)" "digit b \<Longrightarrow> sint b - 48 = int (unat b - 48)"
    unfolding digit_def sint_byte n_def [symmetric] by auto
qed

lemma unat_small64: "n < 2 ^ 64 \<Longrightarrow> unat (word_of_nat n :: u64) = n"
  by (simp add: unat_of_nat take_bit_nat_eq_self)

lemma decode_decimal_loop_digit:
  assumes "digit b" "n < 2 ^ 64"
  shows "decode_decimal_loop (b # s) (word_of_nat n) =
    (if n * 10 + (unat b - 48) < 2 ^ 64 then decode_decimal_loop s (word_of_nat (n * 10 + (unat b - 48))) else None)"
proof -
  define c where "c = unat b - 48"
  have c: "c < 10" using assms(1) by (auto simp: c_def digit_def)
  have m: "unat (- 1 :: u64) = 2 ^ 64 - 1" by (simp add: unsigned_minus_1_eq_mask mask_eq_exp_minus_1)
  have nd: "(sint b < 48 \<or> sint b > 57) = False" using digit_sint(1) assms(1) by simp
  have w: "word_of_int (sint b - 48) = (word_of_nat c :: u64)"
    unfolding digit_sint(2) [OF assms(1)] c_def by simp
  have g1: "(word_of_nat n > (- 1 div 10 :: u64)) = (n > (2 ^ 64 - 1) div 10)"
    unfolding word_less_nat_alt unat_small64 [OF assms(2)] unat_div m by simp
  show ?thesis
  proof (cases "n > (2 ^ 64 - 1) div 10")
    case True
    then have "\<not> n * 10 + c < 2 ^ 64" by simp
    then show ?thesis
      unfolding c_def [symmetric] using True by (simp only: decode_decimal_loop.simps Let_def nd g1 if_False if_True)
  next
    case False
    then have n10: "n * 10 < 2 ^ 64" by simp
    have a: "word_of_nat n * 10 = (word_of_nat (n * 10) :: u64)" by simp
    have "unat (- 1 - word_of_nat (n * 10) :: u64) = 2 ^ 64 - 1 - n * 10"
      unfolding unat_sub_if_size word_size unat_small64 [OF n10] m using n10 by simp
    then have g2: "(word_of_nat c > (- 1 - word_of_nat (n * 10) :: u64)) = (\<not> n * 10 + c < 2 ^ 64)"
      unfolding word_less_nat_alt using unat_small64 [of c] c n10 by auto
    have s: "word_of_nat (n * 10) + word_of_nat c = (word_of_nat (n * 10 + c) :: u64)" by simp
    show ?thesis
      unfolding c_def [symmetric] using False
      by (simp only: decode_decimal_loop.simps Let_def nd g1 if_False a w g2 s if_not_P not_False_eq_True split: if_split) simp
  qed
qed


lemma decode_decimal_loop_stop:
  "s = [] \<or> \<not> digit (hd s) \<Longrightarrow> decode_decimal_loop s acc = Some (s, acc)"
  using digit_sint(1) [of "hd s"] by (cases s) simp_all

lemma decode_decimal_loop_eq:
  assumes "\<forall>b \<in> set ds. digit b" "rest = [] \<or> \<not> digit (hd rest)" "n < 2 ^ 64"
  shows "decode_decimal_loop (ds @ rest) (word_of_nat n) =
    (if dec_value n ds < 2 ^ 64 then Some (rest, word_of_nat (dec_value n ds)) else None)"
  using assms
proof (induction ds arbitrary: n)
  case Nil
  then show ?case by (simp add: decode_decimal_loop_stop)
next
  case (Cons b ds)
  let ?m = "n * 10 + (unat b - 48)"
  have step: "decode_decimal_loop (b # ds @ rest) (word_of_nat n) =
      (if ?m < 2 ^ 64 then decode_decimal_loop (ds @ rest) (word_of_nat ?m) else None)"
    using Cons.prems by (intro decode_decimal_loop_digit) simp_all
  show ?case
  proof (cases "?m < 2 ^ 64")
    case True
    then show ?thesis using step Cons by (simp del: of_nat_add of_nat_mult)
  next
    case False
    then have "\<not> dec_value ?m ds < 2 ^ 64" using dec_value_ge [of ?m ds] by linarith
    then show ?thesis using step False by simp
  qed
qed

section \<open>Printed numbers\<close>

lemma unat_digit: "k < 10 \<Longrightarrow> unat (word_of_nat (48 + k) :: u8) = 48 + k"
  by (simp add: unat_of_nat take_bit_nat_eq_self del: of_nat_add)

lemma decimal_digits: "b \<in> set (decimal n) \<Longrightarrow> digit b"
proof (induction n rule: decimal.induct)
  case (1 n)
  have d: "digit (word_of_nat (48 + k))" if "k < 10" for k
    unfolding digit_def unat_digit [OF that] using that by simp
  show ?case
  proof (cases "n < 10")
    case True
    then show ?thesis using 1(2) d [of n] by (simp add: decimal.simps [of n] del: of_nat_add)
  next
    case False
    then show ?thesis using 1 d [of "n mod 10"] by (auto simp: decimal.simps [of n] simp del: of_nat_add)
  qed
qed

lemma digit_char: "k < 10 \<Longrightarrow> unat (word_of_nat (48 + k) :: u8) - 48 = k"
  by (simp only: unat_digit)

lemma dec_value_decimal: "dec_value 0 (decimal n) = n"
proof (induction n rule: decimal.induct)
  case (1 n)
  then show ?case
    using digit_char [of n] digit_char [of "n mod 10"]
    by (cases "n < 10") (simp_all add: decimal.simps [of n] del: of_nat_add)
qed

lemma decimal_nonempty: "decimal n \<noteq> []"
  by (subst decimal.simps) simp

lemma hd_decimal: "hd (decimal n) = 48 \<Longrightarrow> n = 0"
proof (induction n rule: decimal.induct)
  case (1 n)
  show ?case
  proof (cases "n < 10")
    case True
    then have "word_of_nat (48 + n) = (48 :: u8)" using 1(2) by (simp add: decimal.simps [of n])
    then have "unat (word_of_nat (48 + n) :: u8) = 48" by simp
    then show ?thesis using digit_char [of n] True by simp
  next
    case False
    then have "hd (decimal (n div 10)) = 48"
      using 1(2) by (simp add: decimal.simps [of n] decimal_nonempty)
    then show ?thesis using 1(1) False by simp
  qed
qed

lemma decimal_0: "decimal 0 = [48]"
  by (subst decimal.simps) simp

lemma decimal_value:
  assumes "ds \<noteq> []" "\<forall>b \<in> set ds. digit b" "hd ds = 48 \<longrightarrow> length ds = 1"
  shows "decimal (dec_value 0 ds) = ds"
  using assms
proof (induction ds rule: rev_induct)
  case (snoc b ds)
  have b: "unat b - 48 < 10" "word_of_nat (48 + (unat b - 48)) = b"
    using snoc.prems(2) by (auto simp: digit_def)
  show ?case
  proof (cases "ds = []")
    case True
    then show ?thesis using b by (simp add: decimal.simps)
  next
    case False
    then have h: "hd ds \<noteq> 48" using snoc.prems(3) by (cases ds) auto
    then have IH: "decimal (dec_value 0 ds) = ds" using snoc.IH snoc.prems(2) False by simp
    then have "dec_value 0 ds \<noteq> 0" using h decimal_0 by (metis list.sel(1))
    then show ?thesis using b IH by (subst decimal.simps) (simp del: of_nat_add)
  qed
qed simp


section \<open>Decoding decimals\<close>

definition dec_stop :: "u8 list \<Rightarrow> bool" where
  "dec_stop s \<longleftrightarrow> s = [] \<or> \<not> digit (hd s)"

lemma decode_decimal_run:
  assumes "\<forall>b \<in> set ds. digit b" "dec_stop rest"
  shows "decode_decimal (ds @ rest) =
    (if dec_value 0 ds < 2 ^ 64 \<and> ds \<noteq> [] \<and> (hd ds = 48 \<longrightarrow> length ds = 1)
     then Some (rest, word_of_nat (dec_value 0 ds)) else None)"
proof -
  have "decode_decimal_loop (ds @ rest) 0 =
      (if dec_value 0 ds < 2 ^ 64 then Some (rest, word_of_nat (dec_value 0 ds)) else None)"
    using decode_decimal_loop_eq [of ds rest 0] assms by (simp add: dec_stop_def)
  then show ?thesis by (cases ds) (auto simp: decode_decimal_def)
qed

lemma decode_decimal_decimal:
  assumes "n < 2 ^ 64" "dec_stop rest"
  shows "decode_decimal (decimal n @ rest) = Some (rest, word_of_nat n)"
proof -
  have "hd (decimal n) = 48 \<longrightarrow> length (decimal n) = 1" using hd_decimal decimal_0 by fastforce
  then show ?thesis
    using decode_decimal_run [of "decimal n" rest] assms decimal_digits
    by (simp add: dec_value_decimal decimal_nonempty)
qed

lemma decode_decimal_Some:
  assumes "decode_decimal s = Some (rest, v)"
  shows "s = decimal (unat v) @ rest \<and> dec_stop rest"
proof -
  define ds r where "ds = takeWhile digit s" and "r = dropWhile digit s"
  have s: "s = ds @ r" by (simp add: ds_def r_def)
  have st: "dec_stop r" unfolding dec_stop_def r_def using hd_dropWhile by blast
  have d: "\<forall>b \<in> set ds. digit b" by (auto simp: ds_def dest: set_takeWhileD)
  from decode_decimal_run [OF d st] assms
  have c: "dec_value 0 ds < 2 ^ 64" "ds \<noteq> []" "hd ds = 48 \<longrightarrow> length ds = 1"
    and e: "rest = r" "v = word_of_nat (dec_value 0 ds)"
    by (simp_all add: s split: if_splits)
  have "unat v = dec_value 0 ds" unfolding e(2) by (rule unat_small64 [OF c(1)])
  then show ?thesis using decimal_value [OF c(2) d c(3)] s st e(1) by simp
qed

section \<open>The length of a number\<close>

lemma numlen_loop:
  "snd (while (\<lambda>(num, len). num \<ge> 10) (\<lambda>(num, len). (num div 10, len + 1)) (num :: u32, len)) + 1 =
    len + length (decimal (unat num))"
proof (induction "unat num" arbitrary: num len rule: less_induct)
  case less
  have ge: "(num \<ge> 10) = (unat num \<ge> 10)" by (simp add: word_le_nat_alt)
  have div: "unat (num div 10) = unat num div 10" by (simp add: unat_div)
  show ?case
  proof (cases "unat num \<ge> 10")
    case True
    have "snd (while (\<lambda>(num, len). num \<ge> 10) (\<lambda>(num, len). (num div 10, len + 1)) (num div 10, len + 1)) + 1 =
        len + 1 + length (decimal (unat num div 10))"
      using less [of "num div 10" "len + 1"] True by (simp add: div)
    then show ?thesis
      using True by (subst while_unfold) (simp add: ge decimal.simps [of "unat num"])
  next
    case False
    then show ?thesis by (subst while_unfold) (simp add: ge decimal.simps [of "unat num"])
  qed
qed

lemma numlen_eq: "numlen num = length (decimal (unat num))"
  using numlen_loop [of num 1] by (simp add: numlen_def)

end
