(* ===== verification/Blake2b_Spec.thy ===== *)
theory Blake2b_Spec
  imports Blake2b
begin

text \<open>
  The reference for \<open>Blake2b\<close>: the hash function of RFC 7693 on whole messages, and the
  variable-length hash H' of RFC 9106, section 3.3. Nothing here is translated from the code:
  the compression function works on a byte counter and a final flag, the rounds are indexed
  modulo the ten permutations, bytes are read and written by value, and there is no buffer.
  The interface \<open>streaming_hash\<close> is what the clients of the streaming functions rely on.
\<close>

section \<open>RFC 7693\<close>

definition rfc_IV :: "u64 list" where
  "rfc_IV =
    [0x6A09E667F3BCC908, 0xBB67AE8584CAA73B, 0x3C6EF372FE94F82B, 0xA54FF53A5F1D36F1,
     0x510E527FADE682D1, 0x9B05688C2B3E6C1F, 0x1F83D9ABFB41BD6B, 0x5BE0CD19137E2179]"

definition rfc_SIGMA :: "nat list list" where
  "rfc_SIGMA =
    [[ 0,  1,  2,  3,  4,  5,  6,  7,  8,  9, 10, 11, 12, 13, 14, 15],
     [14, 10,  4,  8,  9, 15, 13,  6,  1, 12,  0,  2, 11,  7,  5,  3],
     [11,  8, 12,  0,  5,  2, 15, 13, 10, 14,  3,  6,  7,  1,  9,  4],
     [ 7,  9,  3,  1, 13, 12, 11, 14,  2,  6,  5, 10,  4,  0, 15,  8],
     [ 9,  0,  5,  7,  2,  4, 10, 15, 14,  1, 11, 12,  6,  8,  3, 13],
     [ 2, 12,  6, 10,  0, 11,  8,  3,  4, 13,  7,  5, 15, 14,  1,  9],
     [12,  5,  1, 15, 14, 13,  4, 10,  0,  7,  6,  3,  9,  2,  8, 11],
     [13, 11,  7, 14, 12,  1,  3,  9,  5,  0, 15,  4,  8,  6,  2, 10],
     [ 6, 15, 14,  9, 11,  3,  0,  8, 12,  2, 13,  7,  1,  4, 10,  5],
     [10,  2,  8,  4,  7,  6,  1,  5, 15, 11,  9, 14,  3, 12, 13,  0]]"

definition rfc_G :: "u64 \<Rightarrow> u64 \<Rightarrow> nat \<Rightarrow> nat \<Rightarrow> nat \<Rightarrow> nat \<Rightarrow> u64 list \<Rightarrow> u64 list" where
  "rfc_G x y a b c d v0 =
     (let v1 = v0[a := v0 ! a + v0 ! b + x];
          v2 = v1[d := word_rotr 32 (v1 ! d XOR v1 ! a)];
          v3 = v2[c := v2 ! c + v2 ! d];
          v4 = v3[b := word_rotr 24 (v3 ! b XOR v3 ! c)];
          v5 = v4[a := v4 ! a + v4 ! b + y];
          v6 = v5[d := word_rotr 16 (v5 ! d XOR v5 ! a)];
          v7 = v6[c := v6 ! c + v6 ! d]
      in v7[b := word_rotr 63 (v7 ! b XOR v7 ! c)])"

text \<open>The four columns, then the four diagonals, of the 4 by 4 matrix \<open>v\<close>.\<close>

definition rfc_round :: "u64 list \<Rightarrow> nat \<Rightarrow> u64 list \<Rightarrow> u64 list" where
  "rfc_round m i v =
     (let s = rfc_SIGMA ! (i mod 10) in
      fold (\<lambda>(k, a, b, c, d). rfc_G (m ! (s ! (2 * k))) (m ! (s ! (2 * k + 1))) a b c d)
        [(0, 0, 4, 8, 12), (1, 1, 5, 9, 13), (2, 2, 6, 10, 14), (3, 3, 7, 11, 15),
         (4, 0, 5, 10, 15), (5, 1, 6, 11, 12), (6, 2, 7, 8, 13), (7, 3, 4, 9, 14)] v)"

definition rfc_F :: "u64 list \<Rightarrow> u64 list \<Rightarrow> nat \<Rightarrow> bool \<Rightarrow> u64 list" where
  "rfc_F h m t f =
     (let v0 = h @ rfc_IV;
          v1 = v0[12 := v0 ! 12 XOR word_of_nat t];
          v2 = v1[13 := v1 ! 13 XOR word_of_nat (t div 2 ^ 64)];
          v3 = (if f then v2[14 := NOT (v2 ! 14)] else v2);
          v = fold (rfc_round m) [0..<12] v3
      in map (\<lambda>i. h ! i XOR v ! i XOR v ! (i + 8)) [0..<8])"

definition rfc_words :: "u8 list \<Rightarrow> u64 list" where
  "rfc_words b = map (\<lambda>i. word_rcat (rev (take 8 (drop (8 * i) b)))) [0..<16]"

text \<open>All whole blocks of \<open>A\<close>, none of them final.\<close>

definition rfc_absorb :: "u64 list \<Rightarrow> u8 list \<Rightarrow> u64 list" where
  "rfc_absorb h A =
     fold (\<lambda>i h. rfc_F h (rfc_words (take 128 (drop (128 * i) A))) (128 * (i + 1)) False)
       [0..<length A div 128] h"

text \<open>The length of all blocks before the last one: the last block is not empty unless the whole
  input is.\<close>

definition rfc_prefix :: "nat \<Rightarrow> nat" where
  "rfc_prefix n = 128 * ((n - 1) div 128)"

definition rfc_init :: "nat \<Rightarrow> nat \<Rightarrow> u64 list" where
  "rfc_init kk nn =
     rfc_IV[0 := rfc_IV ! 0 XOR 0x01010000 XOR push_bit 8 (word_of_nat kk) XOR word_of_nat nn]"

definition rfc_pad :: "u8 list \<Rightarrow> u8 list" where
  "rfc_pad b = b @ replicate (128 - length b) 0"

definition rfc_finish :: "nat \<Rightarrow> u64 list \<Rightarrow> u8 list \<Rightarrow> u8 list" where
  "rfc_finish nn h d =
     (let p = rfc_prefix (length d);
          h = rfc_F (rfc_absorb h (take p d)) (rfc_words (rfc_pad (drop p d))) (length d) True
      in take nn (concat (map (native_bytes 8) h)))"

definition rfc_blake2b :: "nat \<Rightarrow> u8 list \<Rightarrow> u8 list \<Rightarrow> u8 list" where
  "rfc_blake2b nn key M =
     rfc_finish nn (rfc_init (length key) nn) ((if key = [] then [] else rfc_pad key) @ M)"

section \<open>H' of RFC 9106\<close>

text \<open>\<open>rfc_V n r v\<close>, for a value \<open>v\<close> of the sequence V(1), V(2), ...: its first half, then those of
  the next \<open>n\<close> values, then the last value, of \<open>r\<close> bytes.\<close>

fun rfc_V :: "nat \<Rightarrow> nat \<Rightarrow> u8 list \<Rightarrow> u8 list" where
  "rfc_V 0 r v = take 32 v @ rfc_blake2b r [] v"
| "rfc_V (Suc n) r v = take 32 v @ rfc_V n r (rfc_blake2b 64 [] v)"

definition rfc_H' :: "nat \<Rightarrow> u8 list \<Rightarrow> u8 list" where
  "rfc_H' T A =
     (let X = native_bytes 4 (word_of_nat T :: u32) @ A in
      if T \<le> 64 then rfc_blake2b T [] X
      else let r = (T + 31) div 32 - 2 in rfc_V (r - 1) (T - 32 * r) (rfc_blake2b 64 [] X))"

section \<open>The interface of a streaming hash\<close>

locale streaming_hash =
  fixes start :: "'p \<Rightarrow> 's"
    and update :: "'s \<Rightarrow> u8 list \<Rightarrow> int \<times> 's"
    and finish :: "'s \<Rightarrow> u8 list \<Rightarrow> int \<times> u8 list"
    and okp :: "'p \<Rightarrow> bool"
    and limit :: nat
    and size :: "'p \<Rightarrow> nat"
    and rel :: "'p \<Rightarrow> u8 list \<Rightarrow> 's \<Rightarrow> bool"
    and spec :: "'p \<Rightarrow> u8 list \<Rightarrow> u8 list"
  assumes rel_start: "okp p \<Longrightarrow> rel p [] (start p)"
    and rel_update: "rel p M s \<Longrightarrow> length (M @ d) < limit \<Longrightarrow>
      fst (update s d) = 0 \<and> rel p (M @ d) (snd (update s d))"
    and rel_finish: "rel p M s \<Longrightarrow> length M < limit \<Longrightarrow> size p \<le> length out \<Longrightarrow>
      finish s out = (0, spec p M @ drop (size p) out)"
begin

definition absorb_all :: "'s \<Rightarrow> u8 list list \<Rightarrow> 's" where
  "absorb_all s ds = fold (\<lambda>d s. snd (update s d)) ds s"

lemma rel_absorb_all:
  "rel p M s \<Longrightarrow> length (M @ concat ds) < limit \<Longrightarrow> rel p (M @ concat ds) (absorb_all s ds)"
proof (induction ds arbitrary: M s)
  case Nil
  then show ?case by (simp add: absorb_all_def)
next
  case (Cons d ds)
  then have "rel p (M @ d) (snd (update s d))"
    using rel_update [of p M s d] by simp
  then have "rel p ((M @ d) @ concat ds) (absorb_all (snd (update s d)) ds)"
    using Cons by (intro Cons.IH) simp_all
  then show ?case by (simp add: absorb_all_def)
qed

lemma stream_eq_spec:
  "okp p \<Longrightarrow> length (concat ds) < limit \<Longrightarrow> size p \<le> length out \<Longrightarrow>
    finish (absorb_all (start p) ds) out = (0, spec p (concat ds) @ drop (size p) out)"
  using rel_finish [OF rel_absorb_all [OF rel_start, of p ds]] by simp

lemma chunking_irrelevant:
  "okp p \<Longrightarrow> concat ds = concat es \<Longrightarrow> length (concat ds) < limit \<Longrightarrow> size p \<le> length out \<Longrightarrow>
    finish (absorb_all (start p) ds) out = finish (absorb_all (start p) es) out"
  by (simp add: stream_eq_spec)

end

end
