(* ===== verification/Blake2b_Props.thy ===== *)
theory Blake2b_Props
  imports Blake2b_Spec
begin

text \<open>
  \<open>Blake2b\<close> computes what \<open>Blake2b_Spec\<close> defines. \<open>blake2b_rel\<close> relates a state to the message
  absorbed so far; each streaming function keeps it, and an \<open>interpretation\<close> of \<open>streaming_hash\<close>
  states this as the contract the rest of the library uses. The last section holds the properties.
\<close>

section \<open>Compression is the compression of RFC 7693\<close>

definition blake2b_counter :: "blake2b_state \<Rightarrow> nat" where
  "blake2b_counter S = unat (bs_t0 S) + 2 ^ 64 * unat (bs_t1 S)"

lemma blake2b_IV_rfc: "blake2b_IV = rfc_IV"
  by (simp add: blake2b_IV_def rfc_IV_def)

lemma length_rfc_IV [len_simps, simp]: "length rfc_IV = 8"
  by (simp add: rfc_IV_def)

lemma sigma_rfc: "r < 12 \<Longrightarrow> blake2b_sigma ! r = rfc_SIGMA ! (r mod 10)"
proof -
  assume "r < 12"
  then have "r = 0 \<or> r = 1 \<or> r = 2 \<or> r = 3 \<or> r = 4 \<or> r = 5 \<or> r = 6 \<or> r = 7 \<or> r = 8 \<or> r = 9 \<or>
      r = 10 \<or> r = 11"
    by arith
  then show ?thesis by (auto simp: blake2b_sigma_def rfc_SIGMA_def)
qed

lemma blake2b_G_rfc:
  "blake2b_G m r i a b c d v =
    rfc_G (m ! (blake2b_sigma ! r ! (2 * i))) (m ! (blake2b_sigma ! r ! (2 * i + 1))) a b c d v"
  by (simp add: blake2b_G_def rfc_G_def Let_def rotr64_eq_word_rotr)

lemma blake2b_ROUND_rfc: "r < 12 \<Longrightarrow> blake2b_ROUND m r v = rfc_round m r v"
  by (simp add: blake2b_ROUND_def rfc_round_def blake2b_G_rfc sigma_rfc Let_def)

lemma blake2b_rounds_rfc: "fold (blake2b_ROUND m) [0..<12] v = fold (rfc_round m) [0..<12] v"
  by (rule fold_cong) (simp_all add: fun_eq_iff blake2b_ROUND_rfc)

lemma fold_update_h:
  "length (bs_h S) = 8 \<Longrightarrow> k \<le> 8 \<Longrightarrow>
    fold (\<lambda>i S. S\<lparr>bs_h := (bs_h S)[i := f i (bs_h S ! i)]\<rparr>) [0..<k] S =
    S\<lparr>bs_h := map (\<lambda>i. f i (bs_h S ! i)) [0..<k] @ drop k (bs_h S)\<rparr>"
proof (induction k)
  case 0
  then show ?case by simp
next
  case (Suc k)
  then have "drop k (bs_h S) = bs_h S ! k # drop (Suc k) (bs_h S)"
    by (simp add: Cons_nth_drop_Suc)
  with Suc show ?case by (simp add: list_update_append nth_append)
qed

lemma rfc_words_load: "128 \<le> length b \<Longrightarrow> rfc_words b = map (\<lambda>i. load64 (drop (i * 8) b)) [0..<16]"
proof -
  assume b: "128 \<le> length b"
  have "load64_native (drop (8 * i) b) = load64 (drop (i * 8) b)" if "i < 16" for i
  proof -
    have "8 \<le> length (drop (8 * i) b)" using b that by simp
    from load64_native_eq [OF this] show ?thesis by (simp add: mult.commute)
  qed
  then show ?thesis by (simp add: rfc_words_def load64_native_def)
qed

lemma blake2b_compress_rfc:
  assumes "length (bs_h S) = 8" "bs_f1 S = 0" "bs_f0 S = (if f then -1 else 0)" "128 \<le> length b"
  shows "blake2b_compress S b =
    S\<lparr>bs_h := rfc_F (bs_h S) (rfc_words b) (blake2b_counter S) f\<rparr>"
proof -
  have h: "map (\<lambda>i. bs_h S ! i) [0..<8] = bs_h S"
    using map_nth [of "bs_h S"] assms(1) by simp
  have z: "(18446744073709551616 :: u64) = 0" by simp
  have t0: "word_of_nat (blake2b_counter S) = bs_t0 S"
    by (simp add: blake2b_counter_def z del: word_of_int_numeral)
  have "blake2b_counter S div 2 ^ 64 = unat (bs_t1 S)"
    using unat_lt_u64 [of "bs_t0 S"] by (simp add: blake2b_counter_def)
  then have t1: "word_of_nat (blake2b_counter S div 2 ^ 64) = bs_t1 S" by simp
  have "bs_h S @ [rfc_IV ! 0, rfc_IV ! 1, rfc_IV ! 2, rfc_IV ! 3, rfc_IV ! 4 XOR bs_t0 S,
      rfc_IV ! 5 XOR bs_t1 S, rfc_IV ! 6 XOR bs_f0 S, rfc_IV ! 7 XOR bs_f1 S] =
    (let v1 = (bs_h S @ rfc_IV)[12 := (bs_h S @ rfc_IV) ! 12 XOR bs_t0 S];
         v2 = v1[13 := v1 ! 13 XOR bs_t1 S]
     in if f then v2[14 := NOT (v2 ! 14)] else v2)"
    using assms(1-3) by (simp add: Let_def rfc_IV_def list_update_append nth_append)
  then show ?thesis
    unfolding blake2b_compress_def rfc_F_def Let_def blake2b_IV_rfc h t0 t1 blake2b_rounds_rfc
      rfc_words_load [OF assms(4)]
    by (subst fold_update_h) (simp_all add: assms(1) xor.assoc)
qed


section \<open>Counters\<close>

lemma blake2b_counter_increment:
  assumes "blake2b_counter S + unat inc < 2 ^ 128"
  shows "blake2b_counter (blake2b_increment_counter S inc) = blake2b_counter S + unat inc"
proof -
  have lt: "unat (bs_t0 S) < 2 ^ 64" "unat inc < 2 ^ 64"
    using unat_lt_u64 [of "bs_t0 S"] unat_lt_u64 [of inc] by simp_all
  show ?thesis
  proof (cases "unat (bs_t0 S) + unat inc < 2 ^ 64")
    case True
    then have s: "unat (bs_t0 S + inc) = unat (bs_t0 S) + unat inc"
      by (simp add: unat_word_ariths)
    then have "\<not> bs_t0 S + inc < inc" by (simp add: word_less_nat_alt)
    then show ?thesis by (simp add: blake2b_increment_counter_def blake2b_counter_def s)
  next
    case False
    then have s: "unat (bs_t0 S + inc) = unat (bs_t0 S) + unat inc - 2 ^ 64"
      using lt by (simp add: unat_word_ariths mod_if)
    then have "bs_t0 S + inc < inc" using lt False by (simp add: word_less_nat_alt)
    moreover have "unat (bs_t1 S) + 1 < 2 ^ 64"
      using assms False by (simp add: blake2b_counter_def)
    then have "unat (bs_t1 S + 1) = unat (bs_t1 S) + 1" by (simp add: unat_word_ariths)
    ultimately show ?thesis
      using False by (simp add: blake2b_increment_counter_def blake2b_counter_def s)
  qed
qed

lemma blake2b_increment_frame [simp]:
  "bs_h (blake2b_increment_counter S i) = bs_h S"
  "bs_f0 (blake2b_increment_counter S i) = bs_f0 S"
  "bs_f1 (blake2b_increment_counter S i) = bs_f1 S"
  "bs_buf (blake2b_increment_counter S i) = bs_buf S"
  "bs_buflen (blake2b_increment_counter S i) = bs_buflen S"
  "bs_outlen (blake2b_increment_counter S i) = bs_outlen S"
  "bs_last_node (blake2b_increment_counter S i) = bs_last_node S"
  by (simp_all add: blake2b_increment_counter_def Let_def)

lemma blake2b_counter_frame [simp]:
  "blake2b_counter (S\<lparr>bs_h := h\<rparr>) = blake2b_counter S"
  "blake2b_counter (S\<lparr>bs_buf := b\<rparr>) = blake2b_counter S"
  "blake2b_counter (S\<lparr>bs_buflen := n\<rparr>) = blake2b_counter S"
  "blake2b_counter (S\<lparr>bs_f0 := f\<rparr>) = blake2b_counter S"
  by (simp_all add: blake2b_counter_def)

section \<open>Absorbing whole blocks\<close>

lemma length_rfc_F [len_simps, simp]: "length (rfc_F h m t f) = 8"
  by (simp add: rfc_F_def Let_def)

lemma rfc_words_take [simp]: "rfc_words (take 128 b) = rfc_words b"
  by (auto simp: rfc_words_def take_drop min_def)

lemma rfc_absorb_Nil [simp]: "rfc_absorb h [] = h"
  by (simp add: rfc_absorb_def)

lemma rfc_absorb_snoc:
  assumes "128 dvd length A" "128 \<le> length b"
  shows "rfc_absorb h (A @ take 128 b) =
    rfc_F (rfc_absorb h A) (rfc_words b) (length A + 128) False"
proof -
  obtain k where k: "length A = 128 * k" using assms(1) by (elim dvdE)
  have l: "length (A @ take 128 b) div 128 = Suc k" using k assms(2) by simp
  have "rfc_absorb h (A @ take 128 b) =
    rfc_F (fold (\<lambda>i h. rfc_F h (rfc_words (take 128 (drop (128 * i) (A @ take 128 b))))
      (128 * (i + 1)) False) [0..<k] h) (rfc_words b) (length A + 128) False"
    using k assms(2) by (simp add: rfc_absorb_def l add.commute)
  also have "fold (\<lambda>i h. rfc_F h (rfc_words (take 128 (drop (128 * i) (A @ take 128 b))))
      (128 * (i + 1)) False) [0..<k] h = rfc_absorb h A"
    unfolding rfc_absorb_def using k by (intro fold_cong) (auto simp: fun_eq_iff)
  finally show ?thesis .
qed

lemma length_rfc_absorb [len_simps, simp]: "length h = 8 \<Longrightarrow> length (rfc_absorb h A) = 8"
  unfolding rfc_absorb_def by (rule fold_invar) simp_all


section \<open>The streaming state\<close>

text \<open>A state that has compressed the blocks \<open>A\<close> and holds the bytes \<open>R\<close> in its buffer.\<close>

definition blake2b_holds :: "u64 list \<Rightarrow> nat \<Rightarrow> u8 list \<Rightarrow> u8 list \<Rightarrow> blake2b_state \<Rightarrow> bool" where
  "blake2b_holds h0 nn A R S \<longleftrightarrow>
     128 dvd length A \<and> length R \<le> 128 \<and>
     bs_h S = rfc_absorb h0 A \<and> length h0 = 8 \<and> blake2b_counter S = length A \<and>
     bs_f0 S = 0 \<and> bs_f1 S = 0 \<and> bs_last_node S = 0 \<and>
     length (bs_buf S) = 128 \<and> unat (bs_buflen S) = length R \<and> take (length R) (bs_buf S) = R \<and>
     unat (bs_outlen S) = nn"

definition blake2b_rel :: "u64 list \<Rightarrow> nat \<Rightarrow> u8 list \<Rightarrow> blake2b_state \<Rightarrow> bool" where
  "blake2b_rel h0 nn M S \<longleftrightarrow>
     (\<exists>A R. M = A @ R \<and> (R = [] \<longrightarrow> A = []) \<and> blake2b_holds h0 nn A R S)"

lemma blake2b_compress_block:
  assumes "blake2b_holds h0 nn A R S" "length A + 128 < 2 ^ 128" "128 \<le> length b"
  shows "blake2b_compress (blake2b_increment_counter S 128) b =
    (blake2b_increment_counter S 128)\<lparr>bs_h := rfc_absorb h0 (A @ take 128 b)\<rparr>"
    and "blake2b_counter (blake2b_increment_counter S 128) = length A + 128"
proof -
  show c: "blake2b_counter (blake2b_increment_counter S 128) = length A + 128"
    using assms(1,2) by (subst blake2b_counter_increment) (simp_all add: blake2b_holds_def)
  show "blake2b_compress (blake2b_increment_counter S 128) b =
    (blake2b_increment_counter S 128)\<lparr>bs_h := rfc_absorb h0 (A @ take 128 b)\<rparr>"
    using assms by (subst blake2b_compress_rfc [where f = False])
      (simp_all add: blake2b_holds_def c rfc_absorb_snoc)
qed

lemma blake2b_update_loop_holds:
  assumes "blake2b_holds h0 nn A [] S" "n \<le> length d" "length A + n < 2 ^ 128" "0 < n"
  shows "\<exists>k S'. blake2b_update_loop S d n = (S', drop (128 * k) d, n - 128 * k) \<and>
    128 * k < n \<and> n - 128 * k \<le> 128 \<and> blake2b_holds h0 nn (A @ take (128 * k) d) [] S'"
  using assms
proof (induction S d n arbitrary: A rule: blake2b_update_loop.induct)
  case (1 S d n)
  show ?case
  proof (cases "n > 128")
    case False
    then show ?thesis using 1 by (intro exI [of _ 0]) (simp add: blake2b_update_loop.simps [of S d n])
  next
    case True
    define S1 where "S1 = blake2b_compress (blake2b_increment_counter S 128) d"
    have S1: "S1 = (blake2b_increment_counter S 128)\<lparr>bs_h := rfc_absorb h0 (A @ take 128 d)\<rparr>"
      and c1: "blake2b_counter (blake2b_increment_counter S 128) = length A + 128"
      using True "1.prems" blake2b_compress_block [OF "1.prems"(1), of d] by (simp_all add: S1_def)
    have h1: "blake2b_holds h0 nn (A @ take 128 d) [] S1"
      using 1 True c1 by (simp add: S1 blake2b_holds_def)
    have "\<exists>k S'. blake2b_update_loop S1 (drop 128 d) (n - 128) =
        (S', drop (128 * k) (drop 128 d), n - 128 - 128 * k) \<and> 128 * k < n - 128 \<and>
        n - 128 - 128 * k \<le> 128 \<and>
        blake2b_holds h0 nn ((A @ take 128 d) @ take (128 * k) (drop 128 d)) [] S'"
      using "1.IH" [of "A @ take 128 d"] True "1.prems" h1 by (simp add: S1_def)
    then obtain k S' where k: "blake2b_update_loop S1 (drop 128 d) (n - 128) =
        (S', drop (128 * k) (drop 128 d), n - 128 - 128 * k)" "128 * k < n - 128"
        "n - 128 - 128 * k \<le> 128"
        "blake2b_holds h0 nn ((A @ take 128 d) @ take (128 * k) (drop 128 d)) [] S'"
      by blast
    have "take 128 d @ take (128 * k) (drop 128 d) = take (128 * Suc k) d"
      by (simp add: take_add [symmetric])
    then show ?thesis using True k
      by (intro exI [of _ "Suc k"] exI [of _ S'])
        (simp add: blake2b_update_loop.simps [of S d n] S1_def add.commute)
  qed
qed


lemma blake2b_holds_append:
  assumes "blake2b_holds h0 nn A R S" "length R + n \<le> 128" "n \<le> length d"
  shows "blake2b_holds h0 nn A (R @ take n d)
    (S\<lparr>bs_buf := memcpy_at (bs_buf S) (length R) d n, bs_buflen := bs_buflen S + word_of_nat n\<rparr>)"
proof -
  have "unat (bs_buflen S + word_of_nat n) = length R + n"
    using assms by (simp add: blake2b_holds_def unat_word_ariths unat_of_nat)
  moreover have "blake2b_counter (S\<lparr>bs_buf := b, bs_buflen := l\<rparr>) = blake2b_counter S" for b l
    by (simp add: blake2b_counter_def)
  ultimately show ?thesis using assms by (simp add: blake2b_holds_def min_absorb2)
qed

lemma blake2b_fill_block:
  assumes "blake2b_holds h0 nn A R S" "128 - length R \<le> length d" "length A + 128 < 2 ^ 128"
    and "B = R @ take (128 - length R) d"
  defines "S1 \<equiv> S\<lparr>bs_buf := memcpy_at (bs_buf S) (length R) d (128 - length R)\<rparr>"
  defines "S2 \<equiv> blake2b_increment_counter S1 128"
  shows "blake2b_holds h0 nn (A @ B) [] ((blake2b_compress S2 (bs_buf S2))\<lparr>bs_buflen := 0\<rparr>)"
proof -
  have lR: "length R \<le> 128" using assms(1) by (simp add: blake2b_holds_def)
  have h1: "blake2b_holds h0 nn A R S1"
    using assms(1,2) lR by (simp add: S1_def blake2b_holds_def) (simp add: memcpy_at_def)
  have "take 128 (bs_buf S1) = B" "length (bs_buf S1) = 128"
    using assms(1,2,4) lR take_memcpy_at [of "length R" "128 - length R" "bs_buf S" d]
    by (simp_all add: S1_def blake2b_holds_def)
  then have b: "bs_buf S1 = B" "length B = 128" by simp_all
  have "blake2b_compress S2 B = S2\<lparr>bs_h := rfc_absorb h0 (A @ B)\<rparr>"
    "blake2b_counter S2 = length A + 128"
    using blake2b_compress_block [OF h1 assms(3), of B] b by (simp_all add: S2_def)
  then show ?thesis
    using h1 b by (simp add: S2_def blake2b_holds_def)
qed

lemma blake2b_update_rel:
  assumes "blake2b_rel h0 nn M S" "n \<le> length d" "length M + n + 128 < 2 ^ 64"
  shows "\<exists>S'. blake2b_update (Some S) (Some d) n = (0, Some S') \<and>
    blake2b_rel h0 nn (M @ take n d) S'"
proof (cases "n = 0")
  case True
  then show ?thesis using assms by (simp add: blake2b_update_def)
next
  case False
  obtain A R where M: "M = A @ R" "R = [] \<longrightarrow> A = []" and h: "blake2b_holds h0 nn A R S"
    using assms(1) by (auto simp: blake2b_rel_def)
  have l: "unat (bs_buflen S) = length R" "length R \<le> 128" "bs_f0 S = 0"
    using h by (simp_all add: blake2b_holds_def)
  have sz: "size_add (length R) n = length R + n" using assms(3) M by simp
  show ?thesis
  proof (cases "length R + n \<le> 128")
    case True
    have "blake2b_rel h0 nn (M @ take n d)
      (S\<lparr>bs_buf := memcpy_at (bs_buf S) (length R) d n, bs_buflen := bs_buflen S + word_of_nat n\<rparr>)"
      using blake2b_holds_append [OF h True assms(2)] M False assms(2)
      unfolding blake2b_rel_def by (intro exI [of _ A] exI [of _ "R @ take n d"]) auto
    then show ?thesis using True False l sz by (simp add: blake2b_update_def Let_def)
  next
    case over: False
    define f where "f = 128 - length R"
    define B where "B = R @ take f d"
    define S1 where "S1 = S\<lparr>bs_buf := memcpy_at (bs_buf S) (length R) d f\<rparr>"
    define S2 where "S2 = blake2b_increment_counter S1 128"
    define S3 where "S3 = (blake2b_compress S2 (bs_buf S2))\<lparr>bs_buflen := 0\<rparr>"
    have f: "f < n" "f \<le> length d" "length B = 128"
      using over l assms(2) by (simp_all add: f_def B_def)
    have h3: "blake2b_holds h0 nn (A @ B) [] S3"
      using blake2b_fill_block [OF h, of d B] f assms(3) M
      by (simp add: S3_def S2_def S1_def f_def B_def)
    have "n - f \<le> length (drop f d)" "length (A @ B) + (n - f) < 2 ^ 128" "0 < n - f"
      using f assms(2,3) M l by simp_all
    note loop = blake2b_update_loop_holds [OF h3 this]
    obtain k S4 where k: "blake2b_update_loop S3 (drop f d) (n - f) =
        (S4, drop (128 * k) (drop f d), n - f - 128 * k)" "128 * k < n - f" "n - f - 128 * k \<le> 128"
        "blake2b_holds h0 nn ((A @ B) @ take (128 * k) (drop f d)) [] S4"
      using loop by blast
    define d' where "d' = drop (128 * k) (drop f d)"
    define n' where "n' = n - f - 128 * k"
    define S5 where
      "S5 = S4\<lparr>bs_buf := memcpy_at (bs_buf S4) 0 d' n', bs_buflen := bs_buflen S4 + word_of_nat n'\<rparr>"
    have n': "n' \<le> 128" "n' \<le> length d'" "0 < n'" using k assms(2) by (simp_all add: n'_def d'_def)
    have h5: "blake2b_holds h0 nn ((A @ B) @ take (128 * k) (drop f d)) (take n' d') S5"
      using blake2b_holds_append [OF k(4), of n' d'] n' by (simp add: S5_def)
    have n: "n = f + (128 * k + n')" using f k(2) by (simp add: n'_def)
    have "take n d = take f d @ take (128 * k) (drop f d) @ take n' d'"
      unfolding d'_def by (subst n) (simp only: take_add append_assoc)
    then have M': "M @ take n d = ((A @ B) @ take (128 * k) (drop f d)) @ take n' d'"
      by (simp add: M B_def)
    have "blake2b_rel h0 nn (M @ take n d) S5"
      unfolding blake2b_rel_def M' using h5 n'
      by (intro exI [of _ "(A @ B) @ take (128 * k) (drop f d)"] exI [of _ "take n' d'"]) auto
    moreover have "bs_buflen S4 = 0"
      using k(4) by (simp add: blake2b_holds_def unat_eq_0)
    then have "blake2b_update (Some S) (Some d) n = (0, Some S5)"
      using False over l sz k(1)
      by (simp add: blake2b_update_def Let_def S5_def S3_def S2_def S1_def f_def n'_def d'_def)
    ultimately show ?thesis by blast
  qed
qed


section \<open>Finishing\<close>

lemma store_bytes_native_fun: "store_bytes n = native_bytes n"
  by (rule ext) (rule store_bytes_native)

lemma fold_store64:
  "k \<le> 8 \<Longrightarrow> length h = 8 \<Longrightarrow> length b = 64 \<Longrightarrow>
    fold (\<lambda>i b. store64 b (8 * i) (h ! i)) [0..<k] b =
    concat (map (store_bytes 8) (take k h)) @ drop (8 * k) b"
proof (induction k)
  case 0
  then show ?case by simp
next
  case (Suc k)
  have l: "length (concat (map (store_bytes 8) (take k h))) = 8 * k"
    using Suc.prems by (subst length_concat_uniform [where k = 8]) (auto simp: min_absorb2)
  show ?case using Suc l
    by (simp add: take_Suc_conv_app_nth store64_def memcpy_at_def add.commute)
qed

lemma rfc_prefix_split:
  assumes "128 dvd length A" "length R \<le> 128" "R = [] \<longrightarrow> A = []"
  shows "rfc_prefix (length (A @ R)) = length A"
proof -
  obtain k where k: "length A = 128 * k" using assms(1) by (elim dvdE)
  show ?thesis
  proof (cases "R = []")
    case True
    then show ?thesis using assms(3) by (simp add: rfc_prefix_def)
  next
    case False
    then have "(128 * k + length R - 1) div 128 = k"
      using assms(2) by (cases "length R") simp_all
    then show ?thesis using k by (simp add: rfc_prefix_def)
  qed
qed

lemma blake2b_final_rel:
  assumes "blake2b_rel h0 nn M S" "nn \<le> outlen" "nn \<le> 64" "outlen \<le> length out"
    and "length M < 2 ^ 64"
  shows "\<exists>S'. blake2b_final fl (Some S) (Some out) outlen =
    (0, Some S', Some (rfc_finish nn h0 M @ drop nn out)) \<and> bs_f0 S' = -1 \<and>
    (fl \<noteq> 0 \<longrightarrow> bs_buf S' = replicate 128 0 \<and> bs_h S' = replicate 8 0)"
proof -
  obtain A R where M: "M = A @ R" "R = [] \<longrightarrow> A = []" and h: "blake2b_holds h0 nn A R S"
    using assms(1) by (auto simp: blake2b_rel_def)
  define S1 where "S1 = blake2b_increment_counter S (ucast (bs_buflen S))"
  define S2 where "S2 = S1\<lparr>bs_f0 := -1, bs_buf := rfc_pad R\<rparr>"
  define H where "H = rfc_F (rfc_absorb h0 A) (rfc_words (rfc_pad R)) (length M) True"
  have l: "unat (bs_buflen S) = length R" "length R \<le> 128" "bs_f0 S = 0" "bs_last_node S = 0"
    "unat (bs_outlen S) = nn" "take (length R) (bs_buf S) = R" "length (bs_buf S) = 128"
    using h by (simp_all add: blake2b_holds_def)
  have u: "unat (ucast (bs_buflen S) :: u64) = length R" using l(1,2) by (simp add: unsigned_ucast_eq take_bit_nat_eq_self)
  have c: "blake2b_counter S1 = length M"
    using h assms(5) M u by (subst S1_def, subst blake2b_counter_increment)
      (simp_all add: blake2b_holds_def)
  have pad: "memset_at (bs_buf S) (length R) 0 (128 - length R) = rfc_pad R"
    using l by (simp add: memset_at_def rfc_pad_def)
  have lp: "128 \<le> length (rfc_pad R)" by (simp add: rfc_pad_def)
  have comp: "blake2b_compress S2 (rfc_pad R) = S2\<lparr>bs_h := H\<rparr>"
    using h c lp by (subst blake2b_compress_rfc [where f = True])
      (simp_all add: S2_def H_def blake2b_holds_def S1_def)
  have buffer: "fold (\<lambda>i b. store64 b (8 * i) (H ! i)) [0..<8] (replicate 64 0) =
      concat (map (store_bytes 8) H)"
    using fold_store64 [of 8 H "replicate 64 0"] by (simp add: H_def)
  have lc: "length (concat (map (store_bytes 8) H)) = 64"
    by (subst length_concat_uniform [where k = 8]) (auto simp: H_def)
  have spec: "rfc_finish nn h0 M = take nn (concat (map (store_bytes 8) H))"
    using h M rfc_prefix_split [of A R]
    by (simp add: rfc_finish_def H_def blake2b_holds_def store_bytes_native_fun Let_def)
  have "blake2b_final fl (Some S) (Some out) outlen = (0, Some (S2\<lparr>
      bs_h := clear_internal_object fl (replicate 8 0) H,
      bs_buf := clear_internal_object fl (replicate 128 0) (rfc_pad R)\<rparr>),
      Some (memcpy_at out 0 (concat (map (store_bytes 8) H)) nn))"
    using l assms(2) comp pad buffer
    by (simp add: blake2b_final_def Let_def blake2b_set_lastblock_def S2_def S1_def)
  moreover have "memcpy_at out 0 (concat (map (store_bytes 8) H)) nn =
      rfc_finish nn h0 M @ drop nn out"
    by (simp add: memcpy_at_def spec)
  ultimately show ?thesis by (simp add: S2_def wipe_simps)
qed


section \<open>Starting\<close>

abbreviation blake2b_std_param :: "nat \<Rightarrow> nat \<Rightarrow> blake2b_param" where
  "blake2b_std_param nn kk \<equiv>
     \<lparr>P_digest_length = word_of_nat nn, P_key_length = word_of_nat kk, P_fanout = 1, P_depth = 1,
       P_leaf_length = 0, P_node_offset = 0, P_node_depth = 0, P_inner_length = 0,
       P_reserved = replicate 14 0, P_salt = replicate 16 0, P_personal = replicate 16 0\<rparr>"

lemma param_word0:
  "((ucast a OR push_bit 8 (ucast b)) OR 65536) OR 16777216 =
    (0x01010000 :: u64) XOR push_bit 8 (ucast b) XOR ucast a" for a b :: u8
proof -
  obtain d :: u64 where d: "0x01010000 = push_bit 16 d"
    by (rule that [of 257]) simp
  have "((ucast a OR push_bit 8 (ucast b)) OR 65536) OR 16777216 =
      (ucast a OR push_bit 8 (ucast b)) OR (0x01010000 :: u64)"
    by (simp add: or.assoc)
  also have "\<dots> = 0x01010000 XOR push_bit 8 (ucast b) XOR ucast a"
    unfolding d by (rule bit_word_eqI) (auto simp: bit_simps dest: bit_imp_le_length)
  finally show ?thesis .
qed

lemma load64_param:
  "i < 8 \<Longrightarrow> load64 (drop (i * 8) (param_bytes (blake2b_std_param nn kk))) =
    (if i = 0 then 0x01010000 XOR push_bit 8 (ucast (word_of_nat kk :: u8)) XOR
       ucast (word_of_nat nn :: u8) else 0)"
proof -
  assume i: "i < 8"
  have p: "param_bytes (blake2b_std_param nn kk) =
      [word_of_nat nn, word_of_nat kk, 1, 1] @ replicate 60 0"
    by (simp add: param_bytes_def numeral_eq_Suc)
  show ?thesis
  proof (cases "i = 0")
    case True
    then show ?thesis unfolding p by (simp add: load64_def upt_rec param_word0)
  next
    case False
    then have "drop (i * 8) (param_bytes (blake2b_std_param nn kk)) = replicate (64 - i * 8) 0"
      unfolding p drop_append by simp
    then have "load64 (drop (i * 8) (param_bytes (blake2b_std_param nn kk))) = 0"
      using i by (simp add: bit_eq_iff bit_load64)
    then show ?thesis using False by simp
  qed
qed

lemma fold_param_h:
  fixes x :: u64
  assumes "length h = 8"
  shows "map (\<lambda>i. h ! i XOR (if i = 0 then x else 0)) [0..<8] = h[0 := h ! 0 XOR x]"
  using assms by (intro nth_equalityI) (auto simp: nth_list_update)

lemma blake2b_init_param_rfc:
  assumes "nn \<le> 64" "kk \<le> 64"
  shows "blake2b_init_param (Some S) (Some (blake2b_std_param nn kk)) =
    (0, Some (blake2b_zero\<lparr>bs_h := rfc_init kk nn, bs_outlen := word_of_nat nn\<rparr>))"
proof -
  have u: "ucast (word_of_nat n :: u8) = (word_of_nat n :: 'a::len word)" if "n \<le> 64" for n
    using that by (simp add: word_eq_iff_unsigned unsigned_ucast_eq unsigned_of_nat take_bit_nat_eq_self)
  define x where "x = (0x01010000 :: u64) XOR push_bit 8 (word_of_nat kk) XOR word_of_nat nn"
  have "map (\<lambda>i. rfc_IV ! i XOR load64 (drop (i * 8) (param_bytes (blake2b_std_param nn kk)))) [0..<8]
      = map (\<lambda>i. rfc_IV ! i XOR (if i = 0 then x else 0)) [0..<8]"
    by (rule map_cong [OF refl]) (use assms in \<open>simp only: load64_param u x_def set_upt atLeastLessThan_iff\<close>)
  then have m: "map (\<lambda>i. rfc_IV ! i XOR load64 (drop (i * 8) (param_bytes (blake2b_std_param nn kk)))) [0..<8]
      = rfc_init kk nn"
    by (simp only: fold_param_h length_rfc_IV rfc_init_def x_def xor.assoc)
  show ?thesis
    unfolding blake2b_init_param_def blake2b_init0_def
    using assms by (simp add: Let_def u) (subst fold_update_h, simp_all add: m blake2b_IV_rfc)
qed


lemma blake2b_init_eq:
  "1 \<le> nn \<Longrightarrow> nn \<le> 64 \<Longrightarrow> blake2b_init fl (Some S) nn =
    (0, Some (blake2b_zero\<lparr>bs_h := rfc_init 0 nn, bs_outlen := word_of_nat nn\<rparr>))"
  using blake2b_init_param_rfc [of nn 0 S] by (simp add: blake2b_init_def)

lemma length_rfc_init [len_simps, simp]: "length (rfc_init kk nn) = 8"
  by (simp add: rfc_init_def)

lemma blake2b_start_rel:
  "nn \<le> 64 \<Longrightarrow> kk \<le> 64 \<Longrightarrow>
    blake2b_rel (rfc_init kk nn) nn [] (blake2b_zero\<lparr>bs_h := rfc_init kk nn, bs_outlen := word_of_nat nn\<rparr>)"
  by (simp add: blake2b_rel_def blake2b_holds_def blake2b_zero_def blake2b_counter_def unat_of_nat)

lemma blake2b_key_rel:
  assumes "1 \<le> nn" "nn \<le> 64" "1 \<le> keylen" "keylen \<le> 64" "keylen \<le> length key"
  shows "\<exists>S'. blake2b_init_key fl (Some S) nn (Some key) keylen = (0, Some S') \<and>
    blake2b_rel (rfc_init keylen nn) nn (rfc_pad (take keylen key)) S'"
proof -
  define S0 where "S0 = blake2b_zero\<lparr>bs_h := rfc_init keylen nn, bs_outlen := word_of_nat nn\<rparr>"
  have pad: "memcpy_at (replicate 128 0) 0 key keylen = rfc_pad (take keylen key)"
    using assms by (simp add: memcpy_at_def rfc_pad_def)
  have l: "length (rfc_pad (take keylen key)) = 128" using assms by (simp add: rfc_pad_def)
  have "\<exists>S'. blake2b_update (Some S0) (Some (rfc_pad (take keylen key))) 128 = (0, Some S') \<and>
      blake2b_rel (rfc_init keylen nn) nn ([] @ take 128 (rfc_pad (take keylen key))) S'"
    using assms l by (intro blake2b_update_rel) (simp_all add: S0_def blake2b_start_rel)
  then show ?thesis
    using assms l blake2b_init_param_rfc [of nn keylen S]
    by (auto simp: blake2b_init_key_def Let_def pad S0_def)
qed

section \<open>The one-shot functions\<close>

lemma length_rfc_finish [len_simps, simp]: "nn \<le> 64 \<Longrightarrow> length (rfc_finish nn h d) = nn"
proof -
  assume "nn \<le> 64"
  moreover have "length (concat (map (native_bytes 8) (rfc_F a b c f))) = 64" for a b c f
    by (subst length_concat_uniform [where k = 8]) (auto simp: native_bytes_def)
  ultimately show ?thesis by (simp add: rfc_finish_def Let_def)
qed

lemma length_rfc_blake2b [len_simps, simp]: "nn \<le> 64 \<Longrightarrow> length (rfc_blake2b nn k M) = nn"
  by (simp add: rfc_blake2b_def)

lemma blake2b_update_readable:
  assumes "blake2b_rel h0 nn M S" "readable p n" "length M + n + 128 < 2 ^ 64"
  shows "\<exists>S'. blake2b_update (Some S) p n = (0, Some S') \<and> blake2b_rel h0 nn (M @ read_buf p n) S'"
  using assms blake2b_update_rel [of h0 nn M S n]
  by (cases p) (auto simp: blake2b_update_def)

definition blake2b_args_ok :: "nat \<Rightarrow> u8 list option \<Rightarrow> nat \<Rightarrow> u8 list option \<Rightarrow> nat \<Rightarrow> bool" where
  "blake2b_args_ok outlen inp inlen key keylen \<longleftrightarrow>
     1 \<le> outlen \<and> outlen \<le> 64 \<and> readable inp inlen \<and> readable key keylen \<and> keylen \<le> 64 \<and>
     inlen + 256 < 2 ^ 64"

lemma blake2b_keyed_start:
  assumes "1 \<le> nn" "nn \<le> 64" "readable key keylen" "keylen \<le> 64"
  shows "\<exists>S'. (if keylen > 0 then blake2b_init_key fl (Some S) nn key keylen
       else blake2b_init fl (Some S) nn) = (0, Some S') \<and>
    blake2b_rel (rfc_init keylen nn) nn (if keylen = 0 then [] else rfc_pad (read_buf key keylen)) S'"
proof (cases "keylen = 0")
  case True
  then show ?thesis using assms by (simp add: blake2b_init_eq blake2b_start_rel)
next
  case False
  then obtain k where "key = Some k" using assms by (cases key) auto
  then show ?thesis using False assms blake2b_key_rel [of nn keylen k fl S] by simp
qed

lemma blake2b_eq:
  assumes "blake2b_args_ok outlen inp inlen key keylen" "outlen \<le> length out"
  shows "\<exists>S. blake2b fl (Some out) outlen inp inlen key keylen =
    (0, Some (rfc_blake2b outlen (read_buf key keylen) (read_buf inp inlen) @ drop outlen out),
     Some (clear_internal_object fl blake2b_zero S))"
proof -
  note a = assms [unfolded blake2b_args_ok_def]
  let ?k = "if keylen = 0 then [] else rfc_pad (read_buf key keylen)"
  obtain S1 where S1: "(if keylen > 0 then blake2b_init_key fl (Some blake2b_zero) outlen key keylen
       else blake2b_init fl (Some blake2b_zero) outlen) = (0, Some S1)"
      "blake2b_rel (rfc_init keylen outlen) outlen ?k S1"
    using blake2b_keyed_start [of outlen key keylen fl blake2b_zero] a by blast
  have lk: "length ?k \<le> 128" using a by (simp add: rfc_pad_def)
  obtain S2 where S2: "blake2b_update (Some S1) inp inlen = (0, Some S2)"
      "blake2b_rel (rfc_init keylen outlen) outlen (?k @ read_buf inp inlen) S2"
    using blake2b_update_readable [OF S1(2), of inp inlen] a lk by fastforce
  have l: "length (?k @ read_buf inp inlen) < 2 ^ 64" using lk a by simp
  obtain S3 where S3: "blake2b_final fl (Some S2) (Some out) outlen =
      (0, Some S3, Some (rfc_finish outlen (rfc_init keylen outlen) (?k @ read_buf inp inlen) @ drop outlen out))"
    using blake2b_final_rel [OF S2(2), of outlen out fl] a l by auto
  have g: "(inp = None \<and> 0 < inlen) = False" "(Some out = None \<or> outlen = 0 \<or> BLAKE2B_OUTBYTES < outlen) = False"
    "(key = None \<and> 0 < keylen \<or> BLAKE2B_KEYBYTES < keylen) = False"
    using a by (auto simp: readable_def split: option.splits)
  have e: "(read_buf key keylen = []) = (keylen = 0)" using a by (metis length_0_conv length_read_buf)
  have "blake2b fl (Some out) outlen inp inlen key keylen =
    (0, Some (rfc_finish outlen (rfc_init keylen outlen) (?k @ read_buf inp inlen) @ drop outlen out),
     Some (clear_internal_object fl blake2b_zero S3))"
    by (simp only: blake2b_def Let_def g S1(1) S2(1) S3 if_False prod.case option.map less_irrefl)
  then show ?thesis using e a by (auto simp: rfc_blake2b_def)
qed

lemma blake2b_64:
  "length v = 64 \<Longrightarrow> 1 \<le> nn \<Longrightarrow> nn \<le> 64 \<Longrightarrow> nn \<le> length b \<Longrightarrow>
    \<exists>S. blake2b fl (Some b) nn (Some v) 64 None 0 = (0, Some (rfc_blake2b nn [] v @ drop nn b), S)"
  using blake2b_eq [of nn "Some v" 64 None 0 b fl] by (auto simp: blake2b_args_ok_def)

lemma length_rfc_V: "length v = 64 \<Longrightarrow> r \<le> 64 \<Longrightarrow> length (rfc_V n r v) = 32 * n + 32 + r"
  by (induction n arbitrary: v) simp_all

lemma drop_rfc_V: "length v = 64 \<Longrightarrow> drop 32 (rfc_V (Suc n) r v) = rfc_V n r (rfc_blake2b 64 [] v)"
  by simp

lemma take_rfc_V: "length v = 64 \<Longrightarrow> take 32 (rfc_V n r v) = take 32 v"
  by (cases n) simp_all

definition rfc_tail :: "nat \<Rightarrow> u8 list \<Rightarrow> u8 list" where
  "rfc_tail n v = drop 32 (rfc_V ((n - 33) div 32) (n - 32 * ((n - 33) div 32)) v)"

lemma rfc_tail_last: "length v = 64 \<Longrightarrow> 32 < n \<Longrightarrow> n \<le> 64 \<Longrightarrow> rfc_tail n v = rfc_blake2b n [] v"
proof -
  assume "length v = 64" "32 < n" "n \<le> 64"
  moreover from this have "(n - 33) div 32 = 0" by simp
  ultimately show ?thesis by (simp add: rfc_tail_def)
qed

lemma rfc_tail_step:
  assumes "length v = 64" "64 < n"
  shows "rfc_tail n v = take 32 (rfc_blake2b 64 [] v) @ rfc_tail (n - 32) (rfc_blake2b 64 [] v)"
proof -
  have k: "(n - 33) div 32 = Suc ((n - 32 - 33) div 32)" using assms(2) by linarith
  have r: "n - 32 * ((n - 33) div 32) = n - 32 - 32 * ((n - 32 - 33) div 32)" by (simp add: k)
  show ?thesis
    unfolding rfc_tail_def r unfolding k drop_rfc_V [OF assms(1)]
    by (metis append_take_drop_id take_rfc_V length_rfc_blake2b order_refl)
qed

lemma blake2b_long_loop_tail:
  assumes "length v = 64" "32 < unat t" "n = unat t" "pos + n \<le> length o'"
  shows "\<exists>o2 pos2 v2 t2. blake2b_long_loop fl (Some o') pos v t = (0, Some o2, pos2, v2, t2) \<and>
    32 < unat t2 \<and> unat t2 \<le> 64 \<and> length v2 = 64 \<and> length o2 = length o' \<and> pos2 + unat t2 = pos + n \<and>
    take pos2 o2 @ rfc_blake2b (unat t2) [] v2 @ drop (pos2 + unat t2) o2 =
    take pos o' @ rfc_tail n v @ drop (pos + n) o'"
  using assms
proof (induction n arbitrary: o' pos v t rule: less_induct)
  case (less n)
  show ?case
  proof (cases "n \<le> 64")
    case True
    then have "blake2b_long_loop fl (Some o') pos v t = (0, Some o', pos, v, t)"
      using less.prems(3) by (simp add: blake2b_long_loop.simps)
    then show ?thesis using True less.prems by (simp add: rfc_tail_last)
  next
    case False
    define v1 where "v1 = rfc_blake2b 64 [] v"
    define o1 where "o1 = memcpy_at o' pos v1 32"
    define t1 where "t1 = t - 32"
    have l1: "length v1 = 64" "length o1 = length o'"
      using False less.prems(4) by (simp_all add: v1_def o1_def)
    have t1: "unat t1 = n - 32"
      using False less.prems(3) by (simp add: t1_def unat_sub word_le_nat_alt)
    obtain S where b: "blake2b fl (Some v) 64 (Some v) 64 None 0 = (0, Some v1, S)"
      using blake2b_64 [of v 64 v fl] less.prems(1) by (auto simp: v1_def)
    have step: "blake2b_long_loop fl (Some o') pos v t = blake2b_long_loop fl (Some o1) (pos + 32) v1 t1"
      using False less.prems(3) b
      by (subst blake2b_long_loop.simps) (simp add: o1_def t1_def)
    have take1: "take (pos + 32) o1 = take pos o' @ take 32 v1"
      using less.prems(4) False l1 by (simp add: o1_def)
    have drop1: "drop (pos + n) o1 = drop (pos + n) o'"
      using less.prems(4) False l1 by (simp add: o1_def memcpy_at_def add.commute)
    have n: "n - 32 < n" "32 < unat t1" "n - 32 = unat t1" "pos + 32 + (n - 32) \<le> length o1"
      "pos + 32 + (n - 32) = pos + n"
      using False t1 less.prems(4) l1 by simp_all
    show ?thesis
      using less.IH [OF n(1) l1(1) n(2,3,4)] False less.prems(1) l1
      unfolding step n(5) take1 drop1
      by (simp add: rfc_tail_step v1_def [symmetric])
  qed
qed

lemma outlen_bytes: "store32 (replicate 4 0) 0 w = native_bytes 4 w"
  by (simp add: store32_def memcpy_at_def store_bytes_native_fun native_bytes_def)

lemma blake2b_stream3:
  assumes "1 \<le> nn" "nn \<le> 64" "length x = 4" "readable inp inlen" "inlen + 256 < 2 ^ 64"
    "nn \<le> length out"
  shows "\<exists>S1 S2 S3 S4. blake2b_init fl (Some blake2b_zero) nn = (0, Some S1) \<and>
    blake2b_update (Some S1) (Some x) 4 = (0, Some S2) \<and>
    blake2b_update (Some S2) inp inlen = (0, Some S3) \<and>
    blake2b_final fl (Some S3) (Some out) nn =
      (0, Some S4, Some (rfc_blake2b nn [] (x @ read_buf inp inlen) @ drop nn out))"
proof -
  define S1 where "S1 = blake2b_zero\<lparr>bs_h := rfc_init 0 nn, bs_outlen := word_of_nat nn\<rparr>"
  have S1: "blake2b_init fl (Some blake2b_zero) nn = (0, Some S1)"
      "blake2b_rel (rfc_init 0 nn) nn [] S1"
    using assms by (simp_all add: S1_def blake2b_init_eq blake2b_start_rel)
  obtain S2 where S2: "blake2b_update (Some S1) (Some x) 4 = (0, Some S2)"
      "blake2b_rel (rfc_init 0 nn) nn x S2"
    using blake2b_update_rel [OF S1(2), of 4 x] assms by auto
  obtain S3 where S3: "blake2b_update (Some S2) inp inlen = (0, Some S3)"
      "blake2b_rel (rfc_init 0 nn) nn (x @ read_buf inp inlen) S3"
    using blake2b_update_readable [OF S2(2), of inp inlen] assms by auto
  have "length (x @ read_buf inp inlen) < 2 ^ 64" using assms by simp
  from blake2b_final_rel [OF S3(2) order_refl assms(2,6) this, of fl]
  obtain S4 where "blake2b_final fl (Some S3) (Some out) nn =
      (0, Some S4, Some (rfc_blake2b nn [] (x @ read_buf inp inlen) @ drop nn out))"
    by (auto simp: rfc_blake2b_def)
  then show ?thesis using S1 S2 S3 by blast
qed

lemma H'_tail:
  assumes "64 < T"
  shows "rfc_H' T A = (let v = rfc_blake2b 64 [] (native_bytes 4 (word_of_nat T :: u32) @ A)
    in take 32 v @ rfc_tail (T - 32) v)"
proof -
  define d where "d = T - 65"
  have T: "T = d + 65" using assms by (simp add: d_def)
  have e: "(T + 31) div 32 = d div 32 + 3" "(T - 32 - 33) div 32 = d div 32" by (simp_all add: T)
  have k: "(T + 31) div 32 - 2 - 1 = (T - 32 - 33) div 32" unfolding e by simp
  have r: "T - 32 * ((T + 31) div 32 - 2) = T - 32 - 32 * ((T - 32 - 33) div 32)" unfolding e by simp
  show ?thesis
    using assms unfolding rfc_H'_def rfc_tail_def Let_def k r
    by (simp del: rfc_V.simps) (metis append_take_drop_id take_rfc_V length_rfc_blake2b order_refl)
qed

lemma blake2b_long_eq:
  assumes "1 \<le> outlen" "outlen < 2 ^ 32" "outlen \<le> length out" "readable inp inlen" "inlen + 256 < 2 ^ 64"
  shows "\<exists>S. blake2b_long fl (Some out) outlen inp inlen =
    (0, Some (rfc_H' outlen (read_buf inp inlen) @ drop outlen out),
     Some (clear_internal_object fl blake2b_zero S))"
proof (cases "outlen \<le> 64")
  case True
  define x where "x = native_bytes 4 (word_of_nat outlen :: u32)"
  have lx: "length x = 4" by (simp add: x_def native_bytes_def)
  obtain S1 S2 S3 S4 where s: "blake2b_init fl (Some blake2b_zero) outlen = (0, Some S1)"
    "blake2b_update (Some S1) (Some x) 4 = (0, Some S2)"
    "blake2b_update (Some S2) inp inlen = (0, Some S3)"
    "blake2b_final fl (Some S3) (Some out) outlen =
      (0, Some S4, Some (rfc_blake2b outlen [] (x @ read_buf inp inlen) @ drop outlen out))"
    using blake2b_stream3 [OF assms(1) True lx assms(4,5,3)] by blast
  have g: "(UINT32_MAX < outlen) = False" "(outlen \<le> BLAKE2B_OUTBYTES) = True" using True assms by auto
  have h: "rfc_H' outlen (read_buf inp inlen) = rfc_blake2b outlen [] (x @ read_buf inp inlen)"
    using True by (simp add: rfc_H'_def x_def)
  show ?thesis
    by (simp only: blake2b_long_def Let_def g outlen_bytes x_def [symmetric] s if_False if_True
        prod.case option.map less_irrefl h) blast
next
  case False
  define x where "x = native_bytes 4 (word_of_nat outlen :: u32)"
  have lx: "length x = 4" by (simp add: x_def native_bytes_def)
  define v where "v = rfc_blake2b 64 [] (x @ read_buf inp inlen)"
  obtain S1 S2 S3 S4 where s: "blake2b_init fl (Some blake2b_zero) BLAKE2B_OUTBYTES = (0, Some S1)"
    "blake2b_update (Some S1) (Some x) 4 = (0, Some S2)"
    "blake2b_update (Some S2) inp inlen = (0, Some S3)"
    "blake2b_final fl (Some S3) (Some (replicate BLAKE2B_OUTBYTES 0)) BLAKE2B_OUTBYTES = (0, Some S4, Some v)"
    using blake2b_stream3 [of 64 x inp inlen "replicate 64 0" fl] lx assms(4,5)
    by (simp add: v_def) blast
  define o1 where "o1 = memcpy_at out 0 v 32"
  define t where "t = (word_of_nat outlen :: u32) - 32"
  have lv: "length v = 64" by (simp add: v_def)
  have lo: "length o1 = length out" "take 32 o1 = take 32 v" "drop outlen o1 = drop outlen out"
    using False assms lv by (simp_all add: o1_def memcpy_at_def)
  have t: "unat t = outlen - 32"
    using False assms by (simp add: t_def unat_sub word_le_nat_alt unat_of_nat)
  have t32: "32 < unat t" and lo32: "32 + (outlen - 32) \<le> length o1"
    using False assms t lo by simp_all
  obtain o2 pos2 v2 t2 where l: "blake2b_long_loop fl (Some o1) 32 v t = (0, Some o2, pos2, v2, t2)"
    "32 < unat t2" "unat t2 \<le> 64" "length v2 = 64"
    "take pos2 o2 @ rfc_blake2b (unat t2) [] v2 @ drop (pos2 + unat t2) o2 =
      take 32 o1 @ rfc_tail (outlen - 32) v @ drop (32 + (outlen - 32)) o1"
    using blake2b_long_loop_tail [OF lv t32 t(1) [symmetric] lo32, of fl] by blast
  obtain S5 where f: "blake2b fl (Some v2) (unat t2) (Some v2) BLAKE2B_OUTBYTES None 0 =
      (0, Some (rfc_blake2b (unat t2) [] v2 @ drop (unat t2) v2), S5)"
    using blake2b_64 [of v2 "unat t2" v2 fl] l(2-4) by (simp del: unat_1) blast
  have fin: "memcpy_at o2 pos2 (rfc_blake2b (unat t2) [] v2 @ drop (unat t2) v2) (unat t2) =
      rfc_H' outlen (read_buf inp inlen) @ drop outlen out"
    using l(2-5) lo False by (simp add: memcpy_at_def H'_tail Let_def v_def x_def)
  have h: "memcpy_at out 0 v (BLAKE2B_OUTBYTES div 2) = o1" "BLAKE2B_OUTBYTES div 2 = 32"
    "(word_of_nat outlen :: u32) - word_of_nat (BLAKE2B_OUTBYTES div 2) = t"
    by (simp_all add: o1_def t_def)
  have g: "(UINT32_MAX < outlen) = False" "(outlen \<le> BLAKE2B_OUTBYTES) = False" using False assms by auto
  show ?thesis
    by (simp only: blake2b_long_def Let_def g outlen_bytes x_def [symmetric] s if_False
        prod.case option.map option.sel less_irrefl h(1,3))
      (simp only: h(2) l(1) f fin prod.case option.map option.sel less_irrefl if_False,
        blast)
qed

section \<open>The streaming interface\<close>

text \<open>The streaming functions provide the interface \<open>streaming_hash\<close>.\<close>

interpretation b2: streaming_hash
  "\<lambda>nn. snd (blake2b_init fl (Some S0) nn)"
  "\<lambda>S d. blake2b_update S (Some d) (length d)"
  "\<lambda>S out. (let (r, S', o') = blake2b_final fl S (Some out) (length out) in (r, the o'))"
  "\<lambda>nn. 1 \<le> nn \<and> nn \<le> 64" "2 ^ 64 - 128" "\<lambda>nn. nn"
  "\<lambda>nn M S. \<exists>s. S = Some s \<and> nn \<le> 64 \<and> blake2b_rel (rfc_init 0 nn) nn M s"
  "\<lambda>nn. rfc_blake2b nn []" for fl S0
proof (unfold_locales, goal_cases)
  case (1 nn)
  then show ?case by (simp add: blake2b_init_eq blake2b_start_rel)
next
  case (2 nn M S d)
  then show ?case using blake2b_update_rel [of "rfc_init 0 nn" nn M _ "length d" d] by fastforce
next
  case (3 nn M S out)
  then obtain s where s: "S = Some s" "nn \<le> 64" "blake2b_rel (rfc_init 0 nn) nn M s" by blast
  show ?case
    using blake2b_final_rel [OF s(3), of "length out" out fl] 3 s by (auto simp: rfc_blake2b_def)
qed

section \<open>Properties\<close>

lemma blake2b_error_branch:
  assumes "inp = None \<and> inlen > 0 \<or> out = None \<or> outlen = 0 \<or> outlen > 64 \<or>
    key = None \<and> keylen > 0 \<or> keylen > 64"
  shows "blake2b fl out outlen inp inlen key keylen =
    (-1, out, Some (clear_internal_object fl blake2b_zero blake2b_zero))"
proof -
  have "(inp = None \<and> inlen > 0) \<or> (out = None \<or> outlen = 0 \<or> outlen > BLAKE2B_OUTBYTES) \<or>
      ((key = None \<and> keylen > 0) \<or> keylen > BLAKE2B_KEYBYTES)"
    using assms by auto
  then show ?thesis
    unfolding blake2b_def Let_def option.map by (elim disjE) (simp_all only: if_True if_cancel simp_thms)
qed

text \<open>C28: \<^verbatim>\<open>blake2b\<close> (blake2b.c) computes the keyed and unkeyed hash of RFC 7693 into the first
  \<open>outlen\<close> bytes of \<open>out\<close> and leaves the rest, for any readable input; on invalid arguments it
  returns \<open>-1\<close> and writes nothing. On every path the local state, which held key and message, is
  wiped when wiping is on.\<close>

theorem blake2b_rfc7693:
  assumes "\<forall>b. inp = Some b \<longrightarrow> inlen \<le> length b" and "\<forall>b. key = Some b \<longrightarrow> keylen \<le> length b"
    and "\<forall>b. out = Some b \<longrightarrow> outlen \<le> length b" and "inlen + 256 < 2 ^ 64"
  shows "\<exists>S. blake2b fl out outlen inp inlen key keylen =
    (if inp = None \<and> inlen > 0 \<or> out = None \<or> outlen = 0 \<or> outlen > 64 \<or>
        key = None \<and> keylen > 0 \<or> keylen > 64
     then (-1, out, Some S)
     else (0, Some (rfc_blake2b outlen (read_buf key keylen) (read_buf inp inlen) @
                      drop outlen (the out)), Some S)) \<and>
    (fl \<noteq> 0 \<longrightarrow> S = blake2b_zero)"
proof (cases "inp = None \<and> inlen > 0 \<or> out = None \<or> outlen = 0 \<or> outlen > 64 \<or>
    key = None \<and> keylen > 0 \<or> keylen > 64")
  case True
  show ?thesis unfolding blake2b_error_branch [OF True] if_P [OF True] by (auto simp: wipe_simps)
next
  case False
  then obtain b where out: "out = Some b" by (cases out) auto
  have "blake2b_args_ok outlen inp inlen key keylen"
    using False assms unfolding blake2b_args_ok_def
    by (cases inp; cases key) (simp_all add: not_less Suc_leI)
  from blake2b_eq [OF this, of b fl] show ?thesis
    unfolding if_not_P [OF False] using out assms(3) by (auto simp: wipe_simps)
qed

theorem blake2b_rfc7693_witness:
  "\<exists>S. blake2b 1 (Some (replicate 33 7)) 32 (Some [97, 98, 99]) 3 (Some [1, 2]) 2 =
    (0, Some (rfc_blake2b 32 [1, 2] [97, 98, 99] @ [7]), Some S)"
  using blake2b_rfc7693 [of "Some [97, 98, 99]" 3 "Some [1, 2]" 2 "Some (replicate 33 7)" 32 1]
  by auto

text \<open>C38: \<^verbatim>\<open>blake2b_init\<close>, any sequence of \<^verbatim>\<open>blake2b_update\<close> calls and \<^verbatim>\<open>blake2b_final\<close> compute the
  RFC 7693 hash of the concatenated pieces: neither how the message is split nor what the state
  object held before matters.\<close>

theorem blake2b_stream_rfc7693:
  assumes "1 \<le> nn" and "nn \<le> 64" and "length (concat ds) < 2 ^ 64 - 128" and "nn \<le> length out"
  shows "\<exists>S'. blake2b_final fl
      (fold (\<lambda>d S. snd (blake2b_update S (Some d) (length d))) ds (snd (blake2b_init fl (Some junk) nn)))
      (Some out) (length out) = (0, S', Some (rfc_blake2b nn [] (concat ds) @ drop nn out))"
proof -
  let ?f = "blake2b_final fl (fold (\<lambda>d S. snd (blake2b_update S (Some d) (length d))) ds
      (snd (blake2b_init fl (Some junk) nn))) (Some out) (length out)"
  have "\<exists>s. fold (\<lambda>d S. snd (blake2b_update S (Some d) (length d))) ds
      (snd (blake2b_init fl (Some junk) nn)) = Some s \<and> nn \<le> 64 \<and>
      blake2b_rel (rfc_init 0 nn) nn ([] @ concat ds) s"
    using b2.rel_absorb_all [OF b2.rel_start, of nn ds fl junk] assms by (simp add: b2.absorb_all_def)
  then obtain s where s: "fold (\<lambda>d S. snd (blake2b_update S (Some d) (length d))) ds
      (snd (blake2b_init fl (Some junk) nn)) = Some s" "blake2b_rel (rfc_init 0 nn) nn (concat ds) s"
    by auto
  have "length (concat ds) < 2 ^ 64" using assms(3) by simp
  from blake2b_final_rel [OF s(2) assms(4,2) order_refl this, of fl] show ?thesis
    unfolding s(1) by (auto simp: rfc_blake2b_def)
qed

theorem blake2b_stream_rfc7693_witness:
  "\<exists>S'. blake2b_final 1 (fold (\<lambda>d S. snd (blake2b_update S (Some d) (length d)))
      [replicate 200 1, [], [2, 3]] (snd (blake2b_init 1 (Some blake2b_zero) 16)))
      (Some (replicate 16 0)) (length (replicate 16 (0 :: u8))) =
    (0, S', Some (rfc_blake2b 16 [] (concat [replicate 200 1, [], [2, 3]]) @ []))"
  using blake2b_stream_rfc7693 [of 16 "[replicate 200 1, [], [2, 3]]" "replicate 16 0" 1 blake2b_zero]
  by simp

lemma blake2b_locked:
  assumes "bs_f0 s \<noteq> 0"
  shows "0 < n \<Longrightarrow> blake2b_update (Some s) d n = (-1, Some s)"
    and "blake2b_final fl (Some s) o' m = (-1, Some s, o')"
  using assms by (auto simp: blake2b_update_def blake2b_final_def split: option.splits)

lemma blake2b_compress_f0 [simp]: "bs_f0 (blake2b_compress S b) = bs_f0 S"
  unfolding blake2b_compress_def Let_def
  by (rule fold_invar [where P = "\<lambda>s. bs_f0 s = bs_f0 S"]) simp_all

text \<open>C39: a finished state cannot be reused: after a successful \<^verbatim>\<open>blake2b_final\<close> on any state, and
  after a \<^verbatim>\<open>blake2b_init\<close> that rejected its output length, every later \<^verbatim>\<open>blake2b_update\<close> with data
  and every \<^verbatim>\<open>blake2b_final\<close> returns \<open>-1\<close> and changes nothing, in particular no output.\<close>

theorem blake2b_no_reuse:
  assumes "(\<exists>s0 o0 n0 o1. blake2b_final fl (Some s0) (Some o0) n0 = (0, Some s, o1)) \<or>
    (\<exists>s0 n0. blake2b_init fl (Some s0) n0 = (-1, Some s))"
    and "0 < n"
  shows "blake2b_update (Some s) d n = (-1, Some s) \<and> blake2b_final fl (Some s) o' m = (-1, Some s, o')"
proof -
  have "bs_f0 s \<noteq> 0" using assms(1)
  proof (elim disjE exE)
    fix s0 o0 n0 o1 assume "blake2b_final fl (Some s0) (Some o0) n0 = (0, Some s, o1)"
    then show ?thesis
      by (auto simp: blake2b_final_def Let_def blake2b_compress_f0 blake2b_set_lastblock_def
          split: if_splits)
  next
    fix s0 n0 assume "blake2b_init fl (Some s0) n0 = (-1, Some s)"
    then show ?thesis
      by (auto simp: blake2b_init_def blake2b_init_param_def Let_def blake2b_invalidate_state_def
          blake2b_set_lastblock_def split: if_splits)
  qed
  then show ?thesis using blake2b_locked assms(2) by blast
qed

theorem blake2b_no_reuse_witness:
  "\<exists>s. blake2b_init 1 (Some blake2b_zero) 65 = (-1, Some s) \<and>
    blake2b_update (Some s) (Some [7]) 1 = (-1, Some s) \<and>
    blake2b_final 1 (Some s) (Some [9]) 1 = (-1, Some s, Some [9])"
proof -
  have i: "blake2b_init 1 (Some blake2b_zero) 65 = (-1, Some (blake2b_invalidate_state 1 blake2b_zero))"
    by (simp add: blake2b_init_def)
  have "(\<exists>s0 o0 n0 o1. blake2b_final 1 (Some s0) (Some o0) n0 =
      (0, Some (blake2b_invalidate_state 1 blake2b_zero), o1)) \<or>
    (\<exists>s0 n0. blake2b_init 1 (Some s0) n0 = (-1, Some (blake2b_invalidate_state 1 blake2b_zero)))"
    using i by (intro disjI2 exI)
  from i blake2b_no_reuse [OF this, of 1 "Some [7]" "Some [9]" 1] show ?thesis
    by (intro exI [of _ "blake2b_invalidate_state 1 blake2b_zero"]) simp
qed

lemma blake2b_init_bad:
  "outlen = 0 \<Longrightarrow> blake2b_init fl (Some S) outlen = (-1, Some (blake2b_invalidate_state fl S))"
  by (simp add: blake2b_init_def)

lemma blake2b_long_error:
  assumes "outlen = 0 \<or> outlen > 2 ^ 32 - 1 \<or> inp = None \<and> inlen > 0"
  shows "\<exists>S. blake2b_long fl (Some out) outlen inp inlen =
    (-1, Some out, Some (clear_internal_object fl blake2b_zero S))"
proof (cases "outlen > UINT32_MAX")
  case True
  then show ?thesis unfolding blake2b_long_def Let_def option.map if_P [OF True] by blast
next
  case max: False
  have neg: "(-1 :: int) < 0" by simp
  define x where "x = store32 (replicate 4 0) 0 (word_of_nat outlen)"
  show ?thesis
  proof (cases "outlen = 0")
    case True
    then have le: "outlen \<le> BLAKE2B_OUTBYTES" by simp
    show ?thesis
      unfolding blake2b_long_def Let_def if_not_P [OF max] if_P [OF le] blake2b_init_bad [OF True]
        prod.case if_P [OF neg] option.map by blast
  next
    case False
    then have n: "inp = None" "inlen > 0" using assms max by auto
    have lx: "4 \<le> length x" by (simp add: x_def store32_def)
    have upd: "blake2b_update S inp inlen = (-1, S)" for S
      using n by (cases S) (simp_all add: blake2b_update_def)
    have run: "\<exists>S1 S2. blake2b_init fl (Some blake2b_zero) nn = (0, Some S1) \<and>
        blake2b_update (Some S1) (Some x) 4 = (0, Some S2)" if "1 \<le> nn" "nn \<le> 64" for nn
      using blake2b_update_rel [OF blake2b_start_rel [of nn 0] lx] that by (simp add: blake2b_init_eq) blast
    define nn where "nn = (if outlen \<le> BLAKE2B_OUTBYTES then outlen else BLAKE2B_OUTBYTES)"
    have "1 \<le> nn" "nn \<le> 64" using False by (simp_all add: nn_def)
    from run [OF this] obtain S1 S2 where s: "blake2b_init fl (Some blake2b_zero) nn = (0, Some S1)"
      "blake2b_update (Some S1) (Some x) 4 = (0, Some S2)" by blast
    show ?thesis
    proof (cases "outlen \<le> BLAKE2B_OUTBYTES")
      case True
      then have "nn = outlen" by (simp add: nn_def)
      note s' = s [unfolded this]
      show ?thesis
        by (simp only: blake2b_long_def Let_def if_not_P [OF max] x_def [symmetric] if_P [OF True]
            s' upd prod.case neg if_True if_False less_irrefl option.map) blast
    next
      case False
      then have "nn = BLAKE2B_OUTBYTES" by (simp add: nn_def)
      note s' = s [unfolded this]
      show ?thesis
        by (simp only: blake2b_long_def Let_def if_not_P [OF max] x_def [symmetric] if_not_P [OF False]
            s' upd prod.case neg if_True if_False less_irrefl option.map) blast
    qed
  qed
qed

text \<open>C29: \<^verbatim>\<open>blake2b_long\<close> computes H' of RFC 9106 for every output length from 1 to
  \<^verbatim>\<open>UINT32_MAX\<close>: the first half of each 64-byte value of the chain and all of the last one, with
  nothing written after the output. Other lengths, and a missing input, give \<open>-1\<close> and no output.
  The hash state is wiped on every path when wiping is on.\<close>

theorem blake2b_long_H':
  assumes "outlen \<le> length out" and "\<forall>b. inp = Some b \<longrightarrow> inlen \<le> length b" and "inlen + 256 < 2 ^ 64"
  shows "\<exists>S. blake2b_long fl (Some out) outlen inp inlen =
    (if outlen = 0 \<or> outlen > 2 ^ 32 - 1 \<or> inp = None \<and> inlen > 0 then (-1, Some out, Some S)
     else (0, Some (rfc_H' outlen (read_buf inp inlen) @ drop outlen out), Some S)) \<and>
    (fl \<noteq> 0 \<longrightarrow> S = blake2b_zero)"
proof (cases "outlen = 0 \<or> outlen > 2 ^ 32 - 1 \<or> inp = None \<and> inlen > 0")
  case True
  from blake2b_long_error [OF this, of fl out] show ?thesis
    unfolding if_P [OF True] by (auto simp: wipe_simps)
next
  case False
  then have "1 \<le> outlen" "outlen < 2 ^ 32" "readable inp inlen"
    using assms(2) by (cases inp; simp add: not_less Suc_leI)+
  from blake2b_long_eq [OF this(1,2) assms(1) this(3) assms(3), of fl] show ?thesis
    unfolding if_not_P [OF False] by (auto simp: wipe_simps)
qed

theorem blake2b_long_H'_witness:
  "\<exists>S. blake2b_long 1 (Some (replicate 1025 5)) 1024 (Some [1, 2, 3]) 3 =
    (0, Some (rfc_H' 1024 [1, 2, 3] @ [5]), Some S)"
proof -
  have "drop 1024 (replicate 1025 5) = [5 :: u8]" unfolding drop_replicate by simp
  then show ?thesis using blake2b_long_H' [of 1024 "replicate 1025 5" "Some [1, 2, 3]" 3 1] by auto
qed

end
