(* ===== verification/Argon2_Spec.thy ===== *)
theory Argon2_Spec
  imports Ref_Props Blake2b_Props
begin

text \<open>
  The function Argon2 of RFC 9106, section 3.2, from the inputs to the tag: H0, the first two
  blocks of every lane, the filling of the matrix (\<open>Fill_Spec\<close>) and the tag. The blocks that are
  computed start as zero blocks; \<open>rfc_first_blocks_garbage\<close> shows that the result does not depend on what
  they hold.
\<close>

definition LE32 :: "nat \<Rightarrow> u8 list" where
  "LE32 n = native_bytes 4 (word_of_nat n :: u32)"

definition rfc_H0 ::
  "nat \<Rightarrow> nat \<Rightarrow> nat \<Rightarrow> nat \<Rightarrow> nat \<Rightarrow> nat \<Rightarrow> u8 list \<Rightarrow> u8 list \<Rightarrow> u8 list \<Rightarrow> u8 list \<Rightarrow> u8 list" where
  "rfc_H0 p T m t v y P S K X =
     rfc_blake2b 64 []
       (LE32 p @ LE32 T @ LE32 m @ LE32 t @ LE32 v @ LE32 y @ LE32 (length P) @ P @
        LE32 (length S) @ S @ LE32 (length K) @ K @ LE32 (length X) @ X)"

definition rfc_block :: "u8 list \<Rightarrow> block" where
  "rfc_block B = map (\<lambda>i. word_rcat (rev (take 8 (drop (8 * i) B)))) [0..<128]"

definition rfc_first_lane :: "rfc_cfg \<Rightarrow> u8 list \<Rightarrow> nat \<Rightarrow> block list \<Rightarrow> block list" where
  "rfc_first_lane c H0 l mem =
     mem[l * rfc_lane_len c := rfc_block (rfc_H' 1024 (H0 @ LE32 0 @ LE32 l)),
         l * rfc_lane_len c + 1 := rfc_block (rfc_H' 1024 (H0 @ LE32 1 @ LE32 l))]"

definition rfc_first_blocks :: "rfc_cfg \<Rightarrow> u8 list \<Rightarrow> block list \<Rightarrow> block list" where
  "rfc_first_blocks c H0 mem = fold (rfc_first_lane c H0) [0..<cf_p c] mem"

definition rfc_tag :: "rfc_cfg \<Rightarrow> nat \<Rightarrow> block list \<Rightarrow> u8 list" where
  "rfc_tag c T mem =
     (let last = (\<lambda>l. mem ! (l * rfc_lane_len c + (rfc_lane_len c - 1)));
          C = foldl (map2 (XOR)) (last 0) (map last [1..<cf_p c])
      in rfc_H' T (concat (map (native_bytes 8) C)))"

definition rfc_argon2 ::
  "argon2_type \<Rightarrow> nat \<Rightarrow> nat \<Rightarrow> nat \<Rightarrow> nat \<Rightarrow> nat \<Rightarrow> u8 list \<Rightarrow> u8 list \<Rightarrow> u8 list \<Rightarrow> u8 list \<Rightarrow>
    u8 list" where
  "rfc_argon2 y v p T m t P S K X =
     (let c = \<lparr>cf_p = p, cf_seg = m div (4 * p), cf_t = t, cf_y = y, cf_v = v\<rparr>;
          H0 = rfc_H0 p T m t v (unat (type_code y)) P S K X;
          B = replicate (rfc_blocks c) (replicate 128 0)
      in rfc_tag c T (rfc_fill c (rfc_first_blocks c H0 B)))"

section \<open>The matrix before filling does not matter\<close>

text \<open>In the first pass, the blocks computed before block \<open>i\<close> of segment \<open>(sl, l)\<close>.\<close>

definition computed :: "rfc_cfg \<Rightarrow> nat \<Rightarrow> nat \<Rightarrow> nat \<Rightarrow> nat \<Rightarrow> nat \<Rightarrow> bool" where
  "computed c sl l i l' j \<longleftrightarrow>
     l' < cf_p c \<and> j < rfc_lane_len c \<and>
     (j < 2 \<or> j < sl * cf_seg c \<or> l' < l \<and> j < (sl + 1) * cf_seg c \<or>
      l' = l \<and> j < sl * cf_seg c + i)"

definition agree :: "rfc_cfg \<Rightarrow> (nat \<Rightarrow> nat \<Rightarrow> bool) \<Rightarrow> block list \<Rightarrow> block list \<Rightarrow> bool" where
  "agree c D a b \<longleftrightarrow> length a = rfc_blocks c \<and> length b = rfc_blocks c \<and>
     (\<forall>l j. D l j \<longrightarrow> a ! (l * rfc_lane_len c + j) = b ! (l * rfc_lane_len c + j))"

lemma agreeD: "agree c D a b \<Longrightarrow> D l j \<Longrightarrow> a ! (l * rfc_lane_len c + j) = b ! (l * rfc_lane_len c + j)"
  by (simp add: agree_def)

lemma index_split:
  fixes a b L j k :: nat
  assumes "a * L + j = b * L + k" "j < L" "k < L"
  shows "a = b \<and> j = k"
proof -
  have "a = (a * L + j) div L" "b = (b * L + k) div L" using assms(2,3) by simp_all
  then have "a = b" using assms(1) by simp
  then show ?thesis using assms(1) by simp
qed

lemma agree_update:
  assumes "agree c D a b" "x = y" "l < cf_p c" "j < rfc_lane_len c"
    and "\<And>l' j'. D' l' j' \<Longrightarrow> j' < rfc_lane_len c \<and> (D l' j' \<or> l' = l \<and> j' = j)"
  shows "agree c D' (a[l * rfc_lane_len c + j := x]) (b[l * rfc_lane_len c + j := y])"
  unfolding agree_def
proof (intro conjI allI impI)
  show "length (a[l * rfc_lane_len c + j := x]) = rfc_blocks c"
    "length (b[l * rfc_lane_len c + j := y]) = rfc_blocks c"
    using assms(1) by (simp_all add: agree_def)
  fix l' j' assume d: "D' l' j'"
  have len: "l * rfc_lane_len c + j < length a" "l * rfc_lane_len c + j < length b"
    using in_matrix [OF assms(3,4)] assms(1) by (simp_all add: agree_def)
  show "a[l * rfc_lane_len c + j := x] ! (l' * rfc_lane_len c + j') =
      b[l * rfc_lane_len c + j := y] ! (l' * rfc_lane_len c + j')"
  proof (cases "l' * rfc_lane_len c + j' = l * rfc_lane_len c + j")
    case True
    then show ?thesis using len assms(2) by simp
  next
    case False
    then have "D l' j'" using assms(5) [OF d] by auto
    then show ?thesis using False agreeD [OF assms(1)] by simp
  qed
qed

lemma fill_one_agree:
  assumes "rfc_ok c" "l < cf_p c" "sl < 4" "i < cf_seg c" "rfc_first 0 sl \<le> i"
    and "agree c (computed c sl l i) a b"
  shows "agree c (computed c sl l (Suc i)) (rfc_fill_one c 0 sl l i a) (rfc_fill_one c 0 sl l i b)"
proof -
  have seg: "2 \<le> cf_seg c" using assms(1) by (simp add: rfc_ok_def)
  have i2: "True \<and> sl = 0 \<longrightarrow> 2 \<le> i" using assms(5) by (auto simp: rfc_first_def)
  note col = column_bound [OF assms(3,4)]
  have prev: "a ! rfc_prev c sl l i = b ! rfc_prev c sl l i"
  proof -
    have pi: "prev_index (cf_seg c) sl i = sl * cf_seg c + i - 1"
      using prev_index_eq [OF seg assms(3,4)] i2 by auto
    have "1 \<le> sl * cf_seg c + i" using i2 seg by (cases sl) auto
    then have "computed c sl l i l (prev_index (cf_seg c) sl i)"
      using assms(2) col unfolding computed_def pi by linarith
    then show ?thesis unfolding rfc_prev_def by (rule agreeD [OF assms(6)])
  qed
  then have J: "rfc_J c 0 sl l a i = rfc_J c 0 sl l b i" by (simp add: rfc_J_def)
  define J where "J = rfc_J c 0 sl l b i"
  define l' where "l' = rfc_ref_lane c 0 sl l J"
  define z where "z = rfc_ref_index (cf_seg c) True sl i (l' = l) (unat J mod 2 ^ 32)"
  have l': "l' < cf_p c" using ref_lane_bound [OF assms(1,2)] by (simp add: l'_def)
  have same: "l' = l \<or> \<not> (True \<and> sl = 0)" by (simp add: l'_def rfc_ref_lane_def)
  have z: "z < 4 * cf_seg c" "z < sl * cf_seg c + i - (if l' = l then 1 else i)"
    using rfc_ref_index_ok(1,6) [OF seg assms(3,4) i2 _ same, of "unat J mod 2 ^ 32"]
    by (simp_all add: z_def)
  have "computed c sl l i l' z"
    using z l' unfolding computed_def rfc_lane_len_def by (cases "l' = l") auto
  then have "a ! (l' * rfc_lane_len c + z) = b ! (l' * rfc_lane_len c + z)"
    by (rule agreeD [OF assms(6)])
  then have ref: "a ! rfc_ref c 0 sl l i J = b ! rfc_ref c 0 sl l i J"
    by (simp add: rfc_ref_def Let_def l'_def z_def)
  show ?thesis
    unfolding rfc_fill_one_def Let_def J J_def [symmetric] prev ref
    unfolding add.assoc using assms(2) col
    by (intro agree_update [OF assms(6)]) (auto simp: computed_def)
qed

lemma agree_mono: "agree c D a b \<Longrightarrow> (\<And>l j. D' l j \<Longrightarrow> D l j) \<Longrightarrow> agree c D' a b"
  by (auto simp: agree_def)

lemma fill_segment_agree:
  assumes "rfc_ok c" "l < cf_p c" "sl < 4" "agree c (computed c sl l 0) a b"
  shows "agree c (computed c sl (Suc l) 0) (rfc_fill_segment c 0 sl l a) (rfc_fill_segment c 0 sl l b)"
proof -
  define st where "st = rfc_first 0 sl"
  have le: "st \<le> cf_seg c" using assms(1) by (simp add: st_def rfc_first_def rfc_ok_def)
  have start: "agree c (computed c sl l st) a b"
    using assms(4) by (rule agree_mono) (auto simp: computed_def st_def rfc_first_def split: if_splits)
  have "agree c (computed c sl l (st + k)) (fold (rfc_fill_one c 0 sl l) [st..<st + k] a)
      (fold (rfc_fill_one c 0 sl l) [st..<st + k] b)" if "st + k \<le> cf_seg c" for k
    using that
  proof (induction k)
    case 0
    then show ?case using start by simp
  next
    case (Suc k)
    then show ?case using fill_one_agree [OF assms(1-3), of "st + k"] by (simp add: st_def)
  qed
  from this [of "cf_seg c - st"] le
  have "agree c (computed c sl l (cf_seg c)) (rfc_fill_segment c 0 sl l a) (rfc_fill_segment c 0 sl l b)"
    by (simp add: rfc_fill_segment_def st_def)
  then show ?thesis by (rule agree_mono) (auto simp: computed_def less_Suc_eq)
qed

lemma fill_slice_agree:
  assumes "rfc_ok c" "sl < 4" "agree c (computed c sl 0 0) a b" "n \<le> cf_p c"
  shows "agree c (computed c sl n 0) (fold (\<lambda>l. rfc_fill_segment c 0 sl l) [0..<n] a)
    (fold (\<lambda>l. rfc_fill_segment c 0 sl l) [0..<n] b)"
  using assms(4)
proof (induction n)
  case 0
  then show ?case using assms(3) by simp
next
  case (Suc n)
  then show ?case using fill_segment_agree [OF assms(1) _ assms(2), of n] by simp
qed

lemma fill_pass_agree:
  assumes "rfc_ok c" "agree c (computed c 0 0 0) a b" "n \<le> 4"
  shows "agree c (computed c n 0 0)
    (fold (\<lambda>sl. fold (\<lambda>l. rfc_fill_segment c 0 sl l) [0..<cf_p c]) [0..<n] a)
    (fold (\<lambda>sl. fold (\<lambda>l. rfc_fill_segment c 0 sl l) [0..<cf_p c]) [0..<n] b)"
  using assms(3)
proof (induction n)
  case 0
  then show ?case using assms(2) by simp
next
  case (Suc n)
  define a' where "a' = fold (\<lambda>sl. fold (\<lambda>l. rfc_fill_segment c 0 sl l) [0..<cf_p c]) [0..<n] a"
  define b' where "b' = fold (\<lambda>sl. fold (\<lambda>l. rfc_fill_segment c 0 sl l) [0..<cf_p c]) [0..<n] b"
  have "agree c (computed c n (cf_p c) 0) (fold (\<lambda>l. rfc_fill_segment c 0 n l) [0..<cf_p c] a')
      (fold (\<lambda>l. rfc_fill_segment c 0 n l) [0..<cf_p c] b')"
    using Suc by (intro fill_slice_agree [OF assms(1)]) (simp_all add: a'_def b'_def)
  then have "agree c (computed c (Suc n) 0 0) (fold (\<lambda>l. rfc_fill_segment c 0 n l) [0..<cf_p c] a')
      (fold (\<lambda>l. rfc_fill_segment c 0 n l) [0..<cf_p c] b')"
    by (rule agree_mono) (auto simp: computed_def)
  then show ?case by (simp add: a'_def b'_def)
qed

lemma agree_all:
  assumes "agree c (computed c 4 0 0) a b" "0 < rfc_lane_len c"
  shows "a = b"
proof (rule list_eq_nthI)
  show "length a = length b" using assms(1) by (simp add: agree_def)
  fix k assume "k < length a"
  then have k: "k < cf_p c * rfc_lane_len c" using assms(1) by (simp add: agree_def rfc_blocks_def)
  define l where "l = k div rfc_lane_len c"
  define j where "j = k mod rfc_lane_len c"
  have "l < cf_p c" "j < rfc_lane_len c"
    using k assms(2) by (simp_all add: l_def j_def less_mult_imp_div_less)
  then have "computed c 4 0 0 l j" by (simp add: computed_def rfc_lane_len_def)
  from agreeD [OF assms(1) this] show "a ! k = b ! k"
    by (simp only: l_def j_def div_mult_mod_eq)
qed

lemma rfc_passes_garbage:
  assumes "rfc_ok c" "1 \<le> n" "agree c (computed c 0 0 0) a b"
  shows "fold (rfc_pass c) [0..<n] a = fold (rfc_pass c) [0..<n] b"
proof -
  have "0 < rfc_lane_len c" using assms(1) by (simp add: rfc_lane_len_def rfc_ok_def)
  then have "rfc_pass c 0 a = rfc_pass c 0 b"
    unfolding rfc_pass_def using agree_all [OF fill_pass_agree [OF assms(1,3)]] by blast
  moreover have "[0..<n] = 0 # [1..<n]" using assms(2) by (simp add: upt_rec)
  ultimately show ?thesis by simp
qed

lemma first_blocks_agree:
  assumes "rfc_ok c" "length a = rfc_blocks c" "length b = rfc_blocks c" "n \<le> cf_p c"
  shows "agree c (\<lambda>l j. l < n \<and> j < 2) (fold (rfc_first_lane c H0) [0..<n] a)
    (fold (rfc_first_lane c H0) [0..<n] b)"
  using assms(4)
proof (induction n)
  case 0
  then show ?case using assms(2,3) by (simp add: agree_def)
next
  case (Suc n)
  have n: "n < cf_p c" using Suc.prems by simp
  have L: "1 < rfc_lane_len c" using assms(1) by (simp add: rfc_lane_len_def rfc_ok_def)
  note step = agree_update [where j = 0, simplified]
  have "agree c (\<lambda>l j. l < n \<and> j < 2 \<or> l = n \<and> j = 0)
      ((fold (rfc_first_lane c H0) [0..<n] a)[n * rfc_lane_len c := rfc_block (rfc_H' 1024 (H0 @ LE32 0 @ LE32 n))])
      ((fold (rfc_first_lane c H0) [0..<n] b)[n * rfc_lane_len c := rfc_block (rfc_H' 1024 (H0 @ LE32 0 @ LE32 n))])"
    by (rule step [OF Suc.IH refl n]) (use Suc.prems L in auto)
  then have "agree c (\<lambda>l j. l < Suc n \<and> j < 2) (rfc_first_lane c H0 n (fold (rfc_first_lane c H0) [0..<n] a))
      (rfc_first_lane c H0 n (fold (rfc_first_lane c H0) [0..<n] b))"
    unfolding rfc_first_lane_def [of _ _ n] by (rule agree_update [OF _ refl n L]) (use L in auto)
  then show ?case by simp
qed

lemma first_blocks_passes_garbage:
  assumes "rfc_ok c" "1 \<le> n" "length a = rfc_blocks c" "length b = rfc_blocks c"
  shows "fold (rfc_pass c) [0..<n] (rfc_first_blocks c H0 a) = fold (rfc_pass c) [0..<n] (rfc_first_blocks c H0 b)"
  unfolding rfc_first_blocks_def
  by (rule rfc_passes_garbage [OF assms(1,2)], rule agree_mono [OF first_blocks_agree [OF assms(1,3,4) order_refl]])
    (auto simp: computed_def)

lemma rfc_first_blocks_garbage:
  assumes "rfc_ok c" "1 \<le> cf_t c" "length a = rfc_blocks c" "length b = rfc_blocks c"
  shows "rfc_fill c (rfc_first_blocks c H0 a) = rfc_fill c (rfc_first_blocks c H0 b)"
  unfolding rfc_fill_passes by (rule first_blocks_passes_garbage [OF assms])

end
