(* ===== verification/Core_Props.thy ===== *)
theory Core_Props
  imports Argon2_Spec Core
begin

text \<open>
  The functions of \<open>Core\<close> compute the steps of \<open>Argon2_Spec\<close>: the initial hash is a client of the
  streaming hash, the first blocks, the filling and the tag are those of RFC 9106, and validation
  accepts exactly the parameters the RFC and the header allow.
\<close>

section \<open>Input validation\<close>

text \<open>The restrictions of \<^verbatim>\<open>argon2.h\<close> on unbounded numbers.\<close>

definition valid_params :: "argon2_context \<Rightarrow> bool" where
  "valid_params c \<longleftrightarrow>
     ctx_out c \<noteq> None \<and> 4 \<le> unat (ctx_outlen c) \<and>
     (ctx_pwd c = None \<longrightarrow> ctx_pwdlen c = 0) \<and>
     ctx_salt c \<noteq> None \<and> 8 \<le> unat (ctx_saltlen c) \<and>
     (ctx_secret c = None \<longrightarrow> ctx_secretlen c = 0) \<and> (ctx_ad c = None \<longrightarrow> ctx_adlen c = 0) \<and>
     8 * unat (ctx_lanes c) \<le> unat (ctx_m_cost c) \<and> 1 \<le> unat (ctx_t_cost c) \<and>
     1 \<le> unat (ctx_lanes c) \<and> unat (ctx_lanes c) < 2 ^ 24 \<and>
     1 \<le> unat (ctx_threads c) \<and> unat (ctx_threads c) < 2 ^ 24 \<and>
     (ctx_allocate_cbk c = None \<longleftrightarrow> ctx_free_cbk c = None)"

lemma word_max: "\<not> (0xFFFFFFFF :: u32) < w"
  using unat_lt_u32 [of w] by (simp add: word_less_nat_alt)

lemma max_memory: "ARGON2_MAX_MEMORY = 0xFFFFFFFF" "\<not> ARGON2_MAX_MEMORY < ucast (w :: u32)"
proof -
  show m: "ARGON2_MAX_MEMORY = 0xFFFFFFFF"
    by (simp add: ARGON2_MAX_MEMORY_def ARGON2_MAX_MEMORY_BITS_def push_bit_eq_mult min_def)
  have "unat (ucast w :: u64) = unat w"
    by (simp add: unsigned_ucast_eq take_bit_nat_eq_self order_less_le_trans [OF unat_lt_u32])
  then show "\<not> ARGON2_MAX_MEMORY < ucast w"
    using unat_lt_u32 [of w] by (simp add: m word_less_nat_alt)
qed

lemma lanes_check:
  assumes "l \<le> ARGON2_MAX_LANES"
  shows "(m < 8 * l) = (unat m < 8 * unat l)"
proof -
  have "unat l < 2 ^ 24" using assms by (simp add: word_le_nat_alt ARGON2_MAX_LANES_def)
  then have "unat (8 * l) = 8 * unat l" by (subst unat_mult_small) simp_all
  then show ?thesis by (simp add: word_less_nat_alt)
qed

lemma error_chain:
  "x \<noteq> ARGON2_OK \<Longrightarrow> ((if b then x else y) = ARGON2_OK) = (\<not> b \<and> y = ARGON2_OK)"
  by simp

lemma validate_inputs_ok:
  "validate_inputs (Some c) = ARGON2_OK \<longleftrightarrow> valid_params c"
proof -
  have chain: "validate_inputs (Some c) = ARGON2_OK \<longleftrightarrow>
    ctx_out c \<noteq> None \<and> \<not> ctx_outlen c < 4 \<and>
    \<not> (ctx_pwd c = None \<and> 0 \<noteq> ctx_pwdlen c) \<and> \<not> (ctx_salt c = None \<and> 0 \<noteq> ctx_saltlen c) \<and>
    \<not> ctx_saltlen c < 8 \<and> \<not> (ctx_secret c = None \<and> 0 \<noteq> ctx_secretlen c) \<and>
    \<not> (ctx_ad c = None \<and> 0 \<noteq> ctx_adlen c) \<and> \<not> ctx_m_cost c < 8 \<and> \<not> ctx_m_cost c < 8 * ctx_lanes c \<and>
    \<not> ctx_t_cost c < 1 \<and> \<not> ctx_lanes c < 1 \<and> \<not> ARGON2_MAX_LANES < ctx_lanes c \<and>
    \<not> ctx_threads c < 1 \<and> \<not> ARGON2_MAX_LANES < ctx_threads c \<and>
    \<not> (ctx_allocate_cbk c \<noteq> None \<and> ctx_free_cbk c = None) \<and>
    \<not> (ctx_allocate_cbk c = None \<and> ctx_free_cbk c \<noteq> None)"
    unfolding validate_inputs_def option.case
    by (simp add: error_chain max_memory word_max argon2_limits max_memory(2) [unfolded max_memory(1)]
        del: not_less not_le)
  have lt: "(w < 4) = (\<not> 4 \<le> unat w)" "(w < 8) = (\<not> 8 \<le> unat w)" "(w < 1) = (\<not> 1 \<le> unat w)"
    "(ARGON2_MAX_LANES < w) = (\<not> unat w < 2 ^ 24)" for w :: u32
    by (simp_all add: word_less_nat_alt ARGON2_MAX_LANES_def not_le not_less del: unat_gt_0 word_less_1)
      arith
  have m8: "8 * unat (ctx_lanes c) \<le> unat (ctx_m_cost c) \<Longrightarrow> 1 \<le> unat (ctx_lanes c) \<Longrightarrow> 8 \<le> unat (ctx_m_cost c)"
    by linarith
  have s0: "8 \<le> unat (ctx_saltlen c) \<Longrightarrow> 0 \<noteq> ctx_saltlen c" by auto
  show ?thesis
  proof (cases "ARGON2_MAX_LANES < ctx_lanes c")
    case True
    then show ?thesis unfolding chain valid_params_def lt by blast
  next
    case False
    then have l: "(ctx_m_cost c < 8 * ctx_lanes c) = (\<not> 8 * unat (ctx_lanes c) \<le> unat (ctx_m_cost c))"
      unfolding lanes_check [OF leI [OF False]] by arith
    show ?thesis
      unfolding chain valid_params_def l lt using m8 s0 by metis
  qed
qed

section \<open>The initial hash\<close>

text \<open>The state has absorbed the message \<open>M\<close>.\<close>

definition absorbed :: "u8 list \<Rightarrow> blake2b_state option \<Rightarrow> bool" where
  "absorbed M S \<longleftrightarrow> (\<exists>s. S = Some s \<and> blake2b_rel (rfc_init 0 64) 64 M s)"

lemma absorbed_init: "absorbed [] (snd (blake2b_init fl (Some S) 64))"
  using b2.rel_start [of 64 fl S] by (simp add: absorbed_def)

lemma absorbed_update:
  "absorbed M S \<Longrightarrow> n \<le> length d \<Longrightarrow> length M + n + 128 < 2 ^ 64 \<Longrightarrow>
    absorbed (M @ take n d) (snd (blake2b_update S (Some d) n))"
  unfolding absorbed_def using blake2b_update_rel by fastforce

lemma LE32_word: "store32 (replicate 4 0) 0 x = LE32 (unat x)"
  by (simp add: outlen_bytes LE32_def)

lemma length_LE32 [len_simps, simp]: "length (LE32 n) = 4"
  by (simp add: LE32_def native_bytes_def)

lemma absorbed_u32:
  "absorbed M S \<Longrightarrow> length M + 132 < 2 ^ 64 \<Longrightarrow> absorbed (M @ LE32 (unat x)) (hash_u32 x S)"
  unfolding hash_u32_def LE32_word using absorbed_update [of M S 4 "LE32 (unat x)"] by simp

text \<open>An optional buffer with its length.\<close>

lemma absorbed_field:
  assumes "absorbed M S" "readable p (unat n)" "length M + 2 ^ 33 < 2 ^ 64" "p = None \<longrightarrow> n = 0"
  shows "absorbed (M @ LE32 (length (read_buf p (unat n))) @ read_buf p (unat n))
    (case p of None \<Rightarrow> hash_u32 n S | Some b \<Rightarrow> snd (blake2b_update (hash_u32 n S) (Some b) (unat n)))"
proof -
  have h: "absorbed (M @ LE32 (unat n)) (hash_u32 n S)"
    using assms(1,3) by (intro absorbed_u32) simp_all
  show ?thesis
  proof (cases p)
    case None
    then show ?thesis using h assms(4) by simp
  next
    case (Some b)
    have "absorbed ((M @ LE32 (unat n)) @ take (unat n) b)
        (snd (blake2b_update (hash_u32 n S) (Some b) (unat n)))"
      using assms(2,3) unat_lt_u32 [of n] by (intro absorbed_update [OF h]) (simp_all add: Some)
    then show ?thesis using assms(2) by (simp add: Some min_absorb2)
  qed
qed

text \<open>The context after the password and the secret have been wiped as its flags ask.\<close>

definition wipe_password :: "argon2_context \<Rightarrow> argon2_context" where
  "wipe_password c =
     (case ctx_pwd c of None \<Rightarrow> c
      | Some pwd \<Rightarrow>
          if ctx_flags c AND ARGON2_FLAG_CLEAR_PASSWORD \<noteq> 0
          then c\<lparr>ctx_pwd := Some (secure_wipe_memory pwd (unat (ctx_pwdlen c))), ctx_pwdlen := 0\<rparr> else c)"

definition wipe_secret :: "argon2_context \<Rightarrow> argon2_context" where
  "wipe_secret c =
     (case ctx_secret c of None \<Rightarrow> c
      | Some secret \<Rightarrow>
          if ctx_flags c AND ARGON2_FLAG_CLEAR_SECRET \<noteq> 0
          then c\<lparr>ctx_secret := Some (secure_wipe_memory secret (unat (ctx_secretlen c))), ctx_secretlen := 0\<rparr>
          else c)"

definition ctx_readable :: "argon2_context \<Rightarrow> bool" where
  "ctx_readable c \<longleftrightarrow>
     readable (ctx_pwd c) (unat (ctx_pwdlen c)) \<and> readable (ctx_salt c) (unat (ctx_saltlen c)) \<and>
     readable (ctx_secret c) (unat (ctx_secretlen c)) \<and> readable (ctx_ad c) (unat (ctx_adlen c))"

definition ctx_H0 :: "argon2_context \<Rightarrow> argon2_type \<Rightarrow> u8 list" where
  "ctx_H0 c y =
     rfc_H0 (unat (ctx_lanes c)) (unat (ctx_outlen c)) (unat (ctx_m_cost c)) (unat (ctx_t_cost c))
       (unat (ctx_version c)) (unat (type_code y))
       (read_buf (ctx_pwd c) (unat (ctx_pwdlen c))) (read_buf (ctx_salt c) (unat (ctx_saltlen c)))
       (read_buf (ctx_secret c) (unat (ctx_secretlen c))) (read_buf (ctx_ad c) (unat (ctx_adlen c)))"

lemma wipe_password_fields [simp]:
  "ctx_salt (wipe_password c) = ctx_salt c" "ctx_saltlen (wipe_password c) = ctx_saltlen c"
  "ctx_secret (wipe_password c) = ctx_secret c" "ctx_secretlen (wipe_password c) = ctx_secretlen c"
  "ctx_ad (wipe_password c) = ctx_ad c" "ctx_adlen (wipe_password c) = ctx_adlen c"
  "ctx_out (wipe_password c) = ctx_out c" "ctx_outlen (wipe_password c) = ctx_outlen c"
  "ctx_flags (wipe_password c) = ctx_flags c" "ctx_allocate_cbk (wipe_password c) = ctx_allocate_cbk c"
  "ctx_free_cbk (wipe_password c) = ctx_free_cbk c"
  by (simp_all add: wipe_password_def split: option.split)

lemma wipe_secret_fields [simp]:
  "ctx_ad (wipe_secret c) = ctx_ad c" "ctx_adlen (wipe_secret c) = ctx_adlen c"
  "ctx_salt (wipe_secret c) = ctx_salt c" "ctx_saltlen (wipe_secret c) = ctx_saltlen c"
  "ctx_pwd (wipe_secret c) = ctx_pwd c" "ctx_pwdlen (wipe_secret c) = ctx_pwdlen c"
  "ctx_out (wipe_secret c) = ctx_out c" "ctx_outlen (wipe_secret c) = ctx_outlen c"
  "ctx_allocate_cbk (wipe_secret c) = ctx_allocate_cbk c" "ctx_free_cbk (wipe_secret c) = ctx_free_cbk c"
  by (simp_all add: wipe_secret_def split: option.split)

lemma initial_hash_eq:
  assumes "ctx_readable c" "ctx_pwd c = None \<longrightarrow> ctx_pwdlen c = 0" "ctx_salt c = None \<longrightarrow> ctx_saltlen c = 0"
    "ctx_secret c = None \<longrightarrow> ctx_secretlen c = 0" "ctx_ad c = None \<longrightarrow> ctx_adlen c = 0"
    and "64 \<le> length bh"
  shows "initial_hash e (Some bh) (Some c) y =
    (Some (ctx_H0 c y @ drop 64 bh), Some (wipe_secret (wipe_password c)))"
proof -
  define fld where "fld p n S = (case p of None \<Rightarrow> hash_u32 n S
      | Some b \<Rightarrow> snd (blake2b_update (hash_u32 n S) (Some b) (unat n)))" for p n S
  define M where "M p n = LE32 (length (read_buf p (unat n))) @ read_buf p (unat n)"
    for p :: "u8 list option" and n :: u32
  note step = absorbed_field [folded fld_def M_def]
  define S0 where "S0 = hash_u32 (type_code y) (hash_u32 (ctx_version c) (hash_u32 (ctx_t_cost c)
      (hash_u32 (ctx_m_cost c) (hash_u32 (ctx_outlen c) (hash_u32 (ctx_lanes c)
        (snd (blake2b_init (env_flag e) (Some blake2b_zero) 64)))))))"
  define S1 where "S1 = fld (ctx_pwd c) (ctx_pwdlen c) S0"
  define S2 where "S2 = fld (ctx_salt c) (ctx_saltlen c) S1"
  define S3 where "S3 = fld (ctx_secret c) (ctx_secretlen c) S2"
  define S4 where "S4 = fld (ctx_ad c) (ctx_adlen c) S3"
  define M0 where "M0 = LE32 (unat (ctx_lanes c)) @ LE32 (unat (ctx_outlen c)) @ LE32 (unat (ctx_m_cost c)) @
      LE32 (unat (ctx_t_cost c)) @ LE32 (unat (ctx_version c)) @ LE32 (unat (type_code y))"
  have lM0: "length M0 = 24" by (simp add: M0_def)
  have lM: "length (M p n) < 2 ^ 33" if "readable p (unat n)" for p n
    using that unat_lt_u32 [of n] by (simp add: M_def)
  have rd: "readable (ctx_pwd c) (unat (ctx_pwdlen c))" "readable (ctx_salt c) (unat (ctx_saltlen c))"
    "readable (ctx_secret c) (unat (ctx_secretlen c))" "readable (ctx_ad c) (unat (ctx_adlen c))"
    using assms(1) by (simp_all add: ctx_readable_def)
  note lens = lM [OF rd(1)] lM [OF rd(2)] lM [OF rd(3)] lM [OF rd(4)]
  have "absorbed (((((([] @ LE32 (unat (ctx_lanes c))) @ LE32 (unat (ctx_outlen c))) @
      LE32 (unat (ctx_m_cost c))) @ LE32 (unat (ctx_t_cost c))) @ LE32 (unat (ctx_version c))) @
      LE32 (unat (type_code y))) S0"
    unfolding S0_def by (intro absorbed_u32 absorbed_init) simp_all
  then have a0: "absorbed M0 S0" by (simp add: M0_def)
  have a1: "absorbed (M0 @ M (ctx_pwd c) (ctx_pwdlen c)) S1"
    unfolding S1_def using lM0 by (intro step a0 rd(1) assms(2)) simp
  have a2: "absorbed ((M0 @ M (ctx_pwd c) (ctx_pwdlen c)) @ M (ctx_salt c) (ctx_saltlen c)) S2"
    unfolding S2_def using lM0 lens by (intro step a1 rd(2) assms(3)) simp
  have a3: "absorbed (((M0 @ M (ctx_pwd c) (ctx_pwdlen c)) @ M (ctx_salt c) (ctx_saltlen c)) @
      M (ctx_secret c) (ctx_secretlen c)) S3"
    unfolding S3_def using lM0 lens by (intro step a2 rd(3) assms(4)) simp
  have a4: "absorbed ((((M0 @ M (ctx_pwd c) (ctx_pwdlen c)) @ M (ctx_salt c) (ctx_saltlen c)) @
      M (ctx_secret c) (ctx_secretlen c)) @ M (ctx_ad c) (ctx_adlen c)) S4"
    unfolding S4_def using lM0 lens by (intro step a3 rd(4) assms(5)) simp
  define msg where "msg = (((M0 @ M (ctx_pwd c) (ctx_pwdlen c)) @ M (ctx_salt c) (ctx_saltlen c)) @
      M (ctx_secret c) (ctx_secretlen c)) @ M (ctx_ad c) (ctx_adlen c)"
  obtain s4 where s4: "S4 = Some s4" "blake2b_rel (rfc_init 0 64) 64 msg s4"
    using a4 by (auto simp: absorbed_def msg_def)
  have lmsg: "length msg < 2 ^ 64" using lM0 lens by (simp add: msg_def)
  obtain s5 where fin: "blake2b_final (env_flag e) S4 (Some bh) 64 =
      (0, Some s5, Some (rfc_finish 64 (rfc_init 0 64) msg @ drop 64 bh))"
    using blake2b_final_rel [OF s4(2) order_refl order_refl assms(6) lmsg, of "env_flag e"] s4(1) by auto
  have "rfc_finish 64 (rfc_init 0 64) msg = ctx_H0 c y"
    by (simp add: ctx_H0_def rfc_H0_def rfc_blake2b_def msg_def M0_def M_def)
  then have fin': "blake2b_final (env_flag e) S4 (Some bh) 64 = (0, Some s5, Some (ctx_H0 c y @ drop 64 bh))"
    using fin by simp
  have wp: "(case ctx_pwd c of None \<Rightarrow> (hash_u32 (ctx_pwdlen c) S0, c)
      | Some pwd \<Rightarrow> (snd (blake2b_update (hash_u32 (ctx_pwdlen c) S0) (Some pwd) (unat (ctx_pwdlen c))),
          if ctx_flags c AND ARGON2_FLAG_CLEAR_PASSWORD \<noteq> 0
          then c\<lparr>ctx_pwd := Some (secure_wipe_memory pwd (unat (ctx_pwdlen c))), ctx_pwdlen := 0\<rparr> else c)) =
      (S1, wipe_password c)"
    by (simp add: S1_def fld_def wipe_password_def split: option.split)
  have ws: "(case ctx_secret (wipe_password c) of None \<Rightarrow> (hash_u32 (ctx_secretlen (wipe_password c)) S2, wipe_password c)
      | Some secret \<Rightarrow> (snd (blake2b_update (hash_u32 (ctx_secretlen (wipe_password c)) S2) (Some secret)
            (unat (ctx_secretlen (wipe_password c)))),
          if ctx_flags (wipe_password c) AND ARGON2_FLAG_CLEAR_SECRET \<noteq> 0
          then (wipe_password c)\<lparr>ctx_secret := Some (secure_wipe_memory secret (unat (ctx_secretlen (wipe_password c)))),
            ctx_secretlen := 0\<rparr> else wipe_password c)) = (S3, wipe_secret (wipe_password c))"
    by (simp add: S3_def fld_def wipe_secret_def split: option.split)
  have sl: "(case ctx_salt (wipe_password c) of None \<Rightarrow> hash_u32 (ctx_saltlen (wipe_password c)) S1
      | Some salt \<Rightarrow> snd (blake2b_update (hash_u32 (ctx_saltlen (wipe_password c)) S1) (Some salt)
          (unat (ctx_saltlen (wipe_password c))))) = S2"
    by (simp add: S2_def fld_def split: option.split)
  define c2 where "c2 = wipe_secret (wipe_password c)"
  have ad: "(case ctx_ad c2 of None \<Rightarrow> hash_u32 (ctx_adlen c2) S3
      | Some ad \<Rightarrow> snd (blake2b_update (hash_u32 (ctx_adlen c2) S3) (Some ad) (unat (ctx_adlen c2)))) = S4"
    by (simp add: S4_def fld_def c2_def split: option.split)
  show ?thesis
    unfolding initial_hash_def prod.case option.case Let_def argon2_core_constants S0_def [symmetric] wp
    unfolding prod.case sl ws c2_def [symmetric] ad fin' ..
qed

section \<open>The first blocks\<close>

lemma load_block_rfc: "wf_block d \<Longrightarrow> length p = 1024 \<Longrightarrow> load_block d p = rfc_block p"
proof -
  assume d: "wf_block d" "length p = 1024"
  have "load64 (drop (i * 8) p) = word_rcat (rev (take 8 (drop (8 * i) p)))" if "i < 128" for i
    using load64_native_eq [of "drop (i * 8) p"] that d(2) by (simp add: load64_native_def mult.commute)
  then show ?thesis using d by (simp add: load_block_eq rfc_block_def)
qed

lemma length_rfc_block [len_simps, simp]: "wf_block (rfc_block p)"
  by (simp add: rfc_block_def)

lemma length_rfc_H' [len_simps, simp]: "1 \<le> T \<Longrightarrow> length (rfc_H' T A) = T"
proof (cases "T \<le> 64")
  case True
  then show ?thesis by (simp add: rfc_H'_def)
next
  case False
  define d where "d = T - 65"
  have T: "T = d + 65" using False by (simp add: d_def)
  have d3: "(T + 31) div 32 = d div 32 + 3" by (simp add: T)
  have e: "(T + 31) div 32 - 2 - 1 = d div 32" unfolding d3 by simp
  have r: "T - 32 * ((T + 31) div 32 - 2) = d + 33 - 32 * (d div 32)" unfolding d3 by (simp add: T)
  have "32 * (d div 32) \<le> d" by simp
  moreover have "d < 32 * (d div 32) + 32" by (simp add: dividend_less_div_times mult.commute)
  ultimately show ?thesis
    using False unfolding rfc_H'_def Let_def e r by (simp add: length_rfc_V T)
qed

lemma H'_1024: "length (rfc_H' 1024 A) = 1024"
  by simp

lemma blake2b_long_1024:
  assumes "length b = 1024" "length p = 72"
  shows "\<exists>S. blake2b_long fl (Some b) 1024 (Some p) 72 = (0, Some (rfc_H' 1024 p), S)"
  using blake2b_long_eq [of 1024 b "Some p" 72 fl] assms by auto

lemma seed_bytes:
  assumes "length bh = 72"
  shows "store32 (store32 bh 64 x) 68 y = take 64 bh @ LE32 (unat x) @ LE32 (unat y)"
    and "store32 (take 64 bh @ LE32 n @ LE32 m) 64 x = take 64 bh @ LE32 (unat x) @ LE32 m"
  using assms by (simp_all add: store32_def memcpy_at_def LE32_def store_bytes_native_fun native_bytes_def)

lemma lane_start:
  assumes "wf_inst inst" "l < unat (inst_lanes inst)"
  shows "unat (word_of_nat l * inst_lane_length inst) = l * rfc_lane_len (cfg_of inst)"
    and "unat (word_of_nat l * inst_lane_length inst + 1) = l * rfc_lane_len (cfg_of inst) + 1"
proof -
  have L: "1 < rfc_lane_len (cfg_of inst)" using assms(1) by (simp add: cfg_of_wf wf_inst_def)
  have b: "l * rfc_lane_len (cfg_of inst) + 1 < 2 ^ 32"
    using in_matrix [of l "cfg_of inst" 1] L assms unat_lt_u32 [of "inst_memory_blocks inst"]
    by (simp add: cfg_of_wf)
  have l: "unat (word_of_nat l :: u32) = l"
    using assms(2) unat_lt_u32 [of "inst_lanes inst"] by (simp add: unat_of_nat take_bit_nat_eq_self)
  show 1: "unat (word_of_nat l * inst_lane_length inst) = l * rfc_lane_len (cfg_of inst)"
    using b by (subst unat_mult_small) (simp_all add: l cfg_of_wf [OF assms(1)])
  show "unat (word_of_nat l * inst_lane_length inst + 1) = l * rfc_lane_len (cfg_of inst) + 1"
    using b by (subst unat_add_small) (simp_all add: 1)
qed

lemma fill_first_lane_eq:
  assumes "wf_inst inst" "l < unat (inst_lanes inst)" "wf_mem (cfg_of inst) mem" "length bh = 72"
  shows "fill_first_lane e inst l (bh, mem) =
    (take 64 bh @ LE32 1 @ LE32 l, rfc_first_lane (cfg_of inst) (take 64 bh) l mem)"
proof -
  define c where "c = cfg_of inst"
  define at where "at = l * rfc_lane_len c"
  have l: "unat (word_of_nat l :: u32) = l"
    using assms(2) unat_lt_u32 [of "inst_lanes inst"] by (simp add: unat_of_nat take_bit_nat_eq_self)
  have b0: "store32 (store32 bh 64 0) 68 (word_of_nat l) = take 64 bh @ LE32 0 @ LE32 l"
    and b1: "store32 (take 64 bh @ LE32 0 @ LE32 l) 64 1 = take 64 bh @ LE32 1 @ LE32 l"
    using seed_bytes [OF assms(4)] by (simp_all add: l)
  have len: "length (take 64 bh @ LE32 i @ LE32 j) = 72" for i j using assms(4) by simp
  obtain S0 where h0: "blake2b_long (env_flag e) (Some (replicate 1024 0)) 1024
      (Some (take 64 bh @ LE32 0 @ LE32 l)) 72 = (0, Some (rfc_H' 1024 (take 64 bh @ LE32 0 @ LE32 l)), S0)"
    using blake2b_long_1024 [OF length_replicate len, of "env_flag e" 0 0 l] by blast
  obtain S1 where h1: "blake2b_long (env_flag e) (Some (rfc_H' 1024 (take 64 bh @ LE32 0 @ LE32 l))) 1024
      (Some (take 64 bh @ LE32 1 @ LE32 l)) 72 = (0, Some (rfc_H' 1024 (take 64 bh @ LE32 1 @ LE32 l)), S1)"
    using blake2b_long_1024 [OF H'_1024 len,
        of "env_flag e" "take 64 bh @ LE32 0 @ LE32 l" 1 l] by blast
  have L: "1 < rfc_lane_len c" using assms(1) by (simp add: c_def cfg_of_wf wf_inst_def)
  have at: "at < rfc_blocks c" "at + 1 < rfc_blocks c"
    using in_matrix [of l c 0] in_matrix [of l c 1] L assms(2) by (simp_all add: at_def c_def)
  note st = lane_start [OF assms(1,2), folded c_def, folded at_def]
  have w0: "wf_block (mem ! at)" using wf_mem_nth [OF assms(3)] at by (simp add: c_def)
  then have m1: "wf_mem c (mem[at := rfc_block (rfc_H' 1024 (take 64 bh @ LE32 0 @ LE32 l))])"
    using assms(3) by (intro wf_mem_update) (simp_all add: c_def)
  have w1: "wf_block (mem[at := rfc_block (rfc_H' 1024 (take 64 bh @ LE32 0 @ LE32 l))] ! (at + 1))"
    by (rule wf_mem_nth [OF m1 at(2)])
  have s0: "store_at mem at x = mem[at := x]" for x
    using assms(3) at(1) by (simp add: wf_mem_def c_def)
  have s1: "store_at (mem[at := rfc_block (rfc_H' 1024 (take 64 bh @ LE32 0 @ LE32 l))]) (at + 1) x =
      mem[at := rfc_block (rfc_H' 1024 (take 64 bh @ LE32 0 @ LE32 l)), at + 1 := x]" for x
    using m1 at(2) by (simp add: wf_mem_def)
  show ?thesis
    unfolding fill_first_lane_def prod.case Let_def argon2_core_constants st
    unfolding numeral_plus_numeral add_num_simps b0 h0 prod.case option.sel b1 h1
      load_block_rfc [OF w0 H'_1024] s0
      load_block_rfc [OF w1 H'_1024] s1
      rfc_first_lane_def c_def [symmetric] at_def [symmetric] append_assoc ..
qed

lemma wf_first_lane: "wf_mem c mem \<Longrightarrow> wf_mem c (rfc_first_lane c H0 l mem)"
  unfolding rfc_first_lane_def by (intro wf_mem_update) simp_all

lemma wf_first_blocks: "wf_mem c mem \<Longrightarrow> wf_mem c (rfc_first_blocks c H0 mem)"
  unfolding rfc_first_blocks_def by (erule fold_invar [where P = "wf_mem c"]) (rule wf_first_lane)

lemma fill_first_lanes:
  assumes "wf_inst inst" "wf_mem (cfg_of inst) mem" "length bh = 72" "n \<le> unat (inst_lanes inst)"
  shows "\<exists>t. length t = 8 \<and> fold (fill_first_lane e inst) [0..<n] (bh, mem) =
    (take 64 bh @ t, fold (rfc_first_lane (cfg_of inst) (take 64 bh)) [0..<n] mem)"
  using assms(4)
proof (induction n)
  case 0
  show ?case using assms(3) by (intro exI [of _ "drop 64 bh"]) simp
next
  case (Suc n)
  then obtain t where t: "length t = 8" "fold (fill_first_lane e inst) [0..<n] (bh, mem) =
    (take 64 bh @ t, fold (rfc_first_lane (cfg_of inst) (take 64 bh)) [0..<n] mem)" by auto
  have wf: "wf_mem (cfg_of inst) (fold (rfc_first_lane (cfg_of inst) (take 64 bh)) [0..<n] mem)"
    by (rule fold_invar [where P = "wf_mem (cfg_of inst)", OF assms(2)]) (rule wf_first_lane)
  show ?case
    using fill_first_lane_eq [OF assms(1) _ wf, of n "take 64 bh @ t"] Suc.prems t assms(3) by simp
qed

lemma fill_first_blocks_eq:
  assumes "wf_inst inst" "inst_memory inst = Some mem" "wf_mem (cfg_of inst) mem" "length bh = 72"
  shows "\<exists>bh'. length bh' = 72 \<and> fill_first_blocks e bh inst =
    (bh', inst\<lparr>inst_memory := Some (rfc_first_blocks (cfg_of inst) (take 64 bh) mem)\<rparr>)"
  using fill_first_lanes [OF assms(1,3,4) order_refl, of e] assms(2,4)
  by (auto simp: fill_first_blocks_def rfc_first_blocks_def)

section \<open>The tag and the release of the matrix\<close>

lemma last_block_index:
  assumes "wf_inst inst" "l < unat (inst_lanes inst)"
  shows "unat (word_of_nat l * inst_lane_length inst + (inst_lane_length inst - 1)) =
    l * rfc_lane_len (cfg_of inst) + (rfc_lane_len (cfg_of inst) - 1)"
    and "l * rfc_lane_len (cfg_of inst) + (rfc_lane_len (cfg_of inst) - 1) < rfc_blocks (cfg_of inst)"
proof -
  have L: "1 < rfc_lane_len (cfg_of inst)" using assms(1) by (simp add: cfg_of_wf wf_inst_def)
  show b: "l * rfc_lane_len (cfg_of inst) + (rfc_lane_len (cfg_of inst) - 1) < rfc_blocks (cfg_of inst)"
    by (rule in_matrix) (use L assms(2) in simp_all)
  then have b32: "l * rfc_lane_len (cfg_of inst) + (rfc_lane_len (cfg_of inst) - 1) < 2 ^ 32"
    using unat_lt_u32 [of "inst_memory_blocks inst"] by (simp add: cfg_of_wf [OF assms(1)])
  have L1: "unat (inst_lane_length inst - 1) = rfc_lane_len (cfg_of inst) - 1"
    using L by (subst unat_minus_one_add) (simp_all add: cfg_of_wf [OF assms(1)])
  show "unat (word_of_nat l * inst_lane_length inst + (inst_lane_length inst - 1)) =
    l * rfc_lane_len (cfg_of inst) + (rfc_lane_len (cfg_of inst) - 1)"
    using b32 by (subst unat_add_small) (simp_all add: lane_start [OF assms] L1)
qed

lemma xor_last_blocks:
  assumes "wf_inst inst" "wf_mem (cfg_of inst) mem" "wf_block b" "n \<le> unat (inst_lanes inst)"
  shows "fold (\<lambda>l b. xor_block b (mem ! unat (word_of_nat l * inst_lane_length inst + (inst_lane_length inst - 1))))
      [1..<n] b =
    foldl (map2 (XOR)) b (map (\<lambda>l. mem ! (l * rfc_lane_len (cfg_of inst) + (rfc_lane_len (cfg_of inst) - 1))) [1..<n]) \<and>
    wf_block (foldl (map2 (XOR)) b
      (map (\<lambda>l. mem ! (l * rfc_lane_len (cfg_of inst) + (rfc_lane_len (cfg_of inst) - 1))) [1..<n]))"
  using assms(4)
proof (induction n)
  case 0
  then show ?case using assms(3) by simp
next
  case (Suc n)
  show ?case
  proof (cases "n = 0")
    case True
    then show ?thesis using assms(3) by simp
  next
    case False
    then have up: "[1..<Suc n] = [1..<n] @ [n]" by simp
    have n: "n < unat (inst_lanes inst)" using Suc.prems by simp
    have w: "wf_block (mem ! (n * rfc_lane_len (cfg_of inst) + (rfc_lane_len (cfg_of inst) - 1)))"
      by (rule wf_mem_nth [OF assms(2) last_block_index(2) [OF assms(1) n]])
    show ?thesis
      unfolding up using Suc n w
      by (simp add: last_block_index(1) [OF assms(1) n] xor_block_eq)
  qed
qed

lemma length_bytes_of_blocks:
  "wf_mem c mem \<Longrightarrow> length (bytes_of_blocks mem) = 1024 * rfc_blocks c"
  unfolding bytes_of_blocks_def
  by (subst length_concat_uniform [where k = 1024]) (auto simp: wf_mem_def length_concat_native)

definition released :: "release \<Rightarrow> u8 list option" where
  "released r = (case r of Release_cbk _ m _ \<Rightarrow> m | Release_free m \<Rightarrow> m)"

lemma free_memory_wiped:
  assumes "length m = num * sz" "num * sz < 2 ^ 64" "env_flag e \<noteq> 0"
  shows "released (free_memory e c (Some m) num sz) = Some (replicate (num * sz) 0)"
  using assms by (simp add: free_memory_def released_def Let_def wipe_simps split: option.split)

lemma finalize_eq:
  assumes "wf_inst inst" "inst_memory inst = Some mem" "wf_mem (cfg_of inst) mem"
    and "ctx_out c = Some out" "1 \<le> unat (ctx_outlen c)" "unat (ctx_outlen c) \<le> length out"
  shows "\<exists>c' rel. finalize e (Some c) (Some inst) = (Some c', Some rel) \<and>
    c' = c\<lparr>ctx_out := Some (rfc_tag (cfg_of inst) (unat (ctx_outlen c)) mem @ drop (unat (ctx_outlen c)) out)\<rparr> \<and>
    (env_flag e \<noteq> 0 \<longrightarrow> released rel = Some (replicate (1024 * unat (inst_memory_blocks inst)) 0))"
proof -
  define cf where "cf = cfg_of inst"
  define n where "n = unat (ctx_outlen c)"
  define last where "last l = mem ! (l * rfc_lane_len cf + (rfc_lane_len cf - 1))" for l
  define C where "C = foldl (map2 (XOR)) (last 0) (map last [1..<cf_p cf])"
  have l0: "0 < unat (inst_lanes inst)" using assms(1) by (simp add: wf_inst_def)
  have w0: "wf_block (last 0)"
    using wf_mem_nth [OF assms(3) last_block_index(2) [OF assms(1) l0]] by (simp add: last_def cf_def)
  have first: "mem ! (unat (inst_lane_length inst) - 1) = last 0"
    by (simp add: last_def cf_def cfg_of_wf [OF assms(1)])
  note xor = xor_last_blocks [OF assms(1,3) w0 order_refl, folded cf_def]
  have fold: "fold (\<lambda>l b. xor_block b (mem ! unat (word_of_nat l * inst_lane_length inst + (inst_lane_length inst - 1))))
      [1..<unat (inst_lanes inst)] (last 0) = C" and wC: "wf_block C"
    using xor by (simp_all add: C_def last_def [abs_def] cf_def)
  have tag: "rfc_H' n (concat (map (native_bytes 8) C)) = rfc_tag cf n mem"
    unfolding rfc_tag_def Let_def C_def last_def ..
  have sb: "store_block (replicate 1024 0) C = concat (map (native_bytes 8) C)"
    by (rule store_block_eq) (simp_all add: wC)
  have lb: "length (concat (map (native_bytes 8) C)) = 1024"
    using wC by (simp add: length_concat_native)
  obtain S where long: "blake2b_long (env_flag e) (Some out) n (Some (concat (map (native_bytes 8) C))) 1024 =
      (0, Some (rfc_tag cf n mem @ drop n out), S)"
    using blake2b_long_eq [of n out "Some (concat (map (native_bytes 8) C))" 1024 "env_flag e"]
      assms(5,6) lb unat_lt_u32 [of "ctx_outlen c"] tag by (auto simp: n_def)
  define c' where "c' = c\<lparr>ctx_out := Some (rfc_tag cf n mem @ drop n out)\<rparr>"
  have fin: "finalize e (Some c) (Some inst) =
      (Some c', Some (free_memory e c' (Some (bytes_of_blocks mem)) (unat (inst_memory_blocks inst)) 1024))"
    unfolding finalize_def prod.case option.case Let_def argon2_core_constants assms(2,4) option.sel first
      copy_block_eq [OF length_replicate w0] fold sb n_def [symmetric] long c'_def [symmetric] option.map ..
  have "length (bytes_of_blocks mem) = unat (inst_memory_blocks inst) * 1024"
    using length_bytes_of_blocks [OF assms(3)] by (simp add: cfg_of_wf [OF assms(1)])
  moreover have "unat (inst_memory_blocks inst) * 1024 < 2 ^ 64"
    using unat_lt_u32 [of "inst_memory_blocks inst"] by simp
  ultimately show ?thesis
    using fin free_memory_wiped [of "bytes_of_blocks mem" "unat (inst_memory_blocks inst)" 1024 e c']
    by (auto simp: c'_def n_def cf_def mult.commute)
qed

section \<open>Filling by one thread\<close>

lemma cfg_of_update [simp]: "cfg_of (inst\<lparr>inst_memory := m\<rparr>) = cfg_of inst"
  "wf_inst (inst\<lparr>inst_memory := m\<rparr>) = wf_inst inst"
  by (simp_all add: cfg_of_def wf_inst_def)

lemma fill_position:
  assumes "wf_inst inst" "wf_mem (cfg_of inst) mem" "wf_block junk"
    and "r < 2 ^ 32" "s < 4" "l < unat (inst_lanes inst)"
  shows "fill_segment junk (Some (inst\<lparr>inst_memory := Some mem\<rparr>)) (position r s l) =
    Some (inst\<lparr>inst_memory := Some (rfc_fill_segment (cfg_of inst) r s l mem)\<rparr>)"
proof -
  have p: "unat (pos_pass (position r s l)) = r" "unat (pos_slice (position r s l)) = s"
    "unat (pos_lane (position r s l)) = l"
    using assms(4-6) unat_lt_u32 [of "inst_lanes inst"]
    by (simp_all add: position_def unat_of_nat take_bit_nat_eq_self)
  have "wf_seg (inst\<lparr>inst_memory := Some mem\<rparr>) (position r s l)"
    using assms(5,6) by (simp add: wf_seg_def p)
  from fill_segment_eq [OF _ this _ _ assms(3), of mem] show ?thesis
    using assms(1,2) by (simp add: p)
qed

text \<open>One pass, and all of them.\<close>

lemma fill_pass_eq:
  assumes "wf_inst inst" "wf_mem (cfg_of inst) mem" "\<forall>r s l. wf_block (env_junk e r s l)" "r < 2 ^ 32"
  shows "fold (\<lambda>s. fold (\<lambda>l inst. the (fill_segment (env_junk e r s l) (Some inst) (position r s l)))
      [0..<unat (inst_lanes inst)]) [0..<unat ARGON2_SYNC_POINTS] (inst\<lparr>inst_memory := Some mem\<rparr>) =
    inst\<lparr>inst_memory := Some (rfc_pass (cfg_of inst) r mem)\<rparr>"
proof -
  define c where "c = cfg_of inst"
  define g where "g m = inst\<lparr>inst_memory := Some m\<rparr>" for m
  define f where "f s l i = the (fill_segment (env_junk e r s l) (Some i) (position r s l))"
    for s l :: nat and i
  have c: "rfc_ok c" "cf_p c = unat (inst_lanes inst)" using assms(1) by (simp_all add: c_def cfg_of_wf)
  have lane: "fold (f s) [0..<cf_p c] (g m) = g (fold (\<lambda>l. rfc_fill_segment c r s l) [0..<cf_p c] m) \<and>
      wf_mem c (fold (\<lambda>l. rfc_fill_segment c r s l) [0..<cf_p c] m)"
    if "s < 4" "wf_mem c m" for s m
  proof (rule fold_simulation [where P = "wf_mem c" and g = g])
    show "wf_mem c m" by (rule that(2))
    fix l m assume a: "l \<in> set [0..<cf_p c]" "wf_mem c m"
    then have "l < unat (inst_lanes inst)" "wf_mem (cfg_of inst) m" "wf_block (env_junk e r s l)"
      using c(2) assms(3) by (simp_all add: c_def)
    from fill_position [OF assms(1) this(2,3) assms(4) that(1) this(1)]
    have "f s l (g m) = g (rfc_fill_segment c r s l m)"
      by (simp add: f_def g_def c_def)
    then show "f s l (g m) = g (rfc_fill_segment c r s l m) \<and> wf_mem c (rfc_fill_segment c r s l m)"
      using wf_mem_fill_segment [OF c(1) a(2) _ that(1)] a(1) by simp
  qed
  have "fold (\<lambda>s. fold (f s) [0..<cf_p c]) [0..<4] (g mem) = g (rfc_pass c r mem) \<and> wf_mem c (rfc_pass c r mem)"
    unfolding rfc_pass_def
    by (rule fold_simulation [where P = "wf_mem c" and g = g]) (use assms(2) lane in \<open>simp_all add: c_def\<close>)
  moreover have "unat ARGON2_SYNC_POINTS = 4" by simp
  ultimately show ?thesis
    unfolding f_def [symmetric] c(2) [symmetric] c_def [symmetric] by (simp only: g_def)
qed

lemma fill_memory_blocks_st_eq:
  assumes "wf_inst inst" "inst_memory inst = Some mem" "wf_mem (cfg_of inst) mem"
    and "\<forall>r s l. wf_block (env_junk e r s l)"
  shows "fill_memory_blocks_st e inst =
    (ARGON2_OK, inst\<lparr>inst_memory := Some (rfc_fill (cfg_of inst) mem)\<rparr>)"
proof -
  define g where "g m = inst\<lparr>inst_memory := Some m\<rparr>" for m
  define f where "f r = fold (\<lambda>s. fold (\<lambda>l inst. the (fill_segment (env_junk e r s l) (Some inst) (position r s l)))
      [0..<unat (inst_lanes inst)]) [0..<unat ARGON2_SYNC_POINTS]" for r
  have c: "rfc_ok (cfg_of inst)" "cf_t (cfg_of inst) = unat (inst_passes inst)" using assms(1) by (simp_all add: cfg_of_wf)
  have "fold f [0..<unat (inst_passes inst)] (g mem) = g (fold (rfc_pass (cfg_of inst)) [0..<unat (inst_passes inst)] mem) \<and>
      wf_mem (cfg_of inst) (fold (rfc_pass (cfg_of inst)) [0..<unat (inst_passes inst)] mem)"
  proof (rule fold_simulation [where P = "wf_mem (cfg_of inst)" and g = g])
    fix r m assume r: "r \<in> set [0..<unat (inst_passes inst)]" and m: "wf_mem (cfg_of inst) m"
    then have "r < 2 ^ 32" using unat_lt_u32 [of "inst_passes inst"] by simp
    from fill_pass_eq [OF assms(1) m assms(4) this] wf_mem_pass [OF c(1) m, of r]
    show "f r (g m) = g (rfc_pass (cfg_of inst) r m) \<and> wf_mem (cfg_of inst) (rfc_pass (cfg_of inst) r m)"
      by (simp add: f_def g_def)
  qed (rule assms(3))
  moreover have "g mem = inst" using assms(2) by (simp add: g_def)
  ultimately show ?thesis
    unfolding fill_memory_blocks_st_def f_def [symmetric] rfc_fill_passes c(2) by (simp only: g_def)
qed

section \<open>Initialisation\<close>

lemma wf_blocks_of_bytes:
  "length p = 1024 * rfc_blocks c \<Longrightarrow> wf_mem c (blocks_of_bytes p)"
  by (auto simp: wf_mem_def blocks_of_bytes_def)

text \<open>The allocator of the call obeys the documentation of \<^verbatim>\<open>malloc\<close>: what it returns has the size
  that was asked for.\<close>

definition call_alloc :: "env \<Rightarrow> argon2_context \<Rightarrow> nat \<Rightarrow> u8 list option" where
  "call_alloc e c = (case ctx_allocate_cbk c of Some cbk \<Rightarrow> cbk | None \<Rightarrow> env_malloc e Alloc_matrix)"

definition alloc_ok :: "(nat \<Rightarrow> u8 list option) \<Rightarrow> bool" where
  "alloc_ok a \<longleftrightarrow> (\<forall>n b. a n = Some b \<longrightarrow> length b = n)"

lemma allocate_memory_eq:
  assumes "num * 1024 < 2 ^ 64"
  shows "allocate_memory e c (Some p) num 1024 =
    (case call_alloc e c (num * 1024) of
       None \<Rightarrow> (ARGON2_MEMORY_ALLOCATION_ERROR, Some None)
     | Some b \<Rightarrow> (ARGON2_OK, Some (Some b)))"
proof -
  have m: "num * 1024 mod 2 ^ 64 = num * 1024" using assms by (rule mod_less)
  have d: "(num * 1024 div 1024 \<noteq> num) = False" by simp
  show ?thesis
    unfolding allocate_memory_def Let_def m d call_alloc_def
    by (auto split: option.splits)
qed

lemma initialize_eq:
  assumes "wf_inst inst" "ctx_readable c" "valid_params c" "alloc_ok (call_alloc e c)"
  defines "n \<equiv> unat (inst_memory_blocks inst) * 1024"
  shows "case call_alloc e c n of
    None \<Rightarrow> \<exists>bh. initialize e (Some inst) (Some c) =
      (ARGON2_MEMORY_ALLOCATION_ERROR, Some (inst\<lparr>inst_memory := None\<rparr>), Some c, bh)
  | Some b \<Rightarrow> \<exists>bh. initialize e (Some inst) (Some c) =
      (ARGON2_OK, Some (inst\<lparr>inst_memory := Some (rfc_first_blocks (cfg_of inst) (ctx_H0 c (inst_type inst))
          (blocks_of_bytes b))\<rparr>), Some (wipe_secret (wipe_password c)), bh) \<and>
      (env_flag e \<noteq> 0 \<longrightarrow> bh = replicate 72 0)"
proof (cases "call_alloc e c n")
  case None
  have "n < 2 ^ 64" using unat_lt_u32 [of "inst_memory_blocks inst"] by (simp add: n_def)
  from allocate_memory_eq [OF this [unfolded n_def], of e c] show ?thesis
    using None by (simp add: initialize_def Let_def n_def)
next
  case (Some b)
  have n: "n < 2 ^ 64" using unat_lt_u32 [of "inst_memory_blocks inst"] by (simp add: n_def)
  define i where "i = inst\<lparr>inst_memory := Some (blocks_of_bytes b)\<rparr>"
  have alloc: "allocate_memory e c (Some p) (unat (inst_memory_blocks inst)) 1024 = (ARGON2_OK, Some (Some b))"
    for p using allocate_memory_eq [OF n [unfolded n_def], of e c] Some by (simp add: n_def)
  have "length b = n" using assms(4) Some by (simp add: alloc_ok_def)
  then have wm: "wf_mem (cfg_of i) (blocks_of_bytes b)"
    by (intro wf_blocks_of_bytes) (simp add: i_def n_def cfg_of_wf [OF assms(1)] mult.commute)
  have ih: "initial_hash e (Some (replicate 72 0)) (Some c) (inst_type i) =
      (Some (ctx_H0 c (inst_type inst) @ replicate 8 0), Some (wipe_secret (wipe_password c)))"
    using initial_hash_eq [OF assms(2), of "replicate 72 0" e "inst_type i"] assms(3)
    by (auto simp: valid_params_def i_def)
  define H0 where "H0 = ctx_H0 c (inst_type inst)"
  have lH: "length H0 = 64" by (simp add: H0_def ctx_H0_def rfc_H0_def)
  define bh1 where "bh1 = H0 @ the (clear_internal_memory (env_flag e) (Some (replicate 8 (0 :: u8))) (72 - 64))"
  have bh1: "length bh1 = 72" "take 64 bh1 = H0"
    using lH by (simp_all add: bh1_def clear_internal_memory_def)
  obtain bh2 where bh2: "length bh2 = 72" "fill_first_blocks e bh1 i =
      (bh2, i\<lparr>inst_memory := Some (rfc_first_blocks (cfg_of i) H0 (blocks_of_bytes b))\<rparr>)"
    using fill_first_blocks_eq [OF _ _ wm bh1(1), of e] assms(1) bh1(2) by (auto simp: i_def)
  have t: "take 64 (H0 @ replicate 8 0) = H0" "drop 64 (H0 @ replicate 8 0) = replicate 8 0"
    using lH by simp_all
  have ok: "(ARGON2_OK \<noteq> ARGON2_OK) = False" by simp
  have "initialize e (Some inst) (Some c) =
      (ARGON2_OK, Some (i\<lparr>inst_memory := Some (rfc_first_blocks (cfg_of i) H0 (blocks_of_bytes b))\<rparr>),
       Some (wipe_secret (wipe_password c)), the (clear_internal_memory (env_flag e) (Some bh2) 72))"
    unfolding initialize_def Let_def prod.case option.case argon2_core_constants alloc option.sel option.map
      i_def [symmetric] ok if_False ih H0_def [symmetric] t bh1_def [symmetric] bh2(2) ..
  then show ?thesis
    using Some bh2(1) by (simp add: i_def H0_def wipe_simps)
qed

section \<open>Properties\<close>

text \<open>C27: \<^verbatim>\<open>validate_inputs\<close> accepts exactly the contexts that meet the restrictions of \<^verbatim>\<open>argon2.h\<close> and
  RFC 9106 on unbounded numbers: the 32-bit product \<^verbatim>\<open>8 * context->lanes\<close>, which can wrap, never
  lets a context through that the product on numbers would reject.\<close>

theorem validate_inputs_spec:
  "validate_inputs ctx = ARGON2_OK \<longleftrightarrow> (\<exists>c. ctx = Some c \<and> valid_params c)"
  by (cases ctx) (simp add: validate_inputs_def, simp add: validate_inputs_ok)

text \<open>C26: \<^verbatim>\<open>initial_hash\<close> writes H0 of RFC 9106 into the first 64 bytes of its buffer. Password and secret
  are wiped, and their lengths zeroed, exactly when the flags of the context ask for it; nothing
  else of the context changes.\<close>

theorem initial_hash_rfc9106:
  assumes "ctx_readable c" "valid_params c" "64 \<le> length bh"
  shows "initial_hash e (Some bh) (Some c) y =
    (Some (rfc_H0 (unat (ctx_lanes c)) (unat (ctx_outlen c)) (unat (ctx_m_cost c)) (unat (ctx_t_cost c))
       (unat (ctx_version c)) (unat (type_code y))
       (read_buf (ctx_pwd c) (unat (ctx_pwdlen c))) (read_buf (ctx_salt c) (unat (ctx_saltlen c)))
       (read_buf (ctx_secret c) (unat (ctx_secretlen c))) (read_buf (ctx_ad c) (unat (ctx_adlen c))) @
       drop 64 bh),
     Some (c\<lparr>
       ctx_pwd := (if ctx_flags c AND 1 \<noteq> 0
         then map_option (\<lambda>b. replicate (unat (ctx_pwdlen c)) 0 @ drop (unat (ctx_pwdlen c)) b) (ctx_pwd c)
         else ctx_pwd c),
       ctx_pwdlen := (if ctx_flags c AND 1 \<noteq> 0 \<and> ctx_pwd c \<noteq> None then 0 else ctx_pwdlen c),
       ctx_secret := (if ctx_flags c AND 2 \<noteq> 0
         then map_option (\<lambda>b. replicate (unat (ctx_secretlen c)) 0 @ drop (unat (ctx_secretlen c)) b) (ctx_secret c)
         else ctx_secret c),
       ctx_secretlen := (if ctx_flags c AND 2 \<noteq> 0 \<and> ctx_secret c \<noteq> None then 0 else ctx_secretlen c)\<rparr>))"
proof -
  have flags: "ARGON2_FLAG_CLEAR_PASSWORD = 1" "ARGON2_FLAG_CLEAR_SECRET = 2"
    by (simp_all add: ARGON2_FLAG_CLEAR_PASSWORD_def ARGON2_FLAG_CLEAR_SECRET_def push_bit_eq_mult)
  have v: "ctx_pwd c = None \<longrightarrow> ctx_pwdlen c = 0" "ctx_salt c = None \<longrightarrow> ctx_saltlen c = 0"
    "ctx_secret c = None \<longrightarrow> ctx_secretlen c = 0" "ctx_ad c = None \<longrightarrow> ctx_adlen c = 0"
    using assms(2) by (auto simp: valid_params_def)
  show ?thesis
    unfolding initial_hash_eq [OF assms(1) v assms(3)] ctx_H0_def
    by (cases "ctx_pwd c"; cases "ctx_secret c")
      (simp_all add: wipe_password_def wipe_secret_def flags secure_wipe_memory_def memset_at_def)
qed

definition small_context :: argon2_context where
  "small_context = \<lparr>ctx_out = Some (replicate 32 0), ctx_outlen = 32, ctx_pwd = Some [112, 119], ctx_pwdlen = 2,
     ctx_salt = Some (replicate 8 1), ctx_saltlen = 8, ctx_secret = None, ctx_secretlen = 0, ctx_ad = None,
     ctx_adlen = 0, ctx_t_cost = 1, ctx_m_cost = 16, ctx_lanes = 2, ctx_threads = 2, ctx_version = 0x13,
     ctx_allocate_cbk = None, ctx_free_cbk = None, ctx_flags = 1\<rparr>"

definition quiet_env :: env where
  "quiet_env = \<lparr>env_flag = 1, env_malloc = (\<lambda>site n. Some (replicate n 7)), env_junk = (\<lambda>r s l. replicate 128 5),
     env_calloc_thread = True, env_calloc_data = True, env_create = (\<lambda>r s l. Pthread_create 0), env_join = (\<lambda>r s l. Pthread_join 0),
     env_sched = (\<lambda>r s a. [1, 0])\<rparr>"

lemma small_context_ok [simp]: "ctx_readable small_context" "valid_params small_context"
  by (simp_all add: small_context_def ctx_readable_def valid_params_def)

theorem initial_hash_rfc9106_witness:
  "\<exists>c. initial_hash quiet_env (Some (replicate 72 0)) (Some small_context) Argon2_id =
      (Some (rfc_H0 2 32 16 1 19 2 [112, 119] (replicate 8 1) [] [] @ replicate 8 0), Some c) \<and>
    ctx_pwd c = Some [0, 0] \<and> ctx_pwdlen c = 0"
proof -
  have "replicate 2 (0 :: u8) = [0, 0]" by (simp add: numeral_2_eq_2)
  then show ?thesis
    using initial_hash_rfc9106 [OF small_context_ok, of "replicate 72 0" quiet_env Argon2_id]
    by (simp add: small_context_def)
qed

end
