(* ===== verification/Interleaving.thy ===== *)
theory Interleaving
  imports Argon2_Spec
begin

text \<open>
  The lanes of a slice commute: whatever the order in which the lanes of one slice compute their
  blocks, the matrix depends only on how far each lane has come. \<open>slice_inv\<close> describes the matrix
  by the progress \<open>n l\<close> of every lane; every step of any lane keeps it, and it determines the
  matrix. That the sequential loop is one of the orders gives the theorem.
\<close>

section \<open>One lane on its own\<close>

definition solo :: "rfc_cfg \<Rightarrow> nat \<Rightarrow> nat \<Rightarrow> block list \<Rightarrow> nat \<Rightarrow> nat \<Rightarrow> block list" where
  "solo c r s mem0 l k = fold (rfc_fill_one c r s l) [rfc_first r s..<k] mem0"

definition in_slice :: "rfc_cfg \<Rightarrow> nat \<Rightarrow> nat \<Rightarrow> bool" where
  "in_slice c s j \<longleftrightarrow> s * cf_seg c \<le> j \<and> j < (s + 1) * cf_seg c"

abbreviation cell :: "rfc_cfg \<Rightarrow> nat \<Rightarrow> nat \<Rightarrow> nat" where
  "cell c l j \<equiv> l * rfc_lane_len c + j"

lemma solo_Suc: "rfc_first r s \<le> k \<Longrightarrow> solo c r s mem0 l (Suc k) = rfc_fill_one c r s l k (solo c r s mem0 l k)"
  by (simp add: solo_def)

lemma wf_solo:
  "rfc_ok c \<Longrightarrow> wf_mem c mem0 \<Longrightarrow> l < cf_p c \<Longrightarrow> s < 4 \<Longrightarrow> k \<le> cf_seg c \<Longrightarrow> wf_mem c (solo c r s mem0 l k)"
  unfolding solo_def
  by (erule fold_invar [where P = "wf_mem c"], rule wf_mem_fill_one) auto

lemma cell_eq:
  "j < rfc_lane_len c \<Longrightarrow> j' < rfc_lane_len c \<Longrightarrow> (cell c l j = cell c l' j') = (l = l' \<and> j = j')"
  using index_split by blast

lemma fill_one_other:
  assumes "j < rfc_lane_len c" "s < 4" "i < cf_seg c" "l' \<noteq> l \<or> j \<noteq> s * cf_seg c + i"
  shows "rfc_fill_one c r s l i mem ! cell c l' j = mem ! cell c l' j"
proof -
  have "cell c l (s * cf_seg c + i) \<noteq> cell c l' j"
    using cell_eq [OF column_bound [OF assms(2,3)] assms(1)] assms(4) by auto
  then show ?thesis by (simp add: rfc_fill_one_def Let_def add.assoc)
qed

lemma solo_other:
  assumes "j < rfc_lane_len c" "s < 4" "k \<le> cf_seg c" "l' \<noteq> l \<or> \<not> in_slice c s j"
  shows "solo c r s mem0 l k ! cell c l' j = mem0 ! cell c l' j"
proof -
  have "solo c r s mem0 l k ! cell c l' j = mem0 ! cell c l' j \<or> k < rfc_first r s"
    using assms(3)
  proof (induction k)
    case 0
    then show ?case by (simp add: solo_def)
  next
    case (Suc k)
    show ?case
    proof (cases "rfc_first r s \<le> k")
      case True
      have "l' \<noteq> l \<or> j \<noteq> s * cf_seg c + k" using assms(4) Suc.prems by (auto simp: in_slice_def)
      then show ?thesis
        using Suc True fill_one_other [OF assms(1,2), of k l' l] by (simp add: solo_Suc)
    qed (simp add: solo_def)
  qed
  then show ?thesis by (auto simp: solo_def)
qed

section \<open>The matrix as a function of the progress\<close>

definition slice_inv :: "rfc_cfg \<Rightarrow> nat \<Rightarrow> nat \<Rightarrow> block list \<Rightarrow> (nat \<Rightarrow> nat) \<Rightarrow> block list \<Rightarrow> bool" where
  "slice_inv c r s mem0 n mem \<longleftrightarrow>
     wf_mem c mem0 \<and> wf_mem c mem \<and> (\<forall>l < cf_p c. rfc_first r s \<le> n l \<and> n l \<le> cf_seg c) \<and>
     (\<forall>l < cf_p c. \<forall>j < rfc_lane_len c.
        mem ! cell c l j = (if in_slice c s j then solo c r s mem0 l (n l) else mem0) ! cell c l j)"

lemma slice_inv_start:
  "wf_mem c mem0 \<Longrightarrow> rfc_ok c \<Longrightarrow> slice_inv c r s mem0 (\<lambda>l. rfc_first r s) mem0"
  by (auto simp: slice_inv_def solo_def rfc_ok_def rfc_first_def)

lemma slice_inv_det:
  assumes "slice_inv c r s mem0 n a" "slice_inv c r s mem0 m b" "\<forall>l < cf_p c. n l = m l" "rfc_ok c"
  shows "a = b"
proof (rule list_eq_nthI)
  show "length a = length b" using assms(1,2) by (simp add: slice_inv_def wf_mem_def)
  fix k assume "k < length a"
  then have k: "k < cf_p c * rfc_lane_len c" using assms(1) by (simp add: slice_inv_def wf_mem_def rfc_blocks_def)
  have L: "0 < rfc_lane_len c" using assms(4) by (simp add: rfc_lane_len_def rfc_ok_def)
  define l where "l = k div rfc_lane_len c"
  define j where "j = k mod rfc_lane_len c"
  have lj: "l < cf_p c" "j < rfc_lane_len c" "cell c l j = k"
    using k L by (simp_all add: l_def j_def less_mult_imp_div_less)
  have "a ! cell c l j = b ! cell c l j"
    using assms(1-3) lj(1,2) by (simp add: slice_inv_def)
  then show "a ! k = b ! k" by (simp only: lj(3))
qed

text \<open>A block update reads the same values from the shared matrix as from the matrix of its lane on
  its own.\<close>

lemma fill_one_reads:
  assumes "rfc_ok c" "s < 4" "slice_inv c r s mem0 n mem" "l < cf_p c" "n l < cf_seg c"
  shows "rfc_fill_one c r s l (n l) mem ! cell c l (s * cf_seg c + n l) =
    rfc_fill_one c r s l (n l) (solo c r s mem0 l (n l)) ! cell c l (s * cf_seg c + n l)"
proof -
  define i where "i = n l"
  define b where "b = solo c r s mem0 l i"
  have seg: "2 \<le> cf_seg c" and i: "i < cf_seg c" "rfc_first r s \<le> i"
    using assms by (simp_all add: rfc_ok_def i_def slice_inv_def)
  have i2: "r = 0 \<and> s = 0 \<longrightarrow> 2 \<le> i" using i(2) by (auto simp: rfc_first_def)
  have own: "mem ! cell c l j = b ! cell c l j" if "j < rfc_lane_len c" for j
  proof (cases "in_slice c s j")
    case True
    then show ?thesis using assms(3,4) that by (simp add: slice_inv_def b_def i_def)
  next
    case False
    then show ?thesis
      using assms(3,4) that solo_other [OF that assms(2), of i l l r mem0] i(1)
      by (simp add: slice_inv_def b_def)
  qed
  have other: "mem ! cell c l' j = b ! cell c l' j" if "l' < cf_p c" "j < rfc_lane_len c" "\<not> in_slice c s j" for l' j
    using assms(3) that solo_other [OF that(2) assms(2), of i l' l r mem0] i(1)
    by (simp add: slice_inv_def b_def)
  have prev: "mem ! rfc_prev c s l i = b ! rfc_prev c s l i"
    unfolding rfc_prev_def using seg
    by (intro own) (simp add: prev_index_def rfc_lane_len_def)
  define J where "J = rfc_J c r s l b i"
  have J: "rfc_J c r s l mem i = J" by (simp add: rfc_J_def J_def prev)
  define l' where "l' = rfc_ref_lane c r s l J"
  define z where "z = rfc_ref_index (cf_seg c) (r = 0) s i (l' = l) (unat J mod 2 ^ 32)"
  have l': "l' < cf_p c" using ref_lane_bound [OF assms(1,4)] by (simp add: l'_def)
  have same: "l' = l \<or> \<not> (r = 0 \<and> s = 0)" by (simp add: l'_def rfc_ref_lane_def)
  have J1: "unat J mod 2 ^ 32 < 2 ^ 32" by simp
  have z: "z < rfc_lane_len c" "l' \<noteq> l \<longrightarrow> \<not> in_slice c s z"
    using rfc_ref_index_ok(1,4) [OF seg assms(2) i(1) i2 J1 same]
    by (auto simp: z_def rfc_lane_len_def in_slice_def)
  have "mem ! cell c l' z = b ! cell c l' z"
    using own [OF z(1)] other [OF l' z(1)] z(2) by (cases "l' = l") simp_all
  then have ref: "mem ! rfc_ref c r s l i J = b ! rfc_ref c r s l i J"
    by (simp add: rfc_ref_def Let_def l'_def z_def)
  have cur: "mem ! cell c l (s * cf_seg c + i) = b ! cell c l (s * cf_seg c + i)"
    by (rule own [OF column_bound [OF assms(2) i(1)]])
  have len: "cell c l (s * cf_seg c + i) < length mem" "cell c l (s * cf_seg c + i) < length b"
    using in_matrix [OF assms(4) column_bound [OF assms(2) i(1)]] assms(3) i(1)
      wf_solo [OF assms(1) _ assms(4,2), of mem0 i r]
    by (simp_all add: slice_inv_def wf_mem_def b_def)
  show ?thesis
    unfolding i_def [symmetric] b_def [symmetric] rfc_fill_one_def Let_def J J_def [symmetric] prev ref
      add.assoc cur
    using len by simp
qed

text \<open>Any lane may take the next step.\<close>

lemma slice_inv_step:
  assumes "rfc_ok c" "s < 4" "slice_inv c r s mem0 n mem" "l < cf_p c" "n l < cf_seg c"
  shows "slice_inv c r s mem0 (n(l := Suc (n l))) (rfc_fill_one c r s l (n l) mem)"
  unfolding slice_inv_def
proof (intro conjI allI impI)
  show "wf_mem c mem0" using assms(3) by (simp add: slice_inv_def)
  show "wf_mem c (rfc_fill_one c r s l (n l) mem)"
    using wf_mem_fill_one [OF assms(1) _ assms(4,2,5)] assms(3) by (simp add: slice_inv_def)
  fix k assume k: "k < cf_p c"
  show "rfc_first r s \<le> (n(l := Suc (n l))) k" "(n(l := Suc (n l))) k \<le> cf_seg c"
    using assms(3,5) k by (auto simp: slice_inv_def le_Suc_eq)
  fix j assume j: "j < rfc_lane_len c"
  have step: "solo c r s mem0 l (Suc (n l)) = rfc_fill_one c r s l (n l) (solo c r s mem0 l (n l))"
    using assms(3,4) by (intro solo_Suc) (simp add: slice_inv_def)
  show "rfc_fill_one c r s l (n l) mem ! cell c k j =
      (if in_slice c s j then solo c r s mem0 k ((n(l := Suc (n l))) k) else mem0) ! cell c k j"
  proof (cases "k = l \<and> j = s * cf_seg c + n l")
    case True
    then have "in_slice c s j" using assms(5) by (simp add: in_slice_def)
    then show ?thesis using True fill_one_reads [OF assms] by (simp add: step)
  next
    case False
    then have o: "rfc_fill_one c r s l (n l) x ! cell c k j = x ! cell c k j" for x
      using fill_one_other [OF j assms(2,5)] by blast
    show ?thesis
    proof (cases "k = l")
      case True
      then show ?thesis using assms(3) k j o by (simp add: step slice_inv_def)
    next
      case False
      then show ?thesis using assms(3) k j o by (simp add: slice_inv_def)
    qed
  qed
qed

lemma fill_segment_slice_inv:
  assumes "rfc_ok c" "s < 4" "slice_inv c r s mem0 n mem" "l < cf_p c" "n l = rfc_first r s"
  shows "slice_inv c r s mem0 (n(l := cf_seg c)) (rfc_fill_segment c r s l mem)"
proof -
  have le: "rfc_first r s \<le> cf_seg c" using assms(1) by (simp add: rfc_first_def rfc_ok_def)
  have "slice_inv c r s mem0 (n(l := rfc_first r s + k))
      (fold (rfc_fill_one c r s l) [rfc_first r s..<rfc_first r s + k] mem)"
    if "rfc_first r s + k \<le> cf_seg c" for k
    using that
  proof (induction k)
    case 0
    then show ?case using assms(3,5) by (metis add_0_right fun_upd_triv fold_simps(1) upt_conv_Nil order_refl)
  next
    case (Suc k)
    define N where "N = n(l := rfc_first r s + k)"
    have N: "N l = rfc_first r s + k" "N(l := Suc (N l)) = n(l := rfc_first r s + Suc k)"
      by (simp_all add: N_def)
    have "slice_inv c r s mem0 N (fold (rfc_fill_one c r s l) [rfc_first r s..<rfc_first r s + k] mem)"
      unfolding N_def by (rule Suc.IH) (use Suc.prems in simp)
    from slice_inv_step [OF assms(1,2) this assms(4)] Suc.prems show ?case
      unfolding N(2) [symmetric] by (simp add: N(1) del: fun_upd_apply)
  qed
  from this [of "cf_seg c - rfc_first r s"] le show ?thesis
    by (simp add: rfc_fill_segment_def)
qed

text \<open>The sequential loop over the lanes is one of the orders.\<close>

lemma sequential_slice_inv:
  assumes "rfc_ok c" "s < 4" "wf_mem c mem0" "k \<le> cf_p c"
  shows "slice_inv c r s mem0 (\<lambda>l. if l < k then cf_seg c else rfc_first r s)
    (fold (\<lambda>l. rfc_fill_segment c r s l) [0..<k] mem0)"
  using assms(4)
proof (induction k)
  case 0
  then show ?case using slice_inv_start [OF assms(3,1)] by simp
next
  case (Suc k)
  define n where "n = (\<lambda>l. if l < k then cf_seg c else rfc_first r s)"
  have "(\<lambda>l. if l < Suc k then cf_seg c else rfc_first r s) = n(k := cf_seg c)"
    by (auto simp: n_def fun_eq_iff)
  then show ?case
    using fill_segment_slice_inv [OF assms(1,2), of r mem0 n _ k] Suc by (simp add: n_def)
qed

lemma slice_complete:
  assumes "rfc_ok c" "s < 4" "slice_inv c r s mem0 n mem" "\<forall>l < cf_p c. n l = cf_seg c"
  shows "mem = fold (\<lambda>l. rfc_fill_segment c r s l) [0..<cf_p c] mem0"
proof -
  have "wf_mem c mem0" using assms(3) by (simp add: slice_inv_def)
  from slice_inv_det [OF assms(3) sequential_slice_inv [OF assms(1,2) this order_refl] _ assms(1)] assms(4)
  show ?thesis by simp
qed

section \<open>A slice cut short\<close>

text \<open>A lane writes each of its blocks once, so that its progress is a column: before it stand the blocks of the whole slice,
  after it those of the matrix before the slice.\<close>

definition rfc_slice :: "rfc_cfg \<Rightarrow> nat \<Rightarrow> nat \<Rightarrow> block list \<Rightarrow> block list" where
  "rfc_slice c r s mem = fold (\<lambda>l. rfc_fill_segment c r s l) [0..<cf_p c] mem"

definition cut_short :: "rfc_cfg \<Rightarrow> nat \<Rightarrow> nat \<Rightarrow> block list \<Rightarrow> block list \<Rightarrow> bool" where
  "cut_short c r s mem mem' \<longleftrightarrow> length mem' = rfc_blocks c \<and>
     (\<forall>l < cf_p c. \<exists>k. \<forall>j < rfc_lane_len c.
        mem' ! cell c l j = (if j < k then rfc_slice c r s mem else mem) ! cell c l j)"

lemma solo_later:
  assumes "s < 4" "j < rfc_lane_len c" "rfc_first r s \<le> k" "k \<le> k'" "k' \<le> cf_seg c"
    and "j < s * cf_seg c + k \<or> s * cf_seg c + k' \<le> j"
  shows "solo c r s mem0 l k' ! cell c l j = solo c r s mem0 l k ! cell c l j"
  using assms(4-6)
proof (induction k' rule: dec_induct)
  case (step m)
  then show ?case
    using fill_one_other [OF assms(2,1), of m l l r "solo c r s mem0 l m"] assms(3) by (auto simp: solo_Suc)
qed simp

lemma rfc_slice_nth:
  assumes "rfc_ok c" "s < 4" "wf_mem c mem0" "l < cf_p c" "j < rfc_lane_len c"
  shows "rfc_slice c r s mem0 ! cell c l j =
    (if in_slice c s j then solo c r s mem0 l (cf_seg c) else mem0) ! cell c l j"
  using sequential_slice_inv [OF assms(1-3) order_refl, of r] assms(4,5) by (simp add: slice_inv_def rfc_slice_def)

lemma slice_inv_cut_short:
  assumes "rfc_ok c" "s < 4" "slice_inv c r s mem0 n mem"
  shows "cut_short c r s mem0 mem"
  unfolding cut_short_def
proof (intro conjI allI impI)
  show "length mem = rfc_blocks c" using assms(3) by (simp add: slice_inv_def wf_mem_def)
  fix l assume l: "l < cf_p c"
  have w: "wf_mem c mem0" and n: "rfc_first r s \<le> n l" "n l \<le> cf_seg c"
    using assms(3) l by (simp_all add: slice_inv_def)
  have "mem ! cell c l j = (if j < s * cf_seg c + n l then rfc_slice c r s mem0 else mem0) ! cell c l j"
    if j: "j < rfc_lane_len c" for j
  proof (cases "j < s * cf_seg c + n l")
    case True
    then show ?thesis
      using assms(3) l j solo_later [OF assms(2) j n order_refl, of mem0 l] rfc_slice_nth [OF assms(1,2) w l j, of r]
      by (simp add: slice_inv_def)
  next
    case False
    have "solo c r s mem0 l (n l) ! cell c l j = mem0 ! cell c l j"
      using solo_later [OF assms(2) j order_refl n, of mem0 l] False by (simp add: solo_def)
    then show ?thesis using assms(3) l j False by (simp add: slice_inv_def)
  qed
  then show "\<exists>k. \<forall>j < rfc_lane_len c. mem ! cell c l j = (if j < k then rfc_slice c r s mem0 else mem0) ! cell c l j"
    by blast
qed

text \<open>When only the first lanes have run, and to their end, the matrix is the one of the loop over these lanes.\<close>

lemma slice_first_lanes:
  assumes "rfc_ok c" "s < 4" "slice_inv c r s mem0 n mem" "k \<le> cf_p c"
    and "\<forall>l < k. n l = cf_seg c" "\<forall>l < cf_p c. k \<le> l \<longrightarrow> n l = rfc_first r s"
  shows "mem = fold (\<lambda>l. rfc_fill_segment c r s l) [0..<k] mem0"
proof (rule slice_inv_det [OF assms(3) sequential_slice_inv [OF assms(1,2) _ assms(4)] _ assms(1)])
  show "wf_mem c mem0" using assms(3) by (simp add: slice_inv_def)
  show "\<forall>l < cf_p c. n l = (if l < k then cf_seg c else rfc_first r s)" using assms(5,6) by simp
qed

end
