(* ===== verification/Threads_Props.thy ===== *)
theory Threads_Props
  imports Core_Props Interleaving
begin

text \<open>
  Filling the matrix by several threads (\<open>fill_memory_blocks_mt\<close> of \<open>Core\<close>) gives what one thread
  gives, for every schedule. \<open>mt_inv\<close> relates the state of the threads and the matrix to the
  progress of every lane (\<open>Interleaving\<close>); every action of the main thread and every step of a
  running thread keeps it, and a join adds its lane to the lanes that are complete.
\<close>

definition thread_ok ::
  "argon2_instance_t \<Rightarrow> nat \<Rightarrow> nat \<Rightarrow> block list \<Rightarrow> nat \<Rightarrow> nat \<Rightarrow> thread option \<Rightarrow> bool" where
  "thread_ok inst r s mem l k th \<longleftrightarrow>
     (case th of None \<Rightarrow> k = rfc_first r s
      | Some t \<Rightarrow> thr_pos t = position r s l \<and> thr_next t = k \<and>
          seg_inv inst (position r s l) mem k ((thr_seg t)\<lparr>seg_memory := mem\<rparr>))"

definition mt_inv ::
  "argon2_instance_t \<Rightarrow> nat \<Rightarrow> nat \<Rightarrow> block list \<Rightarrow> nat set \<Rightarrow> nat set \<Rightarrow> mt_state \<Rightarrow> bool" where
  "mt_inv inst r s mem0 P D st \<longleftrightarrow>
     (\<exists>n. length (fst st) = unat (inst_lanes inst) \<and> slice_inv (cfg_of inst) r s mem0 n (snd st) \<and>
        (\<forall>l < unat (inst_lanes inst). thread_ok inst r s (snd st) l (n l) (fst st ! l) \<and>
           (fst st ! l = None \<longleftrightarrow> l \<in> P)) \<and>
        (\<forall>l \<in> D. n l = unat (inst_segment_length inst)))"

text \<open>The local state of a thread refers to the matrix only through its well-formedness.\<close>

lemma thread_ok_mem:
  "thread_ok inst r s mem l k th \<Longrightarrow> wf_mem (cfg_of inst) mem' \<Longrightarrow> thread_ok inst r s mem' l k th"
  by (auto simp: thread_ok_def seg_inv_def Let_def eff_prev_def split: option.splits)

definition run_ok :: "argon2_instance_t \<Rightarrow> nat \<Rightarrow> nat \<Rightarrow> bool" where
  "run_ok inst r s \<longleftrightarrow> wf_inst inst \<and> r < 2 ^ 32 \<and> s < 4"

lemma run_okD:
  assumes "run_ok inst r s"
  shows "wf_inst inst" "r < 2 ^ 32" "s < 4" "rfc_ok (cfg_of inst)"
  using assms by (simp_all add: run_ok_def cfg_of_wf)

lemma position_fields:
  assumes "run_ok inst r s" "l < unat (inst_lanes inst)"
  shows "unat (pos_pass (position r s l)) = r" "unat (pos_slice (position r s l)) = s"
    "unat (pos_lane (position r s l)) = l" "wf_seg inst (position r s l)"
    "starting_index (position r s l) = rfc_first r s"
proof -
  show f: "unat (pos_pass (position r s l)) = r" "unat (pos_slice (position r s l)) = s"
    "unat (pos_lane (position r s l)) = l"
    using run_okD [OF assms(1)] assms(2) unat_lt_u32 [of "inst_lanes inst"]
    by (simp_all add: position_def unat_of_nat take_bit_nat_eq_self)
  show "wf_seg inst (position r s l)" using run_okD [OF assms(1)] assms(2) by (simp add: wf_seg_def f)
  show "starting_index (position r s l) = rfc_first r s" by (simp add: starting_index_rfc f)
qed

section \<open>Steps of the threads\<close>

lemma mt_inv_advance:
  assumes "run_ok inst r s" "mt_inv inst r s mem0 P D st"
  shows "mt_inv inst r s mem0 P D (advance inst l st)"
proof -
  obtain ths mem where st: "st = (ths, mem)" by (cases st)
  define c where "c = cfg_of inst"
  obtain n where inv: "length ths = unat (inst_lanes inst)" "slice_inv c r s mem0 n mem"
    "\<forall>l < unat (inst_lanes inst). thread_ok inst r s mem l (n l) (ths ! l) \<and> (ths ! l = None \<longleftrightarrow> l \<in> P)"
    "\<forall>l \<in> D. n l = unat (inst_segment_length inst)"
    using assms(2) by (auto simp: mt_inv_def st c_def)
  show ?thesis
  proof (cases "l < length ths \<and> (\<exists>t. ths ! l = Some t \<and> thr_next t < unat (inst_segment_length inst))")
    case False
    then have "advance inst l st = st" by (auto simp: advance_def st split: option.split)
    then show ?thesis using assms(2) by simp
  next
    case True
    then obtain t where l: "l < unat (inst_lanes inst)" and t: "ths ! l = Some t"
      "thr_next t < unat (inst_segment_length inst)" using inv(1) by auto
    note pos = position_fields [OF assms(1) l]
    have tok: "thr_pos t = position r s l" "thr_next t = n l"
      "seg_inv inst (position r s l) mem (n l) ((thr_seg t)\<lparr>seg_memory := mem\<rparr>)"
      using inv(3) l t(1) by (auto simp: thread_ok_def)
    have nl: "n l < cf_seg c" "rfc_first r s \<le> n l" "l < cf_p c"
      using t(2) tok(2) inv(2) l by (simp_all add: c_def slice_inv_def)
    define sg where "sg = fill_segment_step inst (position r s l) (n l) ((thr_seg t)\<lparr>seg_memory := mem\<rparr>)"
    define mem' where "mem' = rfc_fill_one c r s l (n l) mem"
    have si: "seg_inv inst (position r s l) mem' (Suc (n l)) sg"
      using seg_inv_step [OF run_okD(1) [OF assms(1)] pos(4) _ _ tok(3)] nl pos(5)
      by (simp add: sg_def mem'_def c_def pos)
    then have m: "seg_memory sg = mem'" "wf_mem c mem'" by (simp_all add: seg_inv_def Let_def c_def)
    have sg: "sg\<lparr>seg_memory := [], seg_memory := mem'\<rparr> = sg" using m(1) by simp
    define t' where "t' = t\<lparr>thr_next := Suc (n l), thr_seg := sg\<lparr>seg_memory := []\<rparr>\<rparr>"
    have adv: "advance inst l st = (ths[l := Some t'], mem')"
      using t tok l inv(1) by (simp add: advance_def st sg_def [symmetric] m(1) t'_def)
    have t': "thread_ok inst r s mem' l (Suc (n l)) (Some t')"
      using si sg tok(1) by (simp add: thread_ok_def t'_def)
    define N where "N = n(l := Suc (n l))"
    have N: "slice_inv c r s mem0 N mem'"
      unfolding N_def mem'_def
      by (rule slice_inv_step [OF _ _ inv(2) nl(3,1)]) (use run_okD [OF assms(1)] in \<open>simp_all add: c_def\<close>)
    have "l \<notin> D" using inv(4) t(2) tok(2) by auto
    then have D: "\<forall>k \<in> D. N k = unat (inst_segment_length inst)" using inv(4) by (auto simp: N_def)
    have "\<forall>k < unat (inst_lanes inst). thread_ok inst r s mem' k (N k) (ths[l := Some t'] ! k) \<and>
        (ths[l := Some t'] ! k = None \<longleftrightarrow> k \<in> P)"
    proof (intro allI impI)
      fix k assume k: "k < unat (inst_lanes inst)"
      show "thread_ok inst r s mem' k (N k) (ths[l := Some t'] ! k) \<and> (ths[l := Some t'] ! k = None \<longleftrightarrow> k \<in> P)"
      proof (cases "k = l")
        case True
        then show ?thesis using t' inv(1,3) l t(1) by (auto simp: N_def)
      next
        case False
        then show ?thesis using inv(3) k thread_ok_mem m(2) by (auto simp: N_def c_def)
      qed
    qed
    then show ?thesis using N D inv(1) by (auto simp: mt_inv_def adv c_def)
  qed
qed

lemma mt_inv_run:
  assumes "run_ok inst r s" "mt_inv inst r s mem0 P D st"
  shows "mt_inv inst r s mem0 P D (run_threads inst ls st)"
  unfolding run_threads_def
  by (rule fold_invar [where P = "mt_inv inst r s mem0 P D", OF assms(2) mt_inv_advance [OF assms(1)]])

text \<open>A thread that has been created and keeps advancing finishes.\<close>

definition progress :: "nat \<Rightarrow> mt_state \<Rightarrow> nat" where
  "progress l st = (case fst st ! l of None \<Rightarrow> 0 | Some t \<Rightarrow> thr_next t)"

lemma progress_advance:
  assumes "l < length (fst st)" "fst st ! l \<noteq> None"
  shows "length (fst (advance inst l st)) = length (fst st) \<and> fst (advance inst l st) ! l \<noteq> None \<and>
    progress l (advance inst l st) \<ge> min (unat (inst_segment_length inst)) (Suc (progress l st))"
  using assms by (cases st) (auto simp: advance_def progress_def Let_def)

lemma progress_run:
  assumes "l < length (fst st)" "fst st ! l \<noteq> None"
  shows "length (fst (run_threads inst (replicate k l) st)) = length (fst st) \<and>
    fst (run_threads inst (replicate k l) st) ! l \<noteq> None \<and>
    progress l (run_threads inst (replicate k l) st) \<ge> min (unat (inst_segment_length inst)) (k + progress l st)"
  using assms
proof (induction k arbitrary: st)
  case 0
  then show ?case by (simp add: run_threads_def)
next
  case (Suc k)
  have a: "length (fst (advance inst l st)) = length (fst st)" "fst (advance inst l st) ! l \<noteq> None"
    "progress l (advance inst l st) \<ge> min (unat (inst_segment_length inst)) (Suc (progress l st))"
    using progress_advance [OF Suc.prems] by blast+
  have e: "run_threads inst (replicate (Suc k) l) st = run_threads inst (replicate k l) (advance inst l st)"
    by (simp add: run_threads_def)
  show ?case
    using Suc.IH [of "advance inst l st"] a Suc.prems(1) unfolding e by (auto simp: min_def split: if_splits)
qed

lemma mt_inv_finished:
  assumes "mt_inv inst r s mem0 P D st" "l < unat (inst_lanes inst)" "l \<notin> P"
    and "unat (inst_segment_length inst) \<le> progress l st"
  shows "mt_inv inst r s mem0 P (insert l D) st"
proof -
  obtain n where inv: "length (fst st) = unat (inst_lanes inst)" "slice_inv (cfg_of inst) r s mem0 n (snd st)"
    "\<forall>l < unat (inst_lanes inst). thread_ok inst r s (snd st) l (n l) (fst st ! l) \<and> (fst st ! l = None \<longleftrightarrow> l \<in> P)"
    "\<forall>l \<in> D. n l = unat (inst_segment_length inst)"
    using assms(1) by (auto simp: mt_inv_def)
  obtain t where t: "fst st ! l = Some t" using inv(3) assms(2,3) by fastforce
  have "n l = thr_next t" using inv(3) assms(2) t by (auto simp: thread_ok_def)
  moreover have "n l \<le> unat (inst_segment_length inst)"
    using inv(2) assms(2) by (simp add: slice_inv_def)
  ultimately have "n l = unat (inst_segment_length inst)" using assms(4) t by (simp add: progress_def)
  then show ?thesis using inv unfolding mt_inv_def by (intro exI [of _ n]) simp
qed

section \<open>Actions of the main thread\<close>

lemma thread_join_inv:
  assumes "run_ok inst r s" "mt_inv inst r s mem0 P D st" "l < unat (inst_lanes inst)" "l \<notin> P"
    and "thread_join e inst r s a l st = (0, st')"
  shows "mt_inv inst r s mem0 P (insert l D) st'"
proof -
  define st1 where "st1 = run_threads inst (env_sched e r s a) st"
  have st': "st' = run_threads inst (replicate (unat (inst_segment_length inst)) l) st1"
    using assms(5) by (simp add: thread_join_def Let_def st1_def split: if_splits)
  have i1: "mt_inv inst r s mem0 P D st1"
    unfolding st1_def by (rule mt_inv_run [OF assms(1,2)])
  then have l: "l < length (fst st1)" "fst st1 ! l \<noteq> None"
    using assms(3,4) by (auto simp: mt_inv_def)
  have "unat (inst_segment_length inst) \<le> progress l st'"
    using progress_run [OF l, where inst = inst and k = "unat (inst_segment_length inst)"] unfolding st' by simp
  moreover have "mt_inv inst r s mem0 P D st'" unfolding st' by (rule mt_inv_run [OF assms(1) i1])
  ultimately show ?thesis using mt_inv_finished assms(3,4) by blast
qed

lemma start_thread_inv:
  assumes "run_ok inst r s" "mt_inv inst r s mem0 P D (ths, mem)" "l < unat (inst_lanes inst)" "l \<in> P"
    and "wf_block junk"
  shows "mt_inv inst r s mem0 (P - {l}) D (ths[l := Some (start_thread junk inst (position r s l))], mem)"
proof -
  obtain n where inv: "length ths = unat (inst_lanes inst)" "slice_inv (cfg_of inst) r s mem0 n mem"
    "\<forall>l < unat (inst_lanes inst). thread_ok inst r s mem l (n l) (ths ! l) \<and> (ths ! l = None \<longleftrightarrow> l \<in> P)"
    "\<forall>l \<in> D. n l = unat (inst_segment_length inst)"
    using assms(2) by (auto simp: mt_inv_def)
  note pos = position_fields [OF assms(1,3)]
  have "ths ! l = None" using inv(3) assms(3,4) by blast
  then have nl: "n l = rfc_first r s" using inv(3) assms(3) by (auto simp: thread_ok_def)
  have wf: "wf_mem (cfg_of inst) mem" using inv(2) by (simp add: slice_inv_def)
  have "(fill_segment_init junk inst (position r s l) [])\<lparr>seg_memory := mem\<rparr> =
      fill_segment_init junk inst (position r s l) mem"
    by (simp add: fill_segment_init_def Let_def split: prod.split)
  then have "thread_ok inst r s mem l (n l) (Some (start_thread junk inst (position r s l)))"
    using seg_inv_init [OF run_okD(1) [OF assms(1)] pos(4) wf assms(5)]
    by (simp add: thread_ok_def start_thread_def nl pos(5))
  then show ?thesis
    using inv assms(3) unfolding mt_inv_def by (intro exI [of _ n]) (auto simp: nth_list_update)
qed

lemma create_threads_inv:
  assumes "run_ok inst r s" "\<forall>r s l. wf_block (env_junk e r s l)" "1 \<le> unat (inst_threads inst)"
    and "k \<le> unat (inst_lanes inst)"
    and "mt_inv inst r s mem0 {k..<unat (inst_lanes inst)} {0..<k - unat (inst_threads inst)} st"
    and "create_threads e inst r s [k..<unat (inst_lanes inst)] st = (ARGON2_OK, st')"
  shows "mt_inv inst r s mem0 {} {0..<unat (inst_lanes inst) - unat (inst_threads inst)} st'"
  using assms(4-6)
proof (induction "unat (inst_lanes inst) - k" arbitrary: k st)
  case 0
  then show ?case by simp
next
  case (Suc x)
  define p where "p = unat (inst_lanes inst)"
  define t where "t = unat (inst_threads inst)"
  have k: "k < p" using Suc.hyps(2) by (simp add: p_def)
  then have up: "[k..<p] = k # [Suc k..<p]" by (simp add: upt_rec)
  define jn where "jn = (if k \<ge> t then thread_join e inst r s (2 * k) (k - t) st else (0, st))"
  obtain j st1 where jn': "jn = (j, st1)" by (cases jn)
  obtain ths mem where st2: "run_threads inst (env_sched e r s (2 * k + 1)) st1 = (ths, mem)"
    by (cases "run_threads inst (env_sched e r s (2 * k + 1)) st1")
  have run: "j = 0" "create_result e r s k = 0"
    "create_threads e inst r s [Suc k..<p]
      (ths[k := Some (start_thread (env_junk e r s k) inst (position r s k))], mem) = (ARGON2_OK, st')"
    using Suc.prems(3)
    unfolding p_def [symmetric] up create_threads.simps Let_def t_def [symmetric] jn_def [symmetric] jn'
      prod.case st2
    by (auto split: if_splits)
  have i1: "mt_inv inst r s mem0 {k..<p} {0..<Suc k - t} st1"
  proof (cases "k \<ge> t")
    case True
    then have "thread_join e inst r s (2 * k) (k - t) st = (0, st1)" using jn' run(1) by (simp add: jn_def)
    moreover have "k - t < p" "k - t \<notin> {k..<p}" using k assms(3) True by (auto simp: t_def)
    ultimately have "mt_inv inst r s mem0 {k..<p} (insert (k - t) {0..<k - t}) st1"
      using thread_join_inv [OF assms(1) Suc.prems(2)] by (simp add: p_def t_def)
    moreover have "insert (k - t) {0..<k - t} = {0..<Suc k - t}" using True by auto
    ultimately show ?thesis by simp
  next
    case False
    then show ?thesis using Suc.prems(2) jn' by (simp add: jn_def p_def t_def)
  qed
  from mt_inv_run [OF assms(1) this, of "env_sched e r s (2 * k + 1)"]
  have "mt_inv inst r s mem0 {k..<p} {0..<Suc k - t} (ths, mem)" by (simp only: st2)
  from start_thread_inv [OF assms(1) this, of k "env_junk e r s k"]
  have i2: "mt_inv inst r s mem0 ({k..<p} - {k}) {0..<Suc k - t}
      (ths[k := Some (start_thread (env_junk e r s k) inst (position r s k))], mem)"
    using k assms(2) by (simp add: p_def)
  have "{k..<p} - {k} = {Suc k..<p}" by auto
  with i2 have i3: "mt_inv inst r s mem0 {Suc k..<p} {0..<Suc k - t}
      (ths[k := Some (start_thread (env_junk e r s k) inst (position r s k))], mem)" by simp
  show ?case
    using Suc.hyps(1) [of "Suc k"] Suc.hyps(2) k i3 run(3) by (simp add: p_def t_def)
qed

lemma join_threads_inv:
  assumes "run_ok inst r s" "k \<le> unat (inst_lanes inst)"
    and "mt_inv inst r s mem0 {} {0..<k} st"
    and "join_threads e inst r s [k..<unat (inst_lanes inst)] st = (ARGON2_OK, st')"
  shows "mt_inv inst r s mem0 {} {0..<unat (inst_lanes inst)} st'"
  using assms(2-4)
proof (induction "unat (inst_lanes inst) - k" arbitrary: k st)
  case 0
  then show ?case by simp
next
  case (Suc x)
  have k: "k < unat (inst_lanes inst)" using Suc.hyps(2) by simp
  then have up: "[k..<unat (inst_lanes inst)] = k # [Suc k..<unat (inst_lanes inst)]" by (simp add: upt_rec)
  obtain j st1 where jn: "thread_join e inst r s (2 * (unat (inst_lanes inst) + k)) k st = (j, st1)"
    by (cases "thread_join e inst r s (2 * (unat (inst_lanes inst) + k)) k st")
  have run: "j = 0" "join_threads e inst r s [Suc k..<unat (inst_lanes inst)] st1 = (ARGON2_OK, st')"
    using Suc.prems(3) unfolding up join_threads.simps Let_def jn prod.case by (auto split: if_splits)
  have "mt_inv inst r s mem0 {} (insert k {0..<k}) st1"
    using thread_join_inv [OF assms(1) Suc.prems(2) k] jn run(1) by simp
  moreover have "insert k {0..<k} = {0..<Suc k}" by auto
  ultimately show ?case
    using Suc.hyps(1) [of "Suc k" st1] Suc.hyps(2) k run(2) by simp
qed

lemma fill_slice_mt_eq:
  assumes "run_ok inst r s" "\<forall>r s l. wf_block (env_junk e r s l)"
    and "1 \<le> unat (inst_threads inst)" "unat (inst_threads inst) \<le> unat (inst_lanes inst)"
    and "wf_mem (cfg_of inst) mem" "fill_slice_mt e inst r s mem = (ARGON2_OK, mem')"
  shows "mem' = fold (\<lambda>l. rfc_fill_segment (cfg_of inst) r s l) [0..<unat (inst_lanes inst)] mem"
proof -
  define p where "p = unat (inst_lanes inst)"
  define t where "t = unat (inst_threads inst)"
  have sub: "unat (inst_lanes inst - inst_threads inst) = p - t"
    using assms(4) by (simp add: unat_sub word_le_nat_alt p_def t_def)
  obtain rc st1 where cr: "create_threads e inst r s [0..<p] (replicate p None, mem) = (rc, st1)"
    by (cases "create_threads e inst r s [0..<p] (replicate p None, mem)")
  obtain rc' st2 where jn: "join_threads e inst r s [p - t..<p] st1 = (rc', st2)"
    by (cases "join_threads e inst r s [p - t..<p] st1")
  have rc: "rc = ARGON2_OK" "rc' = ARGON2_OK" "mem' = snd st2"
    using assms(6) cr jn unfolding fill_slice_mt_def Let_def p_def [symmetric] sub
    by (auto split: if_splits)
  have "slice_inv (cfg_of inst) r s mem (\<lambda>l. rfc_first r s) mem"
    using slice_inv_start [OF assms(5) run_okD(4) [OF assms(1)]] .
  then have "mt_inv inst r s mem {0..<p} {0..<0 - t} (replicate p None, mem)"
    by (auto simp: mt_inv_def thread_ok_def p_def)
  from create_threads_inv [OF assms(1-3) le0 this [unfolded p_def t_def]] cr rc(1)
  have "mt_inv inst r s mem {} {0..<p - t} st1" by (simp add: p_def t_def)
  from join_threads_inv [OF assms(1) _ this] jn rc(2)
  have "mt_inv inst r s mem {} {0..<p} st2" by (simp add: p_def)
  then obtain n where n: "slice_inv (cfg_of inst) r s mem n (snd st2)" "\<forall>l < p. n l = unat (inst_segment_length inst)"
    by (auto simp: mt_inv_def)
  from slice_complete [OF run_okD(4,3) [OF assms(1)] n(1)] n(2) show ?thesis
    by (simp add: rc(3) p_def)
qed

section \<open>All slices\<close>

lemma fold_product:
  "fold (\<lambda>(x, y). f x y) (List.product xs ys) z = fold (\<lambda>x. fold (f x) ys) xs z"
proof -
  have "fold (\<lambda>(x, y). f x y) (map (Pair x) ys) z = fold (f x) ys z" for x z
    by (induction ys arbitrary: z) simp_all
  then show ?thesis by (induction xs arbitrary: z) simp_all
qed

lemma fill_slices_mt_eq:
  assumes "wf_inst inst" "\<forall>r s l. wf_block (env_junk e r s l)"
    and "1 \<le> unat (inst_threads inst)" "unat (inst_threads inst) \<le> unat (inst_lanes inst)"
    and "\<forall>(r, s) \<in> set rs. r < 2 ^ 32 \<and> s < 4"
    and "wf_mem (cfg_of inst) mem" "fill_slices_mt e inst rs mem = (ARGON2_OK, mem')"
  shows "mem' = fold (\<lambda>(r, s). fold (\<lambda>l. rfc_fill_segment (cfg_of inst) r s l) [0..<unat (inst_lanes inst)]) rs mem"
  using assms(5-7)
proof (induction rs arbitrary: mem)
  case Nil
  then show ?case by simp
next
  case (Cons x rs)
  obtain r s where x: "x = (r, s)" by (cases x)
  have ok: "run_ok inst r s" using Cons.prems(1) assms(1) by (simp add: run_ok_def x)
  obtain rc mem1 where sl: "fill_slice_mt e inst r s mem = (rc, mem1)"
    by (cases "fill_slice_mt e inst r s mem")
  have run: "rc = ARGON2_OK" "fill_slices_mt e inst rs mem1 = (ARGON2_OK, mem')"
    using Cons.prems(3) unfolding x fill_slices_mt.simps Let_def sl prod.case by (auto split: if_splits)
  have m1: "mem1 = fold (\<lambda>l. rfc_fill_segment (cfg_of inst) r s l) [0..<unat (inst_lanes inst)] mem"
    using fill_slice_mt_eq [OF ok assms(2-4) Cons.prems(2)] sl run(1) by simp
  have "wf_mem (cfg_of inst) mem1"
    unfolding m1 by (rule fold_invar [where P = "wf_mem (cfg_of inst)", OF Cons.prems(2)])
      (use run_okD [OF ok] in \<open>auto intro: wf_mem_fill_segment\<close>)
  then show ?case using Cons.IH [of mem1] Cons.prems(1) run(2) by (simp add: x m1)
qed

definition threads_succeed :: "env \<Rightarrow> bool" where
  "threads_succeed e \<longleftrightarrow> env_calloc_thread e \<and> env_calloc_data e \<and>
     (\<forall>r s l. create_result e r s l = 0) \<and> (\<forall>r s l. join_result e r s l = 0)"

lemma create_threads_succeed:
  "threads_succeed e \<Longrightarrow> fst (create_threads e inst r s ls st) = ARGON2_OK"
proof (induction ls arbitrary: st)
  case Nil
  then show ?case by simp
next
  case (Cons l ls)
  then show ?case
    by (auto simp: threads_succeed_def thread_join_def Let_def split: prod.split)
qed

lemma join_threads_succeed:
  "threads_succeed e \<Longrightarrow> fst (join_threads e inst r s ls st) = ARGON2_OK"
  by (induction ls arbitrary: st) (simp_all add: threads_succeed_def thread_join_def Let_def)

lemma fill_slices_succeed:
  "threads_succeed e \<Longrightarrow> fst (fill_slices_mt e inst rs mem) = ARGON2_OK"
proof (induction rs arbitrary: mem)
  case Nil
  then show ?case by simp
next
  case (Cons x rs)
  obtain r s where x: "x = (r, s)" by (cases x)
  have "fst (fill_slice_mt e inst r s mem) = ARGON2_OK"
    using create_threads_succeed [OF Cons.prems, of inst r s "[0..<unat (inst_lanes inst)]"]
      join_threads_succeed [OF Cons.prems]
    by (simp add: fill_slice_mt_def Let_def split: prod.split) (metis fst_conv)
  then show ?case using Cons by (cases "fill_slice_mt e inst r s mem") (simp add: x)
qed

lemma fill_slices_rc:
  "fst (fill_slices_mt e inst rs mem) \<in> {ARGON2_OK, ARGON2_THREAD_FAIL}"
proof -
  have cr: "fst (create_threads e inst r s ls st) \<in> {ARGON2_OK, ARGON2_THREAD_FAIL}" for r s ls st
    by (induction ls arbitrary: st) (simp_all add: Let_def split: prod.split)
  have jn: "fst (join_threads e inst r s ls st) \<in> {ARGON2_OK, ARGON2_THREAD_FAIL}" for r s ls st
    by (induction ls arbitrary: st) (simp_all add: Let_def split: prod.split)
  have "fst (fill_slice_mt e inst r s mem) \<in> {ARGON2_OK, ARGON2_THREAD_FAIL}" for r s mem
    unfolding fill_slice_mt_def Let_def using cr jn by (auto split: prod.split) (metis fst_conv)+
  then show ?thesis
  proof (induction rs arbitrary: mem)
    case Nil
    then show ?case by simp
  next
    case (Cons x rs)
    obtain r s where x: "x = (r, s)" by (cases x)
    obtain rc mem1 where sl: "fill_slice_mt e inst r s mem = (rc, mem1)"
      by (cases "fill_slice_mt e inst r s mem")
    have "rc \<in> {ARGON2_OK, ARGON2_THREAD_FAIL}" using Cons.prems [of r s mem] by (simp add: sl)
    then show ?case using Cons.IH [OF Cons.prems, of mem1] by (auto simp: x sl)
  qed
qed

lemma fill_memory_blocks_eq:
  assumes "wf_inst inst" "inst_memory inst = Some mem" "wf_mem (cfg_of inst) mem"
    and "\<forall>r s l. wf_block (env_junk e r s l)"
    and "1 \<le> unat (inst_threads inst)" "unat (inst_threads inst) \<le> unat (inst_lanes inst)"
  shows "(fst (fill_memory_blocks e (Some inst)) = ARGON2_OK \<longrightarrow>
      snd (fill_memory_blocks e (Some inst)) = Some (inst\<lparr>inst_memory := Some (rfc_fill (cfg_of inst) mem)\<rparr>)) \<and>
    (inst_threads inst = 1 \<or> threads_succeed e \<longrightarrow> fst (fill_memory_blocks e (Some inst)) = ARGON2_OK) \<and>
    fst (fill_memory_blocks e (Some inst)) \<in> {ARGON2_OK, ARGON2_THREAD_FAIL, ARGON2_MEMORY_ALLOCATION_ERROR}"
proof -
  have lanes: "inst_lanes inst \<noteq> 0" using assms(1) by (auto simp: wf_inst_def)
  show ?thesis
  proof (cases "inst_threads inst = 1")
    case True
    then show ?thesis
      using fill_memory_blocks_st_eq [OF assms(1-4)] lanes by (simp add: fill_memory_blocks_def)
  next
    case False
    define rs where "rs = List.product [0..<unat (inst_passes inst)] [0..<4]"
    have e4: "unat ARGON2_SYNC_POINTS = 4" by simp
    obtain rc mem' where fs: "fill_slices_mt e inst rs mem = (rc, mem')"
      by (cases "fill_slices_mt e inst rs mem")
    have fm: "fill_memory_blocks e (Some inst) =
        (if \<not> env_calloc_thread e \<or> \<not> env_calloc_data e then (ARGON2_MEMORY_ALLOCATION_ERROR, Some inst)
         else (rc, Some (inst\<lparr>inst_memory := Some mem'\<rparr>)))"
      using False lanes
      unfolding fill_memory_blocks_def option.case fill_memory_blocks_mt_def e4 rs_def [symmetric] assms(2) option.sel fs
      by simp
    have rs: "\<forall>(r, s) \<in> set rs. r < 2 ^ 32 \<and> s < 4"
      using unat_lt_u32 [of "inst_passes inst"] by (auto simp: rs_def)
    have "mem' = rfc_fill (cfg_of inst) mem" if "rc = ARGON2_OK"
      using fill_slices_mt_eq [OF assms(1,4-6) rs assms(3)] fs that
      by (simp add: rs_def fold_product rfc_fill_def)
    moreover have "rc = ARGON2_OK" if "threads_succeed e"
      using fill_slices_succeed [OF that, of inst rs mem] by (simp add: fs)
    moreover have "rc \<in> {ARGON2_OK, ARGON2_THREAD_FAIL}"
      using fill_slices_rc [of e inst rs mem] by (simp add: fs)
    ultimately show ?thesis using False by (auto simp: fm threads_succeed_def)
  qed
qed

section \<open>Filling that is given up\<close>
















section \<open>Property\<close>

text \<open>C2: filling the matrix by several threads gives the matrix of RFC 9106, the one that a single
  thread computes, whatever the order in which the running threads advance, whatever the limit on
  their number and whatever their uninitialised locals hold, whenever the function reports success;
  and it reports success when no call to the thread library or to \<^verbatim>\<open>calloc\<close> fails. Otherwise it
  returns one of two error codes.\<close>

theorem fill_memory_blocks_rfc9106:
  assumes "wf_inst inst" "inst_memory inst = Some mem" "wf_mem (cfg_of inst) mem"
    and "\<forall>r s l. length (env_junk e r s l) = 128"
    and "1 \<le> unat (inst_threads inst)" "unat (inst_threads inst) \<le> unat (inst_lanes inst)"
  shows "(fst (fill_memory_blocks e (Some inst)) = ARGON2_OK \<longrightarrow>
      snd (fill_memory_blocks e (Some inst)) = Some (inst\<lparr>inst_memory := Some (rfc_fill (cfg_of inst) mem)\<rparr>)) \<and>
    (inst_threads inst = 1 \<or> threads_succeed e \<longrightarrow> fst (fill_memory_blocks e (Some inst)) = ARGON2_OK) \<and>
    fst (fill_memory_blocks e (Some inst)) \<in> {ARGON2_OK, ARGON2_THREAD_FAIL, ARGON2_MEMORY_ALLOCATION_ERROR}"
  using fill_memory_blocks_eq [OF assms] .

theorem fill_memory_blocks_rfc9106_witness:
  "fill_memory_blocks quiet_env
      (Some (tiny_inst\<lparr>inst_threads := 2, inst_memory := Some (replicate 16 (replicate 128 1))\<rparr>)) =
    (ARGON2_OK, Some (tiny_inst\<lparr>inst_threads := 2,
      inst_memory := Some (rfc_fill (cfg_of tiny_inst) (replicate 16 (replicate 128 1)))\<rparr>))"
proof -
  define i where "i = tiny_inst\<lparr>inst_threads := 2, inst_memory := Some (replicate 16 (replicate 128 1))\<rparr>"
  have i: "wf_inst i" "cfg_of i = cfg_of tiny_inst" "inst_memory i = Some (replicate 16 (replicate 128 1))"
    "wf_mem (cfg_of i) (replicate 16 (replicate 128 1))" "inst_threads i = 2" "inst_lanes i = 2"
    by (simp_all add: i_def tiny_inst_def wf_inst_def cfg_of_def wf_mem_def rfc_blocks_def rfc_lane_len_def)
  have "threads_succeed quiet_env" "\<forall>r s l. length (env_junk quiet_env r s l) = 128"
    by (simp_all add: threads_succeed_def quiet_env_def)
  then have "fst (fill_memory_blocks quiet_env (Some i)) = ARGON2_OK"
    "snd (fill_memory_blocks quiet_env (Some i)) =
      Some (i\<lparr>inst_memory := Some (rfc_fill (cfg_of i) (replicate 16 (replicate 128 1)))\<rparr>)"
    using fill_memory_blocks_rfc9106 [OF i(1,3,4), of quiet_env] by (simp_all add: i(5,6))
  then have "fill_memory_blocks quiet_env (Some i) =
      (ARGON2_OK, Some (i\<lparr>inst_memory := Some (rfc_fill (cfg_of i) (replicate 16 (replicate 128 1)))\<rparr>))"
    by (metis prod.collapse)
  then show ?thesis unfolding i(2) by (simp add: i_def)
qed



end
