(* ===== verification/Argon2_Ctx.thy ===== *)
theory Argon2_Ctx
  imports Threads_Props
begin

text \<open>
  \<^verbatim>\<open>argon2_ctx\<close> of \<^verbatim>\<open>src/argon2.c\<close>, the function that all hashing goes through, its verification variant
  and the constant-time comparison, with the theorem that the tag is the one of RFC 9106. The
  model returns, with the error code and the context, the local \<^verbatim>\<open>instance\<close> at the return and
  the call that released the matrix, if there was one.
\<close>

section \<open>The functions\<close>

text \<open>The memory layout, from the declaration of \<^verbatim>\<open>instance\<close> to the limit on its threads. The field
  \<^verbatim>\<open>print_internals\<close> stays uninitialised and is read nowhere.\<close>

definition instance_of :: "argon2_context \<Rightarrow> argon2_type \<Rightarrow> argon2_instance_t" where
  "instance_of context type =
     (let memory_blocks = ctx_m_cost context;
          memory_blocks = (if memory_blocks < 2 * ARGON2_SYNC_POINTS * ctx_lanes context
                           then 2 * ARGON2_SYNC_POINTS * ctx_lanes context else memory_blocks);
          segment_length = memory_blocks div (ctx_lanes context * ARGON2_SYNC_POINTS);
          memory_blocks = segment_length * (ctx_lanes context * ARGON2_SYNC_POINTS);
          inst = \<lparr>inst_memory = None, inst_version = ctx_version context, inst_passes = ctx_t_cost context,
            inst_memory_blocks = memory_blocks, inst_segment_length = segment_length,
            inst_lane_length = segment_length * ARGON2_SYNC_POINTS, inst_lanes = ctx_lanes context,
            inst_threads = ctx_threads context, inst_type = type, inst_print_internals = 0\<rparr>
      in if inst_threads inst > inst_lanes inst then inst\<lparr>inst_threads := inst_lanes inst\<rparr> else inst)"

definition argon2_ctx ::
  "env \<Rightarrow> argon2_context option \<Rightarrow> argon2_type \<Rightarrow>
    argon2_error_codes \<times> argon2_context option \<times> argon2_instance_t option \<times> release option" where
  "argon2_ctx e context type =
     (let result = validate_inputs context in
      if ARGON2_OK \<noteq> result then (result, context, None, None)
      else if Argon2_d \<noteq> type \<and> Argon2_i \<noteq> type \<and> Argon2_id \<noteq> type
      then (ARGON2_INCORRECT_TYPE, context, None, None)
      else let (result, inst, context, blockhash) =
                 initialize e (Some (instance_of (the context) type)) context in
      if ARGON2_OK \<noteq> result then (result, context, inst, None)
      else let (result, inst) = fill_memory_blocks e inst in
      if ARGON2_OK \<noteq> result then (result, context, inst, None)
      else let (context, rel) = finalize e context inst
           in (ARGON2_OK, context, inst, rel))"

text \<open>\<^verbatim>\<open>d\<close> is promoted to \<^verbatim>\<open>int\<close> before the subtraction.\<close>

definition argon2_compare :: "u8 list \<Rightarrow> u8 list \<Rightarrow> nat \<Rightarrow> int" where
  "argon2_compare b1 b2 len =
     (let d = fold (\<lambda>i d. d OR (b1 ! i XOR b2 ! i)) [0..<len] 0
      in (1 AND drop_bit 8 (uint d - 1)) - 1)"

definition argon2_verify_ctx ::
  "env \<Rightarrow> argon2_context option \<Rightarrow> u8 list \<Rightarrow> argon2_type \<Rightarrow>
    argon2_error_codes \<times> argon2_context option" where
  "argon2_verify_ctx e context hash type =
     (let (ret, context, inst, rel) = argon2_ctx e context type in
      if ret \<noteq> ARGON2_OK then (ret, context)
      else if argon2_compare hash (the (ctx_out (the context))) (unat (ctx_outlen (the context))) \<noteq> 0
      then (ARGON2_VERIFY_MISMATCH, context)
      else (ARGON2_OK, context))"

definition argon2d_ctx :: "env \<Rightarrow> argon2_context option \<Rightarrow> argon2_error_codes \<times> argon2_context option" where
  "argon2d_ctx e context = (let (r, c, _) = argon2_ctx e context Argon2_d in (r, c))"

definition argon2i_ctx :: "env \<Rightarrow> argon2_context option \<Rightarrow> argon2_error_codes \<times> argon2_context option" where
  "argon2i_ctx e context = (let (r, c, _) = argon2_ctx e context Argon2_i in (r, c))"

definition argon2id_ctx :: "env \<Rightarrow> argon2_context option \<Rightarrow> argon2_error_codes \<times> argon2_context option" where
  "argon2id_ctx e context = (let (r, c, _) = argon2_ctx e context Argon2_id in (r, c))"

definition argon2d_verify_ctx :: "env \<Rightarrow> argon2_context option \<Rightarrow> u8 list \<Rightarrow> argon2_error_codes \<times> argon2_context option" where
  "argon2d_verify_ctx e context hash = argon2_verify_ctx e context hash Argon2_d"

definition argon2i_verify_ctx :: "env \<Rightarrow> argon2_context option \<Rightarrow> u8 list \<Rightarrow> argon2_error_codes \<times> argon2_context option" where
  "argon2i_verify_ctx e context hash = argon2_verify_ctx e context hash Argon2_i"

definition argon2id_verify_ctx :: "env \<Rightarrow> argon2_context option \<Rightarrow> u8 list \<Rightarrow> argon2_error_codes \<times> argon2_context option" where
  "argon2id_verify_ctx e context hash = argon2_verify_ctx e context hash Argon2_id"

section \<open>The layout and the tag\<close>

lemma instance_of_eq:
  assumes "valid_params c"
  defines "p \<equiv> unat (ctx_lanes c)" and "seg \<equiv> unat (ctx_m_cost c) div (4 * unat (ctx_lanes c))"
  shows "wf_inst (instance_of c y)"
    and "cfg_of (instance_of c y) =
      \<lparr>cf_p = p, cf_seg = seg, cf_t = unat (ctx_t_cost c), cf_y = y, cf_v = unat (ctx_version c)\<rparr>"
    and "inst_memory (instance_of c y) = None" "inst_type (instance_of c y) = y"
    and "unat (inst_memory_blocks (instance_of c y)) = 4 * p * seg"
    and "unat (inst_threads (instance_of c y)) = min (unat (ctx_threads c)) p"
proof -
  have v: "8 * p \<le> unat (ctx_m_cost c)" "1 \<le> p" "p < 2 ^ 24" "1 \<le> unat (ctx_threads c)"
    using assms(1) by (simp_all add: valid_params_def p_def)
  have m: "unat (ctx_m_cost c) < 2 ^ 32" by (rule unat_lt_u32)
  have sp: "unat ARGON2_SYNC_POINTS = 4" "2 * ARGON2_SYNC_POINTS = (8 :: u32)" by (simp_all add: ARGON2_SYNC_POINTS_def)
  have p8: "unat (8 * ctx_lanes c) = 8 * p" and p4: "unat (ctx_lanes c * ARGON2_SYNC_POINTS) = p * 4"
    and p4': "unat (ctx_lanes c * 4) = p * 4"
    using v(3) by (simp_all add: unat_mult_small p_def ARGON2_SYNC_POINTS_def)
  have nlt: "(ctx_m_cost c < 2 * ARGON2_SYNC_POINTS * ctx_lanes c) = False"
    using v(1) p8 by (simp add: sp word_less_nat_alt)
  have seg2: "2 \<le> seg" using v(1,2) by (simp add: seg_def p_def less_eq_div_iff_mult_less_eq)
  have segm: "seg * (p * 4) \<le> unat (ctx_m_cost c)"
    unfolding seg_def p_def by (metis mult.commute times_div_less_eq_dividend)
  define sl where "sl = ctx_m_cost c div (ctx_lanes c * ARGON2_SYNC_POINTS)"
  have usl: "unat sl = seg" unfolding sl_def unat_div p4 seg_def p_def by (simp only: mult.commute)
  have lt: "seg * (p * 4) < 2 ^ 32" using segm m by (rule le_less_trans)
  moreover have "seg * 4 \<le> seg * (p * 4)" using v(2) by simp
  ultimately have lt': "seg * 4 < 2 ^ 32" by (rule le_less_trans [rotated])
  have mb: "unat (sl * (ctx_lanes c * ARGON2_SYNC_POINTS)) = seg * (p * 4)"
    using unat_mult_small [of sl "ctx_lanes c * ARGON2_SYNC_POINTS"] lt unfolding usl p4 by simp
  have ll: "unat (sl * ARGON2_SYNC_POINTS) = seg * 4"
    using unat_mult_small [of sl ARGON2_SYNC_POINTS] lt' unfolding usl sp by simp
  have fields: "inst_memory (instance_of c y) = None" "inst_type (instance_of c y) = y"
    "inst_lanes (instance_of c y) = ctx_lanes c" "inst_segment_length (instance_of c y) = sl"
    "inst_passes (instance_of c y) = ctx_t_cost c" "inst_version (instance_of c y) = ctx_version c"
    "inst_memory_blocks (instance_of c y) = sl * (ctx_lanes c * ARGON2_SYNC_POINTS)"
    "inst_lane_length (instance_of c y) = sl * ARGON2_SYNC_POINTS"
    "inst_threads (instance_of c y) = (if ctx_threads c > ctx_lanes c then ctx_lanes c else ctx_threads c)"
    unfolding instance_of_def Let_def nlt if_False by (simp_all add: sl_def)
  show "wf_inst (instance_of c y)"
    using seg2 v(2) unfolding wf_inst_def fields usl mb ll p_def by (simp add: mult.commute)
  show "cfg_of (instance_of c y) =
      \<lparr>cf_p = p, cf_seg = seg, cf_t = unat (ctx_t_cost c), cf_y = y, cf_v = unat (ctx_version c)\<rparr>"
    by (simp add: cfg_of_def fields usl p_def)
  show "inst_memory (instance_of c y) = None" "inst_type (instance_of c y) = y" by (rule fields)+
  show "unat (inst_memory_blocks (instance_of c y)) = 4 * p * seg" unfolding fields mb by (simp add: mult.commute)
  show "unat (inst_threads (instance_of c y)) = min (unat (ctx_threads c)) p"
    by (simp add: fields p_def word_less_nat_alt min_def)
qed


definition ctx_tag :: "argon2_context \<Rightarrow> argon2_type \<Rightarrow> u8 list" where
  "ctx_tag c y =
     rfc_argon2 y (unat (ctx_version c)) (unat (ctx_lanes c)) (unat (ctx_outlen c)) (unat (ctx_m_cost c))
       (unat (ctx_t_cost c)) (read_buf (ctx_pwd c) (unat (ctx_pwdlen c)))
       (read_buf (ctx_salt c) (unat (ctx_saltlen c))) (read_buf (ctx_secret c) (unat (ctx_secretlen c)))
       (read_buf (ctx_ad c) (unat (ctx_adlen c)))"

lemma ctx_tag_filled:
  assumes "valid_params c" "length B = rfc_blocks (cfg_of (instance_of c y))"
  shows "rfc_tag (cfg_of (instance_of c y)) (unat (ctx_outlen c))
      (rfc_fill (cfg_of (instance_of c y)) (rfc_first_blocks (cfg_of (instance_of c y)) (ctx_H0 c y) B)) =
    ctx_tag c y"
proof -
  have t: "1 \<le> cf_t (cfg_of (instance_of c y))"
    using assms(1) unfolding instance_of_eq [OF assms(1)] by (simp add: valid_params_def)
  have "rfc_fill (cfg_of (instance_of c y)) (rfc_first_blocks (cfg_of (instance_of c y)) (ctx_H0 c y) B) =
      rfc_fill (cfg_of (instance_of c y)) (rfc_first_blocks (cfg_of (instance_of c y)) (ctx_H0 c y)
        (replicate (rfc_blocks (cfg_of (instance_of c y))) (replicate 128 0)))"
    by (rule rfc_first_blocks_garbage [OF cfg_of_wf(1) [OF instance_of_eq(1) [OF assms(1)]] t assms(2)]) simp
  then show ?thesis
    unfolding ctx_tag_def rfc_argon2_def Let_def instance_of_eq(2) [OF assms(1)] ctx_H0_def
    by (simp only:)
qed

text \<open>What the inputs of a call of \<^verbatim>\<open>argon2_ctx\<close> are, and what its environment gives.\<close>

definition ctx_inputs :: "argon2_context \<Rightarrow> bool" where
  "ctx_inputs c \<longleftrightarrow> ctx_readable c \<and> readable (ctx_out c) (unat (ctx_outlen c))"

definition env_ok :: "env \<Rightarrow> bool" where
  "env_ok e \<longleftrightarrow> (\<forall>site. alloc_ok (env_malloc e site)) \<and> (\<forall>r s l. length (env_junk e r s l) = 128)"

definition supported :: "argon2_type \<Rightarrow> bool" where
  "supported y \<longleftrightarrow> y = Argon2_d \<or> y = Argon2_i \<or> y = Argon2_id"

definition matrix_bytes :: "argon2_context \<Rightarrow> nat" where
  "matrix_bytes c = 4 * unat (ctx_lanes c) * (unat (ctx_m_cost c) div (4 * unat (ctx_lanes c))) * 1024"

lemma fill_memory_blocks_memory:
  assumes "inst_memory inst = Some mem"
  shows "\<exists>rc i. fill_memory_blocks e (Some inst) = (rc, Some i) \<and> (rc \<noteq> ARGON2_OK \<longrightarrow> inst_memory i \<noteq> None)"
  using assms
  by (simp add: fill_memory_blocks_def fill_memory_blocks_mt_def fill_memory_blocks_st_def split: prod.split)

lemma argon2_ctx_eq:
  assumes "valid_params c" "ctx_inputs c" "supported y" "env_ok e" "alloc_ok (call_alloc e c)"
  shows "case call_alloc e c (matrix_bytes c) of
    None \<Rightarrow> \<exists>inst. argon2_ctx e (Some c) y = (ARGON2_MEMORY_ALLOCATION_ERROR, Some c, Some inst, None)
  | Some _ \<Rightarrow> \<exists>rc c' inst rel. argon2_ctx e (Some c) y = (rc, Some c', Some inst, rel) \<and>
      (rc = ARGON2_OK \<longrightarrow>
        c' = (wipe_secret (wipe_password c))\<lparr>ctx_out :=
          Some (ctx_tag c y @ drop (unat (ctx_outlen c)) (the (ctx_out c)))\<rparr> \<and>
        (\<exists>r. rel = Some r \<and> (env_flag e \<noteq> 0 \<longrightarrow> released r = Some (replicate (matrix_bytes c) 0)))) \<and>
      (rc \<noteq> ARGON2_OK \<longrightarrow> c' = wipe_secret (wipe_password c) \<and> rel = None \<and> inst_memory inst \<noteq> None) \<and>
      (min (unat (ctx_threads c)) (unat (ctx_lanes c)) = 1 \<or> threads_succeed e \<longrightarrow> rc = ARGON2_OK) \<and>
      rc \<in> {ARGON2_OK, ARGON2_THREAD_FAIL, ARGON2_MEMORY_ALLOCATION_ERROR}"
proof -
  define i where "i = instance_of c y"
  define mb where "mb = unat (inst_memory_blocks i) * 1024"
  have i: "wf_inst i" "inst_memory i = None" "inst_type i = y"
    and thr: "unat (inst_threads i) = min (unat (ctx_threads c)) (unat (ctx_lanes c))"
    and lanes: "unat (inst_lanes i) = unat (ctx_lanes c)"
    and mb: "mb = matrix_bytes c"
    using instance_of_eq [OF assms(1), of y] by (simp_all add: i_def mb_def matrix_bytes_def cfg_of_def)
  have v: "validate_inputs (Some c) = ARGON2_OK" using assms(1) by (simp add: validate_inputs_ok)
  have y: "(Argon2_d \<noteq> y \<and> Argon2_i \<noteq> y \<and> Argon2_id \<noteq> y) = False" using assms(3) by (auto simp: supported_def)
  have ok: "(ARGON2_OK \<noteq> ARGON2_OK) = False" by simp
  have rd: "ctx_readable c" using assms(2) by (simp add: ctx_inputs_def)
  note init = initialize_eq [OF i(1) rd assms(1) assms(5), folded mb_def, unfolded mb i(3)]
  note unf = argon2_ctx_def Let_def v y ok if_False option.sel i_def [symmetric]
  show ?thesis
  proof (cases "call_alloc e c (matrix_bytes c)")
    case None
    then obtain bh where "initialize e (Some i) (Some c) =
        (ARGON2_MEMORY_ALLOCATION_ERROR, Some (i\<lparr>inst_memory := None\<rparr>), Some c, bh)"
      using init by auto
    then show ?thesis using None by (simp add: unf)
  next
    case (Some b)
    define cf where "cf = cfg_of i"
    define m1 where "m1 = rfc_first_blocks cf (ctx_H0 c y) (blocks_of_bytes b)"
    define c1 where "c1 = wipe_secret (wipe_password c)"
    define i1 where "i1 = i\<lparr>inst_memory := Some m1\<rparr>"
    obtain bh where ini: "initialize e (Some i) (Some c) = (ARGON2_OK, Some i1, Some c1, bh)"
      using init Some by (auto simp: m1_def c1_def cf_def i1_def)
    have lb: "length b = 1024 * rfc_blocks cf"
      using assms(5) Some by (simp add: alloc_ok_def mb [symmetric] mb_def cf_def cfg_of_wf(3) [OF i(1)])
    have wm: "wf_mem cf m1" unfolding m1_def by (intro wf_first_blocks wf_blocks_of_bytes lb)
    have thr1: "1 \<le> unat (inst_threads i1)" "unat (inst_threads i1) \<le> unat (inst_lanes i1)"
      using assms(1) by (simp_all add: i1_def thr lanes valid_params_def)
    obtain rc i2 where fill: "fill_memory_blocks e (Some i1) = (rc, Some i2)"
      and mem2: "rc \<noteq> ARGON2_OK \<longrightarrow> inst_memory i2 \<noteq> None"
      using fill_memory_blocks_memory [of i1 m1 e] by (auto simp: i1_def)
    have F: "(rc = ARGON2_OK \<longrightarrow> i2 = i\<lparr>inst_memory := Some (rfc_fill cf m1)\<rparr>) \<and>
        (min (unat (ctx_threads c)) (unat (ctx_lanes c)) = 1 \<or> threads_succeed e \<longrightarrow> rc = ARGON2_OK) \<and>
        rc \<in> {ARGON2_OK, ARGON2_THREAD_FAIL, ARGON2_MEMORY_ALLOCATION_ERROR}"
    proof -
      have one: "(inst_threads i1 = 1) = (min (unat (ctx_threads c)) (unat (ctx_lanes c)) = 1)"
        unfolding thr [symmetric] by (simp add: i1_def word_unat_eq_iff)
      show ?thesis
        using fill_memory_blocks_eq [of i1 m1 e] wm i(1) thr1 assms(4) fill
        by (simp add: i1_def cf_def env_ok_def one [unfolded i1_def, simplified])
    qed
    show ?thesis
    proof (cases "rc = ARGON2_OK")
      case False
      then have "argon2_ctx e (Some c) y = (rc, Some c1, Some i2, None)"
        by (simp add: unf ini fill)
      then show ?thesis using Some F mem2 False by (simp add: c1_def)
    next
      case True
      define c2 where "c2 = c1\<lparr>ctx_out := Some (ctx_tag c y @ drop (unat (ctx_outlen c)) (the (ctx_out c)))\<rparr>"
      obtain out where out: "ctx_out c = Some out" "unat (ctx_outlen c) \<le> length out" "4 \<le> unat (ctx_outlen c)"
        using assms(1,2) by (auto simp: valid_params_def ctx_inputs_def)
      have wm2: "wf_mem cf (rfc_fill cf m1)" using cfg_of_wf(1) [OF i(1)] wm by (simp add: cf_def wf_mem_fill)
      have lbb: "length (blocks_of_bytes b) = rfc_blocks cf"
        using wf_blocks_of_bytes [OF lb] by (simp add: wf_mem_def)
      have tag: "rfc_tag cf (unat (ctx_outlen c)) (rfc_fill cf m1) = ctx_tag c y"
        using ctx_tag_filled [OF assms(1), of "blocks_of_bytes b" y] lbb by (simp add: m1_def cf_def i_def)
      have i2: "i2 = i\<lparr>inst_memory := Some (rfc_fill cf m1)\<rparr>" using F True by blast
      obtain rel where fin: "finalize e (Some c1) (Some i2) = (Some c2, Some rel)"
        and wiped: "env_flag e \<noteq> 0 \<longrightarrow> released rel = Some (replicate (matrix_bytes c) 0)"
        using finalize_eq [of i2 "rfc_fill cf m1" c1 out e] i(1) wm2 out tag
        by (auto simp: i2 cf_def c1_def c2_def mb [symmetric] mb_def mult.commute)
      have "argon2_ctx e (Some c) y = (ARGON2_OK, Some c2, Some i2, Some rel)"
        by (simp add: unf ini fill fin True)
      then show ?thesis using Some F wiped True by (simp add: c1_def c2_def)
    qed
  qed
qed


section \<open>Comparison and verification\<close>

lemma fold_or_zero:
  "(fold (\<lambda>i d. d OR (b1 ! i XOR b2 ! i)) xs (d :: u8) = 0) \<longleftrightarrow> d = 0 \<and> (\<forall>i \<in> set xs. b1 ! i = b2 ! i)"
  by (induction xs arbitrary: d) (auto simp: or_eq_0_iff xor_zero_iff)

lemma argon2_compare_eq:
  assumes "len \<le> length b1" "len \<le> length b2"
  shows "argon2_compare b1 b2 len = (if take len b1 = take len b2 then 0 else - 1)"
proof -
  define d where "d = fold (\<lambda>i d. d OR (b1 ! i XOR b2 ! i)) [0..<len] (0 :: u8)"
  have "d = 0 \<longleftrightarrow> take len b1 = take len b2"
    using assms by (auto simp: d_def fold_or_zero list_eq_iff_nth_eq)
  moreover have "drop_bit 8 (uint d - 1) = (if d = 0 then - 1 else 0)"
  proof (cases "d = 0")
    case False
    then have "0 < unat d" by (metis gr0I unsigned_0 word_unat_eq_iff)
    moreover have "unat d < 256" by (rule order_less_le_trans [OF unsigned_less]) simp
    ultimately have "0 < uint d" "uint d < 256" by (simp_all only: uint_nat)
    then show ?thesis using False by (simp add: drop_bit_eq_div)
  qed (simp add: drop_bit_eq_div)
  ultimately show ?thesis by (simp add: argon2_compare_def d_def)
qed


lemma argon2_verify_ctx_eq:
  assumes "valid_params c" "ctx_inputs c" "supported y" "env_ok e" "alloc_ok (call_alloc e c)"
    and "unat (ctx_outlen c) \<le> length hash"
  shows "fst (argon2_verify_ctx e (Some c) hash y) =
    (if fst (argon2_ctx e (Some c) y) \<noteq> ARGON2_OK then fst (argon2_ctx e (Some c) y)
     else if take (unat (ctx_outlen c)) hash = ctx_tag c y then ARGON2_OK else ARGON2_VERIFY_MISMATCH)"
proof (cases "call_alloc e c (matrix_bytes c)")
  case None
  then show ?thesis using argon2_ctx_eq [OF assms(1-5)] by (auto simp: argon2_verify_ctx_def)
next
  case (Some b)
  define T where "T = unat (ctx_outlen c)"
  have lt: "length (ctx_tag c y) = T"
    using assms(1) by (simp add: ctx_tag_def rfc_argon2_def rfc_tag_def Let_def T_def valid_params_def)
  obtain rc c' inst rel where r: "argon2_ctx e (Some c) y = (rc, Some c', Some inst, rel)"
    and c': "rc = ARGON2_OK \<longrightarrow> c' = (wipe_secret (wipe_password c))\<lparr>ctx_out :=
          Some (ctx_tag c y @ drop T (the (ctx_out c)))\<rparr>"
    using argon2_ctx_eq [OF assms(1-5)] Some by (auto simp: T_def)
  show ?thesis
  proof (cases "rc = ARGON2_OK")
    case True
    have "argon2_compare hash (ctx_tag c y @ drop T (the (ctx_out c))) T =
        (if take T hash = ctx_tag c y then 0 else - 1)"
      using assms(6) lt by (subst argon2_compare_eq) (simp_all add: T_def)
    then show ?thesis using r c' True by (simp add: argon2_verify_ctx_def T_def)
  qed (use r in \<open>simp add: argon2_verify_ctx_def\<close>)
qed

section \<open>Properties\<close>

text \<open>C1: when \<^verbatim>\<open>argon2_ctx\<close> returns \<^verbatim>\<open>ARGON2_OK\<close>, the output buffer starts with the tag of RFC 9106, password
  and secret are wiped as the flags ask and nothing else of the context changes, and the matrix has
  been given back, wiped when the global flag is set. It returns \<^verbatim>\<open>ARGON2_OK\<close> for all valid inputs
  when the matrix can be allocated and the threads, if more than one runs, can be created and
  joined. The allocators are those of C or of the caller, and the matrix they return holds anything.\<close>

theorem argon2_ctx_rfc9106:
  assumes "valid_params c" "ctx_inputs c" "supported y" "env_ok e" "alloc_ok (call_alloc e c)"
  shows "(fst (argon2_ctx e (Some c) y) = ARGON2_OK \<longrightarrow>
      (\<exists>inst r. argon2_ctx e (Some c) y =
         (ARGON2_OK, Some ((wipe_secret (wipe_password c))\<lparr>ctx_out := Some (
            rfc_argon2 y (unat (ctx_version c)) (unat (ctx_lanes c)) (unat (ctx_outlen c)) (unat (ctx_m_cost c))
              (unat (ctx_t_cost c)) (read_buf (ctx_pwd c) (unat (ctx_pwdlen c)))
              (read_buf (ctx_salt c) (unat (ctx_saltlen c))) (read_buf (ctx_secret c) (unat (ctx_secretlen c)))
              (read_buf (ctx_ad c) (unat (ctx_adlen c))) @
            drop (unat (ctx_outlen c)) (the (ctx_out c)))\<rparr>), Some inst, Some r) \<and>
         (env_flag e \<noteq> 0 \<longrightarrow> released r = Some (replicate (matrix_bytes c) 0)))) \<and>
    (call_alloc e c (matrix_bytes c) \<noteq> None \<and>
      (min (unat (ctx_threads c)) (unat (ctx_lanes c)) = 1 \<or> threads_succeed e) \<longrightarrow>
      fst (argon2_ctx e (Some c) y) = ARGON2_OK)"
  using argon2_ctx_eq [OF assms] unfolding ctx_tag_def
  by (cases "call_alloc e c (matrix_bytes c)") auto

text \<open>C37: when \<^verbatim>\<open>argon2_ctx\<close> fails after its inputs have been accepted, the error is one of two and the
  output buffer is untouched. If the allocation failed, the context is unchanged. If filling the
  matrix failed, the inputs have been wiped as the flags ask, but the matrix, which depends on the
  password, is neither wiped nor given back.\<close>

theorem argon2_ctx_failure:
  assumes "valid_params c" "ctx_inputs c" "supported y" "env_ok e" "alloc_ok (call_alloc e c)"
    and "fst (argon2_ctx e (Some c) y) \<noteq> ARGON2_OK"
  shows "if call_alloc e c (matrix_bytes c) = None
    then \<exists>inst. argon2_ctx e (Some c) y = (ARGON2_MEMORY_ALLOCATION_ERROR, Some c, Some inst, None)
    else \<exists>rc inst. argon2_ctx e (Some c) y = (rc, Some (wipe_secret (wipe_password c)), Some inst, None) \<and>
      inst_memory inst \<noteq> None \<and> rc \<in> {ARGON2_THREAD_FAIL, ARGON2_MEMORY_ALLOCATION_ERROR}"
  using argon2_ctx_eq [OF assms(1-5)] assms(6)
  by (cases "call_alloc e c (matrix_bytes c)") fastforce+

text \<open>\<^verbatim>\<open>argon2_verify_ctx\<close> returns \<^verbatim>\<open>ARGON2_OK\<close> only if the first \<^verbatim>\<open>outlen\<close> bytes of the hash are the tag of
  RFC 9106 for the context; with any other hash it returns \<^verbatim>\<open>ARGON2_VERIFY_MISMATCH\<close> or the error
  of \<^verbatim>\<open>argon2_ctx\<close>.\<close>

lemma argon2_verify_ctx_spec:
  assumes "valid_params c" "ctx_inputs c" "supported y" "env_ok e" "alloc_ok (call_alloc e c)"
    and "unat (ctx_outlen c) \<le> length hash"
  shows "fst (argon2_verify_ctx e (Some c) hash y) =
    (if fst (argon2_ctx e (Some c) y) \<noteq> ARGON2_OK then fst (argon2_ctx e (Some c) y)
     else if take (unat (ctx_outlen c)) hash =
         rfc_argon2 y (unat (ctx_version c)) (unat (ctx_lanes c)) (unat (ctx_outlen c)) (unat (ctx_m_cost c))
           (unat (ctx_t_cost c)) (read_buf (ctx_pwd c) (unat (ctx_pwdlen c)))
           (read_buf (ctx_salt c) (unat (ctx_saltlen c))) (read_buf (ctx_secret c) (unat (ctx_secretlen c)))
           (read_buf (ctx_ad c) (unat (ctx_adlen c)))
       then ARGON2_OK else ARGON2_VERIFY_MISMATCH)"
  using argon2_verify_ctx_eq [OF assms] unfolding ctx_tag_def .

section \<open>Witnesses\<close>

definition failing_env :: env where
  "failing_env = quiet_env\<lparr>env_create := (\<lambda>r s l. Pthread_create 11)\<rparr>"

lemma small_inputs [simp]: "ctx_inputs small_context" "supported Argon2_id" "env_ok quiet_env" "env_ok failing_env"
  "alloc_ok (call_alloc quiet_env small_context)" "alloc_ok (call_alloc failing_env small_context)"
  "call_alloc quiet_env small_context n = Some (replicate n 7)"
  "call_alloc failing_env small_context n = Some (replicate n 7)"
  "threads_succeed quiet_env"
  by (simp_all add: ctx_inputs_def small_context_def supported_def env_ok_def quiet_env_def failing_env_def
      alloc_ok_def call_alloc_def ctx_readable_def threads_succeed_def)

lemma replicate_2: "replicate 2 (0 :: u8) = [0, 0]"
  by (simp add: numeral_2_eq_2)

lemma small_wiped:
  "wipe_secret (wipe_password small_context) = small_context\<lparr>ctx_pwd := Some [0, 0], ctx_pwdlen := 0\<rparr>"
  by (simp add: small_context_def wipe_password_def wipe_secret_def ARGON2_FLAG_CLEAR_PASSWORD_def
      secure_wipe_memory_def memset_at_def replicate_2)

theorem argon2_ctx_rfc9106_witness:
  "\<exists>inst r. argon2_ctx quiet_env (Some small_context) Argon2_id =
    (ARGON2_OK, Some (small_context\<lparr>ctx_pwd := Some [0, 0], ctx_pwdlen := 0,
       ctx_out := Some (rfc_argon2 Argon2_id 19 2 32 16 1 [112, 119] (replicate 8 1) [] [])\<rparr>), Some inst, Some r) \<and>
    released r = Some (replicate 16384 0)"
proof -
  have fl: "env_flag quiet_env \<noteq> 0" by (simp add: quiet_env_def)
  have mb: "matrix_bytes small_context = 16384" by (simp add: matrix_bytes_def small_context_def)
  show ?thesis
    using argon2_ctx_rfc9106 [of small_context Argon2_id quiet_env] fl
    by (simp add: small_wiped mb) (simp add: small_context_def)
qed


lemma fill_memory_blocks_no_thread:
  assumes "unat (inst_threads inst) \<noteq> 1" "inst_threads inst \<noteq> 0" "inst_lanes inst \<noteq> 0" "inst_passes inst \<noteq> 0"
    and "create_result e 0 0 0 \<noteq> 0" "env_calloc_thread e" "env_calloc_data e"
  shows "fst (fill_memory_blocks e (Some inst)) = ARGON2_THREAD_FAIL"
proof -
  have one: "inst_threads inst \<noteq> 1" and l: "0 < unat (inst_lanes inst)" and p: "0 < unat (inst_passes inst)"
    and t: "\<not> unat (inst_threads inst) \<le> 0"
    using assms(1-4) by (auto simp: unat_gt_0)
  have fst0: "[0..<unat (inst_lanes inst)] = 0 # [1..<unat (inst_lanes inst)]"
    "[0..<unat (inst_passes inst)] = 0 # [1..<unat (inst_passes inst)]" "[0..<4] = [0, 1, 2, 3 :: nat]"
    using l p by (simp_all add: upt_rec)
  have cr: "fst (create_threads e inst 0 0 [0..<unat (inst_lanes inst)] st) = ARGON2_THREAD_FAIL" for st
    unfolding fst0(1) using t assms(5) by (simp split: prod.split)
  have s: "fst (fill_slice_mt e inst 0 0 mem) = ARGON2_THREAD_FAIL" for mem
    using cr [of "(replicate (unat (inst_lanes inst)) None, mem)"]
    by (auto simp: fill_slice_mt_def Let_def split: prod.split)
  have "fst (fill_slices_mt e inst ((0, 0) # rs) mem) = ARGON2_THREAD_FAIL" for rs mem
    using s [of mem] by (cases "fill_slice_mt e inst 0 0 mem") simp
  then have "fst (fill_slices_mt e inst (List.product [0..<unat (inst_passes inst)] [0..<4]) mem) = ARGON2_THREAD_FAIL" for mem
    unfolding fst0(2,3) by simp
  then show ?thesis
    using one assms(3,6,7) unfolding fill_memory_blocks_def fill_memory_blocks_mt_def
    by (auto simp: split: prod.split) (metis fst_conv)
qed


lemma argon2_ctx_no_thread:
  assumes "valid_params c" "ctx_inputs c" "supported y" "env_ok e" "alloc_ok (call_alloc e c)"
    and "call_alloc e c (matrix_bytes c) \<noteq> None" "create_result e 0 0 0 \<noteq> 0" "env_calloc_thread e" "env_calloc_data e"
    and "2 \<le> min (unat (ctx_threads c)) (unat (ctx_lanes c))"
  shows "fst (argon2_ctx e (Some c) y) = ARGON2_THREAD_FAIL"
proof -
  define i where "i = instance_of c y"
  note eq = instance_of_eq [OF assms(1), of y, folded i_def]
  have rd: "ctx_readable c" using assms(2) by (simp add: ctx_inputs_def)
  have mb: "unat (inst_memory_blocks i) * 1024 = matrix_bytes c" using eq(5) by (simp add: matrix_bytes_def)
  obtain b where b: "call_alloc e c (matrix_bytes c) = Some b" using assms(6) by blast
  obtain i1 c1 bh where ini: "initialize e (Some i) (Some c) = (ARGON2_OK, Some i1, Some c1, bh)"
    and i1: "\<exists>m. i1 = i\<lparr>inst_memory := m\<rparr>"
    using initialize_eq [OF eq(1) rd assms(1) assms(5), unfolded mb] b by auto
  have "unat (inst_threads i1) \<noteq> 1" "inst_threads i1 \<noteq> 0" "inst_lanes i1 \<noteq> 0" "inst_passes i1 \<noteq> 0"
    using i1 eq(2,6) assms(1,10) by (auto simp: cfg_of_def valid_params_def)
  then have "fst (fill_memory_blocks e (Some i1)) = ARGON2_THREAD_FAIL"
    by (rule fill_memory_blocks_no_thread [OF _ _ _ _ assms(7-9)])
  moreover have "(Argon2_d \<noteq> y \<and> Argon2_i \<noteq> y \<and> Argon2_id \<noteq> y) = False" using assms(3) by (auto simp: supported_def)
  moreover have "validate_inputs (Some c) = ARGON2_OK" using assms(1) by (simp add: validate_inputs_ok)
  ultimately show ?thesis
    using ini by (cases "fill_memory_blocks e (Some i1)") (simp add: argon2_ctx_def Let_def i_def)
qed

lemma small_no_thread: "fst (argon2_ctx failing_env (Some small_context) Argon2_id) = ARGON2_THREAD_FAIL"
proof -
  have "create_result failing_env 0 0 0 \<noteq> 0" "env_calloc_thread failing_env" "env_calloc_data failing_env"
    by (simp_all add: failing_env_def quiet_env_def)
  moreover have "2 \<le> min (unat (ctx_threads small_context)) (unat (ctx_lanes small_context))"
    by (simp add: small_context_def)
  ultimately show ?thesis using argon2_ctx_no_thread [of small_context Argon2_id failing_env] by simp
qed

theorem argon2_ctx_failure_witness:
  "\<exists>inst. argon2_ctx failing_env (Some small_context) Argon2_id =
      (ARGON2_THREAD_FAIL, Some (small_context\<lparr>ctx_pwd := Some [0, 0], ctx_pwdlen := 0\<rparr>), Some inst, None) \<and>
    inst_memory inst \<noteq> None"
  using argon2_ctx_failure [of small_context Argon2_id failing_env] small_no_thread
  by (auto simp: small_wiped)

lemma argon2_verify_ctx_spec_witness:
  "fst (argon2_verify_ctx failing_env (Some small_context) (replicate 32 0) Argon2_id) = ARGON2_THREAD_FAIL \<and>
   fst (argon2_verify_ctx quiet_env (Some small_context) (rfc_argon2 Argon2_id 19 2 32 16 1 [112, 119] (replicate 8 1) [] [])
     Argon2_id) = ARGON2_OK"
proof -
  let ?tag = "rfc_argon2 Argon2_id 19 2 32 16 1 [112, 119] (replicate 8 1) [] []"
  have lt: "length ?tag = 32" by (simp add: rfc_argon2_def rfc_tag_def Let_def)
  have "fst (argon2_ctx quiet_env (Some small_context) Argon2_id) = ARGON2_OK"
    using argon2_ctx_eq [of small_context Argon2_id quiet_env] by auto
  moreover have f: "unat (ctx_outlen small_context) = 32" "unat (ctx_version small_context) = 19"
    "unat (ctx_lanes small_context) = 2" "unat (ctx_m_cost small_context) = 16" "unat (ctx_t_cost small_context) = 1"
    "read_buf (ctx_pwd small_context) (unat (ctx_pwdlen small_context)) = [112, 119]"
    "read_buf (ctx_salt small_context) (unat (ctx_saltlen small_context)) = replicate 8 1"
    "read_buf (ctx_secret small_context) (unat (ctx_secretlen small_context)) = []"
    "read_buf (ctx_ad small_context) (unat (ctx_adlen small_context)) = []"
    by (simp_all add: small_context_def)
  ultimately show ?thesis
    using argon2_verify_ctx_spec [of small_context Argon2_id failing_env "replicate 32 0"]
      argon2_verify_ctx_spec [of small_context Argon2_id quiet_env ?tag] lt
    unfolding f by (simp add: small_no_thread)
qed

end
