(* ===== verification/Encoding_Props.thy ===== *)
theory Encoding_Props
  imports Base64 Decimal Argon2_Ctx
begin

text \<open>
  The encoded form of a hash: \<^verbatim>\<open>encode_string\<close> writes it when it fits, \<^verbatim>\<open>decode_string\<close> accepts exactly the
  encoded forms, and the two are inverse. Numbers and binary fields are two interpretations of the
  locale \<open>codec\<close>.
\<close>

section \<open>Codecs\<close>

text \<open>A printer and a parser that returns the rest of its input. \<open>legal\<close> restricts the inputs on which the
  parser is trusted, \<open>dom\<close> the values.\<close>

locale codec =
  fixes print :: "'a \<Rightarrow> u8 list"
    and parse :: "u8 list \<Rightarrow> ('a \<times> u8 list) option"
    and dom :: "'a \<Rightarrow> bool"
    and stop :: "u8 list \<Rightarrow> bool"
    and legal :: "u8 list \<Rightarrow> bool"
  assumes parse_print: "dom a \<Longrightarrow> stop r \<Longrightarrow> parse (print a @ r) = Some (a, r)"
    and parse_sound: "legal s \<Longrightarrow> parse s = Some (a, r) \<Longrightarrow> s = print a @ r \<and> dom a \<and> stop r"
begin

lemma parse_iff: "legal s \<Longrightarrow> parse s = Some (a, r) \<longleftrightarrow> s = print a @ r \<and> dom a \<and> stop r"
  using parse_print parse_sound by blast

lemma print_unique:
  "dom a \<Longrightarrow> dom b \<Longrightarrow> stop r \<Longrightarrow> stop t \<Longrightarrow> print a @ r = print b @ t \<Longrightarrow> a = b \<and> r = t"
  using parse_print by (metis Pair_inject option.inject)

lemma print_inj: "dom a \<Longrightarrow> dom b \<Longrightarrow> stop [] \<Longrightarrow> print a = print b \<Longrightarrow> a = b"
  using print_unique [of a b "[]" "[]"] by simp

end

text \<open>The two codecs of an encoded hash.\<close>

definition parse_u32 :: "u8 list \<Rightarrow> (u32 \<times> u8 list) option" where
  "parse_u32 s = (case decode_decimal s of None \<Rightarrow> None
     | Some (r, x) \<Rightarrow> if x > 0xFFFFFFFF then None else Some (ucast x, r))"

definition parse_b64 :: "nat \<Rightarrow> u8 list \<Rightarrow> (u8 list \<times> u8 list) option" where
  "parse_b64 cap s = (case from_base64 (replicate cap 0) cap s of
     (None, _, _) \<Rightarrow> None | (Some r, n, buf) \<Rightarrow> Some (take n buf, r))"

interpretation num: codec "\<lambda>x. decimal (unat x)" parse_u32 "\<lambda>_. True" dec_stop "\<lambda>_. True"
proof (unfold_locales, goal_cases)
  case (1 x r)
  have x: "unat x < 2 ^ 64" using unat_lt_u32 [of x] by simp
  have "\<not> word_of_nat (unat x) > (0xFFFFFFFF :: u64)"
    using unat_lt_u32 [of x] unat_small64 [OF x] by (simp add: word_less_nat_alt)
  moreover have "ucast (word_of_nat (unat x) :: u64) = x"
    unfolding word_unat_eq_iff unsigned_ucast_eq unat_small64 [OF x]
    using unat_lt_u32 [of x] by (simp add: take_bit_nat_eq_self)
  ultimately show ?case using decode_decimal_decimal [OF x 1(2)] by (simp add: parse_u32_def)
next
  case (2 s x r)
  then obtain v where v: "decode_decimal s = Some (r, v)" "\<not> v > 0xFFFFFFFF" "x = ucast v"
    by (auto simp: parse_u32_def split: option.splits if_splits)
  have "unat v < 2 ^ 32" using v(2) by (simp add: word_less_nat_alt)
  then have "unat x = unat v" by (simp add: v(3) unsigned_ucast_eq take_bit_nat_eq_self)
  then show ?case using decode_decimal_Some [OF v(1)] by simp
qed

interpretation bin: codec b64 "parse_b64 cap" "\<lambda>bs. length bs \<le> cap" b64_stop ascii for cap
proof (unfold_locales, goal_cases)
  case (1 bs r)
  then show ?case by (simp add: parse_b64_def from_base64_b64 poke_def memcpy_at_def)
next
  case (2 s bs r)
  then obtain n buf where "from_base64 (replicate cap 0) cap s = (Some r, n, buf)" "bs = take n buf"
    by (auto simp: parse_b64_def split: prod.splits option.splits)
  then show ?case
    using from_base64_Some [of "replicate cap 0" cap s r n buf] 2(1) by (auto simp: poke_def memcpy_at_def)
qed


lemma b64_inj [simp]: "b64 bs = b64 cs \<longleftrightarrow> bs = cs"
  using bin.print_inj [of bs "max (length bs) (length cs)" cs] by (auto simp: b64_stop_def)

section \<open>Statements of the decoder\<close>

lemma run_body_simps [simp]:
  "run_body [] s = Inr s"
  "run_body (f # fs) s = (case f s of Inl e \<Rightarrow> Inl e | Inr t \<Rightarrow> run_body fs t)"
proof -
  have "fold and_then fs (Inl e) = Inl e" for e by (induction fs) simp_all
  then show "run_body (f # fs) s = (case f s of Inl e \<Rightarrow> Inl e | Inr t \<Rightarrow> run_body fs t)"
    by (simp add: run_body_def split: sum.split)
qed (simp add: run_body_def)

lemma run_body_Inr:
  "run_body (f # fs) s = Inr t \<longleftrightarrow> (\<exists>u. f s = Inr u \<and> run_body fs u = Inr t)"
  by (simp split: sum.split)

lemma CC_Inr: "CC p (c, s) = Inr (c', s') \<longleftrightarrow> c' = c \<and> s = p @ s'"
  by (auto simp: CC_def Let_def) (metis append_take_drop_id)

lemma assign_Inr: "assign f (c, s) = Inr (c', s') \<longleftrightarrow> c' = f c \<and> s' = s"
  by (auto simp: assign_def)

lemma DECIMAL_U32_parse:
  "DECIMAL_U32 f (c, s) = (case parse_u32 s of None \<Rightarrow> Inl (ARGON2_DECODING_FAIL, c) | Some (x, r) \<Rightarrow> Inr (f x c, r))"
  by (simp add: DECIMAL_U32_def parse_u32_def split: option.split)

lemma DECIMAL_U32_Inr:
  "DECIMAL_U32 f (c, s) = Inr (c', s') \<longleftrightarrow> (\<exists>x. c' = f x c \<and> s = decimal (unat x) @ s' \<and> dec_stop s')"
proof -
  have "DECIMAL_U32 f (c, s) = Inr (c', s') \<longleftrightarrow> (\<exists>x. parse_u32 s = Some (x, s') \<and> c' = f x c)"
    unfolding DECIMAL_U32_parse by (auto split: option.splits prod.splits)
  then show ?thesis unfolding num.parse_iff [OF TrueI] by auto
qed

lemma CC_opt_Inr:
  "CC_opt p code (c, s) = Inr (c', s') \<longleftrightarrow>
    (\<exists>r. s = p @ r \<and> code (c, r) = Inr (c', s')) \<or> take (length p) s \<noteq> p \<and> c' = c \<and> s' = s"
  by (auto simp: CC_opt_def Let_def) (metis append_take_drop_id)

lemma from_base64_iff:
  assumes "ascii s" "cap \<le> length buf"
  shows "from_base64 buf cap s = (Some s', n, b) \<longleftrightarrow>
    (\<exists>bs. s = b64 bs @ s' \<and> b64_stop s' \<and> length bs \<le> cap \<and> n = length bs \<and> b = poke buf 0 bs)"
  using from_base64_Some [OF _ assms] from_base64_b64 [OF _ _ assms(2)] by blast

lemma BIN_Inr:
  assumes "ascii s" "cap \<le> length buf"
  shows "ctx_salt c = Some buf \<Longrightarrow> BIN_salt cap (c, s) = Inr (c', s') \<longleftrightarrow>
      (\<exists>bs. s = b64 bs @ s' \<and> b64_stop s' \<and> length bs \<le> cap \<and> length bs < 2 ^ 32 \<and>
        c' = c\<lparr>ctx_salt := Some (poke buf 0 bs), ctx_saltlen := word_of_nat (length bs)\<rparr>)"
    and "ctx_out c = Some buf \<Longrightarrow> BIN_out cap (c, s) = Inr (c', s') \<longleftrightarrow>
      (\<exists>bs. s = b64 bs @ s' \<and> b64_stop s' \<and> length bs \<le> cap \<and> length bs < 2 ^ 32 \<and>
        c' = c\<lparr>ctx_out := Some (poke buf 0 bs), ctx_outlen := word_of_nat (length bs)\<rparr>)"
proof -
  have salt: "BIN_salt cap (c, s) = Inr (c', s') \<longleftrightarrow> (\<exists>n b. from_base64 buf cap s = (Some s', n, b) \<and> n < 2 ^ 32 \<and>
      c' = c\<lparr>ctx_salt := Some b, ctx_saltlen := word_of_nat n\<rparr>)" if "ctx_salt c = Some buf"
    by (cases "from_base64 buf cap s") (auto simp: BIN_salt_def Let_def that split: option.splits)
  show "BIN_salt cap (c, s) = Inr (c', s') \<longleftrightarrow>
      (\<exists>bs. s = b64 bs @ s' \<and> b64_stop s' \<and> length bs \<le> cap \<and> length bs < 2 ^ 32 \<and>
        c' = c\<lparr>ctx_salt := Some (poke buf 0 bs), ctx_saltlen := word_of_nat (length bs)\<rparr>)" if "ctx_salt c = Some buf"
    unfolding salt [OF that] from_base64_iff [OF assms] by blast
  have out: "BIN_out cap (c, s) = Inr (c', s') \<longleftrightarrow> (\<exists>n b. from_base64 buf cap s = (Some s', n, b) \<and> n < 2 ^ 32 \<and>
      c' = c\<lparr>ctx_out := Some b, ctx_outlen := word_of_nat n\<rparr>)" if "ctx_out c = Some buf"
    by (cases "from_base64 buf cap s") (auto simp: BIN_out_def Let_def that split: option.splits)
  show "BIN_out cap (c, s) = Inr (c', s') \<longleftrightarrow>
      (\<exists>bs. s = b64 bs @ s' \<and> b64_stop s' \<and> length bs \<le> cap \<and> length bs < 2 ^ 32 \<and>
        c' = c\<lparr>ctx_out := Some (poke buf 0 bs), ctx_outlen := word_of_nat (length bs)\<rparr>)" if "ctx_out c = Some buf"
    unfolding out [OF that] from_base64_iff [OF assms] by blast
qed

section \<open>The encoded form\<close>

text \<open>\<^verbatim>\<open>$argon2<T>[$v=<num>]$m=<num>,t=<num>,p=<num>$<bin>$<bin>\<close>\<close>

definition phc_params :: "u32 option \<Rightarrow> u32 \<Rightarrow> u32 \<Rightarrow> u32 \<Rightarrow> u8 list" where
  "phc_params v m t p =
     (case v of None \<Rightarrow> [] | Some v \<Rightarrow> chars ''$v='' @ decimal (unat v)) @
     chars ''$m='' @ decimal (unat m) @ chars '',t='' @ decimal (unat t) @ chars '',p='' @ decimal (unat p) @
     chars ''$''"

definition phc :: "argon2_type \<Rightarrow> u32 option \<Rightarrow> u32 \<Rightarrow> u32 \<Rightarrow> u32 \<Rightarrow> u8 list \<Rightarrow> u8 list \<Rightarrow> u8 list" where
  "phc y v m t p S T =
     chars ''$'' @ chars (the (argon2_type2string y 0)) @ phc_params v m t p @ b64 S @ chars ''$'' @ b64 T"

text \<open>The context that \<^verbatim>\<open>decode_string\<close> builds.\<close>

definition with_params :: "u32 \<Rightarrow> u32 \<Rightarrow> u32 \<Rightarrow> u32 \<Rightarrow> argon2_context \<Rightarrow> argon2_context" where
  "with_params v m t p c =
     c\<lparr>ctx_version := v, ctx_m_cost := m, ctx_t_cost := t, ctx_lanes := p, ctx_threads := p\<rparr>"

definition with_bytes :: "u8 list \<Rightarrow> u8 list \<Rightarrow> argon2_context \<Rightarrow> argon2_context" where
  "with_bytes S T c =
     c\<lparr>ctx_salt := Some (poke (the (ctx_salt c)) 0 S), ctx_saltlen := word_of_nat (length S),
       ctx_out := Some (poke (the (ctx_out c)) 0 T), ctx_outlen := word_of_nat (length T),
       ctx_secret := None, ctx_secretlen := 0, ctx_ad := None, ctx_adlen := 0,
       ctx_allocate_cbk := None, ctx_free_cbk := None, ctx_flags := ARGON2_DEFAULT_FLAGS\<rparr>"

definition params_body :: "string \<Rightarrow> (dec_state \<Rightarrow> dec_result) list" where
  "params_body name =
     [CC (chars ''$''), CC (chars name),
      assign (\<lambda>ctx. ctx\<lparr>ctx_version := ARGON2_VERSION_10\<rparr>),
      CC_opt (chars ''$v='') (DECIMAL_U32 (\<lambda>x ctx. ctx\<lparr>ctx_version := x\<rparr>)),
      CC (chars ''$m=''), DECIMAL_U32 (\<lambda>x ctx. ctx\<lparr>ctx_m_cost := x\<rparr>),
      CC (chars '',t=''), DECIMAL_U32 (\<lambda>x ctx. ctx\<lparr>ctx_t_cost := x\<rparr>),
      CC (chars '',p=''), DECIMAL_U32 (\<lambda>x ctx. ctx\<lparr>ctx_lanes := x\<rparr>),
      assign (\<lambda>ctx. ctx\<lparr>ctx_threads := ctx_lanes ctx\<rparr>), CC (chars ''$'')]"

definition bytes_body :: "nat \<Rightarrow> nat \<Rightarrow> (dec_state \<Rightarrow> dec_result) list" where
  "bytes_body cap1 cap2 =
     [BIN_salt cap1, CC (chars ''$''), BIN_out cap2,
      assign (\<lambda>ctx. ctx\<lparr>ctx_secret := None, ctx_secretlen := 0, ctx_ad := None, ctx_adlen := 0,
        ctx_allocate_cbk := None, ctx_free_cbk := None, ctx_flags := ARGON2_DEFAULT_FLAGS\<rparr>)]"

lemma decode_body_split: "decode_body name cap1 cap2 = params_body name @ bytes_body cap1 cap2"
  by (simp add: decode_body_def params_body_def bytes_body_def)

lemma run_body_append:
  "run_body (xs @ ys) s = (case run_body xs s of Inl e \<Rightarrow> Inl e | Inr t \<Rightarrow> run_body ys t)"
  by (induction xs arbitrary: s) (simp_all split: sum.split)

lemma stops [simp]: "dec_stop (chars '',t='' @ s)" "dec_stop (chars '',p='' @ s)" "dec_stop (chars ''$'' @ s)"
  "dec_stop (chars ''$m='' @ s)" "b64_stop (chars ''$'' @ s)" "b64_stop []"
  by (simp_all add: dec_stop_def digit_def chars_def b64_stop_def cv_eq b64_value_def)

lemma no_version: "take (length (chars ''$v='')) (chars ''$m='' @ s) \<noteq> chars ''$v=''"
  by (simp add: chars_def)

lemma run_steps:
  "CC p (c, p @ s) = Inr (c, s)"
  "dec_stop s \<Longrightarrow> DECIMAL_U32 f (c, decimal (unat x) @ s) = Inr (f x c, s)"
  "assign g (c, s) = Inr (g c, s)"
  "CC_opt p code (c, p @ s) = code (c, s)"
  "CC_opt (chars ''$v='') code (c, chars ''$m='' @ s) = Inr (c, chars ''$m='' @ s)"
proof -
  show "CC_opt (chars ''$v='') code (c, chars ''$m='' @ s) = Inr (c, chars ''$m='' @ s)"
    by (simp only: CC_opt_def prod.case Let_def no_version if_False)
qed (simp_all add: CC_Inr assign_Inr DECIMAL_U32_parse num.parse_print CC_opt_def)

lemma params_body_print:
  "run_body (params_body name) (c, chars ''$'' @ chars name @ phc_params (Some v) m t p @ s) =
    Inr (with_params v m t p c, s)"
  "run_body (params_body name) (c, chars ''$'' @ chars name @ phc_params None m t p @ s) =
    Inr (with_params ARGON2_VERSION_10 m t p c, s)"
  by (simp_all add: params_body_def phc_params_def with_params_def run_steps)

lemma params_body_sound:
  assumes "run_body (params_body name) (c, s) = Inr (c', s')"
  shows "\<exists>v m t p. c' = with_params v m t p c \<and>
      (s = chars ''$'' @ chars name @ phc_params (Some v) m t p @ s' \<or>
       v = ARGON2_VERSION_10 \<and> s = chars ''$'' @ chars name @ phc_params None m t p @ s')"
  using assms
  unfolding params_body_def run_body_Inr split_paired_Ex CC_Inr assign_Inr DECIMAL_U32_Inr CC_opt_Inr
    phc_params_def with_params_def option.case append_assoc append_Nil run_body_simps(1) sum.inject prod.inject
  apply (elim exE conjE disjE)
  subgoal by (hypsubst_thin, intro exI, rule conjI [rotated], rule disjI1, rule refl, simp)
  subgoal by (hypsubst_thin, intro exI, rule conjI [rotated], rule disjI2, rule conjI, rule refl, rule refl, simp)
  done

lemma bytes_body_print:
  assumes "b64_stop s" "length S \<le> cap1" "length S < 2 ^ 32" "length T \<le> cap2" "length T < 2 ^ 32"
    and "ctx_salt c = Some sb" "ctx_out c = Some ob" "cap1 \<le> length sb" "cap2 \<le> length ob"
  shows "run_body (bytes_body cap1 cap2) (c, b64 S @ chars ''$'' @ b64 T @ s) = Inr (with_bytes S T c, s)"
proof -
  have salt: "BIN_salt cap1 (c, b64 S @ chars ''$'' @ b64 T @ s) =
      Inr (c\<lparr>ctx_salt := Some (poke sb 0 S), ctx_saltlen := word_of_nat (length S)\<rparr>, chars ''$'' @ b64 T @ s)"
    using assms from_base64_b64 [of "chars ''$'' @ b64 T @ s" S cap1 sb] by (simp add: BIN_salt_def)
  have out: "BIN_out cap2 (c', b64 T @ s) =
      Inr (c'\<lparr>ctx_out := Some (poke ob 0 T), ctx_outlen := word_of_nat (length T)\<rparr>, s)" if "ctx_out c' = Some ob" for c'
    using assms that from_base64_b64 [of s T cap2 ob] by (simp add: BIN_out_def)
  show ?thesis
    using assms(6,7) by (simp add: bytes_body_def salt out run_steps with_bytes_def)
qed

lemma bytes_body_sound:
  assumes "run_body (bytes_body cap1 cap2) (c, s) = Inr (c', s')"
    and "ascii s" "ctx_salt c = Some sb" "ctx_out c = Some ob" "cap1 \<le> length sb" "cap2 \<le> length ob"
  shows "\<exists>S T. c' = with_bytes S T c \<and> s = b64 S @ chars ''$'' @ b64 T @ s' \<and> b64_stop s' \<and>
      length S \<le> cap1 \<and> length S < 2 ^ 32 \<and> length T \<le> cap2 \<and> length T < 2 ^ 32"
proof -
  obtain c1 s1 where 1: "BIN_salt cap1 (c, s) = Inr (c1, s1)"
    and "run_body [CC (chars ''$''), BIN_out cap2,
      assign (\<lambda>ctx. ctx\<lparr>ctx_secret := None, ctx_secretlen := 0, ctx_ad := None, ctx_adlen := 0,
        ctx_allocate_cbk := None, ctx_free_cbk := None, ctx_flags := ARGON2_DEFAULT_FLAGS\<rparr>)] (c1, s1) = Inr (c', s')"
    using assms(1) unfolding bytes_body_def run_body_Inr [of "BIN_salt cap1"] by auto
  then obtain c2 s2 where 2: "s1 = chars ''$'' @ s2" "BIN_out cap2 (c1, s2) = Inr (c2, s')"
    "c' = c2\<lparr>ctx_secret := None, ctx_secretlen := 0, ctx_ad := None, ctx_adlen := 0,
        ctx_allocate_cbk := None, ctx_free_cbk := None, ctx_flags := ARGON2_DEFAULT_FLAGS\<rparr>"
    unfolding run_body_Inr split_paired_Ex CC_Inr assign_Inr run_body_simps(1) by auto
  obtain S where S: "s = b64 S @ s1" "length S \<le> cap1" "length S < 2 ^ 32"
      "c1 = c\<lparr>ctx_salt := Some (poke sb 0 S), ctx_saltlen := word_of_nat (length S)\<rparr>"
    using 1 BIN_Inr(1) [OF assms(2,5,3)] by blast
  have "ascii s2" "ctx_out c1 = Some ob" using assms(2,4) S by (simp_all add: 2(1))
  then obtain T where "s2 = b64 T @ s'" "b64_stop s'" "length T \<le> cap2" "length T < 2 ^ 32"
      "c2 = c1\<lparr>ctx_out := Some (poke ob 0 T), ctx_outlen := word_of_nat (length T)\<rparr>"
    using 2(2) BIN_Inr(2) [of s2 cap2 ob c1] assms(6) by blast
  then show ?thesis
    using S 2 assms(3,4) by (auto simp: with_bytes_def)
qed


section \<open>Decoding\<close>

definition decoded :: "u32 \<Rightarrow> u32 \<Rightarrow> u32 \<Rightarrow> u32 \<Rightarrow> u8 list \<Rightarrow> u8 list \<Rightarrow> argon2_context \<Rightarrow> argon2_context" where
  "decoded v m t p S T c = with_bytes S T (with_params v m t p c)"

lemma with_params_fields [simp]:
  "ctx_salt (with_params v m t p c) = ctx_salt c" "ctx_out (with_params v m t p c) = ctx_out c"
  by (simp_all add: with_params_def)

definition decode_buffers :: "argon2_context \<Rightarrow> bool" where
  "decode_buffers c \<longleftrightarrow> (\<exists>sb ob. ctx_salt c = Some sb \<and> ctx_out c = Some ob \<and>
     unat (ctx_saltlen c) \<le> length sb \<and> unat (ctx_outlen c) \<le> length ob)"

lemma type_string: "supported y \<Longrightarrow> \<exists>name. argon2_type2string y 0 = Some name"
  "\<not> supported y \<Longrightarrow> argon2_type2string y 0 = None"
  by (auto simp: argon2_type2string_def supported_def split: argon2_type.split)

lemma decode_string_phc:
  assumes "supported y" "decode_buffers c" "length S \<le> unat (ctx_saltlen c)" "length T \<le> unat (ctx_outlen c)"
    and "w = Some v \<or> w = None \<and> v = ARGON2_VERSION_10"
  shows "decode_string c (phc y w m t p S T) y =
    (validate_inputs (Some (decoded v m t p S T c)), decoded v m t p S T c)"
proof -
  obtain name where name: "argon2_type2string y 0 = Some name" using type_string assms(1) by blast
  obtain sb ob where b: "ctx_salt c = Some sb" "ctx_out c = Some ob" "unat (ctx_saltlen c) \<le> length sb"
    "unat (ctx_outlen c) \<le> length ob"
    using assms(2) by (auto simp: decode_buffers_def)
  have l: "length S < 2 ^ 32" "length T < 2 ^ 32"
    using assms(3,4) unat_lt_u32 [of "ctx_saltlen c"] unat_lt_u32 [of "ctx_outlen c"] by simp_all
  have "run_body (params_body name) (c, phc y w m t p S T) =
      Inr (with_params v m t p c, b64 S @ chars ''$'' @ b64 T @ [])"
    using assms(5) params_body_print [of name c] by (auto simp: phc_def name)
  moreover have "run_body (bytes_body (unat (ctx_saltlen c)) (unat (ctx_outlen c)))
      (with_params v m t p c, b64 S @ chars ''$'' @ b64 T @ []) = Inr (decoded v m t p S T c, [])"
    unfolding decoded_def by (rule bytes_body_print) (use assms(3,4) b l in simp_all)
  ultimately show ?thesis
    by (simp add: decode_string_def name decode_body_split run_body_append)
qed

text \<open>Every statement that returns does so with \<^verbatim>\<open>ARGON2_DECODING_FAIL\<close>.\<close>

definition decoding_fails :: "(dec_state \<Rightarrow> dec_result) \<Rightarrow> bool" where
  "decoding_fails f \<longleftrightarrow> (\<forall>s e. f s = Inl e \<longrightarrow> fst e = ARGON2_DECODING_FAIL)"

lemma decoding_fails_run: "\<forall>f \<in> set fs. decoding_fails f \<Longrightarrow> run_body fs s = Inl e \<Longrightarrow> fst e = ARGON2_DECODING_FAIL"
proof (induction fs arbitrary: s)
  case (Cons f fs)
  then show ?case
  proof (cases "f s")
    case (Inl e')
    have "decoding_fails f" using Cons.prems(1) by simp
    then have "fst e' = ARGON2_DECODING_FAIL" using Inl unfolding decoding_fails_def by blast
    then show ?thesis using Inl Cons.prems(2) by simp
  qed simp
qed simp

lemma decoding_fails_statements:
  "decoding_fails (CC p)" "decoding_fails (DECIMAL_U32 g)" "decoding_fails (assign h)"
  "decoding_fails f \<Longrightarrow> decoding_fails (CC_opt p f)" "decoding_fails (BIN_salt n)" "decoding_fails (BIN_out n)"
  by (auto simp: decoding_fails_def CC_def DECIMAL_U32_def assign_def CC_opt_def BIN_salt_def BIN_out_def Let_def
      split: if_splits option.splits prod.splits)

lemma decode_body_fails: "run_body (decode_body name n k) s = Inl e \<Longrightarrow> fst e = ARGON2_DECODING_FAIL"
  by (rule decoding_fails_run [of "decode_body name n k"]) (auto simp: decode_body_def intro: decoding_fails_statements)

lemma decode_string_OK:
  assumes "decode_string c s y = (ARGON2_OK, c')" "ascii s" "decode_buffers c"
  shows "supported y \<and> (\<exists>v m t p S T. (s = phc y (Some v) m t p S T \<or>
      v = ARGON2_VERSION_10 \<and> s = phc y None m t p S T) \<and>
    length S \<le> unat (ctx_saltlen c) \<and> length T \<le> unat (ctx_outlen c) \<and>
    c' = decoded v m t p S T c \<and> validate_inputs (Some c') = ARGON2_OK)"
proof -
  obtain name where name: "argon2_type2string y 0 = Some name" and y: "supported y"
    using assms(1) type_string(2) [of y] by (cases "argon2_type2string y 0") (auto simp: decode_string_def)
  obtain sb ob where b: "ctx_salt c = Some sb" "ctx_out c = Some ob" "unat (ctx_saltlen c) \<le> length sb"
    "unat (ctx_outlen c) \<le> length ob"
    using assms(3) by (auto simp: decode_buffers_def)
  let ?b = "bytes_body (unat (ctx_saltlen c)) (unat (ctx_outlen c))"
  have no_OK: "run_body (decode_body name n k) (c, s) \<noteq> Inl (ARGON2_OK, c')" for n k
    using decode_body_fails [of name n k "(c, s)" "(ARGON2_OK, c')"] by auto
  obtain c1 s1 where 1: "run_body (params_body name) (c, s) = Inr (c1, s1)" and 2: "run_body ?b (c1, s1) = Inr (c', [])"
    and v: "validate_inputs (Some c') = ARGON2_OK"
    using assms(1) no_OK unfolding decode_string_def name decode_body_split run_body_append option.case
    by (auto split: sum.splits prod.splits if_splits)
  obtain v m t p where P: "c1 = with_params v m t p c"
    "s = chars ''$'' @ chars name @ phc_params (Some v) m t p @ s1 \<or>
       v = ARGON2_VERSION_10 \<and> s = chars ''$'' @ chars name @ phc_params None m t p @ s1"
    using params_body_sound [OF 1] by blast
  have "ascii s1" using P(2) assms(2) by auto
  then obtain S T where ST: "c' = with_bytes S T c1" "s1 = b64 S @ chars ''$'' @ b64 T"
    "length S \<le> unat (ctx_saltlen c)" "length T \<le> unat (ctx_outlen c)"
    using bytes_body_sound [OF 2, of sb ob] b by (auto simp: P(1))
  have "s = phc y (Some v) m t p S T \<or> v = ARGON2_VERSION_10 \<and> s = phc y None m t p S T"
    using P(2) unfolding phc_def name option.sel ST(2) .
  moreover have "c' = decoded v m t p S T c" by (simp add: decoded_def ST(1) P(1))
  ultimately show ?thesis using ST(3,4) v y by blast
qed

section \<open>Bytes above 127\<close>

text \<open>No statement of the decoder tells a string from what it reads in it, so neither does the decoder.\<close>

definition blind :: "(dec_state \<Rightarrow> dec_result) \<Rightarrow> bool" where
  "blind f \<longleftrightarrow> (\<forall>c s. f (c, as_read s) = map_sum id (apsnd as_read) (f (c, s)))"

lemma decode_decimal_loop_as_read:
  "decode_decimal_loop (as_read s) acc = map_option (apfst as_read) (decode_decimal_loop s acc)"
proof (induction s acc rule: decode_decimal_loop.induct)
  case (2 b s acc)
  show ?case
  proof (cases "128 \<le> unat b")
    case True
    then have "sint b < 48" "sint (47 :: u8) < 48" using uint_bounded [of b] by (simp_all add: sint_byte)
    then show ?thesis using True by (simp add: Let_def)
  next
    case False
    then show ?thesis using 2 by (simp add: Let_def if_distrib [of "map_option (apfst as_read)"] cong: if_cong)
  qed
qed simp

lemma decode_decimal_as_read: "decode_decimal (as_read s) = map_option (apfst as_read) (decode_decimal s)"
proof (cases s)
  case (Cons b t)
  have "(if 128 \<le> unat b then 47 else b) = 48 \<longleftrightarrow> b = 48" by auto
  then show ?thesis
    using decode_decimal_loop_as_read [of s 0]
    by (auto simp: decode_decimal_def Cons split: option.splits prod.splits)
qed (simp add: decode_decimal_def)

lemma as_read_prefix:
  assumes "\<forall>x \<in> set p. x \<noteq> 47 \<and> unat x < 128"
  shows "take (length p) (as_read s) = p \<longleftrightarrow> take (length p) s = p"
  using assms by (induction p arbitrary: s) (case_tac s; auto)+

lemma blind_CC: "\<forall>x \<in> set p. x \<noteq> 47 \<and> unat x < 128 \<Longrightarrow> blind (CC p)"
  by (simp add: blind_def CC_def Let_def as_read_prefix) (simp add: as_read_take_drop)

lemma blind_CC_opt: "\<forall>x \<in> set p. x \<noteq> 47 \<and> unat x < 128 \<Longrightarrow> blind code \<Longrightarrow> blind (CC_opt p code)"
  by (simp add: blind_def CC_opt_def Let_def as_read_prefix) (simp add: as_read_take_drop)

lemma blind_DECIMAL_U32: "blind (DECIMAL_U32 f)"
  by (auto simp: blind_def DECIMAL_U32_def decode_decimal_as_read split: option.split)

lemma blind_assign: "blind (assign f)"
  by (simp add: blind_def assign_def)

lemma blind_BIN: "blind (BIN_salt n)" "blind (BIN_out n)"
  by (auto simp: blind_def BIN_salt_def BIN_out_def from_base64_as_read Let_def split: prod.split option.split)

lemma blind_run: "\<forall>f \<in> set fs. blind f \<Longrightarrow> blind (run_body fs)"
proof (induction fs)
  case Nil
  then show ?case by (simp add: blind_def)
next
  case (Cons f fs)
  then have "blind f" "blind (run_body fs)" by simp_all
  then show ?case by (auto simp: blind_def split: sum.split)
qed

lemma blind_decode_body: "supported y \<Longrightarrow> argon2_type2string y 0 = Some name \<Longrightarrow> blind (run_body (decode_body name n k))"
  unfolding decode_body_def
  by (rule blind_run) (auto simp: supported_def argon2_type2string_def chars_def
    intro!: blind_CC blind_CC_opt blind_DECIMAL_U32 blind_assign blind_BIN)

lemma decode_string_as_read: "decode_string c (as_read s) y = decode_string c s y"
proof (cases "supported y")
  case True
  then obtain name where name: "argon2_type2string y 0 = Some name" using type_string(1) by blast
  have "run_body (decode_body name n k) (c, as_read s) = map_sum id (apsnd as_read) (run_body (decode_body name n k) (c, s))" for n k
    using blind_decode_body [OF True name] by (simp add: blind_def)
  then show ?thesis by (auto simp: decode_string_def name split: sum.split)
qed (simp add: decode_string_def type_string(2))

section \<open>Encoding\<close>

text \<open>A statement of the encoder writes \<open>w\<close> and a terminating zero when both fit into what is left, and
  otherwise returns with the error, having written only into the buffer.\<close>

definition writes :: "(enc_state \<Rightarrow> enc_result) \<Rightarrow> u8 list \<Rightarrow> bool" where
  "writes f w \<longleftrightarrow> (\<forall>dst at len. at + len \<le> length dst \<longrightarrow>
     (if length w < len then f (dst, at, len) = Inr (poke dst at (w @ [0]), at + length w, len - length w)
      else \<exists>d. f (dst, at, len) = Inl (ARGON2_ENCODING_FAIL, d) \<and> length d = length dst \<and>
        take at d = take at dst \<and> drop (at + len) d = drop (at + len) dst))"

lemma writes_ok:
  "writes f w \<Longrightarrow> at + len \<le> length dst \<Longrightarrow> length w < len \<Longrightarrow>
    f (dst, at, len) = Inr (poke dst at (w @ [0]), at + length w, len - length w)"
  by (simp add: writes_def)

lemma writes_fail:
  assumes "writes f w" "at + len \<le> length dst" "\<not> length w < len"
  obtains d where "f (dst, at, len) = Inl (ARGON2_ENCODING_FAIL, d)" "length d = length dst"
    "take at d = take at dst" "drop (at + len) d = drop (at + len) dst"
  using assms(1) [unfolded writes_def, rule_format, OF assms(2)] assms(3) by (simp only: if_False) blast

lemma writes_SS: "writes (SS w) w"
  by (auto simp: writes_def SS_def Let_def poke_def)

lemma writes_SX: "writes (SX x) (decimal (unat x))"
  by (simp add: SX_def writes_SS)

lemma b64_length_small: "length (b64 bs) < 2 * length bs + 3"
proof -
  have "length bs mod 3 < 3" by simp
  moreover have "length bs = length bs div 3 * 3 + length bs mod 3" by simp
  ultimately show ?thesis unfolding length_b64 by (split if_split) linarith
qed

lemma writes_SB:
  assumes "unat n \<le> length buf"
  shows "writes (SB buf n) (b64 (take (unat n) buf))"
proof -
  have "length (b64 (take (unat n) buf)) \<noteq> SIZE_MAX"
    using b64_length_small [of "take (unat n) buf"] assms unat_lt_u32 [of n] by (simp add: SIZE_MAX_def)
  then show ?thesis
    using to_base64_eq [OF assms unat_lt_u32] by (auto simp: writes_def SB_def not_le)
qed

lemma poke_again:
  assumes "at + length (w @ v) \<le> length dst" "length w + 1 \<le> length (w @ v)"
  shows "poke (poke dst at (w @ [0])) (at + length w) v = poke dst at (w @ v)"
proof -
  obtain x r where v: "v = x # r" using assms(2) by (cases v) auto
  show ?thesis using assms(1) by (simp add: poke_def memcpy_at_def v ac_simps)
qed

lemma writes_then:
  assumes "writes f w" "writes g v"
  shows "writes (\<lambda>s. case f s of Inl e \<Rightarrow> Inl e | Inr t \<Rightarrow> g t) (w @ v)"
  unfolding writes_def
proof (intro allI impI)
  fix dst :: "u8 list" and at len :: nat
  assume len: "at + len \<le> length dst"
  let ?fg = "case f (dst, at, len) of Inl e \<Rightarrow> Inl e | Inr t \<Rightarrow> g t"
  show "if length (w @ v) < len
    then ?fg = Inr (poke dst at ((w @ v) @ [0]), at + length (w @ v), len - length (w @ v))
    else \<exists>d. ?fg = Inl (ARGON2_ENCODING_FAIL, d) \<and> length d = length dst \<and>
      take at d = take at dst \<and> drop (at + len) d = drop (at + len) dst"
  proof (cases "length w < len")
    case False
    then show ?thesis by (rule writes_fail [OF assms(1) len]) (use False in auto)
  next
    case True
    note lw = True
    let ?d = "poke dst at (w @ [0])"
    have f: "f (dst, at, len) = Inr (?d, at + length w, len - length w)" by (rule writes_ok [OF assms(1) len True])
    have ld: "length ?d = length dst" "at + length w + (len - length w) \<le> length ?d" using True len by simp_all
    show ?thesis
    proof (cases "length v < len - length w")
      case True
      have "g (?d, at + length w, len - length w) =
          Inr (poke ?d (at + length w) (v @ [0]), at + length w + length v, len - length w - length v)"
        by (rule writes_ok [OF assms(2) ld(2) True])
      moreover have "poke ?d (at + length w) (v @ [0]) = poke dst at (w @ v @ [0])"
        using True len by (intro poke_again) auto
      moreover have "length (w @ v) < len" using True lw by simp
      ultimately show ?thesis using f by (simp add: add.assoc)
    next
      case False
      obtain d where d: "g (?d, at + length w, len - length w) = Inl (ARGON2_ENCODING_FAIL, d)" "length d = length ?d"
        "take (at + length w) d = take (at + length w) ?d" "drop (at + length w + (len - length w)) d = drop (at + length w + (len - length w)) ?d"
        by (rule writes_fail [OF assms(2) ld(2) False])
      have al: "at + length w + (len - length w) = at + len" using True by simp
      have "take at d = take at (take (at + length w) d)" by simp
      also have "\<dots> = take at ?d" unfolding d(3) by simp
      also have "\<dots> = take at dst" using True len by (intro poke_outside) simp
      finally have "take at d = take at dst" .
      moreover have "drop (at + len) d = drop (at + len) dst"
        using d(4) True len unfolding al by (simp add: poke_outside(2))
      ultimately show ?thesis using False f d(1,2) ld(1) by auto
    qed
  qed
qed

lemma writes_run:
  assumes "list_all2 writes fs ws" "fs \<noteq> []"
  shows "writes (run_body fs) (concat ws)"
  using assms
proof (induction rule: list_all2_induct)
  case (Cons f fs w ws)
  show ?case
  proof (cases "fs = []")
    case True
    then have "run_body (f # fs) = f" by (auto simp: fun_eq_iff split: sum.split)
    then show ?thesis using Cons True by simp
  next
    case False
    then have "writes (run_body fs) (concat ws)" using Cons by simp
    then have "writes (\<lambda>s. case f s of Inl e \<Rightarrow> Inl e | Inr t \<Rightarrow> run_body fs t) (w @ concat ws)"
      by (rule writes_then [OF Cons(1)])
    moreover have "run_body (f # fs) = (\<lambda>s. case f s of Inl e \<Rightarrow> Inl e | Inr t \<Rightarrow> run_body fs t)"
      by (simp add: fun_eq_iff)
    ultimately show ?thesis by simp
  qed
qed simp


lemma encode_string_eq:
  assumes "valid_params c" "supported y" "dst_len \<le> length dst"
    and "readable (ctx_salt c) (unat (ctx_saltlen c))" "readable (ctx_out c) (unat (ctx_outlen c))"
  defines "w \<equiv> phc y (Some (ctx_version c)) (ctx_m_cost c) (ctx_t_cost c) (ctx_lanes c)
      (read_buf (ctx_salt c) (unat (ctx_saltlen c))) (read_buf (ctx_out c) (unat (ctx_outlen c)))"
  shows "if length w < dst_len then encode_string dst dst_len (Some c) y = (ARGON2_OK, poke dst 0 (w @ [0]))
    else \<exists>d. encode_string dst dst_len (Some c) y = (ARGON2_ENCODING_FAIL, d) \<and> length d = length dst \<and>
      drop dst_len d = drop dst_len dst"
proof -
  obtain name where name: "argon2_type2string y 0 = Some name" using type_string assms(2) by blast
  obtain sb ob where b: "ctx_salt c = Some sb" "ctx_out c = Some ob" "unat (ctx_saltlen c) \<le> length sb"
    "unat (ctx_outlen c) \<le> length ob"
    using assms(1,4,5) by (auto simp: valid_params_def)
  define fs where "fs = [SS (chars ''$''), SS (chars name),
                  SS (chars ''$v=''), SX (ctx_version c),
                  SS (chars ''$m=''), SX (ctx_m_cost c),
                  SS (chars '',t=''), SX (ctx_t_cost c),
                  SS (chars '',p=''), SX (ctx_lanes c),
                  SS (chars ''$''), SB (the (ctx_salt c)) (ctx_saltlen c),
                  SS (chars ''$''), SB (the (ctx_out c)) (ctx_outlen c)]"
  define ws where "ws = [chars ''$'', chars name, chars ''$v='', decimal (unat (ctx_version c)), chars ''$m='',
      decimal (unat (ctx_m_cost c)), chars '',t='', decimal (unat (ctx_t_cost c)), chars '',p='',
      decimal (unat (ctx_lanes c)), chars ''$'', b64 (take (unat (ctx_saltlen c)) sb), chars ''$'',
      b64 (take (unat (ctx_outlen c)) ob)]"
  have w: "concat ws = w"
    unfolding ws_def w_def phc_def phc_params_def name option.sel option.case b(1,2) read_buf_simps
    by (simp only: concat.simps append_assoc append_Nil2)
  have "list_all2 writes fs ws"
    unfolding fs_def ws_def list_all2_Cons list_all2_Nil b(1,2) option.sel
    using b(3,4) by (simp only: writes_SS writes_SX writes_SB simp_thms list.rel_inject list.rel_intros(1))
  then have wr: "writes (run_body fs) w"
    using writes_run [of fs ws] by (simp add: fs_def w)
  have v: "validate_inputs (Some c) = ARGON2_OK" using assms(1) by (simp add: validate_inputs_ok)
  have e: "encode_string dst dst_len (Some c) y = (case run_body fs (dst, 0, dst_len) of Inl r \<Rightarrow> r | Inr (dst, _) \<Rightarrow> (ARGON2_OK, dst))"
    unfolding encode_string_def name option.case v Let_def option.sel fs_def by simp
  show ?thesis
  proof (cases "length w < dst_len")
    case True
    have "run_body fs (dst, 0, dst_len) = Inr (poke dst 0 (w @ [0]), 0 + length w, dst_len - length w)"
      by (rule writes_ok [OF wr _ True]) (use assms(3) in simp)
    then show ?thesis using True by (simp only: e if_True sum.case prod.case)
  next
    case False
    have "0 + dst_len \<le> length dst" using assms(3) by simp
    from wr this False obtain d where "run_body fs (dst, 0, dst_len) = Inl (ARGON2_ENCODING_FAIL, d)"
      "length d = length dst" "drop (0 + dst_len) d = drop (0 + dst_len) dst"
      by (rule writes_fail)
    then show ?thesis using False by (simp only: e if_False sum.case add_0) blast
  qed
qed

section \<open>Properties\<close>

text \<open>C33: \<^verbatim>\<open>decode_decimal\<close> succeeds exactly on the decimal representations without leading zeros of the
  numbers that fit into an \<^verbatim>\<open>unsigned long\<close>, followed by a character that is no digit, and returns
  the number and the rest: no wrap-around of the accumulator goes unnoticed.\<close>

theorem decode_decimal_exact:
  "decode_decimal s = Some (rest, v) \<longleftrightarrow> s = decimal (unat v) @ rest \<and> dec_stop rest"
  using decode_decimal_Some [of s rest v] decode_decimal_decimal [OF unat_lt_u64, of rest v] by auto

text \<open>C32: \<^verbatim>\<open>to_base64\<close> writes the unpadded Base64 encoding of RFC 4648 with its terminating zero exactly when
  the buffer can hold them, changes nothing else, and otherwise writes nothing.\<close>

theorem to_base64_rfc4648:
  assumes "src_len \<le> length src" "src_len < 2 ^ 32" "at + dst_len \<le> length dst"
  shows "to_base64 dst at dst_len src src_len =
    (if dst_len \<le> length (b64 (take src_len src)) then (SIZE_MAX, dst)
     else (length (b64 (take src_len src)),
           take at dst @ b64 (take src_len src) @ [0] @ drop (at + length (b64 (take src_len src)) + 1) dst))"
  using to_base64_eq [OF assms] by (simp add: poke_def memcpy_at_def)

theorem to_base64_rfc4648_witness:
  "to_base64 (replicate 10 7) 2 6 [102, 111, 111] 3 = (4, [7, 7, 90, 109, 57, 118, 0, 7, 7, 7])"
proof -
  have "b64 [102, 111, 111] = [90, 109, 57, 118]" by (simp add: b64_char_code b64_code_def)
  moreover have "replicate 10 (7 :: u8) = [7, 7, 7, 7, 7, 7, 7, 7, 7, 7]" by (simp add: numeral_eq_Suc)
  ultimately show ?thesis
    using to_base64_rfc4648 [of 3 "[102, 111, 111]" 2 6 "replicate 10 7"] by simp
qed

text \<open>C31: \<^verbatim>\<open>from_base64\<close> inverts \<^verbatim>\<open>to_base64\<close>, on every string: it succeeds exactly when the string begins with what reads
  as the encoding of data that fit into the buffer, followed by a character that is not Base64, and then it returns the
  rest, the length of the data and the data. A byte above 127 reads as \<^verbatim>\<open>/\<close>, so that without such bytes it succeeds
  exactly on the encodings. Wrong lengths, non-zero leftover bits and data that are too long give \<^verbatim>\<open>NULL\<close>.\<close>

theorem from_base64_inverse:
  assumes "cap \<le> length buf"
  shows "from_base64 buf cap s = (Some rest, n, buf') \<longleftrightarrow>
    (\<exists>enc bs. s = enc @ rest \<and> map (\<lambda>c. if 128 \<le> unat c then 47 else c) enc = b64 bs \<and> b64_stop rest \<and>
      length bs \<le> cap \<and> n = length bs \<and> buf' = bs @ drop n buf)"
  unfolding from_base64_exact [OF assms] as_read_def by (auto simp: poke_def memcpy_at_def)

theorem from_base64_inverse_witness:
  "from_base64 [9, 9, 9, 9] 4 [90, 109, 57, 118, 36] = (Some [36], 3, [102, 111, 111, 9]) \<and>
   from_base64 [9, 9, 9, 9] 4 [200, 200, 200, 255, 36] = (Some [36], 3, [255, 255, 255, 9])"
proof -
  have b: "b64 [102, 111, 111] = [90, 109, 57, 118]" "b64 [255, 255, 255] = [47, 47, 47, 47]"
    by (simp_all add: b64_char_code b64_code_def)
  have r: "b64_stop [36]" by (simp add: b64_stop_def cv_eq b64_value_def)
  have "from_base64 [9, 9, 9, 9] 4 [90, 109, 57, 118, 36] = (Some [36], 3, [102, 111, 111, 9])"
    using from_base64_inverse [of 4 "[9, 9, 9, 9]" "[90, 109, 57, 118, 36]" "[36]" 3 "[102, 111, 111, 9]"] b r
    by (auto intro!: exI [of _ "[102, 111, 111]"])
  moreover have "from_base64 [9, 9, 9, 9] 4 [200, 200, 200, 255, 36] = (Some [36], 3, [255, 255, 255, 9])"
    using from_base64_inverse [of 4 "[9, 9, 9, 9]" "[200, 200, 200, 255, 36]" "[36]" 3 "[255, 255, 255, 9]"] b r
    by (auto intro!: exI [of _ "[255, 255, 255]"])
  ultimately show ?thesis ..
qed

text \<open>\<^verbatim>\<open>b64_char_to_byte\<close> maps every character above 127 to 63, the value of \<^verbatim>\<open>/\<close>, although its comment promises
  255 for a character that is not Base64: such a character is negative as an \<^verbatim>\<open>int\<close>, and the macro \<^verbatim>\<open>EQ\<close> is
  only right on 0..255.\<close>

lemma b64_char_to_byte_high_bytes:
  "b64_char_to_byte (scast (c :: u8)) = 63 \<longleftrightarrow> c = 47 \<or> 128 \<le> unat c"
proof -
  consider (high) "128 \<le> unat c" | (none) "unat c < 128" "b64_value (unat c) = None"
    | (some) v where "unat c < 128" "b64_value (unat c) = Some v"
    by (cases "unat c < 128"; cases "b64_value (unat c)") auto
  then show ?thesis
  proof cases
    case high
    then show ?thesis by (simp add: b64_char_to_byte_byte)
  next
    case none
    then have "unat c \<noteq> 47" by (auto simp: b64_value_def)
    then have "c \<noteq> 47" by auto
    with none show ?thesis by (simp add: b64_char_to_byte_byte)
  next
    case some
    then have v: "v < 64" "unat c = b64_code v" by (simp_all add: b64_value_code)
    have "unat (word_of_nat v :: u32) = v" using v by (intro unat_small) simp
    then have "word_of_nat v = (63 :: u32) \<longleftrightarrow> v = 63" using arg_cong [of "word_of_nat v" 63 unat] by auto
    moreover have "v = 63 \<longleftrightarrow> unat c = 47" using v by (auto simp: b64_code_def split: if_splits)
    moreover have "unat c = 47 \<longleftrightarrow> c = 47" by (simp add: word_unat_eq_iff)
    moreover have "b64_char_to_byte (scast c) = word_of_nat v" using some by (simp only: b64_char_to_byte_byte if_True option.case)
    ultimately show ?thesis using some by auto
  qed
qed

end
