(* ===== verification/Encoded_Form.thy ===== *)
theory Encoded_Form
  imports Encoding_Props
begin

text \<open>
  Facts on the encoded form of a hash that both its writers and its readers rest on: its length, which
  \<^verbatim>\<open>argon2_encodedlen\<close> computes, its alphabet, and that it determines what it encodes; and the
  specifications of \<^verbatim>\<open>encode_string\<close> and \<^verbatim>\<open>decode_string\<close>, each the inverse of the other.
\<close>

section \<open>Length and alphabet\<close>

lemma length_chars [simp]: "length (chars s) = length s"
  by (simp add: chars_def)

lemma length_phc:
  "length (phc y (Some v) m t p S T) = 15 + length (the (argon2_type2string y 0)) + numlen v + numlen m +
     numlen t + numlen p + length (b64 S) + length (b64 T)"
  by (simp add: phc_def phc_params_def numlen_eq)

text \<open>The characters of an encoded form: none is zero and all are below 128.\<close>

definition printable :: "u8 list \<Rightarrow> bool" where
  "printable s \<longleftrightarrow> (\<forall>c \<in> set s. c \<noteq> 0 \<and> unat c < 128)"

lemma printable_simps [simp]:
  "printable []" "printable (c # s) \<longleftrightarrow> c \<noteq> 0 \<and> unat c < 128 \<and> printable s"
  "printable (s @ t) \<longleftrightarrow> printable s \<and> printable t"
  by (auto simp: printable_def)

lemma printable_ascii: "printable s \<Longrightarrow> ascii s"
  by (simp add: printable_def ascii_def)

lemma printable_word: "0 < n \<Longrightarrow> n < 128 \<Longrightarrow> printable [word_of_nat n]"
proof -
  assume n: "0 < n" "n < 128"
  then have u: "unat (word_of_nat n :: u8) = n" by (simp add: unat_of_nat take_bit_nat_eq_self)
  then have "(word_of_nat n :: u8) \<noteq> 0" using n(1) by (metis unsigned_0 less_numeral_extra(3))
  then show ?thesis using n u by (simp only: printable_simps) simp
qed

lemma printable_decimal: "printable (decimal n)"
proof (induction n rule: decimal.induct)
  case (1 n)
  have "n mod 10 < 10" by simp
  then have "printable [word_of_nat (48 + n mod 10)]" by (intro printable_word) simp_all
  moreover have "n < 10 \<Longrightarrow> printable [word_of_nat (48 + n)]" by (intro printable_word) simp_all
  ultimately show ?case using 1 by (subst decimal.simps) (auto simp del: printable_simps(2))
qed

lemma printable_b64_char: "v < 64 \<Longrightarrow> printable [b64_char v]"
  unfolding b64_char_code by (rule printable_word) (auto simp: b64_code_def)

lemma printable_b64: "printable (b64 bs)"
  using printable_b64_char [OF byte_bounds(1)] printable_b64_char [OF byte_bounds(2)] printable_b64_char [OF byte_bounds(3)]
    printable_b64_char [OF byte_bounds(4)] printable_b64_char [OF byte_bounds(5)] printable_b64_char [OF byte_bounds(6)]
  by (induction bs rule: b64.induct) simp_all

lemma printable_phc: "supported y \<Longrightarrow> printable (phc y v m t p S T)"
  by (auto simp: phc_def phc_params_def printable_decimal printable_b64 supported_def argon2_type2string_def chars_def
      split: option.split)


lemma takeWhile_printable: "printable w \<Longrightarrow> takeWhile (\<lambda>x. x \<noteq> 0) (w @ 0 # r) = w"
  by (subst takeWhile_append2) (auto simp: printable_def)

lemma poke_start: "length w \<le> length dst \<Longrightarrow> poke dst 0 w = w @ drop (length w) dst"
  by (simp add: poke_def memcpy_at_def)

section \<open>The decoded context\<close>

lemma decoded_fields [simp]:
  "ctx_version (decoded v m t p S T c) = v" "ctx_m_cost (decoded v m t p S T c) = m"
  "ctx_t_cost (decoded v m t p S T c) = t" "ctx_lanes (decoded v m t p S T c) = p"
  "ctx_threads (decoded v m t p S T c) = p" "ctx_pwd (decoded v m t p S T c) = ctx_pwd c"
  "ctx_pwdlen (decoded v m t p S T c) = ctx_pwdlen c" "ctx_secret (decoded v m t p S T c) = None"
  "ctx_secretlen (decoded v m t p S T c) = 0" "ctx_ad (decoded v m t p S T c) = None"
  "ctx_adlen (decoded v m t p S T c) = 0" "ctx_allocate_cbk (decoded v m t p S T c) = None"
  "ctx_free_cbk (decoded v m t p S T c) = None" "ctx_flags (decoded v m t p S T c) = 0"
  "ctx_saltlen (decoded v m t p S T c) = word_of_nat (length S)"
  "ctx_outlen (decoded v m t p S T c) = word_of_nat (length T)"
  "ctx_salt (decoded v m t p S T c) = Some (poke (the (ctx_salt c)) 0 S)"
  "ctx_out (decoded v m t p S T c) = Some (poke (the (ctx_out c)) 0 T)"
  by (simp_all add: decoded_def with_bytes_def with_params_def ARGON2_DEFAULT_FLAGS_def)

lemma valid_decoded:
  assumes "length S < 2 ^ 32" "length T < 2 ^ 32"
  shows "valid_params (decoded v m t p S T c) \<longleftrightarrow>
    4 \<le> length T \<and> 8 \<le> length S \<and> (ctx_pwd c = None \<longrightarrow> ctx_pwdlen c = 0) \<and>
    8 * unat p \<le> unat m \<and> 1 \<le> unat t \<and> 1 \<le> unat p \<and> unat p < 2 ^ 24"
  using unat_small [OF assms(1)] unat_small [OF assms(2)]
  by (auto simp: valid_params_def)

section \<open>Properties\<close>

text \<open>C30: \<^verbatim>\<open>encode_string\<close> writes the encoded form of a valid context with its terminating zero exactly when it
  fits into the buffer, and then changes no other byte of it. Otherwise it returns
  \<^verbatim>\<open>ARGON2_ENCODING_FAIL\<close> and has not written past the buffer.\<close>

theorem encode_string_spec:
  assumes "valid_params c" "supported y" "dst_len \<le> length dst"
    and "readable (ctx_salt c) (unat (ctx_saltlen c))" "readable (ctx_out c) (unat (ctx_outlen c))"
    and "w = phc y (Some (ctx_version c)) (ctx_m_cost c) (ctx_t_cost c) (ctx_lanes c)
      (read_buf (ctx_salt c) (unat (ctx_saltlen c))) (read_buf (ctx_out c) (unat (ctx_outlen c)))"
  shows "if length w < dst_len
    then encode_string dst dst_len (Some c) y = (ARGON2_OK, w @ [0] @ drop (length w + 1) dst)
    else \<exists>d. encode_string dst dst_len (Some c) y = (ARGON2_ENCODING_FAIL, d) \<and> length d = length dst \<and>
      drop dst_len d = drop dst_len dst"
  using encode_string_eq [OF assms(1-5)] assms(3) unfolding assms(6) by (auto simp: poke_start)

lemma decode_string_iff:
  assumes "decode_buffers c"
  shows "decode_string c s y = (ARGON2_OK, c') \<longleftrightarrow>
    supported y \<and> valid_params c' \<and>
    (\<exists>v m t p S T. (as_read s = phc y (Some v) m t p S T \<or> v = ARGON2_VERSION_10 \<and> as_read s = phc y None m t p S T) \<and>
      length S \<le> unat (ctx_saltlen c) \<and> length T \<le> unat (ctx_outlen c) \<and> c' = decoded v m t p S T c)"
    (is "_ \<longleftrightarrow> ?accepts")
proof
  assume "decode_string c s y = (ARGON2_OK, c')"
  from decode_string_OK [OF this [folded decode_string_as_read [of c s y]] ascii_as_read assms] show ?accepts
    unfolding validate_inputs_ok by blast
next
  assume r: ?accepts
  then obtain v w m t p S T where s: "as_read s = phc y w m t p S T" "w = Some v \<or> w = None \<and> v = ARGON2_VERSION_10"
    and l: "length S \<le> unat (ctx_saltlen c)" "length T \<le> unat (ctx_outlen c)" and c': "c' = decoded v m t p S T c"
    by blast
  have "decode_string c (as_read s) y = (ARGON2_OK, c')"
    using decode_string_phc [OF _ assms l s(2)] r unfolding s(1) c' by (auto simp: validate_inputs_ok)
  then show "decode_string c s y = (ARGON2_OK, c')" by (simp only: decode_string_as_read)
qed

text \<open>C16: \<^verbatim>\<open>decode_string\<close> accepts, among all strings, exactly those that read as an encoded form, with or without the
  version field (without, the version is \<^verbatim>\<open>0x10\<close>), whose fields fit into the buffers and whose parameters are valid,
  and fills in the context they describe. A byte above 127 reads as \<^verbatim>\<open>/\<close>, which occurs only in the two Base64 fields; a
  string without such bytes is accepted only if it is an encoded form. No other spelling is accepted: no leading zeros,
  signs, spaces, padding, non-zero leftover bits, nor anything before or behind.\<close>

theorem decode_string_spec:
  assumes "decode_buffers c" "r = map (\<lambda>b. if 128 \<le> unat b then 47 else b) s"
  shows "decode_string c s y = (ARGON2_OK, c') \<longleftrightarrow>
    supported y \<and> valid_params c' \<and>
    (\<exists>v m t p S T. (r = phc y (Some v) m t p S T \<or> v = ARGON2_VERSION_10 \<and> r = phc y None m t p S T) \<and>
      length S \<le> unat (ctx_saltlen c) \<and> length T \<le> unat (ctx_outlen c) \<and> c' = decoded v m t p S T c)"
  unfolding assms(2) as_read_def [symmetric] by (rule decode_string_iff [OF assms(1)])

lemma decode_encode:
  assumes "valid_params c" "supported y" "dst_len \<le> length dst"
    and "readable (ctx_salt c) (unat (ctx_saltlen c))" "readable (ctx_out c) (unat (ctx_outlen c))"
    and "encode_string dst dst_len (Some c) y = (ARGON2_OK, d)"
    and "decode_buffers c0" "ctx_saltlen c \<le> ctx_saltlen c0" "ctx_outlen c \<le> ctx_outlen c0"
    and "ctx_pwd c0 = None \<longrightarrow> ctx_pwdlen c0 = 0"
  shows "decode_string c0 (takeWhile (\<lambda>x. x \<noteq> 0) d) y =
    (ARGON2_OK, decoded (ctx_version c) (ctx_m_cost c) (ctx_t_cost c) (ctx_lanes c)
      (read_buf (ctx_salt c) (unat (ctx_saltlen c))) (read_buf (ctx_out c) (unat (ctx_outlen c))) c0)"
proof -
  let ?S = "read_buf (ctx_salt c) (unat (ctx_saltlen c))" and ?T = "read_buf (ctx_out c) (unat (ctx_outlen c))"
  let ?w = "phc y (Some (ctx_version c)) (ctx_m_cost c) (ctx_t_cost c) (ctx_lanes c) ?S ?T"
  have fit: "length ?w < dst_len" and d: "d = poke dst 0 (?w @ [0])"
    using encode_string_eq [OF assms(1-5)] assms(6) by (auto split: if_splits)
  have w: "takeWhile (\<lambda>x. x \<noteq> 0) d = ?w"
    using fit assms(3) printable_phc [OF assms(2)] by (simp add: d poke_start takeWhile_printable)
  have l: "length ?S = unat (ctx_saltlen c)" "length ?T = unat (ctx_outlen c)"
    using assms(1,4,5) by (auto simp: valid_params_def)
  have le: "length ?S \<le> unat (ctx_saltlen c0)" "length ?T \<le> unat (ctx_outlen c0)"
    unfolding l using assms(8,9) by (simp_all add: word_le_nat_alt)
  have lt: "length ?S < 2 ^ 32" "length ?T < 2 ^ 32" unfolding l by (rule unat_lt_u32)+
  have "valid_params (decoded (ctx_version c) (ctx_m_cost c) (ctx_t_cost c) (ctx_lanes c) ?S ?T c0)"
    unfolding valid_decoded [OF lt] using assms(1,10) l by (simp add: valid_params_def)
  then show ?thesis
    using decode_string_phc [OF assms(2,7) le] unfolding w by (simp add: validate_inputs_ok)
qed

text \<open>What \<^verbatim>\<open>encode_string\<close> writes, \<^verbatim>\<open>decode_string\<close> reads back: into buffers that are large enough it gives the same
  parameters, salt and tag, one thread for each lane, no secret, associated data, callbacks or flags,
  and it leaves the password alone.\<close>

lemma encode_decode_roundtrip:
  assumes "valid_params c" "supported y" "dst_len \<le> length dst"
    and "readable (ctx_salt c) (unat (ctx_saltlen c))" "readable (ctx_out c) (unat (ctx_outlen c))"
    and "encode_string dst dst_len (Some c) y = (ARGON2_OK, d)"
    and "decode_buffers c0" "ctx_saltlen c \<le> ctx_saltlen c0" "ctx_outlen c \<le> ctx_outlen c0"
    and "ctx_pwd c0 = None \<longrightarrow> ctx_pwdlen c0 = 0"
  shows "\<exists>c'. decode_string c0 (takeWhile (\<lambda>x. x \<noteq> 0) d) y = (ARGON2_OK, c') \<and>
    ctx_version c' = ctx_version c \<and> ctx_m_cost c' = ctx_m_cost c \<and> ctx_t_cost c' = ctx_t_cost c \<and>
    ctx_lanes c' = ctx_lanes c \<and> ctx_threads c' = ctx_lanes c \<and> ctx_saltlen c' = ctx_saltlen c \<and>
    ctx_outlen c' = ctx_outlen c \<and>
    read_buf (ctx_salt c') (unat (ctx_saltlen c')) = read_buf (ctx_salt c) (unat (ctx_saltlen c)) \<and>
    read_buf (ctx_out c') (unat (ctx_outlen c')) = read_buf (ctx_out c) (unat (ctx_outlen c)) \<and>
    ctx_pwd c' = ctx_pwd c0 \<and> ctx_pwdlen c' = ctx_pwdlen c0 \<and> ctx_secret c' = None \<and> ctx_ad c' = None \<and>
    ctx_allocate_cbk c' = None \<and> ctx_free_cbk c' = None \<and> ctx_flags c' = 0"
proof -
  obtain sb ob where b: "ctx_salt c = Some sb" "ctx_out c = Some ob" using assms(1) by (auto simp: valid_params_def)
  obtain sb0 ob0 where b0: "ctx_salt c0 = Some sb0" "ctx_out c0 = Some ob0" "unat (ctx_saltlen c) \<le> length sb0"
    "unat (ctx_outlen c) \<le> length ob0"
    using assms(7-9) by (auto simp: decode_buffers_def word_le_nat_alt)
  show ?thesis
    unfolding decode_encode [OF assms]
    by (rule exI, rule conjI, rule refl) (use assms(4,5) b b0 in \<open>simp add: poke_start\<close>)
qed

section \<open>Witnesses\<close>

text \<open>A context for decoding into, with buffers of \<open>n\<close> bytes, as \<^verbatim>\<open>argon2_verify\<close> makes it.\<close>

definition blank_context :: "nat \<Rightarrow> argon2_context" where
  "blank_context n = small_context\<lparr>ctx_salt := Some (replicate n 3), ctx_saltlen := word_of_nat n,
     ctx_out := Some (replicate n 4), ctx_outlen := word_of_nat n\<rparr>"

lemma blank_buffers: "n < 2 ^ 32 \<Longrightarrow> decode_buffers (blank_context n)"
  by (simp add: decode_buffers_def blank_context_def unat_small)

lemma small_encodable:
  "readable (ctx_salt small_context) (unat (ctx_saltlen small_context))"
  "readable (ctx_out small_context) (unat (ctx_outlen small_context))"
  by (simp_all add: small_context_def)

abbreviation small_phc :: "u8 list" where
  "small_phc \<equiv> phc Argon2_id (Some 19) 16 1 2 (replicate 8 1) (replicate 32 0)"

lemma small_phc_length: "length small_phc = 83"
  by (simp add: length_phc numlen_eq argon2_type2string_def decimal.simps length_b64)

theorem encode_string_spec_witness:
  "encode_string (replicate 100 7) 84 (Some small_context) Argon2_id =
      (ARGON2_OK, small_phc @ [0] @ replicate 16 7) \<and>
    fst (encode_string (replicate 100 7) 83 (Some small_context) Argon2_id) = ARGON2_ENCODING_FAIL"
  using encode_string_spec [OF small_context_ok(2) small_inputs(2) _ small_encodable refl, of 84 "replicate 100 7"]
    encode_string_spec [OF small_context_ok(2) small_inputs(2) _ small_encodable refl, of 83 "replicate 100 7"] small_phc_length
  by (auto simp: small_context_def)

theorem decode_string_spec_witness:
  "decode_string (blank_context 84) small_phc Argon2_id =
    (ARGON2_OK, decoded 19 16 1 2 (replicate 8 1) (replicate 32 0) (blank_context 84))"
proof -
  have r: "small_phc = map (\<lambda>b. if 128 \<le> unat b then 47 else b) small_phc"
    unfolding as_read_def [symmetric] by (rule as_read_ascii [symmetric]) (simp add: printable_ascii printable_phc)
  have "valid_params (decoded 19 16 1 2 (replicate 8 1) (replicate 32 0) (blank_context 84))"
    by (simp add: valid_decoded blank_context_def small_context_def)
  moreover have "length (replicate 8 (1 :: u8)) \<le> unat (ctx_saltlen (blank_context 84))"
    "length (replicate 32 (0 :: u8)) \<le> unat (ctx_outlen (blank_context 84))"
    by (simp_all add: blank_context_def)
  ultimately show ?thesis
    unfolding decode_string_spec [OF blank_buffers [of 84, simplified] r] using small_inputs(2)
    by (intro conjI exI disjI1) (assumption | rule refl)+
qed

lemma encode_decode_roundtrip_witness:
  "\<exists>d c'. encode_string (replicate 100 7) 84 (Some small_context) Argon2_id = (ARGON2_OK, d) \<and>
    decode_string (blank_context 84) (takeWhile (\<lambda>x. x \<noteq> 0) d) Argon2_id = (ARGON2_OK, c') \<and>
    ctx_m_cost c' = 16 \<and> ctx_lanes c' = 2 \<and> read_buf (ctx_salt c') (unat (ctx_saltlen c')) = replicate 8 1"
proof -
  obtain d where d: "encode_string (replicate 100 7) 84 (Some small_context) Argon2_id = (ARGON2_OK, d)"
    using encode_string_eq [OF small_context_ok(2) small_inputs(2) _ small_encodable, of 84 "replicate 100 7"] small_phc_length
    by (auto simp: small_context_def)
  have "decode_buffers (blank_context 84)" "ctx_saltlen small_context \<le> ctx_saltlen (blank_context 84)"
    "ctx_outlen small_context \<le> ctx_outlen (blank_context 84)"
    "ctx_pwd (blank_context 84) = None \<longrightarrow> ctx_pwdlen (blank_context 84) = 0"
    by (simp_all add: blank_buffers) (simp_all add: blank_context_def small_context_def)
  from encode_decode_roundtrip [OF small_context_ok(2) small_inputs(2) _ small_encodable d this]
  show ?thesis using d by (auto simp: small_context_def)
qed

end
