(* ===== verification/Api.thy ===== *)
theory Api
  imports Encoded_Form
begin

text \<open>
  The rest of \<^verbatim>\<open>src/argon2.c\<close>: hashing and verification with plain arguments, error messages and the
  size of an encoded form. Passwords and salts are the options of the buffers the pointers name, with
  their lengths in \<^verbatim>\<open>size_t\<close>; an output buffer is given with its content and returned with its new one.
  The buffers that a function obtains with \<^verbatim>\<open>malloc\<close> and gives back with \<^verbatim>\<open>free\<close> are part of the result,
  with the content they are given back with, because what is left in them stays in the heap.
\<close>

section \<open>Hashing\<close>

text \<open>The code, \<^verbatim>\<open>hash\<close>, \<^verbatim>\<open>encoded\<close>, and \<^verbatim>\<open>out\<close> as it is given back (\<open>None\<close> when nothing was obtained).\<close>

type_synonym hash_result = "argon2_error_codes \<times> u8 list option \<times> u8 list option \<times> u8 list option"

definition argon2_hash ::
  "env \<Rightarrow> u32 \<Rightarrow> u32 \<Rightarrow> u32 \<Rightarrow> u8 list option \<Rightarrow> nat \<Rightarrow> u8 list option \<Rightarrow> nat \<Rightarrow> u8 list option \<Rightarrow>
    nat \<Rightarrow> u8 list option \<Rightarrow> nat \<Rightarrow> argon2_type \<Rightarrow> u32 \<Rightarrow> hash_result" where
  "argon2_hash e t_cost m_cost parallelism pwd pwdlen salt saltlen hash hashlen encoded encodedlen type version =
     (if pwdlen > unat ARGON2_MAX_PWD_LENGTH then (ARGON2_PWD_TOO_LONG, hash, encoded, None)
      else if saltlen > unat ARGON2_MAX_SALT_LENGTH then (ARGON2_SALT_TOO_LONG, hash, encoded, None)
      else if hashlen > unat ARGON2_MAX_OUTLEN then (ARGON2_OUTPUT_TOO_LONG, hash, encoded, None)
      else if hashlen < unat ARGON2_MIN_OUTLEN then (ARGON2_OUTPUT_TOO_SHORT, hash, encoded, None)
      else let out = env_malloc e Alloc_hash_out hashlen in
      if out = None then (ARGON2_MEMORY_ALLOCATION_ERROR, hash, encoded, None)
      else let context = \<lparr>ctx_out = out, ctx_outlen = word_of_nat hashlen, ctx_pwd = pwd,
             ctx_pwdlen = word_of_nat pwdlen, ctx_salt = salt, ctx_saltlen = word_of_nat saltlen,
             ctx_secret = None, ctx_secretlen = 0, ctx_ad = None, ctx_adlen = 0,
             ctx_t_cost = t_cost, ctx_m_cost = m_cost, ctx_lanes = parallelism, ctx_threads = parallelism,
             ctx_version = version, ctx_allocate_cbk = None, ctx_free_cbk = None,
             ctx_flags = ARGON2_DEFAULT_FLAGS\<rparr>;
           (result, context, inst, rel) = argon2_ctx e (Some context) type;
           out = ctx_out (the context) in
      if result \<noteq> ARGON2_OK then (result, hash, encoded, clear_internal_memory (env_flag e) out hashlen)
      else let hash = (case hash of None \<Rightarrow> None | Some h \<Rightarrow> Some (memcpy_at h 0 (the out) hashlen)) in
      if encoded \<noteq> None \<and> encodedlen \<noteq> 0
      then let (result, enc) = encode_string (the encoded) encodedlen context type in
           if result \<noteq> ARGON2_OK
           then (ARGON2_ENCODING_FAIL, hash, clear_internal_memory (env_flag e) (Some enc) encodedlen,
                 clear_internal_memory (env_flag e) out hashlen)
           else (ARGON2_OK, hash, Some enc, clear_internal_memory (env_flag e) out hashlen)
      else (ARGON2_OK, hash, encoded, clear_internal_memory (env_flag e) out hashlen))"

definition argon2i_hash_encoded ::
  "env \<Rightarrow> u32 \<Rightarrow> u32 \<Rightarrow> u32 \<Rightarrow> u8 list option \<Rightarrow> nat \<Rightarrow> u8 list option \<Rightarrow> nat \<Rightarrow> nat \<Rightarrow>
    u8 list option \<Rightarrow> nat \<Rightarrow> hash_result" where
  "argon2i_hash_encoded e t_cost m_cost parallelism pwd pwdlen salt saltlen hashlen encoded encodedlen =
     argon2_hash e t_cost m_cost parallelism pwd pwdlen salt saltlen None hashlen encoded encodedlen
       Argon2_i ARGON2_VERSION_NUMBER"

definition argon2i_hash_raw ::
  "env \<Rightarrow> u32 \<Rightarrow> u32 \<Rightarrow> u32 \<Rightarrow> u8 list option \<Rightarrow> nat \<Rightarrow> u8 list option \<Rightarrow> nat \<Rightarrow> u8 list option \<Rightarrow>
    nat \<Rightarrow> hash_result" where
  "argon2i_hash_raw e t_cost m_cost parallelism pwd pwdlen salt saltlen hash hashlen =
     argon2_hash e t_cost m_cost parallelism pwd pwdlen salt saltlen hash hashlen None 0
       Argon2_i ARGON2_VERSION_NUMBER"

definition argon2d_hash_encoded ::
  "env \<Rightarrow> u32 \<Rightarrow> u32 \<Rightarrow> u32 \<Rightarrow> u8 list option \<Rightarrow> nat \<Rightarrow> u8 list option \<Rightarrow> nat \<Rightarrow> nat \<Rightarrow>
    u8 list option \<Rightarrow> nat \<Rightarrow> hash_result" where
  "argon2d_hash_encoded e t_cost m_cost parallelism pwd pwdlen salt saltlen hashlen encoded encodedlen =
     argon2_hash e t_cost m_cost parallelism pwd pwdlen salt saltlen None hashlen encoded encodedlen
       Argon2_d ARGON2_VERSION_NUMBER"

definition argon2d_hash_raw ::
  "env \<Rightarrow> u32 \<Rightarrow> u32 \<Rightarrow> u32 \<Rightarrow> u8 list option \<Rightarrow> nat \<Rightarrow> u8 list option \<Rightarrow> nat \<Rightarrow> u8 list option \<Rightarrow>
    nat \<Rightarrow> hash_result" where
  "argon2d_hash_raw e t_cost m_cost parallelism pwd pwdlen salt saltlen hash hashlen =
     argon2_hash e t_cost m_cost parallelism pwd pwdlen salt saltlen hash hashlen None 0
       Argon2_d ARGON2_VERSION_NUMBER"

definition argon2id_hash_encoded ::
  "env \<Rightarrow> u32 \<Rightarrow> u32 \<Rightarrow> u32 \<Rightarrow> u8 list option \<Rightarrow> nat \<Rightarrow> u8 list option \<Rightarrow> nat \<Rightarrow> nat \<Rightarrow>
    u8 list option \<Rightarrow> nat \<Rightarrow> hash_result" where
  "argon2id_hash_encoded e t_cost m_cost parallelism pwd pwdlen salt saltlen hashlen encoded encodedlen =
     argon2_hash e t_cost m_cost parallelism pwd pwdlen salt saltlen None hashlen encoded encodedlen
       Argon2_id ARGON2_VERSION_NUMBER"

definition argon2id_hash_raw ::
  "env \<Rightarrow> u32 \<Rightarrow> u32 \<Rightarrow> u32 \<Rightarrow> u8 list option \<Rightarrow> nat \<Rightarrow> u8 list option \<Rightarrow> nat \<Rightarrow> u8 list option \<Rightarrow>
    nat \<Rightarrow> hash_result" where
  "argon2id_hash_raw e t_cost m_cost parallelism pwd pwdlen salt saltlen hash hashlen =
     argon2_hash e t_cost m_cost parallelism pwd pwdlen salt saltlen hash hashlen None 0
       Argon2_id ARGON2_VERSION_NUMBER"

section \<open>Verification\<close>

text \<open>The arguments of the three calls of \<^verbatim>\<open>free\<close> behind the label \<^verbatim>\<open>fail\<close>: \<^verbatim>\<open>ctx.salt\<close>, \<^verbatim>\<open>ctx.out\<close> and
  \<^verbatim>\<open>desired_result\<close>. The outer option is \<open>None\<close> for a return before the first \<^verbatim>\<open>malloc\<close>. \<open>locals\<close> is what
  the uninitialised \<^verbatim>\<open>ctx\<close> holds, \<open>encoded\<close> the string without its terminating zero.\<close>

type_synonym verify_frees = "u8 list option \<times> u8 list option \<times> u8 list option"

definition argon2_verify ::
  "env \<Rightarrow> argon2_context \<Rightarrow> u8 list option \<Rightarrow> u8 list option \<Rightarrow> nat \<Rightarrow> argon2_type \<Rightarrow>
    argon2_error_codes \<times> verify_frees option" where
  "argon2_verify e locals encoded pwd pwdlen type =
     (if pwdlen > unat ARGON2_MAX_PWD_LENGTH then (ARGON2_PWD_TOO_LONG, None)
      else case encoded of None \<Rightarrow> (ARGON2_DECODING_FAIL, None)
      | Some encoded \<Rightarrow>
        let encoded_len = length encoded in
        if encoded_len > 0xFFFFFFFF then (ARGON2_DECODING_FAIL, None)
        else let max_field_len = word_of_nat encoded_len :: u32;
                 ctx = locals\<lparr>ctx_saltlen := max_field_len, ctx_outlen := max_field_len\<rparr>;
                 ctx = ctx\<lparr>ctx_salt := env_malloc e Alloc_verify_salt (unat (ctx_saltlen ctx)),
                           ctx_out := env_malloc e Alloc_verify_out (unat (ctx_outlen ctx))\<rparr> in
        if ctx_salt ctx = None \<or> ctx_out ctx = None
        then (ARGON2_MEMORY_ALLOCATION_ERROR, Some (ctx_salt ctx, ctx_out ctx, None))
        else let ctx = ctx\<lparr>ctx_pwd := pwd, ctx_pwdlen := word_of_nat pwdlen\<rparr>;
                 (ret, ctx) = decode_string ctx encoded type in
        if ret \<noteq> ARGON2_OK then (ret, Some (ctx_salt ctx, ctx_out ctx, None))
        else let desired_result = ctx_out ctx;
                 ctx = ctx\<lparr>ctx_out := env_malloc e Alloc_verify_result (unat (ctx_outlen ctx))\<rparr> in
        if ctx_out ctx = None
        then (ARGON2_MEMORY_ALLOCATION_ERROR, Some (ctx_salt ctx, ctx_out ctx, desired_result))
        else let (ret, ctx) = argon2_verify_ctx e (Some ctx) (the desired_result) type
             in (ret, Some (ctx_salt (the ctx), ctx_out (the ctx), desired_result)))"

definition argon2i_verify ::
  "env \<Rightarrow> argon2_context \<Rightarrow> u8 list option \<Rightarrow> u8 list option \<Rightarrow> nat \<Rightarrow> argon2_error_codes \<times> verify_frees option" where
  "argon2i_verify e locals encoded pwd pwdlen = argon2_verify e locals encoded pwd pwdlen Argon2_i"

definition argon2d_verify ::
  "env \<Rightarrow> argon2_context \<Rightarrow> u8 list option \<Rightarrow> u8 list option \<Rightarrow> nat \<Rightarrow> argon2_error_codes \<times> verify_frees option" where
  "argon2d_verify e locals encoded pwd pwdlen = argon2_verify e locals encoded pwd pwdlen Argon2_d"

definition argon2id_verify ::
  "env \<Rightarrow> argon2_context \<Rightarrow> u8 list option \<Rightarrow> u8 list option \<Rightarrow> nat \<Rightarrow> argon2_error_codes \<times> verify_frees option" where
  "argon2id_verify e locals encoded pwd pwdlen = argon2_verify e locals encoded pwd pwdlen Argon2_id"

section \<open>Messages and sizes\<close>

text \<open>The \<^verbatim>\<open>switch\<close> of \<^verbatim>\<open>argon2_error_message\<close>, case by case.\<close>

definition error_messages :: "(int \<times> string) list" where
  "error_messages =
     [(error_code ARGON2_OK, ''OK''),
      (error_code ARGON2_OUTPUT_PTR_NULL, ''Output pointer is NULL''),
      (error_code ARGON2_OUTPUT_TOO_SHORT, ''Output is too short''),
      (error_code ARGON2_OUTPUT_TOO_LONG, ''Output is too long''),
      (error_code ARGON2_PWD_TOO_SHORT, ''Password is too short''),
      (error_code ARGON2_PWD_TOO_LONG, ''Password is too long''),
      (error_code ARGON2_SALT_TOO_SHORT, ''Salt is too short''),
      (error_code ARGON2_SALT_TOO_LONG, ''Salt is too long''),
      (error_code ARGON2_AD_TOO_SHORT, ''Associated data is too short''),
      (error_code ARGON2_AD_TOO_LONG, ''Associated data is too long''),
      (error_code ARGON2_SECRET_TOO_SHORT, ''Secret is too short''),
      (error_code ARGON2_SECRET_TOO_LONG, ''Secret is too long''),
      (error_code ARGON2_TIME_TOO_SMALL, ''Time cost is too small''),
      (error_code ARGON2_TIME_TOO_LARGE, ''Time cost is too large''),
      (error_code ARGON2_MEMORY_TOO_LITTLE, ''Memory cost is too small''),
      (error_code ARGON2_MEMORY_TOO_MUCH, ''Memory cost is too large''),
      (error_code ARGON2_LANES_TOO_FEW, ''Too few lanes''),
      (error_code ARGON2_LANES_TOO_MANY, ''Too many lanes''),
      (error_code ARGON2_PWD_PTR_MISMATCH, ''Password pointer is NULL, but password length is not 0''),
      (error_code ARGON2_SALT_PTR_MISMATCH, ''Salt pointer is NULL, but salt length is not 0''),
      (error_code ARGON2_SECRET_PTR_MISMATCH, ''Secret pointer is NULL, but secret length is not 0''),
      (error_code ARGON2_AD_PTR_MISMATCH, ''Associated data pointer is NULL, but ad length is not 0''),
      (error_code ARGON2_MEMORY_ALLOCATION_ERROR, ''Memory allocation error''),
      (error_code ARGON2_FREE_MEMORY_CBK_NULL, ''The free memory callback is NULL''),
      (error_code ARGON2_ALLOCATE_MEMORY_CBK_NULL, ''The allocate memory callback is NULL''),
      (error_code ARGON2_INCORRECT_PARAMETER, ''Argon2_Context context is NULL''),
      (error_code ARGON2_INCORRECT_TYPE, ''There is no such version of Argon2''),
      (error_code ARGON2_OUT_PTR_MISMATCH, ''Output pointer mismatch''),
      (error_code ARGON2_THREADS_TOO_FEW, ''Not enough threads''),
      (error_code ARGON2_THREADS_TOO_MANY, ''Too many threads''),
      (error_code ARGON2_MISSING_ARGS, ''Missing arguments''),
      (error_code ARGON2_ENCODING_FAIL, ''Encoding failed''),
      (error_code ARGON2_DECODING_FAIL, ''Decoding failed''),
      (error_code ARGON2_THREAD_FAIL, ''Threading failure''),
      (error_code ARGON2_DECODING_LENGTH_FAIL, ''Some of encoded parameters are too long or too short''),
      (error_code ARGON2_VERIFY_MISMATCH, ''The password does not match the supplied hash'')]"

definition argon2_error_message :: "int \<Rightarrow> string" where
  "argon2_error_message code =
     (case map_of error_messages code of Some s \<Rightarrow> s | None \<Rightarrow> ''Unknown error code'')"

definition argon2_encodedlen :: "u32 \<Rightarrow> u32 \<Rightarrow> u32 \<Rightarrow> u32 \<Rightarrow> u32 \<Rightarrow> argon2_type \<Rightarrow> nat" where
  "argon2_encodedlen t_cost m_cost parallelism saltlen hashlen type =
     (length ''$$v=$m=,t=,p=$$'' + length (the (argon2_type2string type 0)) +
      numlen t_cost + numlen m_cost + numlen parallelism +
      b64len saltlen + b64len hashlen + numlen ARGON2_VERSION_NUMBER + 1) mod 2 ^ 64"

end
