(* ===== verification/Addon.thy ===== *)
theory Addon
  imports Api
begin

text \<open>
  The native addon \<^verbatim>\<open>argon2_core.cpp\<close>, through which JavaScript hashes and verifies: secure buffers, the two
  workers and the entry points \<open>Hash\<close> and \<open>Verify\<close>.

  The library node-addon-api is not part of the repository. A JavaScript value is a buffer, a number of
  the type \<open>'n\<close> or something else, an options object maps property names to values, and the conversion
  \<^verbatim>\<open>Uint32Value\<close> is the argument \<open>u\<close> of the functions that use it. A worker is constructed, \<^verbatim>\<open>Execute\<close> runs
  on another thread, then \<^verbatim>\<open>OnError\<close> is called if it has set an error or thrown an exception and \<^verbatim>\<open>OnOK\<close>
  otherwise, and the worker is destroyed. What the promise becomes is a \<open>js_result\<close>. Calls of the operating
  system that have no result of interest, and the release of memory with its content at that moment,
  are a list of \<open>os_call\<close>s. The record \<open>addon_env\<close> is what the environment decides: the aligned
  allocator, whether resizing a vector throws, whether \<^verbatim>\<open>data()\<close> of an empty vector is null, and
  the environment of the core. The allocations of the constructors are taken to succeed, except those of
  the secure buffers.
\<close>

section \<open>Memory\<close>

datatype os_call = Os_memalign nat nat | Os_dontdump nat | Os_hugepage nat | Os_lock nat | Os_unlock nat
  | Os_free "u8 list" | Os_delete "u8 list"

record addon_env =
  ae_core :: env
  ae_linux :: bool
  ae_memalign :: "nat \<Rightarrow> nat \<Rightarrow> u8 list option"
  ae_resize :: "nat \<Rightarrow> string option"
  ae_empty_null :: bool

text \<open>Each branch of the preprocessor writes zeros.\<close>

definition secure_wipe :: "u8 list option \<Rightarrow> nat \<Rightarrow> u8 list option" where
  "secure_wipe ptr sz =
     (if ptr = None \<or> sz = 0 then ptr else Some (memset_at (the ptr) 0 0 sz))"

definition lock_memory :: "u8 list option \<Rightarrow> nat \<Rightarrow> os_call list" where
  "lock_memory ptr sz = (if ptr = None \<or> sz = 0 then [] else [Os_lock sz])"

definition unlock_memory :: "u8 list option \<Rightarrow> nat \<Rightarrow> os_call list" where
  "unlock_memory ptr sz = (if ptr = None \<or> sz = 0 then [] else [Os_unlock sz])"

definition HUGE_PAGE_SIZE :: nat where "HUGE_PAGE_SIZE = 2 * 1024 * 1024"

text \<open>The return value, \<^verbatim>\<open>*memory\<close> and the calls after the allocation.\<close>

definition custom_allocate :: "addon_env \<Rightarrow> nat \<Rightarrow> int \<times> u8 list option \<times> os_call list" where
  "custom_allocate ae n =
     (let alignment = (if n \<ge> HUGE_PAGE_SIZE then HUGE_PAGE_SIZE else 4096) in
      case ae_memalign ae alignment n of None \<Rightarrow> (-1, None, [])
      | Some memory \<Rightarrow>
          (0, Some memory, Os_memalign alignment n #
            (if ae_linux ae then Os_dontdump n # (if n \<ge> HUGE_PAGE_SIZE then [Os_hugepage n] else []) else []) @
            lock_memory (Some memory) n))"

definition custom_free :: "u8 list option \<Rightarrow> nat \<Rightarrow> os_call list" where
  "custom_free memory n =
     (case memory of None \<Rightarrow> [] | Some b \<Rightarrow> unlock_memory memory n @ [Os_free b])"

definition constant_time_compare :: "u8 list \<Rightarrow> u8 list \<Rightarrow> nat \<Rightarrow> bool" where
  "constant_time_compare a b len =
     (let result = fold (\<lambda>i result. result OR (a ! i XOR b ! i)) [0..<len] 0 in result = 0)"

record secure_buffer =
  sb_data :: "u8 list option"
  sb_size :: nat
  sb_ok :: bool

definition SecureBuffer :: "addon_env \<Rightarrow> u8 list \<Rightarrow> secure_buffer \<times> os_call list" where
  "SecureBuffer ae napi_buf =
     (let sz = length napi_buf in
      if sz = 0 then (\<lparr>sb_data = None, sb_size = sz, sb_ok = True\<rparr>, [])
      else let (rc, data, calls) = custom_allocate ae sz in
      if rc \<noteq> 0 then (\<lparr>sb_data = data, sb_size = sz, sb_ok = False\<rparr>, calls)
      else (\<lparr>sb_data = Some (memcpy_at (the data) 0 napi_buf sz), sb_size = sz, sb_ok = True\<rparr>, calls))"

definition SecureBuffer_destroy :: "secure_buffer \<Rightarrow> os_call list" where
  "SecureBuffer_destroy b =
     (if sb_data b \<noteq> None then custom_free (secure_wipe (sb_data b) (sb_size b)) (sb_size b) else [])"

definition vector_data :: "addon_env \<Rightarrow> u8 list \<Rightarrow> u8 list option" where
  "vector_data ae v = (if v = [] \<and> ae_empty_null ae then None else Some v)"

section \<open>Options\<close>

datatype 'n js_value = Js_buffer "u8 list" | Js_number 'n | Js_other

type_synonym 'n js_object = "string \<Rightarrow> 'n js_value"

datatype 'n js_arg = Js_object "'n js_object" | Js_no_object

datatype js_result = Js_resolve_buffer "u8 list" | Js_resolve_boolean bool | Js_reject string

definition GetBuffer :: "'n js_object \<Rightarrow> string \<Rightarrow> u8 list option" where
  "GetBuffer args name = (case args name of Js_buffer b \<Rightarrow> Some b | _ \<Rightarrow> None)"

definition GetUint32 :: "('n \<Rightarrow> u32) \<Rightarrow> 'n js_object \<Rightarrow> string \<Rightarrow> u32 option" where
  "GetUint32 u args name = (case args name of Js_number x \<Rightarrow> Some (u x) | _ \<Rightarrow> None)"

record CommonArgs =
  arg_password :: "u8 list"
  arg_salt :: "u8 list"
  arg_secret :: "u8 list"
  arg_data :: "u8 list"
  arg_m :: u32
  arg_t :: u32
  arg_p :: u32
  arg_version :: u32
  arg_type :: u32

definition ExtractCommonArgs :: "('n \<Rightarrow> u32) \<Rightarrow> 'n js_object \<Rightarrow> CommonArgs option" where
  "ExtractCommonArgs u args =
     Option.bind (GetBuffer args ''password'') (\<lambda>password.
     Option.bind (GetBuffer args ''salt'') (\<lambda>salt.
     Option.bind (GetBuffer args ''secret'') (\<lambda>secret.
     Option.bind (GetBuffer args ''data'') (\<lambda>data.
     Option.bind (GetUint32 u args ''m'') (\<lambda>m.
     Option.bind (GetUint32 u args ''t'') (\<lambda>t.
     Option.bind (GetUint32 u args ''p'') (\<lambda>p.
     Option.bind (GetUint32 u args ''version'') (\<lambda>version.
     Option.bind (GetUint32 u args ''type'') (\<lambda>type.
       Some \<lparr>arg_password = password, arg_salt = salt, arg_secret = secret, arg_data = data,
         arg_m = m, arg_t = t, arg_p = p, arg_version = version, arg_type = type\<rparr>)))))))))"

section \<open>The workers\<close>

definition to_type :: "u32 \<Rightarrow> argon2_type" where
  "to_type w = (if w = 0 then Argon2_d else if w = 1 then Argon2_i else if w = 2 then Argon2_id else Argon2_invalid w)"

text \<open>What the two workers have in common; \<open>w_error\<close> is the error that has been set.\<close>

record worker =
  w_plain :: secure_buffer
  w_secret :: secure_buffer
  w_salt :: "u8 list"
  w_ad :: "u8 list"
  w_memory_cost :: u32
  w_time_cost :: u32
  w_parallelism :: u32
  w_version :: u32
  w_type :: argon2_type
  w_error :: "string option"

record HashWorker = worker +
  w_hash :: "u8 list"
  w_hash_length :: u32

record VerifyWorker = worker +
  w_computed_hash :: "u8 list"
  w_expected_hash :: "u8 list"
  w_match :: bool

text \<open>The assignments to \<^verbatim>\<open>ctx\<close>, which are the same in both workers but for the vector of the output.\<close>

definition worker_context :: "addon_env \<Rightarrow> u8 list \<Rightarrow> 'a worker_scheme \<Rightarrow> argon2_context" where
  "worker_context ae hash w =
     \<lparr>ctx_out = vector_data ae hash, ctx_outlen = word_of_nat (length hash),
      ctx_pwd = sb_data (w_plain w), ctx_pwdlen = word_of_nat (sb_size (w_plain w)),
      ctx_salt = vector_data ae (w_salt w), ctx_saltlen = word_of_nat (length (w_salt w)),
      ctx_secret = sb_data (w_secret w), ctx_secretlen = word_of_nat (sb_size (w_secret w)),
      ctx_ad = (if w_ad w = [] then None else Some (w_ad w)), ctx_adlen = word_of_nat (length (w_ad w)),
      ctx_t_cost = w_time_cost w, ctx_m_cost = w_memory_cost w,
      ctx_lanes = w_parallelism w, ctx_threads = w_parallelism w, ctx_version = w_version w,
      ctx_allocate_cbk = Some (\<lambda>n. fst (snd (custom_allocate ae n))), ctx_free_cbk = Some 0,
      ctx_flags = ARGON2_FLAG_CLEAR_PASSWORD OR ARGON2_FLAG_CLEAR_SECRET\<rparr>"

text \<open>The call of \<^verbatim>\<open>argon2_ctx\<close> on that context: the code, the worker with its buffers as the call leaves
  them, the output, and the calls of \<open>custom_free\<close> as the callback that gives the matrix back.\<close>

definition run_ctx ::
  "addon_env \<Rightarrow> u8 list \<Rightarrow> 'a worker_scheme \<Rightarrow>
    argon2_error_codes \<times> 'a worker_scheme \<times> u8 list \<times> os_call list" where
  "run_ctx ae hash w =
     (let (result, ctx, _, rel) = argon2_ctx (ae_core ae) (Some (worker_context ae hash w)) (w_type w);
          ctx = the ctx
      in (result,
          w\<lparr>w_plain := (w_plain w)\<lparr>sb_data := ctx_pwd ctx\<rparr>, w_secret := (w_secret w)\<lparr>sb_data := ctx_secret ctx\<rparr>\<rparr>,
          case ctx_out ctx of None \<Rightarrow> hash | Some b \<Rightarrow> b,
          case rel of Some (Release_cbk _ memory n) \<Rightarrow> custom_free memory n | _ \<Rightarrow> []))"

definition buffers_message :: string where
  "buffers_message = ''Failed to allocate secure memory for sensitive data''"

definition HashWorker_Execute :: "addon_env \<Rightarrow> HashWorker \<Rightarrow> HashWorker \<times> os_call list" where
  "HashWorker_Execute ae w =
     (if \<not> sb_ok (w_plain w) \<or> \<not> sb_ok (w_secret w) then (w\<lparr>w_error := Some buffers_message\<rparr>, [])
      else case ae_resize ae (unat (w_hash_length w)) of Some what \<Rightarrow> (w\<lparr>w_error := Some what\<rparr>, [])
      | None \<Rightarrow>
          (let (result, w, hash, calls) = run_ctx ae (replicate (unat (w_hash_length w)) 0) w;
               w = w\<lparr>w_hash := hash\<rparr>
           in (if result \<noteq> ARGON2_OK then w\<lparr>w_error := Some (argon2_error_message (error_code result))\<rparr> else w,
               calls)))"

definition VerifyWorker_Execute :: "addon_env \<Rightarrow> VerifyWorker \<Rightarrow> VerifyWorker \<times> os_call list" where
  "VerifyWorker_Execute ae w =
     (if \<not> sb_ok (w_plain w) \<or> \<not> sb_ok (w_secret w) then (w\<lparr>w_error := Some buffers_message\<rparr>, [])
      else case ae_resize ae (length (w_expected_hash w)) of Some what \<Rightarrow> (w\<lparr>w_error := Some what\<rparr>, [])
      | None \<Rightarrow>
          (let (result, w, hash, calls) = run_ctx ae (replicate (length (w_expected_hash w)) 0) w;
               w = w\<lparr>w_computed_hash := hash\<rparr>
           in (if result \<noteq> ARGON2_OK then w\<lparr>w_error := Some (argon2_error_message (error_code result))\<rparr>
               else w\<lparr>w_match := constant_time_compare (w_computed_hash w) (w_expected_hash w)
                                 (length (w_expected_hash w))\<rparr>,
               calls)))"

text \<open>\<^verbatim>\<open>OnOK\<close> and \<^verbatim>\<open>OnError\<close>.\<close>

definition HashWorker_result :: "HashWorker \<Rightarrow> js_result" where
  "HashWorker_result w = (case w_error w of None \<Rightarrow> Js_resolve_buffer (w_hash w) | Some m \<Rightarrow> Js_reject m)"

definition VerifyWorker_result :: "VerifyWorker \<Rightarrow> js_result" where
  "VerifyWorker_result w = (case w_error w of None \<Rightarrow> Js_resolve_boolean (w_match w) | Some m \<Rightarrow> Js_reject m)"

text \<open>The destructors: the body, then the members in the reverse order of their declaration.\<close>

definition delete_vector :: "u8 list \<Rightarrow> os_call list" where
  "delete_vector v = (if v = [] then [] else [Os_delete v])"

definition HashWorker_destroy :: "HashWorker \<Rightarrow> os_call list" where
  "HashWorker_destroy w =
     (let hash = the (secure_wipe (Some (w_hash w)) (length (w_hash w)))
      in delete_vector (w_ad w) @ delete_vector (w_salt w) @ SecureBuffer_destroy (w_secret w) @
         SecureBuffer_destroy (w_plain w) @ delete_vector hash)"

definition VerifyWorker_destroy :: "VerifyWorker \<Rightarrow> os_call list" where
  "VerifyWorker_destroy w =
     (let computed_hash = the (secure_wipe (Some (w_computed_hash w)) (length (w_computed_hash w)))
      in delete_vector (w_ad w) @ delete_vector (w_salt w) @ delete_vector (w_expected_hash w) @
         delete_vector computed_hash @ SecureBuffer_destroy (w_secret w) @ SecureBuffer_destroy (w_plain w))"

section \<open>The entry points\<close>

text \<open>The constructors, with the calls for the secure buffers.\<close>

definition new_HashWorker :: "addon_env \<Rightarrow> CommonArgs \<Rightarrow> u32 \<Rightarrow> HashWorker \<times> os_call list" where
  "new_HashWorker ae c hash_length =
     (let (plain, calls) = SecureBuffer ae (arg_password c);
          (secret, calls') = SecureBuffer ae (arg_secret c)
      in (\<lparr>w_plain = plain, w_secret = secret, w_salt = arg_salt c, w_ad = arg_data c, w_memory_cost = arg_m c,
           w_time_cost = arg_t c, w_parallelism = arg_p c, w_version = arg_version c, w_type = to_type (arg_type c),
           w_error = None, w_hash = [], w_hash_length = hash_length\<rparr>, calls @ calls'))"

definition new_VerifyWorker :: "addon_env \<Rightarrow> CommonArgs \<Rightarrow> u8 list \<Rightarrow> VerifyWorker \<times> os_call list" where
  "new_VerifyWorker ae c expected_hash =
     (let (plain, calls) = SecureBuffer ae (arg_password c);
          (secret, calls') = SecureBuffer ae (arg_secret c)
      in (\<lparr>w_plain = plain, w_secret = secret, w_salt = arg_salt c, w_ad = arg_data c, w_memory_cost = arg_m c,
           w_time_cost = arg_t c, w_parallelism = arg_p c, w_version = arg_version c, w_type = to_type (arg_type c),
           w_error = None, w_computed_hash = [], w_expected_hash = expected_hash, w_match = False\<rparr>, calls @ calls'))"

definition Hash :: "addon_env \<Rightarrow> ('n \<Rightarrow> u32) \<Rightarrow> 'n js_arg list \<Rightarrow> js_result \<times> os_call list" where
  "Hash ae u info =
     (case info of
        Js_object args # _ \<Rightarrow>
          (case (ExtractCommonArgs u args, GetUint32 u args ''hashLength'') of
             (Some common, Some hash_length) \<Rightarrow>
               (let (worker, calls) = new_HashWorker ae common hash_length;
                    (worker, calls') = HashWorker_Execute ae worker
                in (HashWorker_result worker, calls @ calls' @ HashWorker_destroy worker))
           | _ \<Rightarrow> (Js_reject ''hash: invalid or missing option (expected Buffers and numbers)'', []))
      | _ \<Rightarrow> (Js_reject ''hash: expected an options object'', []))"

definition Verify :: "addon_env \<Rightarrow> ('n \<Rightarrow> u32) \<Rightarrow> 'n js_arg list \<Rightarrow> js_result \<times> os_call list" where
  "Verify ae u info =
     (case info of
        Js_object args # _ \<Rightarrow>
          (case (ExtractCommonArgs u args, GetBuffer args ''expectedHash'') of
             (Some common, Some expected_hash) \<Rightarrow>
               (let (worker, calls) = new_VerifyWorker ae common expected_hash;
                    (worker, calls') = VerifyWorker_Execute ae worker
                in (VerifyWorker_result worker, calls @ calls' @ VerifyWorker_destroy worker))
           | _ \<Rightarrow> (Js_reject ''verify: invalid or missing option (expected Buffers and numbers)'', []))
      | _ \<Rightarrow> (Js_reject ''verify: expected an options object'', []))"

end
