(* ===== verification/Api_Props.thy ===== *)
theory Api_Props
  imports Api
begin

text \<open>
  What the functions of \<open>Api\<close> promise: the hash and its encoded form on success, what is left behind on
  every failure, verification, and the sizes and messages.
\<close>

section \<open>The context of a call\<close>

definition hash_context ::
  "u8 list option \<Rightarrow> u32 \<Rightarrow> u32 \<Rightarrow> u32 \<Rightarrow> u8 list option \<Rightarrow> nat \<Rightarrow> u8 list option \<Rightarrow> nat \<Rightarrow> nat \<Rightarrow> u32 \<Rightarrow> argon2_context" where
  "hash_context out t m p pwd pwdlen salt saltlen hashlen v =
     \<lparr>ctx_out = out, ctx_outlen = word_of_nat hashlen, ctx_pwd = pwd,
      ctx_pwdlen = word_of_nat pwdlen, ctx_salt = salt, ctx_saltlen = word_of_nat saltlen,
      ctx_secret = None, ctx_secretlen = 0, ctx_ad = None, ctx_adlen = 0,
      ctx_t_cost = t, ctx_m_cost = m, ctx_lanes = p, ctx_threads = p,
      ctx_version = v, ctx_allocate_cbk = None, ctx_free_cbk = None, ctx_flags = ARGON2_DEFAULT_FLAGS\<rparr>"

text \<open>The arguments that RFC 9106 and the limits of \<^verbatim>\<open>argon2.h\<close> allow.\<close>

definition hash_args :: "u32 \<Rightarrow> u32 \<Rightarrow> u32 \<Rightarrow> u8 list option \<Rightarrow> nat \<Rightarrow> u8 list option \<Rightarrow> nat \<Rightarrow> nat \<Rightarrow> bool" where
  "hash_args t m p pwd pwdlen salt saltlen hashlen \<longleftrightarrow>
     pwdlen < 2 ^ 32 \<and> (pwd = None \<longrightarrow> pwdlen = 0) \<and> salt \<noteq> None \<and> 8 \<le> saltlen \<and> saltlen < 2 ^ 32 \<and>
     4 \<le> hashlen \<and> hashlen < 2 ^ 32 \<and> 8 * unat p \<le> unat m \<and> 1 \<le> unat t \<and> 1 \<le> unat p \<and> unat p < 2 ^ 24"

lemma word_of_nat_zero: "n < 2 ^ 32 \<Longrightarrow> (word_of_nat n :: u32) = 0 \<longleftrightarrow> n = 0"
  by (simp only: word_unat_eq_iff unsigned_0 unat_small)

lemma valid_hash_context:
  assumes "pwdlen < 2 ^ 32" "saltlen < 2 ^ 32" "4 \<le> hashlen" "hashlen < 2 ^ 32"
  shows "valid_params (hash_context (Some out) t m p pwd pwdlen salt saltlen hashlen v) \<longleftrightarrow>
    hash_args t m p pwd pwdlen salt saltlen hashlen"
proof -
  note u = unat_small [OF assms(1)] unat_small [OF assms(2)] unat_small [OF assms(4)] word_of_nat_zero [OF assms(1)]
  show ?thesis
    using assms unfolding valid_params_def hash_context_def hash_args_def argon2_context.simps u
    by auto
qed

lemma hash_context_wiped:
  "wipe_secret (wipe_password (hash_context out t m p pwd pwdlen salt saltlen hashlen v)) =
    hash_context out t m p pwd pwdlen salt saltlen hashlen v"
  by (simp add: hash_context_def wipe_secret_def wipe_password_def ARGON2_DEFAULT_FLAGS_def split: option.split)

lemma hash_context_fields [simp]:
  "ctx_out (hash_context out t m p pwd pwdlen salt saltlen hashlen v) = out"
  "ctx_salt (hash_context out t m p pwd pwdlen salt saltlen hashlen v) = salt"
  "ctx_saltlen (hash_context out t m p pwd pwdlen salt saltlen hashlen v) = word_of_nat saltlen"
  "ctx_outlen (hash_context out t m p pwd pwdlen salt saltlen hashlen v) = word_of_nat hashlen"
  "ctx_version (hash_context out t m p pwd pwdlen salt saltlen hashlen v) = v"
  "ctx_m_cost (hash_context out t m p pwd pwdlen salt saltlen hashlen v) = m"
  "ctx_t_cost (hash_context out t m p pwd pwdlen salt saltlen hashlen v) = t"
  "ctx_lanes (hash_context out t m p pwd pwdlen salt saltlen hashlen v) = p"
  "ctx_threads (hash_context out t m p pwd pwdlen salt saltlen hashlen v) = p"
  "hash_context out t m p pwd pwdlen salt saltlen hashlen v\<lparr>ctx_out := out'\<rparr> =
    hash_context out' t m p pwd pwdlen salt saltlen hashlen v"
  by (simp_all add: hash_context_def)

text \<open>The tag and the encoded form that the arguments determine.\<close>

definition hash_tag ::
  "argon2_type \<Rightarrow> u32 \<Rightarrow> u32 \<Rightarrow> u32 \<Rightarrow> u8 list option \<Rightarrow> nat \<Rightarrow> u8 list option \<Rightarrow> nat \<Rightarrow> nat \<Rightarrow> u32 \<Rightarrow> u8 list" where
  "hash_tag y t m p pwd pwdlen salt saltlen hashlen v =
     rfc_argon2 y (unat v) (unat p) hashlen (unat m) (unat t) (read_buf pwd pwdlen) (read_buf salt saltlen) [] []"

definition hash_phc ::
  "argon2_type \<Rightarrow> u32 \<Rightarrow> u32 \<Rightarrow> u32 \<Rightarrow> u8 list option \<Rightarrow> nat \<Rightarrow> u8 list option \<Rightarrow> nat \<Rightarrow> nat \<Rightarrow> u32 \<Rightarrow> u8 list" where
  "hash_phc y t m p pwd pwdlen salt saltlen hashlen v =
     phc y (Some v) m t p (read_buf salt saltlen) (hash_tag y t m p pwd pwdlen salt saltlen hashlen v)"

lemma ctx_tag_hash_context:
  assumes "pwdlen < 2 ^ 32" "saltlen < 2 ^ 32" "hashlen < 2 ^ 32"
  shows "ctx_tag (hash_context out t m p pwd pwdlen salt saltlen hashlen v) y =
    hash_tag y t m p pwd pwdlen salt saltlen hashlen v"
  unfolding ctx_tag_def hash_context_def hash_tag_def argon2_context.simps unat_small [OF assms(1)]
    unat_small [OF assms(2)] unat_small [OF assms(3)]
  by simp

lemma length_hash_tag: "4 \<le> hashlen \<Longrightarrow> length (hash_tag y t m p pwd pwdlen salt saltlen hashlen v) = hashlen"
  by (simp add: hash_tag_def rfc_argon2_def rfc_tag_def Let_def)

section \<open>The context pipeline\<close>

text \<open>\<^verbatim>\<open>argon2_ctx\<close> on the context that \<^verbatim>\<open>argon2_hash\<close> builds.\<close>

definition hash_bytes :: "u32 \<Rightarrow> u32 \<Rightarrow> nat" where
  "hash_bytes m p = 4 * unat p * (unat m div (4 * unat p)) * 1024"

definition hash_succeeds :: "env \<Rightarrow> u32 \<Rightarrow> u32 \<Rightarrow> bool" where
  "hash_succeeds e m p \<longleftrightarrow> env_malloc e Alloc_matrix (hash_bytes m p) \<noteq> None \<and> (unat p = 1 \<or> threads_succeed e)"

lemma hash_ctx_eq:
  fixes v :: u32
  assumes "hash_args t m p pwd pwdlen salt saltlen hashlen" "readable pwd pwdlen" "readable salt saltlen"
    and "supported y" "env_ok e" "length out = hashlen"
  defines "c \<equiv> hash_context (Some out) t m p pwd pwdlen salt saltlen hashlen v"
  shows "\<exists>rc out' inst rel. argon2_ctx e (Some c) y = (rc, Some (c\<lparr>ctx_out := Some out'\<rparr>), inst, rel) \<and>
    length out' = hashlen \<and>
    (rc = ARGON2_OK \<longrightarrow> out' = hash_tag y t m p pwd pwdlen salt saltlen hashlen v) \<and>
    (hash_succeeds e m p \<longrightarrow> rc = ARGON2_OK) \<and>
    rc \<in> {ARGON2_OK, ARGON2_THREAD_FAIL, ARGON2_MEMORY_ALLOCATION_ERROR}"
proof -
  have lt: "pwdlen < 2 ^ 32" "saltlen < 2 ^ 32" "4 \<le> hashlen" "hashlen < 2 ^ 32"
    using assms(1) by (simp_all add: hash_args_def)
  note u = unat_small [OF lt(1)] unat_small [OF lt(2)] unat_small [OF lt(4)]
  have v: "valid_params c" unfolding c_def valid_hash_context [OF lt] by (rule assms(1))
  have i: "ctx_inputs c"
    using assms(2,3,6) unfolding ctx_inputs_def ctx_readable_def c_def hash_context_def argon2_context.simps u by simp
  have call: "call_alloc e c = env_malloc e Alloc_matrix" by (simp add: call_alloc_def c_def hash_context_def)
  then have a: "alloc_ok (call_alloc e c)" using assms(5) by (simp add: env_ok_def)
  have f: "unat (ctx_lanes c) = unat p" "unat (ctx_threads c) = unat p" "matrix_bytes c = hash_bytes m p"
    "wipe_secret (wipe_password c) = c" "unat (ctx_outlen c) = hashlen" "ctx_out c = Some out"
    "ctx_tag c y = hash_tag y t m p pwd pwdlen salt saltlen hashlen v" "c\<lparr>ctx_out := Some out\<rparr> = c"
    using ctx_tag_hash_context [OF lt(1,2,4)]
    by (simp_all add: c_def matrix_bytes_def hash_bytes_def hash_context_wiped u del: unsigned_of_nat)
  note A = argon2_ctx_eq [OF v i assms(4,5) a, unfolded call f min.idem]
  show ?thesis
  proof (cases "env_malloc e Alloc_matrix (hash_bytes m p)")
    case None
    then show ?thesis using A assms(6) f(8) by (auto simp: hash_succeeds_def intro!: exI [of _ out])
  next
    case (Some b)
    then obtain rc c' inst rel where r: "argon2_ctx e (Some c) y = (rc, Some c', Some inst, rel)"
      and ok: "rc = ARGON2_OK \<longrightarrow> c' = c\<lparr>ctx_out := Some (hash_tag y t m p pwd pwdlen salt saltlen hashlen v @ drop hashlen (the (Some out)))\<rparr>"
      and ne: "rc \<noteq> ARGON2_OK \<longrightarrow> c' = c"
      and s: "unat p = 1 \<or> threads_succeed e \<longrightarrow> rc = ARGON2_OK"
      and rcs: "rc \<in> {ARGON2_OK, ARGON2_THREAD_FAIL, ARGON2_MEMORY_ALLOCATION_ERROR}"
      using A by auto
    have "\<exists>out'. c' = c\<lparr>ctx_out := Some out'\<rparr> \<and> length out' = hashlen \<and>
        (rc = ARGON2_OK \<longrightarrow> out' = hash_tag y t m p pwd pwdlen salt saltlen hashlen v)"
      using ok ne assms(6) f(8) length_hash_tag [OF lt(3)] by (cases "rc = ARGON2_OK") (auto intro!: exI)
    then show ?thesis using r s rcs by (auto simp: hash_succeeds_def)
  qed
qed


section \<open>Hashing\<close>

text \<open>What \<^verbatim>\<open>argon2_hash\<close> does once the hash is computed, from \<open>hash\<close> and \<open>encoded\<close> and the error of its parts.\<close>

lemma memcpy_start: "memcpy_at h 0 w (length w) = w @ drop (length w) h"
  by (simp add: memcpy_at_def)

lemma cleared: "length b = n \<Longrightarrow> fl \<noteq> 0 \<Longrightarrow> clear_internal_memory fl (Some b) n = Some (replicate n 0)"
  by (simp add: wipe_simps)

definition wiped_out :: "env \<Rightarrow> nat \<Rightarrow> u8 list option \<Rightarrow> bool" where
  "wiped_out e n o' \<longleftrightarrow> (\<exists>b. o' = Some b \<and> length b = n \<and> (env_flag e \<noteq> 0 \<longrightarrow> b = replicate n 0))"

lemma wiped_outI: "length b = n \<Longrightarrow> wiped_out e n (clear_internal_memory (env_flag e) (Some b) n)"
  by (auto simp: wiped_out_def clear_internal_memory_def wipe_simps)

lemma argon2_hash_eq:
  fixes v :: u32 and hash :: "u8 list option"
  assumes "hash_args t m p pwd pwdlen salt saltlen hashlen" "readable pwd pwdlen" "readable salt saltlen"
    and "supported y" "env_ok e" "env_malloc e Alloc_hash_out hashlen \<noteq> None"
    and "\<And>b. encoded = Some b \<Longrightarrow> encodedlen \<le> length b"
  defines "T \<equiv> hash_tag y t m p pwd pwdlen salt saltlen hashlen v"
    and "w \<equiv> hash_phc y t m p pwd pwdlen salt saltlen hashlen v"
    and "R \<equiv> argon2_hash e t m p pwd pwdlen salt saltlen hash hashlen encoded encodedlen y v"
  shows "(\<exists>rc o'. rc \<in> {ARGON2_THREAD_FAIL, ARGON2_MEMORY_ALLOCATION_ERROR} \<and> \<not> hash_succeeds e m p \<and>
        R = (rc, hash, encoded, o') \<and> wiped_out e hashlen o') \<or>
    (\<exists>rc enc o'. R = (rc, map_option (\<lambda>h. T @ drop hashlen h) hash, enc, o') \<and> wiped_out e hashlen o' \<and>
      (if encoded = None \<or> encodedlen = 0 then rc = ARGON2_OK \<and> enc = encoded
       else if length w < encodedlen then rc = ARGON2_OK \<and> enc = Some (w @ [0] @ drop (length w + 1) (the encoded))
       else rc = ARGON2_ENCODING_FAIL \<and>
         (\<exists>b. enc = Some b \<and> length b = length (the encoded) \<and> drop encodedlen b = drop encodedlen (the encoded) \<and>
           (env_flag e \<noteq> 0 \<longrightarrow> take encodedlen b = replicate encodedlen 0))))"
proof -
  have lt: "pwdlen < 2 ^ 32" "saltlen < 2 ^ 32" "4 \<le> hashlen" "hashlen < 2 ^ 32"
    using assms(1) by (simp_all add: hash_args_def)
  have guards: "(pwdlen > unat ARGON2_MAX_PWD_LENGTH) = False" "(saltlen > unat ARGON2_MAX_SALT_LENGTH) = False"
    "(hashlen > unat ARGON2_MAX_OUTLEN) = False" "(hashlen < unat ARGON2_MIN_OUTLEN) = False"
    using lt by (simp_all add: argon2_limits)
  obtain out where out: "env_malloc e Alloc_hash_out hashlen = Some out" using assms(6) by blast
  have lo: "length out = hashlen" using assms(5) out by (simp add: env_ok_def alloc_ok_def)
  define c where "c = hash_context (Some out) t m p pwd pwdlen salt saltlen hashlen v"
  obtain rc out' inst rel where r: "argon2_ctx e (Some c) y = (rc, Some (c\<lparr>ctx_out := Some out'\<rparr>), inst, rel)"
    and o': "length out' = hashlen" "rc = ARGON2_OK \<longrightarrow> out' = T"
    and s: "hash_succeeds e m p \<longrightarrow> rc = ARGON2_OK"
    and rcs: "rc \<in> {ARGON2_OK, ARGON2_THREAD_FAIL, ARGON2_MEMORY_ALLOCATION_ERROR}"
    using hash_ctx_eq [OF assms(1-5) lo, of v] unfolding c_def T_def by blast
  define o2 where "o2 = clear_internal_memory (env_flag e) (Some out') hashlen"
  have w2: "wiped_out e hashlen o2" unfolding o2_def by (rule wiped_outI [OF o'(1)])
  define hash2 where "hash2 = (case hash of None \<Rightarrow> None | Some h \<Rightarrow> Some (memcpy_at h 0 out' hashlen))"
  define c2 where "c2 = c\<lparr>ctx_out := Some out'\<rparr>"
  have co: "ctx_out (c\<lparr>ctx_out := Some out'\<rparr>) = Some out'" by simp
  have R: "R = (if rc \<noteq> ARGON2_OK then (rc, hash, encoded, o2)
      else if encoded \<noteq> None \<and> encodedlen \<noteq> 0
      then let (result, enc) = encode_string (the encoded) encodedlen (Some c2) y in
           if result \<noteq> ARGON2_OK
           then (ARGON2_ENCODING_FAIL, hash2, clear_internal_memory (env_flag e) (Some enc) encodedlen, o2)
           else (ARGON2_OK, hash2, Some enc, o2)
      else (ARGON2_OK, hash2, encoded, o2))"
    unfolding R_def argon2_hash_def guards if_False out Let_def hash_context_def [symmetric] c_def [symmetric] r
      prod.case option.sel co hash2_def o2_def c2_def
    by (simp cong: option.case_cong)
  show ?thesis
  proof (cases "rc = ARGON2_OK")
    case False
    then show ?thesis using R rcs s w2 by auto
  next
    case True
    then have T: "out' = T" using o'(2) by blast
    have h2: "hash2 = map_option (\<lambda>h. T @ drop hashlen h) hash"
      using memcpy_start [of _ T] o'(1) by (auto simp: hash2_def T split: option.split)
    show ?thesis
    proof (cases "encoded = None \<or> encodedlen = 0")
      case True
      then show ?thesis using R \<open>rc = ARGON2_OK\<close> w2 h2 by auto
    next
      case False
      then obtain b where b: "encoded = Some b" "encodedlen \<le> length b" using assms(7) by (cases encoded) auto
      have c2: "c2 = hash_context (Some T) t m p pwd pwdlen salt saltlen hashlen v" by (simp add: c2_def c_def T)
      have v2: "valid_params c2" unfolding c2 valid_hash_context [OF lt] by (rule assms(1))
      have f: "ctx_salt c2 = salt" "unat (ctx_saltlen c2) = saltlen" "ctx_out c2 = Some T" "unat (ctx_outlen c2) = hashlen"
        "ctx_version c2 = v" "ctx_m_cost c2 = m" "ctx_t_cost c2 = t" "ctx_lanes c2 = p"
        using unat_small [OF lt(2)] unat_small [OF lt(4)] by (simp_all add: c2 del: unsigned_of_nat)
      have rd: "readable (ctx_salt c2) (unat (ctx_saltlen c2))" "readable (ctx_out c2) (unat (ctx_outlen c2))"
        unfolding f using assms(3) o'(1) T by simp_all
      have w: "phc y (Some (ctx_version c2)) (ctx_m_cost c2) (ctx_t_cost c2) (ctx_lanes c2)
          (read_buf (ctx_salt c2) (unat (ctx_saltlen c2))) (read_buf (ctx_out c2) (unat (ctx_outlen c2))) = w"
        unfolding f w_def hash_phc_def T_def [symmetric] using o'(1) T by simp
      note E = encode_string_eq [OF v2 assms(4) b(2) rd, unfolded w]
      show ?thesis
      proof (cases "length w < encodedlen")
        case True
        then have "encode_string b encodedlen (Some c2) y = (ARGON2_OK, w @ [0] @ drop (length w + 1) b)"
          using E b(2) by (simp add: poke_start)
        then have "R = (ARGON2_OK, hash2, Some (w @ [0] @ drop (length w + 1) b), o2)"
          using R \<open>rc = ARGON2_OK\<close> False b(1) by simp
        then show ?thesis using False True w2 h2 b(1) by auto
      next
        case False2: False
        then obtain d where d: "encode_string b encodedlen (Some c2) y = (ARGON2_ENCODING_FAIL, d)" "length d = length b"
          "drop encodedlen d = drop encodedlen b"
          using E by auto
        define b' where "b' = (if env_flag e \<noteq> 0 then secure_wipe_memory d encodedlen else d)"
        have b': "clear_internal_memory (env_flag e) (Some d) encodedlen = Some b'" "length b' = length b"
          "drop encodedlen b' = drop encodedlen b" "env_flag e \<noteq> 0 \<longrightarrow> take encodedlen b' = replicate encodedlen 0"
          using d(2,3) b(2) by (simp_all add: b'_def clear_internal_memory_def secure_wipe_memory_def memset_at_def)
        have "R = (ARGON2_ENCODING_FAIL, hash2, Some b', o2)"
          using R \<open>rc = ARGON2_OK\<close> False b(1) d(1) b'(1) by simp
        then show ?thesis using False False2 w2 h2 b(1) b'(2-4) by auto
      qed
    qed
  qed
qed


lemma argon2_hash_OK:
  assumes "fst (argon2_hash e t m p pwd pwdlen salt saltlen hash hashlen encoded encodedlen y v) = ARGON2_OK"
  shows "hash_args t m p pwd pwdlen salt saltlen hashlen \<and> supported y \<and> env_malloc e Alloc_hash_out hashlen \<noteq> None"
proof -
  let ?R = "argon2_hash e t m p pwd pwdlen salt saltlen hash hashlen encoded encodedlen y v"
  have lt: "pwdlen < 2 ^ 32" "saltlen < 2 ^ 32" "4 \<le> hashlen" "hashlen < 2 ^ 32"
    using assms unfolding argon2_hash_def argon2_limits by (simp_all split: if_splits)
  have guards: "(pwdlen > unat ARGON2_MAX_PWD_LENGTH) = False" "(saltlen > unat ARGON2_MAX_SALT_LENGTH) = False"
    "(hashlen > unat ARGON2_MAX_OUTLEN) = False" "(hashlen < unat ARGON2_MIN_OUTLEN) = False"
    using lt by (simp_all add: argon2_limits)
  obtain out where out: "env_malloc e Alloc_hash_out hashlen = Some out"
    using assms unfolding argon2_hash_def guards if_False Let_def by (cases "env_malloc e Alloc_hash_out hashlen") auto
  define c where "c = hash_context (Some out) t m p pwd pwdlen salt saltlen hashlen v"
  have "fst (argon2_ctx e (Some c) y) = ARGON2_OK"
    using assms unfolding argon2_hash_def guards if_False out Let_def hash_context_def [symmetric] c_def [symmetric]
    by (auto split: prod.splits if_splits)
  then have "validate_inputs (Some c) = ARGON2_OK" "supported y"
    unfolding argon2_ctx_def Let_def supported_def by (auto split: if_splits)
  then show ?thesis using out unfolding validate_inputs_ok c_def valid_hash_context [OF lt] by blast
qed

section \<open>Verification\<close>

lemma b64_length_ge: "length bs \<le> length (b64 bs)"
proof -
  have "length bs = length bs div 3 * 3 + length bs mod 3" by simp
  then show ?thesis unfolding length_b64 by (split if_split) linarith
qed

lemma phc_fields_fit: "length S \<le> length (phc y v m t p S T)" "length T \<le> length (phc y v m t p S T)"
  using b64_length_ge [of S] b64_length_ge [of T] by (simp_all add: phc_def)

text \<open>The local context of \<^verbatim>\<open>argon2_verify\<close> when it decodes.\<close>

definition verify_context :: "argon2_context \<Rightarrow> nat \<Rightarrow> u8 list \<Rightarrow> u8 list \<Rightarrow> u8 list option \<Rightarrow> nat \<Rightarrow> argon2_context" where
  "verify_context locals n sb ob pwd pwdlen =
     locals\<lparr>ctx_saltlen := word_of_nat n, ctx_outlen := word_of_nat n, ctx_salt := Some sb, ctx_out := Some ob,
       ctx_pwd := pwd, ctx_pwdlen := word_of_nat pwdlen\<rparr>"

lemma decoded_verify_context:
  "decoded v m t p S T (verify_context locals n sb ob pwd pwdlen)\<lparr>ctx_out := out\<rparr> =
    hash_context out t m p pwd pwdlen (Some (poke sb 0 S)) (length S) (length T) v"
  by (simp add: decoded_def with_bytes_def with_params_def verify_context_def hash_context_def)

lemma verify_context_buffers:
  assumes "n < 2 ^ 32" "length sb = n" "length ob = n"
  shows "decode_buffers (verify_context locals n sb ob pwd pwdlen)"
    "unat (ctx_saltlen (verify_context locals n sb ob pwd pwdlen)) = n"
    "unat (ctx_outlen (verify_context locals n sb ob pwd pwdlen)) = n"
  using unat_small [OF assms(1)] assms(2,3) unfolding decode_buffers_def verify_context_def
  by (simp_all del: unsigned_of_nat)

lemma argon2_verify_unfold:
  assumes "pwdlen < 2 ^ 32" "length s < 2 ^ 32"
    and "env_malloc e Alloc_verify_salt (length s) = Some sb" "env_malloc e Alloc_verify_out (length s) = Some ob"
  shows "argon2_verify e locals (Some s) pwd pwdlen y =
    (let (ret, ctx) = decode_string (verify_context locals (length s) sb ob pwd pwdlen) s y in
     if ret \<noteq> ARGON2_OK then (ret, Some (ctx_salt ctx, ctx_out ctx, None))
     else let desired_result = ctx_out ctx;
              ctx = ctx\<lparr>ctx_out := env_malloc e Alloc_verify_result (unat (ctx_outlen ctx))\<rparr> in
     if ctx_out ctx = None
     then (ARGON2_MEMORY_ALLOCATION_ERROR, Some (ctx_salt ctx, ctx_out ctx, desired_result))
     else let (ret, ctx) = argon2_verify_ctx e (Some ctx) (the desired_result) y
          in (ret, Some (ctx_salt (the ctx), ctx_out (the ctx), desired_result)))"
proof -
  have g: "(pwdlen > unat ARGON2_MAX_PWD_LENGTH) = False" "(length s > 0xFFFFFFFF) = False"
    using assms(1,2) by (simp_all add: argon2_limits)
  show ?thesis
    unfolding argon2_verify_def g if_False option.case Let_def verify_context_def
    by (simp add: unat_small [OF assms(2)] assms(3,4) del: unsigned_of_nat)
qed

lemma argon2_verify_decoded:
  assumes "supported y" "env_ok e" "readable pwd pwdlen"
    and "hash_args t m p pwd pwdlen (Some S) (length S) (length T)"
    and "length s < 2 ^ 32" "length S \<le> length s" "length T \<le> length s"
    and "env_malloc e Alloc_verify_salt (length s) = Some sb" "env_malloc e Alloc_verify_out (length s) = Some ob"
    and "env_malloc e Alloc_verify_result (length T) = Some nb"
    and "decode_string (verify_context locals (length s) sb ob pwd pwdlen) s y =
      (ARGON2_OK, decoded v m t p S T (verify_context locals (length s) sb ob pwd pwdlen))"
  defines "R \<equiv> fst (argon2_verify e locals (Some s) pwd pwdlen y)"
    and "OK \<equiv> T = hash_tag y t m p pwd pwdlen (Some S) (length S) (length T) v"
  shows "R \<in> {ARGON2_THREAD_FAIL, ARGON2_MEMORY_ALLOCATION_ERROR} \<and> \<not> hash_succeeds e m p \<or>
    R = (if OK then ARGON2_OK else ARGON2_VERIFY_MISMATCH)"
proof -
  have l: "length sb = length s" "length ob = length s" "length nb = length T"
    using assms(2,8-10) by (simp_all add: env_ok_def alloc_ok_def)
  have lt: "pwdlen < 2 ^ 32" "length S < 2 ^ 32" "4 \<le> length T" "length T < 2 ^ 32"
    using assms(4) by (simp_all add: hash_args_def)
  define salt where "salt = Some (poke sb 0 S)"
  define c where "c = hash_context (Some nb) t m p pwd pwdlen salt (length S) (length T) v"
  have ha: "hash_args t m p pwd pwdlen salt (length S) (length T)" using assms(4) by (simp add: hash_args_def salt_def)
  have rs: "readable salt (length S)" using assms(6) l by (simp add: salt_def)
  have tag: "hash_tag y t m p pwd pwdlen salt (length S) (length T) v = hash_tag y t m p pwd pwdlen (Some S) (length S) (length T) v"
    using assms(6) l by (simp add: hash_tag_def salt_def poke_start)
  define d where "d = decoded v m t p S T (verify_context locals (length s) sb ob pwd pwdlen)"
  have ol: "unat (ctx_outlen d) = length T" unfolding d_def decoded_fields by (rule unat_small [OF lt(4)])
  have dc: "d\<lparr>ctx_out := Some nb\<rparr> = c" unfolding d_def c_def salt_def by (rule decoded_verify_context)
  have od: "ctx_out d = Some (poke ob 0 T)" by (simp add: d_def verify_context_def)
  have "R = fst (argon2_verify_ctx e (Some c) (poke ob 0 T) y)"
    unfolding R_def argon2_verify_unfold [OF lt(1) assms(5,8,9)] assms(11) d_def [symmetric] Let_def prod.case
      ol assms(10) dc od
    by (simp add: c_def split: prod.split)
  moreover have v: "valid_params c" unfolding c_def valid_hash_context [OF lt] by (rule ha)
  moreover have "ctx_inputs c"
    using assms(3) rs l(3) unat_small [OF lt(1)] unat_small [OF lt(2)] unat_small [OF lt(4)]
    unfolding ctx_inputs_def ctx_readable_def c_def hash_context_def argon2_context.simps by simp
  moreover have "alloc_ok (call_alloc e c)" using assms(2) by (simp add: env_ok_def call_alloc_def c_def hash_context_def)
  moreover have u: "unat (ctx_outlen c) = length T" unfolding c_def hash_context_fields by (rule unat_small [OF lt(4)])
  moreover have "length T \<le> length (poke ob 0 T)" using assms(7) l by simp
  moreover have "take (length T) (poke ob 0 T) = T" using assms(7) l by (simp add: poke_start)
  moreover have "ctx_tag c y = hash_tag y t m p pwd pwdlen (Some S) (length S) (length T) v"
    unfolding c_def ctx_tag_hash_context [OF lt(1,2,4)] by (rule tag)
  ultimately have R: "R = (if fst (argon2_ctx e (Some c) y) \<noteq> ARGON2_OK then fst (argon2_ctx e (Some c) y)
      else if OK then ARGON2_OK else ARGON2_VERIFY_MISMATCH)"
    using argon2_verify_ctx_eq [OF v _ assms(1,2), of "poke ob 0 T"] unfolding OK_def by simp
  show ?thesis
    using hash_ctx_eq [OF ha assms(3) rs assms(1,2) l(3), of v] unfolding c_def [symmetric] R by auto
qed


lemma verify_phc:
  assumes "supported y" "env_ok e" "readable pwd pwdlen"
    and "hash_args t m p pwd pwdlen (Some S) (length S) (length T)"
    and "s = phc y w m t p S T" "w = Some v \<or> w = None \<and> v = ARGON2_VERSION_10" "length s < 2 ^ 32"
    and "\<And>site n. env_malloc e site n \<noteq> None" "unat p = 1 \<or> threads_succeed e"
  shows "fst (argon2_verify e locals (Some s) pwd pwdlen y) =
    (if T = hash_tag y t m p pwd pwdlen (Some S) (length S) (length T) v then ARGON2_OK else ARGON2_VERIFY_MISMATCH)"
proof -
  have fit: "length S \<le> length s" "length T \<le> length s" unfolding assms(5) by (rule phc_fields_fit)+
  obtain sb ob nb where b: "env_malloc e Alloc_verify_salt (length s) = Some sb"
    "env_malloc e Alloc_verify_out (length s) = Some ob" "env_malloc e Alloc_verify_result (length T) = Some nb"
    using assms(8) by blast
  have l: "length sb = length s" "length ob = length s" using assms(2) b by (simp_all add: env_ok_def alloc_ok_def)
  let ?c = "verify_context locals (length s) sb ob pwd pwdlen"
  note vb = verify_context_buffers [OF assms(7) l, of locals pwd pwdlen]
  have lt: "pwdlen < 2 ^ 32" "length S < 2 ^ 32" "length T < 2 ^ 32" using assms(4) by (simp_all add: hash_args_def)
  have "ctx_pwd ?c = None \<longrightarrow> ctx_pwdlen ?c = 0" using assms(4) by (simp add: hash_args_def verify_context_def)
  then have "valid_params (decoded v m t p S T ?c)"
    using assms(4) unfolding valid_decoded [OF lt(2,3)] by (simp add: hash_args_def)
  then have d: "decode_string ?c s y = (ARGON2_OK, decoded v m t p S T ?c)"
    using decode_string_phc [OF assms(1) vb(1), of S T w v] fit assms(6) vb(2,3) unfolding assms(5)
    by (simp add: validate_inputs_ok)
  have "hash_succeeds e m p" using assms(8,9) by (simp add: hash_succeeds_def)
  then show ?thesis
    using argon2_verify_decoded [OF assms(1-4,7) fit b d] by simp
qed

lemma verify_OK:
  assumes "fst (argon2_verify e locals (Some s) pwd pwdlen y) = ARGON2_OK" "env_ok e" "readable pwd pwdlen"
  shows "supported y \<and> (\<exists>v m t p S T.
    (as_read s = phc y (Some v) m t p S T \<or> v = ARGON2_VERSION_10 \<and> as_read s = phc y None m t p S T) \<and>
    hash_args t m p pwd pwdlen (Some S) (length S) (length T) \<and>
    T = hash_tag y t m p pwd pwdlen (Some S) (length S) (length T) v)"
proof -
  have lt: "pwdlen < 2 ^ 32" "length s < 2 ^ 32"
    using assms(1) unfolding argon2_verify_def Let_def argon2_limits by (simp_all split: if_splits)
  have g: "(pwdlen > unat ARGON2_MAX_PWD_LENGTH) = False" "(length s > 0xFFFFFFFF) = False"
    using lt by (simp_all add: argon2_limits)
  have "env_malloc e Alloc_verify_salt (length s) \<noteq> None \<and> env_malloc e Alloc_verify_out (length s) \<noteq> None"
    using assms(1) unfolding argon2_verify_def g if_False option.case Let_def
    by (auto simp: unat_small [OF lt(2)] simp del: unsigned_of_nat split: if_splits)
  then obtain sb ob where b: "env_malloc e Alloc_verify_salt (length s) = Some sb"
    "env_malloc e Alloc_verify_out (length s) = Some ob" by blast
  have l: "length sb = length s" "length ob = length s" using assms(2) b by (simp_all add: env_ok_def alloc_ok_def)
  let ?c = "verify_context locals (length s) sb ob pwd pwdlen"
  note vb = verify_context_buffers [OF lt(2) l, of locals pwd pwdlen]
  note V = assms(1) [unfolded argon2_verify_unfold [OF lt b]]
  obtain c' where d: "decode_string ?c s y = (ARGON2_OK, c')"
    and r: "env_malloc e Alloc_verify_result (unat (ctx_outlen c')) \<noteq> None"
    using V by (auto simp: Let_def split: prod.splits if_splits)
  obtain v m t p S T where y: "supported y"
    and s: "as_read s = phc y (Some v) m t p S T \<or> v = ARGON2_VERSION_10 \<and> as_read s = phc y None m t p S T"
    and ST: "length S \<le> length s" "length T \<le> length s" and c': "c' = decoded v m t p S T ?c"
    and val: "valid_params c'"
    using d [unfolded decode_string_iff [OF vb(1)]] unfolding vb by blast
  have lt2: "length S < 2 ^ 32" "length T < 2 ^ 32" using ST lt(2) by simp_all
  have cp: "ctx_pwd ?c = pwd" "ctx_pwdlen ?c = word_of_nat pwdlen" by (simp_all add: verify_context_def)
  have ha: "hash_args t m p pwd pwdlen (Some S) (length S) (length T)"
    using val lt2 lt(1) unfolding c' valid_decoded [OF lt2] cp word_of_nat_zero [OF lt(1)] by (simp add: hash_args_def)
  have "unat (ctx_outlen c') = length T" unfolding c' decoded_fields by (rule unat_small [OF lt2(2)])
  then obtain nb where nb: "env_malloc e Alloc_verify_result (length T) = Some nb" using r by auto
  have "T = hash_tag y t m p pwd pwdlen (Some S) (length S) (length T) v"
    using argon2_verify_decoded [OF y assms(2,3) ha lt(2) ST b nb d [unfolded c']] assms(1)
    by (auto split: if_splits)
  then show ?thesis using y s ha by blast
qed

section \<open>Sizes\<close>

lemma decimal_bounds: "n < 10 ^ length (decimal n) \<and> (n \<noteq> 0 \<longrightarrow> 10 ^ (length (decimal n) - 1) \<le> n) \<and> decimal n \<noteq> []"
proof (induction n rule: decimal.induct)
  case (1 n)
  show ?case
  proof (cases "n < 10")
    case False
    define k where "k = length (decimal (n div 10))"
    have d: "length (decimal n) = Suc k" "decimal n \<noteq> []" using False by (simp_all add: decimal.simps [of n] k_def)
    have IH: "n div 10 < 10 ^ k" "10 ^ (k - 1) \<le> n div 10" "0 < k"
      using 1 False unfolding k_def by auto
    have n: "n = n div 10 * 10 + n mod 10" "n mod 10 < 10" by simp_all
    have "n < 10 ^ Suc k" using IH(1) n by (simp only: power_Suc)
    moreover have "(10 :: nat) ^ k = 10 ^ (k - 1) * 10" using IH(3) by (cases k) simp_all
    then have "10 ^ k \<le> n" using IH(2) n(1) by linarith
    ultimately show ?thesis using d by simp
  qed (simp add: decimal.simps [of n])
qed

lemma numlen_le_10: "numlen x \<le> 10"
proof -
  have "10 ^ (numlen x - 1) \<le> unat x \<or> unat x = 0" using decimal_bounds [of "unat x"] by (auto simp: numlen_eq)
  then show ?thesis
  proof
    assume "10 ^ (numlen x - 1) \<le> unat x"
    then have "(10 :: nat) ^ (numlen x - 1) < 10 ^ 10" using unat_lt_u32 [of x] by simp
    then show ?thesis by (subst (asm) power_strict_increasing_iff) simp_all
  qed (simp add: numlen_eq decimal.simps)
qed

lemma argon2_encodedlen_eq:
  assumes "supported y" "v = ARGON2_VERSION_10 \<or> v = ARGON2_VERSION_13" "length S < 2 ^ 32" "length T < 2 ^ 32"
  shows "argon2_encodedlen t m p (word_of_nat (length S)) (word_of_nat (length T)) y =
    length (phc y (Some v) m t p S T) + 1"
proof -
  have v: "numlen ARGON2_VERSION_NUMBER = 2" "numlen v = 2"
    using assms(2) by (auto simp: numlen_eq ARGON2_VERSION_NUMBER_def ARGON2_VERSION_13_def ARGON2_VERSION_10_def decimal.simps)
  have n: "length (the (argon2_type2string y 0)) \<le> 8"
    using assms(1) by (auto simp: supported_def argon2_type2string_def)
  have b: "b64len (word_of_nat (length S)) = length (b64 S)" "b64len (word_of_nat (length T)) = length (b64 T)"
    unfolding b64len_def unat_small [OF assms(3)] unat_small [OF assms(4)]
    using b64_olen_eq [OF assms(3)] b64_olen_eq [OF assms(4)] by simp_all
  have "length (b64 S) < 2 * length S + 3" "length (b64 T) < 2 * length T + 3" by (rule b64_length_small)+
  then have "15 + length (the (argon2_type2string y 0)) + numlen t + numlen m + numlen p + length (b64 S) +
      length (b64 T) + 2 + 1 < 2 ^ 64"
    using n numlen_le_10 [of t] numlen_le_10 [of m] numlen_le_10 [of p] assms(3,4) by simp
  then show ?thesis
    unfolding argon2_encodedlen_def length_phc b v by (simp add: ac_simps)
qed


section \<open>Properties\<close>

text \<open>C40: a string buffer is large enough for \<^verbatim>\<open>encode_string\<close> exactly when it has the size that
  \<^verbatim>\<open>argon2_encodedlen\<close> gives for the parameters, for both versions of Argon2, and none of the sums and products that
  compute the size wraps.\<close>

theorem argon2_encodedlen_exact:
  assumes "valid_params c" "supported y" "dst_len \<le> length dst"
    and "readable (ctx_salt c) (unat (ctx_saltlen c))" "readable (ctx_out c) (unat (ctx_outlen c))"
    and "ctx_version c = ARGON2_VERSION_10 \<or> ctx_version c = ARGON2_VERSION_13"
  shows "fst (encode_string dst dst_len (Some c) y) = ARGON2_OK \<longleftrightarrow>
    argon2_encodedlen (ctx_t_cost c) (ctx_m_cost c) (ctx_lanes c) (ctx_saltlen c) (ctx_outlen c) y \<le> dst_len"
proof -
  let ?S = "read_buf (ctx_salt c) (unat (ctx_saltlen c))" and ?T = "read_buf (ctx_out c) (unat (ctx_outlen c))"
  have l: "length ?S = unat (ctx_saltlen c)" "length ?T = unat (ctx_outlen c)"
    using assms(1,4,5) by (auto simp: valid_params_def)
  have "argon2_encodedlen (ctx_t_cost c) (ctx_m_cost c) (ctx_lanes c) (word_of_nat (length ?S)) (word_of_nat (length ?T)) y =
      length (phc y (Some (ctx_version c)) (ctx_m_cost c) (ctx_t_cost c) (ctx_lanes c) ?S ?T) + 1"
    by (rule argon2_encodedlen_eq [OF assms(2,6)]) (simp_all only: l unat_lt_u32)
  then show ?thesis
    using encode_string_eq [OF assms(1-5)] unfolding l by (auto split: if_splits)
qed

theorem argon2_encodedlen_exact_witness:
  "fst (encode_string (replicate 100 7) 84 (Some small_context) Argon2_id) = ARGON2_OK \<and>
   fst (encode_string (replicate 100 7) 83 (Some small_context) Argon2_id) \<noteq> ARGON2_OK"
proof -
  have "argon2_encodedlen 1 16 2 8 32 Argon2_id = 84"
    using argon2_encodedlen_eq [of Argon2_id 19 "replicate 8 0" "replicate 32 0" 1 16 2]
    by (simp add: ARGON2_VERSION_13_def length_phc numlen_eq argon2_type2string_def decimal.simps length_b64)
  moreover have "ctx_version small_context = ARGON2_VERSION_13" "ctx_t_cost small_context = 1" "ctx_m_cost small_context = 16"
    "ctx_lanes small_context = 2" "ctx_saltlen small_context = 8" "ctx_outlen small_context = 32"
    by (simp_all add: small_context_def ARGON2_VERSION_13_def)
  ultimately show ?thesis
    using argon2_encodedlen_exact [OF small_context_ok(2) small_inputs(2) _ small_encodable, of 84 "replicate 100 7"]
      argon2_encodedlen_exact [OF small_context_ok(2) small_inputs(2) _ small_encodable, of 83 "replicate 100 7"]
    by simp
qed

text \<open>The loop of \<^verbatim>\<open>numlen\<close> ends and counts the decimal digits that \<^verbatim>\<open>sprintf\<close> writes for the number, at most ten of
  them, so that they fit into the \<^verbatim>\<open>tmp[30]\<close> of \<^verbatim>\<open>encode_string\<close>.\<close>

lemma numlen_digits:
  "numlen x = length (decimal (unat x)) \<and> unat x < 10 ^ numlen x \<and> (x = 0 \<or> 10 ^ (numlen x - 1) \<le> unat x) \<and>
    1 \<le> numlen x \<and> numlen x \<le> 10"
  using decimal_bounds [of "unat x"] numlen_le_10 [of x] by (auto simp: numlen_eq Suc_le_eq unat_eq_0)

definition error_codes :: "argon2_error_codes list" where
  "error_codes =
    [ARGON2_OK,
     ARGON2_OUTPUT_PTR_NULL,
     ARGON2_OUTPUT_TOO_SHORT,
     ARGON2_OUTPUT_TOO_LONG,
     ARGON2_PWD_TOO_SHORT,
     ARGON2_PWD_TOO_LONG,
     ARGON2_SALT_TOO_SHORT,
     ARGON2_SALT_TOO_LONG,
     ARGON2_AD_TOO_SHORT,
     ARGON2_AD_TOO_LONG,
     ARGON2_SECRET_TOO_SHORT,
     ARGON2_SECRET_TOO_LONG,
     ARGON2_TIME_TOO_SMALL,
     ARGON2_TIME_TOO_LARGE,
     ARGON2_MEMORY_TOO_LITTLE,
     ARGON2_MEMORY_TOO_MUCH,
     ARGON2_LANES_TOO_FEW,
     ARGON2_LANES_TOO_MANY,
     ARGON2_PWD_PTR_MISMATCH,
     ARGON2_SALT_PTR_MISMATCH,
     ARGON2_SECRET_PTR_MISMATCH,
     ARGON2_AD_PTR_MISMATCH,
     ARGON2_MEMORY_ALLOCATION_ERROR,
     ARGON2_FREE_MEMORY_CBK_NULL,
     ARGON2_ALLOCATE_MEMORY_CBK_NULL,
     ARGON2_INCORRECT_PARAMETER,
     ARGON2_INCORRECT_TYPE,
     ARGON2_OUT_PTR_MISMATCH,
     ARGON2_THREADS_TOO_FEW,
     ARGON2_THREADS_TOO_MANY,
     ARGON2_MISSING_ARGS,
     ARGON2_ENCODING_FAIL,
     ARGON2_DECODING_FAIL,
     ARGON2_THREAD_FAIL,
     ARGON2_DECODING_LENGTH_FAIL,
     ARGON2_VERIFY_MISMATCH]"

lemma error_code_nth: "error_codes ! nat (- error_code c) = c"
  by (cases c) (simp_all add: error_codes_def)

lemma error_code_inject: "error_code c = error_code d \<longleftrightarrow> c = d"
  by (metis error_code_nth)

lemma error_messages_keys: "map fst error_messages = map error_code error_codes"
  unfolding error_messages_def error_codes_def list.map fst_conv ..

lemma error_codes_all: "c \<in> set error_codes"
  by (cases c) (simp_all add: error_codes_def)

lemma error_messages_codes: "(error_code c, argon2_error_message (error_code c)) \<in> set error_messages"
proof -
  have "error_code c \<in> set (map fst error_messages)" unfolding error_messages_keys using error_codes_all by simp
  then obtain s where s: "map_of error_messages (error_code c) = Some s"
    by (metis list.set_map map_of_eq_None_iff not_None_eq)
  then show ?thesis using map_of_SomeD [OF s] by (simp add: argon2_error_message_def)
qed

lemma error_messages_distinct: "distinct (map snd error_messages @ [''Unknown error code''])"
  unfolding error_messages_def by code_simp

lemma error_messages_range: "x \<in> set error_messages \<Longrightarrow> fst x \<in> range error_code"
proof -
  assume "x \<in> set error_messages"
  then have "fst x \<in> set (map fst error_messages)" by simp
  then show ?thesis unfolding error_messages_keys by auto
qed

lemma error_messages_names: "x \<in> set error_messages \<Longrightarrow> z \<in> set error_messages \<Longrightarrow> snd x = snd z \<Longrightarrow> x = z"
  "x \<in> set error_messages \<Longrightarrow> snd x \<noteq> ''Unknown error code''"
  using error_messages_distinct unfolding distinct_append distinct_map inj_on_def
  by (auto, metis imageI)

text \<open>\<^verbatim>\<open>argon2_error_message\<close> has a message of its own for every code of the enumeration, and only for those.\<close>

lemma argon2_error_message_exact:
  "(argon2_error_message (error_code c) = argon2_error_message (error_code d) \<longleftrightarrow> c = d) \<and>
   (argon2_error_message n = ''Unknown error code'' \<longleftrightarrow> n \<notin> range error_code)"
proof (intro conjI iffI)
  assume "argon2_error_message (error_code c) = argon2_error_message (error_code d)"
  then have "(error_code c, argon2_error_message (error_code c)) = (error_code d, argon2_error_message (error_code d))"
    using error_messages_names(1) [OF error_messages_codes [of c] error_messages_codes [of d]] by simp
  then show "c = d" by (simp add: error_code_inject)
next
  assume "argon2_error_message n = ''Unknown error code''"
  then show "n \<notin> range error_code" using error_messages_names(2) [OF error_messages_codes] by auto
next
  assume n: "n \<notin> range error_code"
  have "map_of error_messages n = None"
    unfolding map_of_eq_None_iff using error_messages_range n by auto
  then show "argon2_error_message n = ''Unknown error code''" by (simp add: argon2_error_message_def)
qed simp

end
