(* ===== verification/Addon_Props.thy ===== *)
theory Addon_Props
  imports Addon Api_Props
begin

text \<open>
  What JavaScript gets from the addon: the tag of RFC 9106, or the truth about a password, and in every case
  memory that is given back holds no secret.
\<close>

section \<open>Buffers\<close>

definition memalign_ok :: "addon_env \<Rightarrow> bool" where
  "memalign_ok ae \<longleftrightarrow> (\<forall>al n b. ae_memalign ae al n = Some b \<longrightarrow> length b = n)"

text \<open>A secure buffer that holds \<open>bs\<close>.\<close>

definition holds :: "secure_buffer \<Rightarrow> u8 list \<Rightarrow> bool" where
  "holds b bs \<longleftrightarrow> sb_ok b \<and> sb_size b = length bs \<and> sb_data b = (if bs = [] then None else Some bs)"

text \<open>A secure buffer whose contents may have been overwritten.\<close>

definition sized_buffer :: "secure_buffer \<Rightarrow> bool" where
  "sized_buffer b \<longleftrightarrow> (\<forall>d. sb_data b = Some d \<longrightarrow> length d = sb_size b)"

text \<open>Calls that give back nothing but zeros.\<close>

definition frees_zeros :: "os_call list \<Rightarrow> bool" where
  "frees_zeros calls \<longleftrightarrow> (\<forall>b. Os_free b \<in> set calls \<longrightarrow> b = replicate (length b) 0)"

lemma frees_zeros_simps [simp]:
  "frees_zeros []" "frees_zeros (x @ y) \<longleftrightarrow> frees_zeros x \<and> frees_zeros y"
  by (auto simp: frees_zeros_def)

lemma frees_zeros_custom_free: "frees_zeros (custom_free (Some (replicate k 0)) n)"
  by (auto simp: frees_zeros_def custom_free_def unlock_memory_def split: if_splits)

lemma frees_zeros_release:
  "released r = Some (replicate k 0) \<Longrightarrow>
    frees_zeros (case r of Release_cbk _ memory n \<Rightarrow> custom_free memory n | Release_free _ \<Rightarrow> [])"
  by (cases r) (simp_all add: released_def frees_zeros_custom_free)

lemma SecureBuffer_eq:
  assumes "memalign_ok ae"
  obtains b calls where "SecureBuffer ae bs = (b, calls)" "frees_zeros calls" "\<And>v. Os_delete v \<notin> set calls"
    "holds b bs \<or> \<not> sb_ok b" "sized_buffer b"
    "(\<forall>al. ae_memalign ae al (length bs) \<noteq> None) \<longrightarrow> holds b bs"
proof -
  obtain b calls where s: "SecureBuffer ae bs = (b, calls)" by (cases "SecureBuffer ae bs")
  define al where "al = (if length bs \<ge> HUGE_PAGE_SIZE then HUGE_PAGE_SIZE else 4096)"
  have h: "frees_zeros calls \<and> (\<forall>v. Os_delete v \<notin> set calls) \<and> sized_buffer b \<and>
      (holds b bs \<or> \<not> sb_ok b \<and> ae_memalign ae al (length bs) = None)"
  proof (cases "bs = []")
    case False
    show ?thesis
    proof (cases "ae_memalign ae al (length bs)")
      case None
      then show ?thesis
        using s False by (auto simp: SecureBuffer_def custom_allocate_def al_def [symmetric] sized_buffer_def)
    next
      case (Some p)
      then have "length p = length bs" using assms by (simp add: memalign_ok_def)
      then show ?thesis
        using s False Some
        by (auto simp: SecureBuffer_def custom_allocate_def al_def [symmetric] holds_def sized_buffer_def memcpy_at_def
            frees_zeros_def lock_memory_def Let_def split: if_splits)
    qed
  qed (use s in \<open>auto simp: SecureBuffer_def holds_def sized_buffer_def\<close>)
  then show thesis using that [OF s] by blast
qed

lemma SecureBuffer_destroy_zeros:
  "sized_buffer b \<Longrightarrow> frees_zeros (SecureBuffer_destroy b) \<and> (\<forall>v. Os_delete v \<notin> set (SecureBuffer_destroy b))"
  by (auto simp: SecureBuffer_destroy_def sized_buffer_def secure_wipe_def memset_at_def custom_free_def
      unlock_memory_def frees_zeros_def)

section \<open>The call of the core\<close>

abbreviation cut :: "u8 list \<Rightarrow> u8 list" where
  "cut bs \<equiv> take (length bs mod 2 ^ 32) bs"

definition worker_ok :: "nat \<Rightarrow> 'a worker_scheme \<Rightarrow> bool" where
  "worker_ok n w \<longleftrightarrow> supported (w_type w) \<and> 4 \<le> n \<and> 8 \<le> length (w_salt w) mod 2 ^ 32 \<and>
     8 * unat (w_parallelism w) \<le> unat (w_memory_cost w) \<and> 1 \<le> unat (w_time_cost w) \<and>
     1 \<le> unat (w_parallelism w) \<and> unat (w_parallelism w) < 2 ^ 24"

definition worker_tag :: "nat \<Rightarrow> 'a worker_scheme \<Rightarrow> u8 list \<Rightarrow> u8 list \<Rightarrow> u8 list" where
  "worker_tag n w pwd secret =
     rfc_argon2 (w_type w) (unat (w_version w)) (unat (w_parallelism w)) n (unat (w_memory_cost w))
       (unat (w_time_cost w)) (cut pwd) (cut (w_salt w)) (cut secret) (cut (w_ad w))"

definition resources :: "addon_env \<Rightarrow> u32 \<Rightarrow> bool" where
  "resources ae p \<longleftrightarrow> (\<forall>al n. ae_memalign ae al n \<noteq> None) \<and> (\<forall>n. ae_resize ae n = None) \<and>
     (unat p = 1 \<or> threads_succeed (ae_core ae))"

lemma unat_word_of_nat: "unat (word_of_nat n :: u32) = n mod 2 ^ 32"
  by (simp add: unat_of_nat take_bit_eq_mod)

lemma worker_context_valid:
  assumes "holds (w_plain w) pwd" "holds (w_secret w) secret" "length hash < 2 ^ 32"
  shows "valid_params (worker_context ae hash w) \<and> supported (w_type w) \<longleftrightarrow> worker_ok (length hash) w"
    and "ctx_inputs (worker_context ae hash w)"
    and "ctx_tag (worker_context ae hash w) (w_type w) = worker_tag (length hash) w pwd secret"
proof -
  have n: "length hash mod 2 ^ 32 = length hash" using assms(3) by (rule mod_less)
  have z: "word_of_nat 0 = (0 :: u32)" by simp
  note f = worker_context_def argon2_context.simps unat_word_of_nat n
  show "valid_params (worker_context ae hash w) \<and> supported (w_type w) \<longleftrightarrow> worker_ok (length hash) w"
    using assms(1,2) unfolding valid_params_def worker_ok_def f holds_def vector_data_def
    by auto
  show "ctx_inputs (worker_context ae hash w)"
    using assms(1,2) unfolding ctx_inputs_def ctx_readable_def f holds_def vector_data_def by auto
  show "ctx_tag (worker_context ae hash w) (w_type w) = worker_tag (length hash) w pwd secret"
    using assms(1,2) unfolding ctx_tag_def worker_tag_def f holds_def vector_data_def by auto
qed

lemma run_ctx_rejected:
  assumes "\<not> (valid_params c \<and> supported y)"
  shows "\<exists>rc. argon2_ctx e (Some c) y = (rc, Some c, None, None) \<and> rc \<noteq> ARGON2_OK"
proof (cases "valid_params c")
  case True
  then have "validate_inputs (Some c) = ARGON2_OK" by (simp add: validate_inputs_ok)
  then show ?thesis using assms True by (auto simp: argon2_ctx_def supported_def)
next
  case False
  then have "validate_inputs (Some c) \<noteq> ARGON2_OK" by (simp add: validate_inputs_ok)
  then show ?thesis by (auto simp: argon2_ctx_def Let_def)
qed

text \<open>The lengths of the buffers of a context whose inputs have been wiped.\<close>

lemma wiped_lengths:
  "map_option length (ctx_pwd (wipe_secret (wipe_password c))) =
    map_option (\<lambda>b. if ctx_flags c AND ARGON2_FLAG_CLEAR_PASSWORD \<noteq> 0 then unat (ctx_pwdlen c) + (length b - unat (ctx_pwdlen c)) else length b) (ctx_pwd c)"
  "map_option length (ctx_secret (wipe_secret (wipe_password c))) =
    map_option (\<lambda>b. if ctx_flags c AND ARGON2_FLAG_CLEAR_SECRET \<noteq> 0 then unat (ctx_secretlen c) + (length b - unat (ctx_secretlen c)) else length b) (ctx_secret c)"
  by (auto simp: wipe_secret_def wipe_password_def secure_wipe_memory_def memset_at_def split: option.split)

definition after_ctx :: "'a worker_scheme \<Rightarrow> 'a worker_scheme \<Rightarrow> bool" where
  "after_ctx w w' \<longleftrightarrow> (\<exists>d d'. w' = w\<lparr>w_plain := (w_plain w)\<lparr>sb_data := d\<rparr>, w_secret := (w_secret w)\<lparr>sb_data := d'\<rparr>\<rparr>) \<and>
     sized_buffer (w_plain w') \<and> sized_buffer (w_secret w')"

lemma run_ctx_eq:
  fixes w :: "'a worker_scheme"
  assumes "holds (w_plain w) pwd" "holds (w_secret w) secret" "length hash < 2 ^ 32" "memalign_ok ae" "env_ok (ae_core ae)"
  shows "\<exists>rc w' out calls. run_ctx ae hash w = (rc, w', out, calls) \<and> after_ctx w w' \<and> length out = length hash \<and>
    (rc = ARGON2_OK \<longrightarrow> worker_ok (length hash) w \<and> out = worker_tag (length hash) w pwd secret) \<and>
    (worker_ok (length hash) w \<and> resources ae (w_parallelism w) \<longrightarrow> rc = ARGON2_OK) \<and>
    (env_flag (ae_core ae) \<noteq> 0 \<longrightarrow> frees_zeros calls) \<and> (\<forall>v. Os_delete v \<notin> set calls)"
proof -
  define c where "c = worker_context ae hash w"
  note cv = worker_context_valid [OF assms(1-3), of ae, folded c_def]
  have cf: "ctx_pwd c = sb_data (w_plain w)" "ctx_secret c = sb_data (w_secret w)"
    "unat (ctx_pwdlen c) = length pwd mod 2 ^ 32" "unat (ctx_secretlen c) = length secret mod 2 ^ 32"
    "unat (ctx_outlen c) = length hash" "ctx_out c = vector_data ae hash"
    "ctx_threads c = w_parallelism w" "ctx_lanes c = w_parallelism w"
    using assms(1-3) by (simp_all add: c_def worker_context_def holds_def unat_word_of_nat del: unsigned_of_nat)
  have keep: "after_ctx w (w\<lparr>w_plain := (w_plain w)\<lparr>sb_data := ctx_pwd c\<rparr>, w_secret := (w_secret w)\<lparr>sb_data := ctx_secret c\<rparr>\<rparr>)"
    using assms(1,2) by (auto simp: after_ctx_def cf sized_buffer_def holds_def split: if_splits)
  have out: "length (case vector_data ae hash of None \<Rightarrow> hash | Some b \<Rightarrow> b) = length hash"
    by (simp add: vector_data_def)
  show ?thesis
  proof (cases "worker_ok (length hash) w")
    case False
    then obtain rc where "argon2_ctx (ae_core ae) (Some c) (w_type w) = (rc, Some c, None, None)" "rc \<noteq> ARGON2_OK"
      using run_ctx_rejected [of c "w_type w"] cv(1) by blast
    then show ?thesis using False keep out by (simp add: run_ctx_def c_def [symmetric] cf(6))
  next
    case True
    then have v: "valid_params c" "supported (w_type w)" using cv(1) by blast+
    have cb: "call_alloc (ae_core ae) c = (\<lambda>n. fst (snd (custom_allocate ae n)))"
      by (simp add: call_alloc_def c_def worker_context_def)
    have al: "alloc_ok (call_alloc (ae_core ae) c)"
      using assms(4) unfolding cb by (auto simp: alloc_ok_def custom_allocate_def memalign_ok_def Let_def split: option.splits)
    note A = argon2_ctx_eq [OF v(1) cv(2) v(2) assms(5) al]
    show ?thesis
    proof (cases "call_alloc (ae_core ae) c (matrix_bytes c)")
      case None
      then obtain i where "argon2_ctx (ae_core ae) (Some c) (w_type w) = (ARGON2_MEMORY_ALLOCATION_ERROR, Some c, Some i, None)"
        using A by auto
      moreover have "\<not> resources ae (w_parallelism w)"
        using None unfolding cb by (auto simp: custom_allocate_def resources_def Let_def split: option.splits)
      ultimately show ?thesis using keep out by (simp add: run_ctx_def c_def [symmetric] cf(6))
    next
      case (Some m)
      then obtain rc c' inst rel where r: "argon2_ctx (ae_core ae) (Some c) (w_type w) = (rc, Some c', Some inst, rel)"
        and ok: "rc = ARGON2_OK \<longrightarrow> c' = (wipe_secret (wipe_password c))\<lparr>ctx_out :=
            Some (ctx_tag c (w_type w) @ drop (unat (ctx_outlen c)) (the (ctx_out c)))\<rparr> \<and>
          (\<exists>r. rel = Some r \<and> (env_flag (ae_core ae) \<noteq> 0 \<longrightarrow> released r = Some (replicate (matrix_bytes c) 0)))"
        and ne: "rc \<noteq> ARGON2_OK \<longrightarrow> c' = wipe_secret (wipe_password c) \<and> rel = None"
        and s: "min (unat (ctx_threads c)) (unat (ctx_lanes c)) = 1 \<or> threads_succeed (ae_core ae) \<longrightarrow> rc = ARGON2_OK"
        using A by auto
      define calls where "calls = (case rel of Some (Release_cbk _ memory n) \<Rightarrow> custom_free memory n | _ \<Rightarrow> [])"
      have calls: "env_flag (ae_core ae) \<noteq> 0 \<longrightarrow> frees_zeros calls" "\<forall>v. Os_delete v \<notin> set calls"
        using ok ne frees_zeros_release
        by (cases "rc = ARGON2_OK"; force simp: calls_def)
          (auto simp: calls_def custom_free_def unlock_memory_def split: option.splits release.splits)
      have pw: "ctx_pwd c' = ctx_pwd (wipe_secret (wipe_password c))" "ctx_secret c' = ctx_secret (wipe_secret (wipe_password c))"
        using ok ne by (cases "rc = ARGON2_OK"; simp)+
      have lens: "map_option length (ctx_pwd c') = map_option length (sb_data (w_plain w))"
        "map_option length (ctx_secret c') = map_option length (sb_data (w_secret w))"
        unfolding pw wiped_lengths cf using assms(1,2) by (auto simp: holds_def)
      have after: "after_ctx w (w\<lparr>w_plain := (w_plain w)\<lparr>sb_data := ctx_pwd c'\<rparr>, w_secret := (w_secret w)\<lparr>sb_data := ctx_secret c'\<rparr>\<rparr>)"
        using lens assms(1,2) by (auto simp: after_ctx_def sized_buffer_def holds_def split: if_splits)
      have hne: "hash \<noteq> []" using True by (auto simp: worker_ok_def)
      have lt: "length (ctx_tag c (w_type w)) = length hash"
        using True unfolding ctx_tag_def rfc_argon2_def rfc_tag_def Let_def cf(5) by (simp add: worker_ok_def)
      have o: "length (case ctx_out c' of None \<Rightarrow> hash | Some b \<Rightarrow> b) = length hash \<and>
          (rc = ARGON2_OK \<longrightarrow> (case ctx_out c' of None \<Rightarrow> hash | Some b \<Rightarrow> b) = worker_tag (length hash) w pwd secret)"
        using ok ne lt hne by (cases "rc = ARGON2_OK") (simp_all add: cv(3) cf(5,6) vector_data_def)
      have "resources ae (w_parallelism w) \<longrightarrow> rc = ARGON2_OK" using s by (auto simp: resources_def cf(7,8))
      then show ?thesis
        using True r calls after o by (simp add: run_ctx_def c_def [symmetric] calls_def)
    qed
  qed
qed

section \<open>The workers\<close>

lemma constant_time_compare_eq:
  assumes "length a = len" "length b = len"
  shows "constant_time_compare a b len \<longleftrightarrow> a = b"
  using assms unfolding constant_time_compare_def Let_def fold_or_zero
  by (simp add: list_eq_iff_nth_eq Ball_def)

lemma delete_vector_set: "Os_free b \<notin> set (delete_vector v)" "Os_delete x \<in> set (delete_vector v) \<Longrightarrow> x = v"
  by (auto simp: delete_vector_def split: if_splits)

lemma frees_zeros_delete [simp]: "frees_zeros (delete_vector v)"
  by (simp add: frees_zeros_def delete_vector_set)

lemma wiped_vector: "the (secure_wipe (Some h) (length h)) = replicate (length h) 0"
  by (simp add: secure_wipe_def memset_at_def)

text \<open>Memory of vectors that is given back with data other than zeros holds one of the given vectors.\<close>

definition deletes :: "u8 list set \<Rightarrow> os_call list \<Rightarrow> bool" where
  "deletes V calls \<longleftrightarrow> (\<forall>v. Os_delete v \<in> set calls \<longrightarrow> v = replicate (length v) 0 \<or> v \<in> V)"

lemma deletes_simps [simp]:
  "deletes V []" "deletes V (x @ y) \<longleftrightarrow> deletes V x \<and> deletes V y" "v \<in> V \<Longrightarrow> deletes V (delete_vector v)"
  "deletes V (delete_vector (replicate n 0))"
  by (auto simp: deletes_def dest: delete_vector_set(2))

lemma deletes_none: "\<forall>v. Os_delete v \<notin> set calls \<Longrightarrow> deletes V calls"
  by (simp add: deletes_def)

text \<open>Both secure buffers of a new worker.\<close>

lemma two_buffers:
  assumes "memalign_ok ae"
  obtains b b' calls calls' where "SecureBuffer ae x = (b, calls)" "SecureBuffer ae y = (b', calls')"
    "frees_zeros (calls @ calls')" "deletes V (calls @ calls')" "sized_buffer b" "sized_buffer b'"
    "sb_ok b \<and> sb_ok b' \<longrightarrow> holds b x \<and> holds b' y"
    "(\<forall>al n. ae_memalign ae al n \<noteq> None) \<longrightarrow> sb_ok b \<and> sb_ok b'"
proof -
  obtain b calls where b: "SecureBuffer ae x = (b, calls)" "frees_zeros calls" "\<And>v. Os_delete v \<notin> set calls"
    "holds b x \<or> \<not> sb_ok b" "sized_buffer b" "(\<forall>al. ae_memalign ae al (length x) \<noteq> None) \<longrightarrow> holds b x"
    using SecureBuffer_eq [OF assms, of x] by metis
  obtain b' calls' where b': "SecureBuffer ae y = (b', calls')" "frees_zeros calls'" "\<And>v. Os_delete v \<notin> set calls'"
    "holds b' y \<or> \<not> sb_ok b'" "sized_buffer b'" "(\<forall>al. ae_memalign ae al (length y) \<noteq> None) \<longrightarrow> holds b' y"
    using SecureBuffer_eq [OF assms, of y] by metis
  show thesis
    by (rule that [OF b(1) b'(1)]) (use b(2-) b'(2-) in \<open>auto simp: holds_def intro: deletes_none\<close>)
qed

definition common_ok :: "CommonArgs \<Rightarrow> nat \<Rightarrow> bool" where
  "common_ok c n \<longleftrightarrow> supported (to_type (arg_type c)) \<and> 4 \<le> n \<and> 8 \<le> length (arg_salt c) mod 2 ^ 32 \<and>
     8 * unat (arg_p c) \<le> unat (arg_m c) \<and> 1 \<le> unat (arg_t c) \<and> 1 \<le> unat (arg_p c) \<and> unat (arg_p c) < 2 ^ 24"

definition common_tag :: "CommonArgs \<Rightarrow> nat \<Rightarrow> u8 list" where
  "common_tag c n =
     rfc_argon2 (to_type (arg_type c)) (unat (arg_version c)) (unat (arg_p c)) n (unat (arg_m c)) (unat (arg_t c))
       (cut (arg_password c)) (cut (arg_salt c)) (cut (arg_secret c)) (cut (arg_data c))"

lemma Hash_worker:
  assumes "memalign_ok ae" "env_ok (ae_core ae)"
  shows "\<exists>w calls w' calls'. new_HashWorker ae c L = (w, calls) \<and> HashWorker_Execute ae w = (w', calls') \<and>
    (w_error w' = None \<longrightarrow> common_ok c (unat L) \<and> w_hash w' = common_tag c (unat L)) \<and>
    (common_ok c (unat L) \<and> resources ae (arg_p c) \<longrightarrow> w_error w' = None) \<and>
    (env_flag (ae_core ae) \<noteq> 0 \<longrightarrow> frees_zeros (calls @ calls' @ HashWorker_destroy w')) \<and>
    deletes {arg_salt c, arg_data c} (calls @ calls' @ HashWorker_destroy w')"
proof -
  obtain b b' k k' where b: "SecureBuffer ae (arg_password c) = (b, k)" "SecureBuffer ae (arg_secret c) = (b', k')"
    "frees_zeros (k @ k')" "deletes {arg_salt c, arg_data c} (k @ k')" "sized_buffer b" "sized_buffer b'"
    "sb_ok b \<and> sb_ok b' \<longrightarrow> holds b (arg_password c) \<and> holds b' (arg_secret c)"
    "(\<forall>al n. ae_memalign ae al n \<noteq> None) \<longrightarrow> sb_ok b \<and> sb_ok b'"
    by (rule two_buffers [OF assms(1)])
  define w where "w = fst (new_HashWorker ae c L)"
  have w: "new_HashWorker ae c L = (w, k @ k')" "w_plain w = b" "w_secret w = b'" "w_salt w = arg_salt c"
    "w_ad w = arg_data c" "w_error w = None" "w_hash w = []" "w_hash_length w = L" "w_parallelism w = arg_p c"
    and wok: "worker_ok n w = common_ok c n"
    and wtag: "worker_tag n w (arg_password c) (arg_secret c) = common_tag c n" for n
    by (simp_all add: w_def new_HashWorker_def b(1,2) worker_ok_def common_ok_def worker_tag_def common_tag_def)
  have destroy: "frees_zeros (HashWorker_destroy w') \<and> deletes {arg_salt c, arg_data c} (HashWorker_destroy w')"
    if "sized_buffer (w_plain w')" "sized_buffer (w_secret w')" "w_salt w' = arg_salt c" "w_ad w' = arg_data c" for w'
    using SecureBuffer_destroy_zeros [OF that(1)] SecureBuffer_destroy_zeros [OF that(2)]
    by (simp add: HashWorker_destroy_def wiped_vector that(3,4) deletes_none)
  show ?thesis
  proof (cases "sb_ok b \<and> sb_ok b'")
    case False
    then have "HashWorker_Execute ae w = (w\<lparr>w_error := Some buffers_message\<rparr>, [])"
      by (auto simp: HashWorker_Execute_def w)
    then show ?thesis
      using w b(3-6,8) False destroy [of "w\<lparr>w_error := Some buffers_message\<rparr>"] by (auto simp: resources_def)
  next
    case True
    show ?thesis
    proof (cases "ae_resize ae (unat L)")
      case (Some what)
      then have "HashWorker_Execute ae w = (w\<lparr>w_error := Some what\<rparr>, [])"
        using True by (auto simp: HashWorker_Execute_def w)
      then show ?thesis
        using w b(3-6,8) Some destroy [of "w\<lparr>w_error := Some what\<rparr>"] by (auto simp: resources_def)
    next
      case None
      have h: "holds (w_plain w) (arg_password c)" "holds (w_secret w) (arg_secret c)" using b(7) True by (simp_all add: w)
      have l: "length (replicate (unat L) (0 :: u8)) = unat L" "length (replicate (unat L) (0 :: u8)) < 2 ^ 32"
        using unat_lt_u32 [of L] by simp_all
      obtain rc w1 out calls where r: "run_ctx ae (replicate (unat L) 0) w = (rc, w1, out, calls)" "after_ctx w w1"
        "rc = ARGON2_OK \<longrightarrow> common_ok c (unat L) \<and> out = common_tag c (unat L)"
        "common_ok c (unat L) \<and> resources ae (arg_p c) \<longrightarrow> rc = ARGON2_OK"
        "env_flag (ae_core ae) \<noteq> 0 \<longrightarrow> frees_zeros calls" "\<forall>v. Os_delete v \<notin> set calls"
        using run_ctx_eq [OF h l(2) assms] unfolding l(1) wok wtag w(9) by blast
      define w2 where "w2 = (let w = w1\<lparr>w_hash := out\<rparr> in
        if rc \<noteq> ARGON2_OK then w\<lparr>w_error := Some (argon2_error_message (error_code rc))\<rparr> else w)"
      have ex: "HashWorker_Execute ae w = (w2, calls)"
        using True None by (simp add: HashWorker_Execute_def w r(1) w2_def Let_def)
      have w2: "w_error w2 = (if rc = ARGON2_OK then None else Some (argon2_error_message (error_code rc)))"
        "w_hash w2 = out" "w_salt w2 = arg_salt c" "w_ad w2 = arg_data c" "sized_buffer (w_plain w2)" "sized_buffer (w_secret w2)"
        using r(2) w by (auto simp: w2_def after_ctx_def Let_def)
      show ?thesis using w(1) ex w2 r(3-6) b(3,4) destroy [OF w2(5,6,3,4)] by (auto intro: deletes_none)
    qed
  qed
qed

lemma Verify_worker:
  assumes "memalign_ok ae" "env_ok (ae_core ae)"
  shows "\<exists>w calls w' calls'. new_VerifyWorker ae c E = (w, calls) \<and> VerifyWorker_Execute ae w = (w', calls') \<and>
    (length E < 2 ^ 32 \<longrightarrow>
      (w_error w' = None \<longrightarrow> common_ok c (length E) \<and> w_match w' = (E = common_tag c (length E))) \<and>
      (common_ok c (length E) \<and> resources ae (arg_p c) \<longrightarrow> w_error w' = None) \<and>
      (env_flag (ae_core ae) \<noteq> 0 \<longrightarrow> frees_zeros (calls @ calls' @ VerifyWorker_destroy w')) \<and>
      deletes {arg_salt c, arg_data c, E} (calls @ calls' @ VerifyWorker_destroy w'))"
proof -
  obtain b b' k k' where b: "SecureBuffer ae (arg_password c) = (b, k)" "SecureBuffer ae (arg_secret c) = (b', k')"
    "frees_zeros (k @ k')" "deletes {arg_salt c, arg_data c, E} (k @ k')" "sized_buffer b" "sized_buffer b'"
    "sb_ok b \<and> sb_ok b' \<longrightarrow> holds b (arg_password c) \<and> holds b' (arg_secret c)"
    "(\<forall>al n. ae_memalign ae al n \<noteq> None) \<longrightarrow> sb_ok b \<and> sb_ok b'"
    by (rule two_buffers [OF assms(1)])
  define w where "w = fst (new_VerifyWorker ae c E)"
  have w: "new_VerifyWorker ae c E = (w, k @ k')" "w_plain w = b" "w_secret w = b'" "w_salt w = arg_salt c"
    "w_ad w = arg_data c" "w_error w = None" "w_computed_hash w = []" "w_expected_hash w = E" "w_parallelism w = arg_p c"
    and wok: "worker_ok n w = common_ok c n"
    and wtag: "worker_tag n w (arg_password c) (arg_secret c) = common_tag c n" for n
    by (simp_all add: w_def new_VerifyWorker_def b(1,2) worker_ok_def common_ok_def worker_tag_def common_tag_def)
  have destroy: "frees_zeros (VerifyWorker_destroy w') \<and> deletes {arg_salt c, arg_data c, E} (VerifyWorker_destroy w')"
    if "sized_buffer (w_plain w')" "sized_buffer (w_secret w')" "w_salt w' = arg_salt c" "w_ad w' = arg_data c"
      "w_expected_hash w' = E" for w'
    using SecureBuffer_destroy_zeros [OF that(1)] SecureBuffer_destroy_zeros [OF that(2)]
    by (simp add: VerifyWorker_destroy_def wiped_vector that(3-5) deletes_none)
  show ?thesis
  proof (cases "sb_ok b \<and> sb_ok b'")
    case False
    then have "VerifyWorker_Execute ae w = (w\<lparr>w_error := Some buffers_message\<rparr>, [])"
      by (auto simp: VerifyWorker_Execute_def w)
    then show ?thesis
      using w b(3-6,8) False destroy [of "w\<lparr>w_error := Some buffers_message\<rparr>"] by (auto simp: resources_def)
  next
    case True
    show ?thesis
    proof (cases "ae_resize ae (length E)")
      case (Some what)
      then have "VerifyWorker_Execute ae w = (w\<lparr>w_error := Some what\<rparr>, [])"
        using True by (auto simp: VerifyWorker_Execute_def w)
      then show ?thesis
        using w b(3-6,8) Some destroy [of "w\<lparr>w_error := Some what\<rparr>"] by (auto simp: resources_def)
    next
      case None
      have h: "holds (w_plain w) (arg_password c)" "holds (w_secret w) (arg_secret c)" using b(7) True by (simp_all add: w)
      have l: "length (replicate (length E) (0 :: u8)) = length E" by simp
      show ?thesis
      proof (cases "length E < 2 ^ 32")
        case lE: True
        obtain rc w1 out calls where r: "run_ctx ae (replicate (length E) 0) w = (rc, w1, out, calls)" "after_ctx w w1"
          "rc = ARGON2_OK \<longrightarrow> common_ok c (length E) \<and> out = common_tag c (length E)"
          "common_ok c (length E) \<and> resources ae (arg_p c) \<longrightarrow> rc = ARGON2_OK"
          "env_flag (ae_core ae) \<noteq> 0 \<longrightarrow> frees_zeros calls" "\<forall>v. Os_delete v \<notin> set calls" "length out = length E"
          using run_ctx_eq [OF h _ assms, of "replicate (length E) 0", unfolded l, OF lE] unfolding wok wtag w(9) by blast
        define w2 where "w2 = (let w = w1\<lparr>w_computed_hash := out\<rparr> in
          if rc \<noteq> ARGON2_OK then w\<lparr>w_error := Some (argon2_error_message (error_code rc))\<rparr>
          else w\<lparr>w_match := constant_time_compare (w_computed_hash w) (w_expected_hash w) (length (w_expected_hash w))\<rparr>)"
        have ex: "VerifyWorker_Execute ae w = (w2, calls)"
          using True None by (simp add: VerifyWorker_Execute_def w r(1) w2_def Let_def)
        have w2: "w_error w2 = (if rc = ARGON2_OK then None else Some (argon2_error_message (error_code rc)))"
          "rc = ARGON2_OK \<longrightarrow> w_match w2 = (out = E)"
          "w_salt w2 = arg_salt c" "w_ad w2 = arg_data c" "w_expected_hash w2 = E"
          "sized_buffer (w_plain w2)" "sized_buffer (w_secret w2)"
          using r(2) w constant_time_compare_eq [OF r(7) refl] by (auto simp: w2_def after_ctx_def Let_def)
        show ?thesis using w(1) ex w2 r(3-6) b(3,4) destroy [OF w2(6,7,3-5)] by (auto intro: deletes_none)
      qed (cases "VerifyWorker_Execute ae w"; auto simp: w(1))
    qed
  qed
qed

section \<open>The properties\<close>

text \<open>C5: the promise of \<open>Hash\<close> on well-formed options is resolved only with the tag of RFC 9106 for password,
  salt, secret and data, and only when the parameters are within the limits; and it is resolved when they
  are, memory can be had and the threads, if more than one is asked for, can be created and joined. The
  lengths are cast to 32 bits: of a buffer of \<open>2 ^ 32\<close> bytes or more only the first bytes count, as many as
  its length modulo \<open>2 ^ 32\<close> says, so that a password of exactly \<open>2 ^ 32\<close> bytes has the hash of the empty one.\<close>

theorem addon_hash_rfc9106:
  assumes "memalign_ok ae" "env_ok (ae_core ae)"
    and "ExtractCommonArgs u args = Some c" "GetUint32 u args ''hashLength'' = Some L"
    and "tag = rfc_argon2 (to_type (arg_type c)) (unat (arg_version c)) (unat (arg_p c)) (unat L) (unat (arg_m c))
       (unat (arg_t c)) (cut (arg_password c)) (cut (arg_salt c)) (cut (arg_secret c)) (cut (arg_data c))"
    and "valid \<longleftrightarrow> supported (to_type (arg_type c)) \<and> 4 \<le> unat L \<and> 8 \<le> length (arg_salt c) mod 2 ^ 32 \<and>
       8 * unat (arg_p c) \<le> unat (arg_m c) \<and> 1 \<le> unat (arg_t c) \<and> 1 \<le> unat (arg_p c) \<and> unat (arg_p c) < 2 ^ 24"
  shows "(\<exists>m. fst (Hash ae u (Js_object args # rest)) = Js_reject m) \<and> \<not> (valid \<and> resources ae (arg_p c)) \<or>
    fst (Hash ae u (Js_object args # rest)) = Js_resolve_buffer tag \<and> valid"
proof -
  have e: "valid = common_ok c (unat L)" "tag = common_tag c (unat L)"
    by (simp_all only: assms(5,6) common_ok_def common_tag_def)
  obtain w calls w' calls' where h: "new_HashWorker ae c L = (w, calls)" "HashWorker_Execute ae w = (w', calls')"
    "w_error w' = None \<longrightarrow> common_ok c (unat L) \<and> w_hash w' = common_tag c (unat L)"
    "common_ok c (unat L) \<and> resources ae (arg_p c) \<longrightarrow> w_error w' = None"
    using Hash_worker [OF assms(1,2), of c L] by metis
  then show ?thesis
    unfolding e by (cases "w_error w'") (auto simp: Hash_def assms(3,4) HashWorker_result_def)
qed

text \<open>C6: the promise of \<open>Verify\<close> on well-formed options with an expected hash shorter than \<open>2 ^ 32\<close> bytes is resolved
  only for valid parameters, an expected hash of at least four bytes among them, and only with whether the expected hash
  is the tag of RFC 9106 of its length for the password, the salt, the secret and the associated data, each of them cut
  to its length modulo \<open>2 ^ 32\<close>: a password of \<open>2 ^ 32\<close> bytes is verified as the empty one. When the parameters are
  valid and memory and threads can be had, the promise is resolved; otherwise it may be rejected.\<close>

theorem addon_verify_decides:
  assumes "memalign_ok ae" "env_ok (ae_core ae)" "length E < 2 ^ 32"
    and "ExtractCommonArgs u args = Some c" "GetBuffer args ''expectedHash'' = Some E"
    and "tag = rfc_argon2 (to_type (arg_type c)) (unat (arg_version c)) (unat (arg_p c)) (length E) (unat (arg_m c))
       (unat (arg_t c)) (cut (arg_password c)) (cut (arg_salt c)) (cut (arg_secret c)) (cut (arg_data c))"
    and "valid \<longleftrightarrow> supported (to_type (arg_type c)) \<and> 4 \<le> length E \<and> 8 \<le> length (arg_salt c) mod 2 ^ 32 \<and>
       8 * unat (arg_p c) \<le> unat (arg_m c) \<and> 1 \<le> unat (arg_t c) \<and> 1 \<le> unat (arg_p c) \<and> unat (arg_p c) < 2 ^ 24"
  shows "(\<exists>m. fst (Verify ae u (Js_object args # rest)) = Js_reject m) \<and> \<not> (valid \<and> resources ae (arg_p c)) \<or>
    fst (Verify ae u (Js_object args # rest)) = Js_resolve_boolean (E = tag) \<and> valid"
proof -
  have e: "valid = common_ok c (length E)" "tag = common_tag c (length E)"
    by (simp_all only: assms(6,7) common_ok_def common_tag_def)
  obtain w calls w' calls' where h: "new_VerifyWorker ae c E = (w, calls)" "VerifyWorker_Execute ae w = (w', calls')"
    "w_error w' = None \<longrightarrow> common_ok c (length E) \<and> w_match w' = (E = common_tag c (length E))"
    "common_ok c (length E) \<and> resources ae (arg_p c) \<longrightarrow> w_error w' = None"
    using Verify_worker [OF assms(1,2), of c E] assms(3) by metis
  then show ?thesis
    unfolding e by (cases "w_error w'") (auto simp: Verify_def assms(4,5) VerifyWorker_result_def)
qed

text \<open>C25: whatever the options and whether the call succeeds or fails, a block of aligned memory (the copies of
  password and secret, and the matrix) that the addon gives back is zero at that moment, and so are the
  vectors with the computed hash; only salt, associated data and expected hash are left in the heap. A
  matrix that the core leaks, when a thread cannot be created, is not given back at all.\<close>

theorem addon_gives_back_no_secret:
  assumes "memalign_ok ae" "env_ok (ae_core ae)" "env_flag (ae_core ae) \<noteq> 0"
    and "calls = snd (Hash ae u info) \<or> calls = snd (Verify ae u info) \<and>
      (\<forall>args rest E. info = Js_object args # rest \<and> GetBuffer args ''expectedHash'' = Some E \<longrightarrow> length E < 2 ^ 32)"
  shows "(Os_free b \<in> set calls \<longrightarrow> b = replicate (length b) 0) \<and>
    (Os_delete b \<in> set calls \<longrightarrow> b = replicate (length b) 0 \<or>
      (\<exists>args rest c. info = Js_object args # rest \<and> ExtractCommonArgs u args = Some c \<and>
        (b = arg_salt c \<or> b = arg_data c \<or> GetBuffer args ''expectedHash'' = Some b)))"
proof -
  consider "info = []" | rest where "info = Js_no_object # rest" | args rest where "info = Js_object args # rest"
    by (metis js_arg.exhaust neq_Nil_conv)
  then show ?thesis
  proof cases
    case (3 args rest)
    show ?thesis
    proof (cases "ExtractCommonArgs u args")
      case None
      have "calls = []" using None assms(4) 3 by (auto simp: Hash_def Verify_def)
      then show ?thesis by simp
    next
      case (Some c)
      have fin: ?thesis if "frees_zeros calls" "deletes V calls"
        "V \<subseteq> {arg_salt c, arg_data c} \<union> {E. GetBuffer args ''expectedHash'' = Some E}" for V
        using that 3 Some unfolding frees_zeros_def deletes_def by blast
      from assms(4) show ?thesis
      proof
        assume c: "calls = snd (Hash ae u info)"
        show ?thesis
        proof (cases "GetUint32 u args ''hashLength''")
          case L: (Some L)
          show ?thesis
            using Hash_worker [OF assms(1,2), of c L] assms(3)
            by (intro fin [of "{arg_salt c, arg_data c}"]) (auto simp: c 3 Hash_def Some L)
        qed (use c 3 in \<open>simp add: Hash_def Some\<close>)
      next
        assume c: "calls = snd (Verify ae u info) \<and> (\<forall>args rest E. info = Js_object args # rest \<and>
          GetBuffer args ''expectedHash'' = Some E \<longrightarrow> length E < 2 ^ 32)"
        show ?thesis
        proof (cases "GetBuffer args ''expectedHash''")
          case E: (Some E)
          then have l: "length E < 2 ^ 32" using c 3 by blast
          show ?thesis
            using Verify_worker [OF assms(1,2), of c E] assms(3) l
            by (intro fin [of "{arg_salt c, arg_data c, E}"]) (auto simp: c 3 Verify_def Some E)
        qed (use c 3 in \<open>simp add: Verify_def Some\<close>)
      qed
    qed
  qed (use assms(4) in \<open>auto simp: Hash_def Verify_def\<close>)
qed

section \<open>Witnesses\<close>

definition demo_addon :: addon_env where
  "demo_addon = \<lparr>ae_core = quiet_env, ae_linux = True, ae_memalign = (\<lambda>al n. Some (replicate n 9)),
     ae_resize = (\<lambda>n. None), ae_empty_null = True\<rparr>"

definition demo_options :: "nat js_object" where
  "demo_options = (\<lambda>_. Js_other)(''password'' := Js_buffer [112, 119], ''salt'' := Js_buffer (replicate 8 1),
     ''secret'' := Js_buffer [], ''data'' := Js_buffer [], ''m'' := Js_number 16, ''t'' := Js_number 1,
     ''p'' := Js_number 2, ''version'' := Js_number 19, ''type'' := Js_number 2, ''hashLength'' := Js_number 32,
     ''expectedHash'' := Js_buffer (replicate 32 0))"

definition demo_args :: CommonArgs where
  "demo_args = \<lparr>arg_password = [112, 119], arg_salt = replicate 8 1, arg_secret = [], arg_data = [], arg_m = 16,
     arg_t = 1, arg_p = 2, arg_version = 19, arg_type = 2\<rparr>"

lemma demo_facts:
  "memalign_ok demo_addon" "env_ok (ae_core demo_addon)" "env_flag (ae_core demo_addon) \<noteq> 0" "resources demo_addon p"
  "ExtractCommonArgs word_of_nat demo_options = Some demo_args"
  "GetUint32 word_of_nat demo_options ''hashLength'' = Some 32"
  "GetBuffer demo_options ''expectedHash'' = Some (replicate 32 0)"
  by (simp_all add: memalign_ok_def demo_addon_def resources_def demo_options_def ExtractCommonArgs_def GetBuffer_def
      GetUint32_def demo_args_def) (simp add: quiet_env_def)

lemma demo_valid:
  "supported (to_type (arg_type demo_args)) \<and> 4 \<le> n \<and> 8 \<le> length (arg_salt demo_args) mod 2 ^ 32 \<and>
     8 * unat (arg_p demo_args) \<le> unat (arg_m demo_args) \<and> 1 \<le> unat (arg_t demo_args) \<and>
     1 \<le> unat (arg_p demo_args) \<and> unat (arg_p demo_args) < 2 ^ 24 \<longleftrightarrow> 4 \<le> n"
  by (simp add: demo_args_def to_type_def supported_def)

theorem addon_hash_rfc9106_witness:
  "fst (Hash demo_addon word_of_nat [Js_object demo_options]) =
    Js_resolve_buffer (rfc_argon2 Argon2_id 19 2 32 16 1 [112, 119] (replicate 8 1) [] [])"
  using addon_hash_rfc9106 [OF demo_facts(1,2,5,6) refl refl, of "[]"]
  unfolding demo_valid by (simp add: demo_facts(4)) (simp add: demo_args_def to_type_def)

theorem addon_verify_decides_witness:
  "fst (Verify demo_addon word_of_nat [Js_object demo_options]) =
    Js_resolve_boolean (replicate 32 0 = rfc_argon2 Argon2_id 19 2 32 16 1 [112, 119] (replicate 8 1) [] [])"
  using addon_verify_decides [OF demo_facts(1,2) _ demo_facts(5,7) refl refl, of "[]"]
  unfolding demo_valid by (simp add: demo_facts(4)) (simp add: demo_args_def to_type_def)

theorem addon_gives_back_no_secret_witness:
  "Os_free [112, 119] \<notin> set (snd (Hash demo_addon word_of_nat [Js_object demo_options]))"
  using addon_gives_back_no_secret [OF demo_facts(1-3), of _ word_of_nat "[Js_object demo_options]" "[112, 119]"]
  by auto

end
