(* ===== verification/Run.thy ===== *)
theory Run
  imports Api
begin

text \<open>
  The command line tool \<^verbatim>\<open>src/run.c\<close>: the options, hashing, and what is printed.

  An element of \<^verbatim>\<open>argv\<close> is the list of its characters, as bytes, before the terminating zero. What the
  tool writes to the two output streams is a list of bytes, and \<open>exit_code\<close> is what \<^verbatim>\<open>main\<close> returns or the
  argument of \<^verbatim>\<open>exit\<close>. The environment, \<open>tool_env\<close>, gives the results of the two calls of \<^verbatim>\<open>malloc\<close>
  in \<^verbatim>\<open>run\<close>, the environments of the two calls of the library, the uninitialised array for the password
  and the context of \<^verbatim>\<open>argon2_verify\<close>, and the time, as it is printed.
\<close>

section \<open>The C library\<close>

text \<open>\<^verbatim>\<open>strtoul\<close> with base 10: space, a sign, digits; what follows is ignored. A number that is too large gives
  \<^verbatim>\<open>ULONG_MAX\<close>, a negative one wraps around.\<close>

definition ULONG_MAX :: u64 where "ULONG_MAX = - 1"

definition is_space :: "u8 \<Rightarrow> bool" where
  "is_space c \<longleftrightarrow> c = 32 \<or> 9 \<le> c \<and> c \<le> 13"

definition is_digit :: "u8 \<Rightarrow> bool" where
  "is_digit c \<longleftrightarrow> 48 \<le> c \<and> c \<le> 57"

definition strtoul :: "u8 list \<Rightarrow> u64" where
  "strtoul s =
     (let s = dropWhile is_space s;
          (neg, s) = (case s of c # r \<Rightarrow> if c = 45 then (True, r) else if c = 43 then (False, r) else (False, s)
                      | [] \<Rightarrow> (False, s));
          n = fold (\<lambda>d n. 10 * n + (unat d - 48)) (takeWhile is_digit s) 0
      in if n \<ge> 2 ^ 64 then ULONG_MAX else if neg then - word_of_nat n else word_of_nat n)"

text \<open>The conversions \<^verbatim>\<open>%02x\<close> of a byte and \<^verbatim>\<open>%u\<close>, \<^verbatim>\<open>%d\<close>; \<^verbatim>\<open>%s\<close> and \<^verbatim>\<open>puts\<close> print up to the zero.\<close>

definition hex_digit :: "nat \<Rightarrow> u8" where
  "hex_digit n = (if n < 10 then word_of_nat (48 + n) else word_of_nat (87 + n))"

definition hex2 :: "u8 \<Rightarrow> u8 list" where
  "hex2 b = [hex_digit (unat b div 16), hex_digit (unat b mod 16)]"

definition c_string :: "u8 list \<Rightarrow> u8 list" where
  "c_string b = takeWhile (\<lambda>c. c \<noteq> 0) b"

abbreviation newline :: "u8 list" where "newline \<equiv> [10]"
abbreviation tab :: "u8 list" where "tab \<equiv> [9]"

record tool_exit =
  stdout :: "u8 list"
  stderr :: "u8 list"
  exit_code :: int

record tool_env =
  te_hash :: env
  te_verify :: env
  te_locals :: argon2_context
  te_malloc_out :: "nat \<Rightarrow> u8 list option"
  te_malloc_encoded :: "nat \<Rightarrow> u8 list option"
  te_pwd :: "u8 list"
  te_seconds :: "u8 list"

section \<open>Options\<close>

definition T_COST_DEF :: u32 where "T_COST_DEF = 3"
definition LOG_M_COST_DEF :: nat where "LOG_M_COST_DEF = 12"
definition LANES_DEF :: u32 where "LANES_DEF = 1"
definition THREADS_DEF :: u32 where "THREADS_DEF = 1"
definition OUTLEN_DEF :: u32 where "OUTLEN_DEF = 32"
definition MAX_PASS_LEN :: nat where "MAX_PASS_LEN = 128"

text \<open>The lines that \<^verbatim>\<open>usage\<close> prints; \<^verbatim>\<open>%x\<close> of the version number is \<^verbatim>\<open>13\<close>.\<close>

definition usage :: "u8 list \<Rightarrow> u8 list" where
  "usage cmd =
     chars ''Usage:  '' @ cmd @ chars '' [-h] salt [-i|-d|-id] [-t iterations] [-m log2(memory in KiB) | -k memory in KiB] [-p parallelism] [-l hash length] [-e|-r] [-v (10|13)]'' @ newline @
     tab @ chars ''Password is read from stdin'' @ newline @
     chars ''Parameters:'' @ newline @
     tab @ chars ''salt'' @ tab @ tab @ chars ''The salt to use, at least 8 characters'' @ newline @
     tab @ chars ''-i'' @ tab @ tab @ chars ''Use Argon2i (this is the default)'' @ newline @
     tab @ chars ''-d'' @ tab @ tab @ chars ''Use Argon2d instead of Argon2i'' @ newline @
     tab @ chars ''-id'' @ tab @ tab @ chars ''Use Argon2id instead of Argon2i'' @ newline @
     tab @ chars ''-t N'' @ tab @ tab @ chars ''Sets the number of iterations to N (default = '' @ decimal (unat T_COST_DEF) @ chars '')'' @ newline @
     tab @ chars ''-m N'' @ tab @ tab @ chars ''Sets the memory usage of 2^N KiB (default '' @ decimal LOG_M_COST_DEF @ chars '')'' @ newline @
     tab @ chars ''-k N'' @ tab @ tab @ chars ''Sets the memory usage of N KiB (default '' @ decimal (2 ^ LOG_M_COST_DEF) @ chars '')'' @ newline @
     tab @ chars ''-p N'' @ tab @ tab @ chars ''Sets parallelism to N threads (default '' @ decimal (unat THREADS_DEF) @ chars '')'' @ newline @
     tab @ chars ''-l N'' @ tab @ tab @ chars ''Sets hash output length to N bytes (default '' @ decimal (unat OUTLEN_DEF) @ chars '')'' @ newline @
     tab @ chars ''-e'' @ tab @ tab @ chars ''Output only encoded hash'' @ newline @
     tab @ chars ''-r'' @ tab @ tab @ chars ''Output only the raw bytes of the hash'' @ newline @
     tab @ chars ''-v (10|13)'' @ tab @ chars ''Argon2 version (defaults to the most recent version, currently 13)'' @ newline @
     tab @ chars ''-h'' @ tab @ tab @ chars ''Print '' @ cmd @ chars '' usage'' @ newline"

text \<open>\<open>printed\<close> is what is on the standard output when the tool gives up.\<close>

definition fatal :: "u8 list \<Rightarrow> string \<Rightarrow> tool_exit" where
  "fatal printed error = \<lparr>stdout = printed, stderr = chars ''Error: '' @ chars error @ newline, exit_code = 1\<rparr>"

definition print_hex :: "u8 list \<Rightarrow> nat \<Rightarrow> u8 list" where
  "print_hex bytes bytes_len = concat (map (\<lambda>i. hex2 (bytes ! i)) [0..<bytes_len]) @ newline"

text \<open>The local variables of \<^verbatim>\<open>main\<close> that the options set.\<close>

record options =
  opt_outlen :: u32
  opt_m_cost :: u32
  opt_t_cost :: u32
  opt_lanes :: u32
  opt_threads :: u32
  opt_type :: argon2_type
  opt_types_specified :: nat
  opt_m_cost_specified :: bool
  opt_encoded_only :: bool
  opt_raw_only :: bool
  opt_version :: u32

definition default_options :: options where
  "default_options =
     \<lparr>opt_outlen = OUTLEN_DEF, opt_m_cost = push_bit LOG_M_COST_DEF 1, opt_t_cost = T_COST_DEF, opt_lanes = LANES_DEF,
      opt_threads = THREADS_DEF, opt_type = Argon2_i, opt_types_specified = 0, opt_m_cost_specified = False,
      opt_encoded_only = False, opt_raw_only = False, opt_version = ARGON2_VERSION_NUMBER\<rparr>"

datatype parsed = Parsed options | Parse_fatal string | Parse_usage

text \<open>The loop over the arguments from \<^verbatim>\<open>argv[2]\<close> on; an option with a value consumes two of them.\<close>

fun parse_options :: "u8 list list \<Rightarrow> options \<Rightarrow> parsed" where
  "parse_options [] opts = Parsed opts"
| "parse_options (a # rest) opts =
     (if a = chars ''-h'' then Parse_usage
      else if a = chars ''-m'' then
        (if opt_m_cost_specified opts then Parse_fatal ''-m or -k can only be used once''
         else case rest of [] \<Rightarrow> Parse_fatal ''missing -m argument''
         | x # rest \<Rightarrow>
             (let input = strtoul x in
              if input = 0 \<or> input = ULONG_MAX \<or> input > word_of_nat ARGON2_MAX_MEMORY_BITS
              then Parse_fatal ''bad numeric input for -m''
              else let m_cost = ucast (min (push_bit (unat input) 1 :: u64) 0xFFFFFFFF) :: u32 in
              if ucast m_cost > ARGON2_MAX_MEMORY then Parse_fatal ''m_cost overflow''
              else parse_options rest (opts\<lparr>opt_m_cost_specified := True, opt_m_cost := m_cost\<rparr>)))
      else if a = chars ''-k'' then
        (if opt_m_cost_specified opts then Parse_fatal ''-m or -k can only be used once''
         else case rest of [] \<Rightarrow> Parse_fatal ''missing -k argument''
         | x # rest \<Rightarrow>
             (let input = strtoul x in
              if input = 0 \<or> input = ULONG_MAX then Parse_fatal ''bad numeric input for -k''
              else let m_cost = ucast (min input 0xFFFFFFFF) :: u32 in
              if ucast m_cost > ARGON2_MAX_MEMORY then Parse_fatal ''m_cost overflow''
              else parse_options rest (opts\<lparr>opt_m_cost_specified := True, opt_m_cost := m_cost\<rparr>)))
      else if a = chars ''-t'' then
        (case rest of [] \<Rightarrow> Parse_fatal ''missing -t argument''
         | x # rest \<Rightarrow>
             (let input = strtoul x in
              if input = 0 \<or> input = ULONG_MAX \<or> input > ucast ARGON2_MAX_TIME
              then Parse_fatal ''bad numeric input for -t''
              else parse_options rest (opts\<lparr>opt_t_cost := ucast input\<rparr>)))
      else if a = chars ''-p'' then
        (case rest of [] \<Rightarrow> Parse_fatal ''missing -p argument''
         | x # rest \<Rightarrow>
             (let input = strtoul x in
              if input = 0 \<or> input = ULONG_MAX \<or> input > ucast ARGON2_MAX_THREADS \<or> input > ucast ARGON2_MAX_LANES
              then Parse_fatal ''bad numeric input for -p''
              else parse_options rest (opts\<lparr>opt_threads := ucast input, opt_lanes := ucast input\<rparr>)))
      else if a = chars ''-l'' then
        (case rest of [] \<Rightarrow> Parse_fatal ''missing -l argument''
         | x # rest \<Rightarrow> parse_options rest (opts\<lparr>opt_outlen := ucast (strtoul x)\<rparr>))
      else if a = chars ''-i''
      then parse_options rest (opts\<lparr>opt_type := Argon2_i, opt_types_specified := opt_types_specified opts + 1\<rparr>)
      else if a = chars ''-d''
      then parse_options rest (opts\<lparr>opt_type := Argon2_d, opt_types_specified := opt_types_specified opts + 1\<rparr>)
      else if a = chars ''-id''
      then parse_options rest (opts\<lparr>opt_type := Argon2_id, opt_types_specified := opt_types_specified opts + 1\<rparr>)
      else if a = chars ''-e'' then parse_options rest (opts\<lparr>opt_encoded_only := True\<rparr>)
      else if a = chars ''-r'' then parse_options rest (opts\<lparr>opt_raw_only := True\<rparr>)
      else if a = chars ''-v'' then
        (case rest of [] \<Rightarrow> Parse_fatal ''missing -v argument''
         | x # rest \<Rightarrow>
             if x = chars ''10'' then parse_options rest (opts\<lparr>opt_version := ARGON2_VERSION_10\<rparr>)
             else if x = chars ''13'' then parse_options rest (opts\<lparr>opt_version := ARGON2_VERSION_13\<rparr>)
             else Parse_fatal ''invalid Argon2 version'')
      else Parse_fatal ''unknown argument'')"

section \<open>Hashing\<close>

text \<open>The sum \<^verbatim>\<open>outlen + 1\<close> is computed in 32 bits, \<^verbatim>\<open>encodedlen + 1\<close> in \<^verbatim>\<open>size_t\<close>.\<close>

definition run ::
  "tool_env \<Rightarrow> u8 list \<Rightarrow> u32 \<Rightarrow> u8 list option \<Rightarrow> nat \<Rightarrow> u8 list option \<Rightarrow> u32 \<Rightarrow> u32 \<Rightarrow> u32 \<Rightarrow> u32 \<Rightarrow>
    argon2_type \<Rightarrow> bool \<Rightarrow> bool \<Rightarrow> u32 \<Rightarrow> tool_exit" where
  "run e printed outlen pwd pwdlen salt t_cost m_cost lanes threads type encoded_only raw_only version =
     (if pwd = None then fatal printed ''password missing''
      else case salt of None \<Rightarrow> fatal printed ''salt missing''
      | Some salt \<Rightarrow>
        let saltlen = length salt in
        if 0xFFFFFFFF < saltlen then fatal printed ''salt is too long''
        else case te_malloc_out e (unat (outlen + 1)) of None \<Rightarrow> fatal printed ''could not allocate memory for output''
        | Some out \<Rightarrow>
        let encodedlen = argon2_encodedlen t_cost m_cost lanes (word_of_nat saltlen) outlen type in
        case te_malloc_encoded e (size_add encodedlen 1) of None \<Rightarrow> fatal printed ''could not allocate memory for hash''
        | Some encoded \<Rightarrow>
        let (result, out, encoded, _) = argon2_hash (te_hash e) t_cost m_cost threads pwd pwdlen (Some salt) saltlen
                (Some out) (unat outlen) (Some encoded) encodedlen type version;
            out = the out; encoded = the encoded in
        if result \<noteq> ARGON2_OK then fatal printed (argon2_error_message (error_code result))
        else let printed = (if encoded_only then printed @ c_string encoded @ newline else printed);
                 printed = (if raw_only then printed @ print_hex out (unat outlen) else printed) in
        if encoded_only \<or> raw_only then \<lparr>stdout = printed, stderr = [], exit_code = error_code ARGON2_OK\<rparr>
        else let printed = printed @ chars ''Hash:'' @ tab @ tab @ print_hex out (unat outlen) @
                   chars ''Encoded:'' @ tab @ c_string encoded @ newline @
                   te_seconds e @ chars '' seconds'' @ newline;
                 (result, _) = argon2_verify (te_verify e) (te_locals e) (Some (c_string encoded)) pwd pwdlen type in
        if result \<noteq> ARGON2_OK then fatal printed (argon2_error_message (error_code result))
        else \<lparr>stdout = printed @ chars ''Verification ok'' @ newline, stderr = [], exit_code = error_code ARGON2_OK\<rparr>)"

text \<open>\<^verbatim>\<open>argv\<close> has at least the element \<^verbatim>\<open>argv[0]\<close>; the second argument is what can be read from the standard
  input.\<close>

definition tool_main :: "tool_env \<Rightarrow> u8 list list \<Rightarrow> u8 list \<Rightarrow> tool_exit" where
  "tool_main e argv stdin =
     (if length argv < 2
      then \<lparr>stdout = usage (argv ! 0), stderr = [], exit_code = error_code ARGON2_MISSING_ARGS\<rparr>
      else if argv ! 1 = chars ''-h'' then \<lparr>stdout = usage (argv ! 0), stderr = [], exit_code = 1\<rparr>
      else let pwdlen = min MAX_PASS_LEN (length stdin);
               pwd = memcpy_at (te_pwd e) 0 stdin pwdlen in
      if pwdlen < 1 then fatal [] ''no password read''
      else if pwdlen = MAX_PASS_LEN then fatal [] ''Provided password longer than supported in command line utility''
      else let salt = argv ! 1 in
      case parse_options (drop 2 argv) default_options of
        Parse_usage \<Rightarrow> \<lparr>stdout = usage (argv ! 0), stderr = [], exit_code = 1\<rparr>
      | Parse_fatal error \<Rightarrow> fatal [] error
      | Parsed opts \<Rightarrow>
          if opt_types_specified opts > 1 then fatal [] ''cannot specify multiple Argon2 types''
          else if opt_encoded_only opts \<and> opt_raw_only opts then fatal [] ''cannot provide both -e and -r''
          else let printed =
                 (if \<not> opt_encoded_only opts \<and> \<not> opt_raw_only opts
                  then chars ''Type:'' @ tab @ tab @ chars (the (argon2_type2string (opt_type opts) 1)) @ newline @
                    chars ''Iterations:'' @ tab @ decimal (unat (opt_t_cost opts)) @ newline @
                    chars ''Memory:'' @ tab @ tab @ decimal (unat (opt_m_cost opts)) @ chars '' KiB'' @ newline @
                    chars ''Parallelism:'' @ tab @ decimal (unat (opt_lanes opts)) @ newline
                  else [])
               in run e printed (opt_outlen opts) (Some pwd) pwdlen (Some salt) (opt_t_cost opts) (opt_m_cost opts)
                    (opt_lanes opts) (opt_threads opts) (opt_type opts) (opt_encoded_only opts) (opt_raw_only opts)
                    (opt_version opts))"

end
