(* ===== verification/Run_Props.thy ===== *)
theory Run_Props
  imports Run Api_Props
begin

text \<open>
  What the tool prints: the tag of RFC 9106 and the encoded form, for every command line that it accepts.
\<close>

section \<open>Options\<close>

text \<open>What the options guarantee, whatever their order and number.\<close>

definition options_ok :: "options \<Rightarrow> bool" where
  "options_ok opts \<longleftrightarrow> opt_threads opts = opt_lanes opts \<and> 1 \<le> unat (opt_lanes opts) \<and> unat (opt_lanes opts) < 2 ^ 24 \<and>
     1 \<le> unat (opt_t_cost opts) \<and> supported (opt_type opts) \<and>
     (opt_version opts = ARGON2_VERSION_10 \<or> opt_version opts = ARGON2_VERSION_13)"

lemma default_options_ok: "options_ok default_options"
  by (simp add: options_ok_def default_options_def LANES_DEF_def THREADS_DEF_def T_COST_DEF_def supported_def
      ARGON2_VERSION_NUMBER_def)

lemma small_input:
  fixes input :: u64
  assumes "input \<noteq> 0" "unat input < 2 ^ 32"
  shows "1 \<le> unat (ucast input :: u32)" "unat (ucast input :: u32) = unat input"
proof -
  have "0 < unat input" using assms(1) by (metis gr0I unsigned_0 word_unat_eq_iff)
  moreover show "unat (ucast input :: u32) = unat input"
    using assms(2) by (simp add: unsigned_ucast_eq take_bit_nat_eq_self)
  ultimately show "1 \<le> unat (ucast input :: u32)" by simp
qed

lemma lanes_option:
  assumes "input \<noteq> 0" "\<not> ucast ARGON2_MAX_LANES < (input :: u64)"
  shows "1 \<le> unat (ucast input :: u32) \<and> unat (ucast input :: u32) < 16777216"
proof -
  have "unat input \<le> 0xFFFFFF" using assms(2) by (simp add: word_less_nat_alt ARGON2_MAX_LANES_def)
  then have "unat input < 2 ^ 24" "unat input < 2 ^ 32" by simp_all
  then show ?thesis using small_input [OF assms(1)] by (simp del: unsigned_ucast_eq One_nat_def)
qed

lemma time_option:
  assumes "input \<noteq> 0" "\<not> ucast ARGON2_MAX_TIME < (input :: u64)"
  shows "1 \<le> unat (ucast input :: u32)"
proof -
  have "unat input \<le> 0xFFFFFFFF" using assms(2) by (simp add: word_less_nat_alt ARGON2_MAX_TIME_def)
  then have "unat input < 2 ^ 32" by simp
  then show ?thesis using small_input(1) [OF assms(1)] by simp
qed

lemma options_ok_updates:
  "options_ok opts \<Longrightarrow> options_ok (opts\<lparr>opt_m_cost_specified := b, opt_m_cost := m\<rparr>)"
  "options_ok opts \<Longrightarrow> options_ok (opts\<lparr>opt_outlen := m\<rparr>)"
  "options_ok opts \<Longrightarrow> options_ok (opts\<lparr>opt_encoded_only := b\<rparr>)"
  "options_ok opts \<Longrightarrow> options_ok (opts\<lparr>opt_raw_only := b\<rparr>)"
  "options_ok opts \<Longrightarrow> options_ok (opts\<lparr>opt_type := Argon2_d, opt_types_specified := n\<rparr>)"
  "options_ok opts \<Longrightarrow> options_ok (opts\<lparr>opt_type := Argon2_i, opt_types_specified := n\<rparr>)"
  "options_ok opts \<Longrightarrow> options_ok (opts\<lparr>opt_type := Argon2_id, opt_types_specified := n\<rparr>)"
  "options_ok opts \<Longrightarrow> options_ok (opts\<lparr>opt_version := ARGON2_VERSION_10\<rparr>)"
  "options_ok opts \<Longrightarrow> options_ok (opts\<lparr>opt_version := ARGON2_VERSION_13\<rparr>)"
  "options_ok opts \<Longrightarrow> input \<noteq> 0 \<Longrightarrow> \<not> ucast ARGON2_MAX_TIME < (input :: u64) \<Longrightarrow>
    options_ok (opts\<lparr>opt_t_cost := ucast input\<rparr>)"
  "options_ok opts \<Longrightarrow> input \<noteq> 0 \<Longrightarrow> \<not> ucast ARGON2_MAX_LANES < (input :: u64) \<Longrightarrow>
    options_ok (opts\<lparr>opt_threads := ucast input, opt_lanes := ucast input\<rparr>)"
  by (simp_all add: options_ok_def supported_def lanes_option time_option del: unsigned_ucast_eq One_nat_def)

lemma parse_options_ok: "parse_options args opts = Parsed opts' \<Longrightarrow> options_ok opts \<Longrightarrow> options_ok opts'"
proof (induction "length args" arbitrary: args opts rule: less_induct)
  case less
  show ?case
  proof (cases args)
    case Nil
    then show ?thesis using less.prems by simp
  next
    case (Cons a rest)
    have IH: "options_ok opts'" if "parse_options r opts2 = Parsed opts'" "options_ok opts2" "length r \<le> length rest" for r opts2
      by (rule less.hyps [OF _ that(1,2)]) (use that(3) in \<open>simp add: Cons\<close>)
    have IH2: "options_ok opts'" if "rest = x # r" "parse_options r opts2 = Parsed opts'" "options_ok opts2" for x r opts2
      using IH [OF that(2,3)] that(1) by simp
    note ok = options_ok_updates [OF less.prems(2)]
    show ?thesis
      using less.prems(1) unfolding Cons parse_options.simps(2) Let_def
      by (simp only: split: if_splits list.splits)
        (simp_all only: parsed.distinct de_Morgan_disj,
          ((rule IH2, assumption, assumption | rule IH [OF _ _ order_refl], assumption), rule ok; blast)+)
  qed
qed

section \<open>Hashing\<close>

definition hex :: "u8 list \<Rightarrow> u8 list" where
  "hex bs = concat (map hex2 bs)"

lemma print_hex_append: "print_hex (bs @ r) (length bs) = hex bs @ newline"
proof -
  have "map (\<lambda>i. hex2 ((bs @ r) ! i)) [0..<length bs] = map hex2 bs"
    by (intro list_eq_nthI) (simp_all add: nth_append)
  then show ?thesis by (simp add: print_hex_def hex_def)
qed

text \<open>The memory the tool asks for: for the largest length it accepts the sum wraps, and the buffer for the
  hash has no room at all.\<close>

lemma out_buffer_size: "unat (n + 1) = (if n = - 1 then 0 else unat n + 1)" for n :: u32
  using unatSuc [of n] eq_neg_iff_add_eq_0 [of n 1] by (auto simp: add.commute)

definition tool_memory :: "tool_env \<Rightarrow> bool" where
  "tool_memory e \<longleftrightarrow> (\<forall>n. \<exists>b. te_malloc_out e n = Some b \<and> length b = n) \<and>
     (\<forall>n. \<exists>b. te_malloc_encoded e n = Some b \<and> length b = n) \<and>
     env_ok (te_hash e) \<and> (\<forall>site n. env_malloc (te_hash e) site n \<noteq> None) \<and>
     env_ok (te_verify e) \<and> (\<forall>site n. env_malloc (te_verify e) site n \<noteq> None)"

definition tool_threads :: "tool_env \<Rightarrow> u32 \<Rightarrow> bool" where
  "tool_threads e p \<longleftrightarrow> unat p = 1 \<or> threads_succeed (te_hash e) \<and> threads_succeed (te_verify e)"

lemma run_eq:
  fixes v n :: u32
  assumes "hash_args t m p (Some pwd) pwdlen (Some salt) (length salt) (unat n)" "pwdlen \<le> length pwd"
    and "supported y" "v = ARGON2_VERSION_10 \<or> v = ARGON2_VERSION_13" "n \<noteq> - 1"
    and "tool_memory e" "tool_threads e p"
    and "T = hash_tag y t m p (Some pwd) pwdlen (Some salt) (length salt) (unat n) v"
    and "w = phc y (Some v) m t p salt T" "length w < 2 ^ 32" "\<not> (enc \<and> raw)"
  shows "run e printed n (Some pwd) pwdlen (Some salt) t m p p y enc raw v = \<lparr>stdout = printed @
    (if enc then w @ newline else if raw then hex T @ newline
     else chars ''Hash:'' @ tab @ tab @ hex T @ newline @ chars ''Encoded:'' @ tab @ w @ newline @
       te_seconds e @ chars '' seconds'' @ newline @ chars ''Verification ok'' @ newline), stderr = [], exit_code = 0\<rparr>"
proof -
  have lt: "length salt < 2 ^ 32" "4 \<le> unat n" using assms(1) by (simp_all add: hash_args_def)
  have lT: "length T = unat n" unfolding assms(8) by (rule length_hash_tag [OF lt(2)])
  have sl: "(0xFFFFFFFF < length salt) = False" using lt(1) by simp
  have os: "unat (n + 1) = unat n + 1" using assms(5) by (simp add: out_buffer_size)
  obtain out where out: "te_malloc_out e (unat n + 1) = Some out" "length out = unat n + 1"
    using assms(6) unfolding tool_memory_def by blast
  have lTw: "length T < 2 ^ 32" unfolding lT by (rule unat_lt_u32)
  have "word_of_nat (length T) = n" unfolding lT by (rule word_nat_cases) simp
  then have el: "argon2_encodedlen t m p (word_of_nat (length salt)) n y = length w + 1"
    using argon2_encodedlen_eq [OF assms(3,4) lt(1) lTw, of t m p] by (simp only: assms(9))
  have es: "size_add (length w + 1) 1 = length w + 2" using assms(10) by simp
  obtain eb where eb: "te_malloc_encoded e (length w + 2) = Some eb" "length eb = length w + 2"
    using assms(6) unfolding tool_memory_def by blast
  have ok: "env_ok (te_hash e)" "env_malloc (te_hash e) Alloc_hash_out (unat n) \<noteq> None" "hash_succeeds (te_hash e) m p"
    using assms(6,7) unfolding tool_memory_def tool_threads_def hash_succeeds_def by blast+
  have rd: "readable (Some pwd) pwdlen" "readable (Some salt) (length salt)" using assms(2) by simp_all
  have w: "w = hash_phc y t m p (Some pwd) pwdlen (Some salt) (length salt) (unat n) v"
    by (simp add: hash_phc_def assms(8,9))
  have fit: "length w + 1 \<le> length b" if "Some eb = Some b" for b using that eb(2) by simp
  obtain o' where h: "argon2_hash (te_hash e) t m p (Some pwd) pwdlen (Some salt) (length salt) (Some out) (unat n)
      (Some eb) (length w + 1) y v = (ARGON2_OK, Some (T @ drop (unat n) out), Some (w @ [0] @ drop (length w + 1) eb), o')"
    using argon2_hash_eq [OF assms(1) rd assms(3) ok(1,2), where encoded = "Some eb" and hash = "Some out" and v = v, OF fit] ok(3)
    unfolding w [symmetric] assms(8) [symmetric] by auto
  have cs: "c_string (w @ 0 # r) = w" for r
    unfolding c_string_def by (rule takeWhile_printable) (simp add: assms(9) printable_phc [OF assms(3)])
  have hx: "print_hex (T @ r) (unat n) = hex T @ newline" for r using print_hex_append [of T r] by (simp add: lT)
  have ver: "fst (argon2_verify (te_verify e) (te_locals e) (Some w) (Some pwd) pwdlen y) = ARGON2_OK"
  proof (subst verify_phc [OF assms(3) _ rd(1) _ assms(9) _ assms(10)])
    show "hash_args t m p (Some pwd) pwdlen (Some salt) (length salt) (length T)" using assms(1) by (simp add: lT)
  qed (use assms(6,7) in \<open>auto simp: tool_memory_def tool_threads_def lT assms(8) [symmetric]\<close>)
  obtain vr where vr: "argon2_verify (te_verify e) (te_locals e) (Some w) (Some pwd) pwdlen y = (ARGON2_OK, vr)"
    using ver by (cases "argon2_verify (te_verify e) (te_locals e) (Some w) (Some pwd) pwdlen y") simp
  show ?thesis
    using assms(11) unfolding run_def option.case Let_def sl if_False os out(1) el es eb(1) h
    by (simp add: cs hx vr)
qed

text \<open>C11: what the tool prints for a command line whose options it accepts, with a salt of at least eight characters
  that is not \<^verbatim>\<open>-h\<close>, a password of 1 to 127 bytes on the standard input, a hash length of at least four and enough
  memory for the lanes: the tag of RFC 9106 in hexadecimal, the encoded form, or both with a verification that succeeds,
  and it exits with 0. It is so provided that memory and threads can be had, that salt and encoded form are shorter than
  \<open>2 ^ 32\<close> bytes, and that the hash length is not \<open>2 ^ 32 - 1\<close>: the tool accepts that one, but the size of its buffer wraps
  to 0, and it hashes into a buffer without room.\<close>

theorem tool_prints_rfc9106:
  assumes "parse_options args default_options = Parsed opts" "opt_types_specified opts \<le> 1"
    and "\<not> (opt_encoded_only opts \<and> opt_raw_only opts)" "salt \<noteq> chars ''-h''"
    and "1 \<le> length pwd" "length pwd < 128" "length (te_pwd e) = 128" "8 \<le> length salt" "length salt < 2 ^ 32"
    and "4 \<le> unat (opt_outlen opts)" "opt_outlen opts \<noteq> - 1" "8 * unat (opt_lanes opts) \<le> unat (opt_m_cost opts)"
    and "tool_memory e" "tool_threads e (opt_lanes opts)"
    and "T = rfc_argon2 (opt_type opts) (unat (opt_version opts)) (unat (opt_lanes opts)) (unat (opt_outlen opts))
      (unat (opt_m_cost opts)) (unat (opt_t_cost opts)) pwd salt [] []"
    and "w = phc (opt_type opts) (Some (opt_version opts)) (opt_m_cost opts) (opt_t_cost opts) (opt_lanes opts) salt T"
    and "length w < 2 ^ 32"
  shows "stderr (tool_main e (cmd # salt # args) pwd) = [] \<and> exit_code (tool_main e (cmd # salt # args) pwd) = 0 \<and>
    (opt_encoded_only opts \<longrightarrow> stdout (tool_main e (cmd # salt # args) pwd) = w @ newline) \<and>
    (opt_raw_only opts \<longrightarrow> stdout (tool_main e (cmd # salt # args) pwd) = hex T @ newline) \<and>
    (\<not> opt_encoded_only opts \<and> \<not> opt_raw_only opts \<longrightarrow> (\<exists>x. stdout (tool_main e (cmd # salt # args) pwd) =
      x @ chars ''Hash:'' @ tab @ tab @ hex T @ newline @ chars ''Encoded:'' @ tab @ w @ newline @
      te_seconds e @ chars '' seconds'' @ newline @ chars ''Verification ok'' @ newline))"
proof -
  have o: "options_ok opts" by (rule parse_options_ok [OF assms(1) default_options_ok])
  define buf where "buf = memcpy_at (te_pwd e) 0 pwd (length pwd)"
  have buf: "length pwd \<le> length buf" "take (length pwd) buf = pwd" using assms(6,7) by (simp_all add: buf_def memcpy_at_def)
  have ha: "hash_args (opt_t_cost opts) (opt_m_cost opts) (opt_lanes opts) (Some buf) (length pwd) (Some salt)
      (length salt) (unat (opt_outlen opts))"
    using o assms(5,6,8-10,12) unat_lt_u32 [of "opt_outlen opts"] by (simp add: hash_args_def options_ok_def)
  have T: "T = hash_tag (opt_type opts) (opt_t_cost opts) (opt_m_cost opts) (opt_lanes opts) (Some buf) (length pwd)
      (Some salt) (length salt) (unat (opt_outlen opts)) (opt_version opts)"
    by (simp add: hash_tag_def assms(15) buf(2))
  have sup: "supported (opt_type opts)" "opt_version opts = ARGON2_VERSION_10 \<or> opt_version opts = ARGON2_VERSION_13"
    "opt_threads opts = opt_lanes opts"
    using o by (simp_all add: options_ok_def)
  note R = run_eq [OF ha buf(1) sup(1,2) assms(11,13,14) T assms(16,17,3)]
  have len: "min MAX_PASS_LEN (length pwd) = length pwd" "(length pwd < 1) = False" "(length pwd = MAX_PASS_LEN) = False"
    "(1 < opt_types_specified opts) = False"
    using assms(2,5,6) by (auto simp: MAX_PASS_LEN_def Suc_le_eq)
  have i: "(length (cmd # salt # args) < 2) = False" "(cmd # salt # args) ! 1 = salt" "drop 2 (cmd # salt # args) = args"
    "(salt = chars ''-h'') = False"
    using assms(4) by simp_all
  show ?thesis
    using assms(3) unfolding tool_main_def i if_False Let_def len assms(1) parsed.case buf_def [symmetric] sup(3) R
    by auto
qed

section \<open>Witness\<close>

definition demo_tool :: tool_env where
  "demo_tool = \<lparr>te_hash = quiet_env, te_verify = quiet_env, te_locals = small_context,
     te_malloc_out = (\<lambda>n. Some (replicate n 3)), te_malloc_encoded = (\<lambda>n. Some (replicate n 4)),
     te_pwd = replicate 128 5, te_seconds = chars ''0.100''\<rparr>"

definition demo_command :: "u8 list list" where
  "demo_command = map chars [''-k'', ''16'', ''-e'']"

lemma demo_command_options:
  "parse_options demo_command default_options = Parsed
     \<lparr>opt_outlen = 32, opt_m_cost = 16, opt_t_cost = 3, opt_lanes = 1, opt_threads = 1, opt_type = Argon2_i,
      opt_types_specified = 0, opt_m_cost_specified = True, opt_encoded_only = True, opt_raw_only = False,
      opt_version = 19\<rparr>"
  by (simp add: demo_command_def default_options_def chars_def strtoul_def is_space_def is_digit_def ULONG_MAX_def
      ARGON2_MAX_MEMORY_def ARGON2_MAX_MEMORY_BITS_def push_bit_eq_mult OUTLEN_DEF_def T_COST_DEF_def LANES_DEF_def
      THREADS_DEF_def ARGON2_VERSION_NUMBER_def ARGON2_VERSION_13_def min_def)

lemma demo_tool_ok: "tool_memory demo_tool" "tool_threads demo_tool p" "length (te_pwd demo_tool) = 128"
  by (simp_all add: tool_memory_def tool_threads_def demo_tool_def) (simp_all add: quiet_env_def)

lemma demo_encoded_small: "length T = 32 \<Longrightarrow> length (phc Argon2_i (Some 19) 16 3 1 (replicate 8 65) T) < 2 ^ 32"
  by (simp add: length_phc numlen_eq argon2_type2string_def decimal.simps length_b64)

theorem tool_prints_rfc9106_witness:
  "stdout (tool_main demo_tool (chars ''argon2'' # replicate 8 65 # demo_command) (chars ''pw'')) =
    phc Argon2_i (Some 19) 16 3 1 (replicate 8 65)
      (rfc_argon2 Argon2_i 19 1 32 16 3 (chars ''pw'') (replicate 8 65) [] []) @ newline"
proof -
  have "length (rfc_argon2 Argon2_i 19 1 32 16 3 (chars ''pw'') (replicate 8 65) [] []) = 32"
    by (simp add: rfc_argon2_def rfc_tag_def Let_def)
  moreover have "replicate 8 65 \<noteq> chars ''-h''" by (simp add: chars_def numeral_eq_Suc)
  ultimately show ?thesis
    using demo_encoded_small tool_prints_rfc9106 [OF demo_command_options, of "replicate 8 65" "chars ''pw''" demo_tool, OF _ _ _ _ _ _ _ _ _ _ _ _ _ refl refl]
    by (simp add: demo_tool_ok chars_def)
qed

end
