(* ===== verification/Genkat.thy ===== *)
theory Genkat
  imports Run
begin

text \<open>
  The known-answer generator \<^verbatim>\<open>src/genkat.c\<close> and the library as it is compiled for it, with \<^verbatim>\<open>GENKAT\<close>
  defined: \<^verbatim>\<open>initialize\<close>, \<^verbatim>\<open>fill_memory_blocks\<close> and \<^verbatim>\<open>finalize\<close> then print their intermediate values.
  The functions with the suffix \<open>kat\<close> are those of \<open>Core\<close> and \<open>Argon2_Ctx\<close> with these calls; they also
  return what they have printed, as a list of bytes.
\<close>

section \<open>What is printed\<close>

text \<open>The loops that print bytes with \<^verbatim>\<open>%2.2x\<close> and a space; the conversions \<^verbatim>\<open>%d\<close>, \<^verbatim>\<open>%.4u\<close>, \<^verbatim>\<open>%3u\<close> and
  \<^verbatim>\<open>%016llx\<close>.\<close>

definition hex_bytes :: "u8 list \<Rightarrow> nat \<Rightarrow> u8 list" where
  "hex_bytes b n = concat (map (\<lambda>i. hex2 (b ! i) @ [32]) [0..<n])"

definition signed_decimal :: "u32 \<Rightarrow> u8 list" where
  "signed_decimal v = (if bit v 31 then chars ''-'' @ decimal (unat (- v)) else decimal (unat v))"

definition padded :: "u8 \<Rightarrow> nat \<Rightarrow> nat \<Rightarrow> u8 list" where
  "padded c width n = replicate (width - length (decimal n)) c @ decimal n"

definition hex16 :: "u64 \<Rightarrow> u8 list" where
  "hex16 w = map (\<lambda>i. hex_digit (unat (drop_bit (60 - 4 * i) w AND 0xF))) [0..<16]"

definition initial_kat :: "u8 list option \<Rightarrow> argon2_context option \<Rightarrow> argon2_type \<Rightarrow> u8 list" where
  "initial_kat blockhash context type =
     (case (blockhash, context) of
        (Some blockhash, Some context) \<Rightarrow>
          chars ''======================================='' @ newline @
          chars (the (argon2_type2string type 1)) @ chars '' version number '' @ signed_decimal (ctx_version context) @ newline @
          chars ''======================================='' @ newline @
          chars ''Memory: '' @ decimal (unat (ctx_m_cost context)) @ chars '' KiB, Iterations: '' @
          decimal (unat (ctx_t_cost context)) @ chars '', Parallelism: '' @ decimal (unat (ctx_lanes context)) @
          chars '' lanes, Tag length: '' @ decimal (unat (ctx_outlen context)) @ chars '' bytes'' @ newline @
          chars ''Password['' @ decimal (unat (ctx_pwdlen context)) @ chars '']: '' @
          (if ctx_flags context AND ARGON2_FLAG_CLEAR_PASSWORD \<noteq> 0 then chars ''CLEARED'' @ newline
           else hex_bytes (the (ctx_pwd context)) (unat (ctx_pwdlen context)) @ newline) @
          chars ''Salt['' @ decimal (unat (ctx_saltlen context)) @ chars '']: '' @
          hex_bytes (the (ctx_salt context)) (unat (ctx_saltlen context)) @ newline @
          chars ''Secret['' @ decimal (unat (ctx_secretlen context)) @ chars '']: '' @
          (if ctx_flags context AND ARGON2_FLAG_CLEAR_SECRET \<noteq> 0 then chars ''CLEARED'' @ newline
           else hex_bytes (the (ctx_secret context)) (unat (ctx_secretlen context)) @ newline) @
          chars ''Associated data['' @ decimal (unat (ctx_adlen context)) @ chars '']: '' @
          hex_bytes (the (ctx_ad context)) (unat (ctx_adlen context)) @ newline @
          chars ''Pre-hashing digest: '' @ hex_bytes blockhash ARGON2_PREHASH_DIGEST_LENGTH @ newline
      | _ \<Rightarrow> [])"

definition print_tag :: "u8 list option \<Rightarrow> u32 \<Rightarrow> u8 list" where
  "print_tag out outlen =
     (case out of None \<Rightarrow> []
      | Some out \<Rightarrow> chars ''Tag: '' @ hex_bytes out (unat outlen) @ newline)"

definition internal_kat :: "argon2_instance_t option \<Rightarrow> u32 \<Rightarrow> u8 list" where
  "internal_kat inst pass =
     (case inst of None \<Rightarrow> []
      | Some inst \<Rightarrow>
          newline @ chars '' After pass '' @ decimal (unat pass) @ chars '':'' @ newline @
          concat (map (\<lambda>i.
              let how_many_words = (if unat (inst_memory_blocks inst) > ARGON2_QWORDS_IN_BLOCK then 1
                                    else ARGON2_QWORDS_IN_BLOCK)
              in concat (map (\<lambda>j.
                    chars ''Block '' @ padded 48 4 i @ chars '' ['' @ padded 32 3 j @ chars '']: '' @
                    hex16 (the (inst_memory inst) ! i ! j) @ newline) [0..<how_many_words]))
            [0..<unat (inst_memory_blocks inst)]))"

section \<open>The library with the calls\<close>

definition initialize_kat ::
  "env \<Rightarrow> argon2_instance_t option \<Rightarrow> argon2_context option \<Rightarrow>
    (argon2_error_codes \<times> argon2_instance_t option \<times> argon2_context option \<times> u8 list) \<times> u8 list" where
  "initialize_kat e inst context =
     (let blockhash = replicate ARGON2_PREHASH_SEED_LENGTH 0 in
      case (inst, context) of
        (Some inst, Some context) \<Rightarrow>
          (let (result, memory) = allocate_memory e context (Some (map_option bytes_of_blocks (inst_memory inst)))
                                    (unat (inst_memory_blocks inst)) ARGON2_BLOCK_SIZE;
               inst = inst\<lparr>inst_memory := map_option blocks_of_bytes (the memory)\<rparr>
           in if result \<noteq> ARGON2_OK then ((result, Some inst, Some context, blockhash), [])
              else let (bh, context) = initial_hash e (Some blockhash) (Some context) (inst_type inst);
                       blockhash = the bh;
                       blockhash = take ARGON2_PREHASH_DIGEST_LENGTH blockhash @
                         the (clear_internal_memory (env_flag e)
                               (Some (drop ARGON2_PREHASH_DIGEST_LENGTH blockhash))
                               (ARGON2_PREHASH_SEED_LENGTH - ARGON2_PREHASH_DIGEST_LENGTH));
                       printed = initial_kat (Some blockhash) context (inst_type inst);
                       (blockhash, inst) = fill_first_blocks e blockhash inst;
                       blockhash = the (clear_internal_memory (env_flag e) (Some blockhash)
                                          ARGON2_PREHASH_SEED_LENGTH)
                   in ((ARGON2_OK, Some inst, context, blockhash), printed))
      | _ \<Rightarrow> ((ARGON2_INCORRECT_PARAMETER, inst, context, blockhash), []))"

text \<open>Both functions print the matrix at the end of a pass.\<close>

definition fill_memory_blocks_st_kat ::
  "env \<Rightarrow> argon2_instance_t \<Rightarrow> (argon2_error_codes \<times> argon2_instance_t) \<times> u8 list" where
  "fill_memory_blocks_st_kat e inst =
     (let (inst, printed) =
        fold (\<lambda>r (i, printed).
            let i = fold (\<lambda>s. fold (\<lambda>l inst. the (fill_segment (env_junk e r s l) (Some inst) (position r s l)))
                      [0..<unat (inst_lanes inst)]) [0..<unat ARGON2_SYNC_POINTS] i
            in (i, printed @ internal_kat (Some i) (word_of_nat r)))
          [0..<unat (inst_passes inst)] (inst, [])
      in ((ARGON2_OK, inst), printed))"

fun fill_passes_mt_kat ::
  "env \<Rightarrow> argon2_instance_t \<Rightarrow> nat list \<Rightarrow> block list \<Rightarrow> (argon2_error_codes \<times> block list) \<times> u8 list" where
  "fill_passes_mt_kat e inst [] mem = ((ARGON2_OK, mem), [])"
| "fill_passes_mt_kat e inst (r # rs) mem =
     (let (rc, mem) = fill_slices_mt e inst (map (Pair r) [0..<unat ARGON2_SYNC_POINTS]) mem in
      if rc \<noteq> ARGON2_OK then ((rc, mem), [])
      else let printed = internal_kat (Some (inst\<lparr>inst_memory := Some mem\<rparr>)) (word_of_nat r);
               (res, later) = fill_passes_mt_kat e inst rs mem
           in (res, printed @ later))"

definition fill_memory_blocks_mt_kat ::
  "env \<Rightarrow> argon2_instance_t \<Rightarrow> (argon2_error_codes \<times> argon2_instance_t) \<times> u8 list" where
  "fill_memory_blocks_mt_kat e inst =
     (if \<not> env_calloc_thread e then ((ARGON2_MEMORY_ALLOCATION_ERROR, inst), [])
      else if \<not> env_calloc_data e then ((ARGON2_MEMORY_ALLOCATION_ERROR, inst), [])
      else let ((rc, mem), printed) =
                 fill_passes_mt_kat e inst [0..<unat (inst_passes inst)] (the (inst_memory inst))
           in ((rc, inst\<lparr>inst_memory := Some mem\<rparr>), printed))"

definition fill_memory_blocks_kat ::
  "env \<Rightarrow> argon2_instance_t option \<Rightarrow> (argon2_error_codes \<times> argon2_instance_t option) \<times> u8 list" where
  "fill_memory_blocks_kat e inst =
     (case inst of None \<Rightarrow> ((ARGON2_INCORRECT_PARAMETER, None), [])
      | Some inst \<Rightarrow>
          if inst_lanes inst = 0 then ((ARGON2_INCORRECT_PARAMETER, Some inst), [])
          else let ((rc, inst), printed) = (if inst_threads inst = 1 then fill_memory_blocks_st_kat e inst
                                            else fill_memory_blocks_mt_kat e inst)
               in ((rc, Some inst), printed))"

definition finalize_kat ::
  "env \<Rightarrow> argon2_context option \<Rightarrow> argon2_instance_t option \<Rightarrow>
    (argon2_context option \<times> release option) \<times> u8 list" where
  "finalize_kat e context inst =
     (case (context, inst) of
        (Some context, Some inst) \<Rightarrow>
          (let mem = the (inst_memory inst);
               blockhash = copy_block (replicate 128 0) (mem ! (unat (inst_lane_length inst) - 1));
               blockhash = fold (\<lambda>l b.
                   let last_block_in_lane =
                     word_of_nat l * inst_lane_length inst + (inst_lane_length inst - 1)
                   in xor_block b (mem ! unat last_block_in_lane)) [1..<unat (inst_lanes inst)] blockhash;
               blockhash_bytes = store_block (replicate ARGON2_BLOCK_SIZE 0) blockhash;
               (_, out, _) = blake2b_long (env_flag e) (ctx_out context) (unat (ctx_outlen context))
                               (Some blockhash_bytes) ARGON2_BLOCK_SIZE;
               context = context\<lparr>ctx_out := out\<rparr>;
               printed = print_tag (ctx_out context) (ctx_outlen context)
           in ((Some context,
                Some (free_memory e context (map_option bytes_of_blocks (inst_memory inst))
                        (unat (inst_memory_blocks inst)) ARGON2_BLOCK_SIZE)), printed))
      | _ \<Rightarrow> ((context, None), []))"

definition argon2_ctx_kat ::
  "env \<Rightarrow> argon2_context option \<Rightarrow> argon2_type \<Rightarrow>
    (argon2_error_codes \<times> argon2_context option \<times> argon2_instance_t option \<times> release option) \<times> u8 list" where
  "argon2_ctx_kat e context type =
     (let result = validate_inputs context in
      if ARGON2_OK \<noteq> result then ((result, context, None, None), [])
      else if Argon2_d \<noteq> type \<and> Argon2_i \<noteq> type \<and> Argon2_id \<noteq> type
      then ((ARGON2_INCORRECT_TYPE, context, None, None), [])
      else let ((result, inst, context, blockhash), printed) =
                 initialize_kat e (Some (instance_of (the context) type)) context in
      if ARGON2_OK \<noteq> result then ((result, context, inst, None), printed)
      else let ((result, inst), printed2) = fill_memory_blocks_kat e inst in
      if ARGON2_OK \<noteq> result then ((result, context, inst, None), printed @ printed2)
      else let ((context, rel), printed3) = finalize_kat e context inst
           in ((ARGON2_OK, context, inst, rel), printed @ printed2 @ printed3))"

section \<open>The generator\<close>

definition genkat_fatal :: "string \<Rightarrow> tool_exit" where
  "genkat_fatal error = \<lparr>stdout = [], stderr = chars ''Error: '' @ chars error @ newline, exit_code = 1\<rparr>"

text \<open>The arguments hold the uninitialised arrays \<^verbatim>\<open>out\<close>, \<^verbatim>\<open>pwd\<close>, \<^verbatim>\<open>salt\<close>, \<^verbatim>\<open>secret\<close> and \<^verbatim>\<open>ad\<close>; the last four
  are written before they are read. The result of \<^verbatim>\<open>argon2_ctx\<close> is discarded.\<close>

record kat_locals =
  kat_out :: "u8 list"
  kat_pwd :: "u8 list"
  kat_salt :: "u8 list"
  kat_secret :: "u8 list"
  kat_ad :: "u8 list"

definition kat_context :: "kat_locals \<Rightarrow> u32 \<Rightarrow> argon2_context" where
  "kat_context k version =
     (let TEST_OUTLEN = 32; TEST_PWDLEN = 32; TEST_SALTLEN = 16; TEST_SECRETLEN = 8; TEST_ADLEN = 12;
          t_cost = 3; m_cost = 32; lanes = 4;
          pwd = memset_at (kat_pwd k) 0 1 TEST_OUTLEN;
          salt = memset_at (kat_salt k) 0 2 TEST_SALTLEN;
          secret = memset_at (kat_secret k) 0 3 TEST_SECRETLEN;
          ad = memset_at (kat_ad k) 0 4 TEST_ADLEN
      in \<lparr>ctx_out = Some (kat_out k), ctx_outlen = word_of_nat TEST_OUTLEN, ctx_pwd = Some pwd,
          ctx_pwdlen = word_of_nat TEST_PWDLEN, ctx_salt = Some salt, ctx_saltlen = word_of_nat TEST_SALTLEN,
          ctx_secret = Some secret, ctx_secretlen = word_of_nat TEST_SECRETLEN, ctx_ad = Some ad,
          ctx_adlen = word_of_nat TEST_ADLEN, ctx_t_cost = t_cost, ctx_m_cost = m_cost, ctx_lanes = lanes,
          ctx_threads = lanes, ctx_version = version, ctx_allocate_cbk = None, ctx_free_cbk = None,
          ctx_flags = ARGON2_DEFAULT_FLAGS\<rparr>)"

definition generate_testvectors :: "env \<Rightarrow> kat_locals \<Rightarrow> argon2_type \<Rightarrow> u32 \<Rightarrow> u8 list" where
  "generate_testvectors e k type version = snd (argon2_ctx_kat e (Some (kat_context k version)) type)"

definition genkat_main :: "env \<Rightarrow> kat_locals \<Rightarrow> u8 list list \<Rightarrow> tool_exit" where
  "genkat_main e k argv =
     (let type_str = (if length argv > 1 then argv ! 1 else chars ''i'');
          type = (if type_str = chars ''d'' then Some Argon2_d else if type_str = chars ''i'' then Some Argon2_i
                  else if type_str = chars ''id'' then Some Argon2_id else None)
      in case type of None \<Rightarrow> genkat_fatal ''wrong Argon2 type''
      | Some type \<Rightarrow>
          let version = (if length argv > 2 then ucast (strtoul (argv ! 2)) else ARGON2_VERSION_NUMBER) in
          if ARGON2_VERSION_10 \<noteq> version \<and> ARGON2_VERSION_NUMBER \<noteq> version
          then genkat_fatal ''wrong Argon2 version number''
          else \<lparr>stdout = generate_testvectors e k type version, stderr = [], exit_code = error_code ARGON2_OK\<rparr>)"

end
