(* ===== verification/Genkat_Props.thy ===== *)
theory Genkat_Props
  imports Genkat
begin

text \<open>
  The known-answer generator prints the inputs, the pre-hashing digest, the matrix after every pass and the
  tag as RFC 9106 defines them, and the library that is compiled for it computes what the library computes.
\<close>

section \<open>The calls only print\<close>

lemma initialize_kat_fst: "fst (initialize_kat e inst context) = initialize e inst context"
  by (simp add: initialize_kat_def initialize_def Let_def split: option.split prod.split)

lemma finalize_kat_fst: "fst (finalize_kat e context inst) = finalize e context inst"
  by (simp add: finalize_kat_def finalize_def Let_def split: option.split prod.split)

lemma finalize_kat_snd:
  "snd (finalize_kat e (Some c) (Some inst)) =
    print_tag (ctx_out (the (fst (finalize e (Some c) (Some inst))))) (ctx_outlen c)"
  by (simp add: finalize_kat_def finalize_def Let_def split: prod.split)

lemma fill_slices_append:
  "fill_slices_mt e inst (xs @ ys) mem =
    (let (rc, mem) = fill_slices_mt e inst xs mem in
     if rc \<noteq> ARGON2_OK then (rc, mem) else fill_slices_mt e inst ys mem)"
proof (induction xs arbitrary: mem)
  case (Cons x xs)
  then show ?case by (cases x) (auto simp: Let_def split: prod.split)
qed simp

lemma fill_passes_mt_kat_fst:
  "fst (fill_passes_mt_kat e inst rs mem) = fill_slices_mt e inst (List.product rs [0..<unat ARGON2_SYNC_POINTS]) mem"
  by (induction rs arbitrary: mem) (simp_all add: Let_def fill_slices_append case_prod_unfold)

lemma fst_fold_printed:
  "fst (fold (\<lambda>r (x, p). let x = f r x in (x, p @ g r x)) rs (x, p)) = fold f rs x"
  by (induction rs arbitrary: x p) (simp_all add: Let_def)

lemma fill_memory_blocks_kat_fst: "fst (fill_memory_blocks_kat e inst) = fill_memory_blocks e inst"
proof -
  have st: "fst (fill_memory_blocks_st_kat e i) = fill_memory_blocks_st e i" for i
    using fst_fold_printed [where f = "\<lambda>r. fold (\<lambda>s. fold (\<lambda>l inst. the (fill_segment (env_junk e r s l) (Some inst)
        (position r s l))) [0..<unat (inst_lanes i)]) [0..<unat ARGON2_SYNC_POINTS]"
        and g = "\<lambda>r i. internal_kat (Some i) (word_of_nat r)"]
    by (simp add: fill_memory_blocks_st_kat_def fill_memory_blocks_st_def case_prod_unfold)
  have mt: "fst (fill_memory_blocks_mt_kat e i) = fill_memory_blocks_mt e i" for i
    by (simp add: fill_memory_blocks_mt_kat_def fill_memory_blocks_mt_def Let_def case_prod_unfold fill_passes_mt_kat_fst)
  show ?thesis
    by (simp add: fill_memory_blocks_kat_def fill_memory_blocks_def st [symmetric] mt [symmetric] Let_def case_prod_unfold
        split: option.split)
qed

lemma argon2_ctx_kat_fst: "fst (argon2_ctx_kat e context type) = argon2_ctx e context type"
  unfolding argon2_ctx_kat_def argon2_ctx_def initialize_kat_fst [symmetric] fill_memory_blocks_kat_fst [symmetric]
    finalize_kat_fst [symmetric] Let_def case_prod_unfold
  by simp

section \<open>What the library prints\<close>

lemma initialize_kat_snd:
  assumes "ctx_readable c" "valid_params c" "call_alloc e c (unat (inst_memory_blocks inst) * 1024) = Some b"
  shows "\<exists>z. snd (initialize_kat e (Some inst) (Some c)) =
    initial_kat (Some (ctx_H0 c (inst_type inst) @ z)) (Some (wipe_secret (wipe_password c))) (inst_type inst)"
proof -
  have n: "unat (inst_memory_blocks inst) * 1024 < 2 ^ 64" using unat_lt_u32 [of "inst_memory_blocks inst"] by simp
  have ih: "initial_hash e (Some (replicate 72 0)) (Some c) y =
      (Some (ctx_H0 c y @ replicate 8 0), Some (wipe_secret (wipe_password c)))" for y
    using initial_hash_eq [OF assms(1), of "replicate 72 0" e y] assms(2) by (auto simp: valid_params_def)
  have lH: "length (ctx_H0 c y) = 64" for y by (simp add: ctx_H0_def rfc_H0_def)
  show ?thesis
    using allocate_memory_eq [OF n, of e c] assms(3)
    by (auto simp: initialize_kat_def Let_def ih lH split: prod.split)
qed

text \<open>The matrix after every pass, printed.\<close>

definition kat_passes :: "argon2_instance_t \<Rightarrow> block list \<Rightarrow> nat list \<Rightarrow> u8 list" where
  "kat_passes inst mem rs = concat (map (\<lambda>r. internal_kat
     (Some (inst\<lparr>inst_memory := Some (fold (rfc_pass (cfg_of inst)) [0..<Suc r] mem)\<rparr>)) (word_of_nat r)) rs)"

lemma fill_passes_mt_kat_snd:
  assumes "wf_inst inst" "\<forall>r s l. wf_block (env_junk e r s l)"
    and "1 \<le> unat (inst_threads inst)" "unat (inst_threads inst) \<le> unat (inst_lanes inst)"
    and "wf_mem (cfg_of inst) mem" "n + k \<le> 2 ^ 32"
    and "fst (fst (fill_passes_mt_kat e inst [k..<n + k] (fold (rfc_pass (cfg_of inst)) [0..<k] mem))) = ARGON2_OK"
  shows "snd (fill_passes_mt_kat e inst [k..<n + k] (fold (rfc_pass (cfg_of inst)) [0..<k] mem)) =
    kat_passes inst mem [k..<n + k]"
  using assms(6,7)
proof (induction n arbitrary: k)
  case 0
  then show ?case by (simp add: kat_passes_def)
next
  case (Suc n)
  let ?m = "fold (rfc_pass (cfg_of inst)) [0..<k] mem"
  have up: "[k..<Suc n + k] = k # [Suc k..<n + Suc k]" by (simp add: upt_rec)
  have wm: "wf_mem (cfg_of inst) ?m" by (rule wf_mem_passes [OF _ assms(5)]) (simp add: cfg_of_wf [OF assms(1)])
  obtain rc m1 where f: "fill_slices_mt e inst (map (Pair k) [0..<unat ARGON2_SYNC_POINTS]) ?m = (rc, m1)"
    by (cases "fill_slices_mt e inst (map (Pair k) [0..<unat ARGON2_SYNC_POINTS]) ?m")
  have rc: "rc = ARGON2_OK" using Suc.prems(2) unfolding up fill_passes_mt_kat.simps f by (auto split: if_splits)
  have "\<forall>(r, s) \<in> set (map (Pair k) [0..<unat ARGON2_SYNC_POINTS]). r < 2 ^ 32 \<and> s < 4" using Suc.prems(1) by auto
  from fill_slices_mt_eq [OF assms(1-4) this wm] f rc
  have m1: "m1 = fold (rfc_pass (cfg_of inst)) [0..<Suc k] mem"
    by (simp add: rfc_pass_def fold_map o_def cfg_of_wf [OF assms(1)])
  show ?case
    using Suc.IH [of "Suc k"] Suc.prems rc unfolding up fill_passes_mt_kat.simps f Let_def prod.case m1
    by (simp add: kat_passes_def case_prod_unfold del: upt_Suc)
qed

lemma fill_memory_blocks_st_kat_snd:
  assumes "wf_inst inst" "inst_memory inst = Some mem" "wf_mem (cfg_of inst) mem" "\<forall>r s l. wf_block (env_junk e r s l)"
  shows "snd (fill_memory_blocks_st_kat e inst) = kat_passes inst mem [0..<unat (inst_passes inst)]"
proof -
  define f where "f r = fold (\<lambda>s. fold (\<lambda>l inst. the (fill_segment (env_junk e r s l) (Some inst) (position r s l)))
      [0..<unat (inst_lanes inst)]) [0..<unat ARGON2_SYNC_POINTS]" for r
  have "fold (\<lambda>r (i, p). let i = f r i in (i, p @ internal_kat (Some i) (word_of_nat r))) [0..<n] (inst, []) =
      (inst\<lparr>inst_memory := Some (fold (rfc_pass (cfg_of inst)) [0..<n] mem)\<rparr>, kat_passes inst mem [0..<n])"
    if "n \<le> unat (inst_passes inst)" for n
    using that
  proof (induction n)
    case 0
    then show ?case using assms(2) by (simp add: kat_passes_def)
  next
    case (Suc n)
    have "wf_mem (cfg_of inst) (fold (rfc_pass (cfg_of inst)) [0..<n] mem)"
      by (rule wf_mem_passes [OF _ assms(3)]) (simp add: cfg_of_wf [OF assms(1)])
    from fill_pass_eq [OF assms(1) this assms(4), of n, folded f_def] show ?case
      using Suc unat_lt_u32 [of "inst_passes inst"] by (simp add: kat_passes_def Let_def)
  qed
  from this [OF order_refl] show ?thesis
    unfolding fill_memory_blocks_st_kat_def f_def [symmetric] by simp
qed

lemma fill_memory_blocks_kat_snd:
  assumes "wf_inst inst" "inst_memory inst = Some mem" "wf_mem (cfg_of inst) mem" "\<forall>r s l. wf_block (env_junk e r s l)"
    and "1 \<le> unat (inst_threads inst)" "unat (inst_threads inst) \<le> unat (inst_lanes inst)"
    and "fst (fill_memory_blocks e (Some inst)) = ARGON2_OK"
  shows "snd (fill_memory_blocks_kat e (Some inst)) = kat_passes inst mem [0..<unat (inst_passes inst)]"
proof -
  have l: "inst_lanes inst \<noteq> 0" using assms(1) by (auto simp: wf_inst_def)
  have n: "unat (inst_passes inst) \<le> 2 ^ 32" using unat_lt_u32 [of "inst_passes inst"] by simp
  show ?thesis
  proof (cases "inst_threads inst = 1")
    case True
    then show ?thesis using fill_memory_blocks_st_kat_snd [OF assms(1-4)] l
      by (simp add: fill_memory_blocks_kat_def case_prod_unfold Let_def)
  next
    case False
    have ok: "env_calloc_thread e" "env_calloc_data e"
      "fst (fst (fill_passes_mt_kat e inst [0..<unat (inst_passes inst)] mem)) = ARGON2_OK"
      using assms(7) False l unfolding fill_memory_blocks_kat_fst [symmetric]
      by (auto simp: fill_memory_blocks_kat_def fill_memory_blocks_mt_kat_def Let_def case_prod_unfold assms(2) split: if_splits)
    then show ?thesis using fill_passes_mt_kat_snd [OF assms(1,4,5,6,3), of "unat (inst_passes inst)" 0] n False l
      by (simp add: fill_memory_blocks_kat_def fill_memory_blocks_mt_kat_def case_prod_unfold assms(2))
  qed
qed

lemma argon2_ctx_kat_snd:
  assumes "valid_params c" "ctx_inputs c" "supported y" "env_ok e" "alloc_ok (call_alloc e c)"
    and "fst (argon2_ctx e (Some c) y) = ARGON2_OK"
  defines "i \<equiv> instance_of c y"
  shows "\<exists>z b. length b = rfc_blocks (cfg_of i) \<and> snd (argon2_ctx_kat e (Some c) y) =
    initial_kat (Some (ctx_H0 c y @ z)) (Some (wipe_secret (wipe_password c))) y @
    kat_passes i (rfc_first_blocks (cfg_of i) (ctx_H0 c y) b) [0..<unat (ctx_t_cost c)] @
    print_tag (Some (ctx_tag c y @ drop (unat (ctx_outlen c)) (the (ctx_out c)))) (ctx_outlen c)"
proof -
  have fit: "wf_inst i" "inst_memory i = None" "inst_type i = y"
    "unat (inst_memory_blocks i) * 1024 = matrix_bytes c" "unat (inst_passes i) = unat (ctx_t_cost c)"
    "1 \<le> unat (inst_threads i)" "unat (inst_threads i) \<le> unat (inst_lanes i)"
    using instance_of_eq [OF assms(1), of y] assms(1)
    by (simp_all add: i_def matrix_bytes_def cfg_of_def valid_params_def)
  have rd: "ctx_readable c" using assms(2) by (simp add: ctx_inputs_def)
  obtain b where b: "call_alloc e c (matrix_bytes c) = Some b"
    using argon2_ctx_eq [OF assms(1-5)] assms(6) by (cases "call_alloc e c (matrix_bytes c)") auto
  define m where "m = rfc_first_blocks (cfg_of i) (ctx_H0 c y) (blocks_of_bytes b)"
  have lb: "length b = 1024 * rfc_blocks (cfg_of i)"
    using assms(5) b by (simp add: alloc_ok_def fit(4) [symmetric] cfg_of_wf(3) [OF fit(1)])
  have wm: "wf_mem (cfg_of i) m" unfolding m_def by (intro wf_first_blocks wf_blocks_of_bytes lb)
  define c1 where "c1 = wipe_secret (wipe_password c)"
  define i1 where "i1 = i\<lparr>inst_memory := Some m\<rparr>"
  obtain bh where ini: "initialize e (Some i) (Some c) = (ARGON2_OK, Some i1, Some c1, bh)"
    using initialize_eq [OF fit(1) rd assms(1,5)] b fit(3) unfolding fit(4) m_def i1_def c1_def by auto
  obtain z where p1: "snd (initialize_kat e (Some i) (Some c)) = initial_kat (Some (ctx_H0 c y @ z)) (Some c1) y"
    using initialize_kat_snd [OF rd assms(1) b [folded fit(4)]] unfolding fit(3) c1_def by blast
  have ik: "initialize_kat e (Some i) (Some c) =
      ((ARGON2_OK, Some i1, Some c1, bh), initial_kat (Some (ctx_H0 c y @ z)) (Some c1) y)"
    using initialize_kat_fst [of e "Some i" "Some c"] ini p1 by (simp add: prod_eq_iff)
  have v: "validate_inputs (Some c) = ARGON2_OK" using assms(1) by (simp add: validate_inputs_ok)
  have y: "(Argon2_d \<noteq> y \<and> Argon2_i \<noteq> y \<and> Argon2_id \<noteq> y) = False" using assms(3) by (auto simp: supported_def)
  have okF: "(ARGON2_OK \<noteq> ARGON2_OK) = False" by simp
  obtain rc i2 where fill: "fill_memory_blocks e (Some i1) = (rc, Some i2)"
    using fill_memory_blocks_memory [of i1 m e] by (auto simp: i1_def)
  have rc: "rc = ARGON2_OK"
    using assms(6) unfolding argon2_ctx_def Let_def v y okF if_False option.sel i_def [symmetric] ini prod.case fill
    by (auto split: if_splits)
  have i1: "wf_inst i1" "inst_memory i1 = Some m" "wf_mem (cfg_of i1) m" "\<forall>r s l. wf_block (env_junk e r s l)"
    "1 \<le> unat (inst_threads i1)" "unat (inst_threads i1) \<le> unat (inst_lanes i1)"
    using fit wm assms(4) by (simp_all add: i1_def env_ok_def)
  have "fst (fill_memory_blocks e (Some i1)) = ARGON2_OK" by (simp add: fill rc)
  from fill_memory_blocks_kat_snd [OF i1 this] fill_memory_blocks_kat_fst [of e "Some i1"] fill rc
  have fk: "fill_memory_blocks_kat e (Some i1) =
      ((ARGON2_OK, Some i2), kat_passes i1 m [0..<unat (inst_passes i1)])"
    by (simp add: prod_eq_iff)
  obtain c2 rel where fin: "finalize e (Some c1) (Some i2) = (Some c2, rel)"
    by (cases "finalize e (Some c1) (Some i2)") (auto simp: finalize_def Let_def split: prod.splits)
  have ctx: "argon2_ctx e (Some c) y = (ARGON2_OK, Some c2, Some i2, rel)"
    by (simp add: argon2_ctx_def v y i_def [symmetric] ini fill rc fin)
  have out: "ctx_out c2 = Some (ctx_tag c y @ drop (unat (ctx_outlen c)) (the (ctx_out c)))"
    using argon2_ctx_eq [OF assms(1-5)] by (simp add: b ctx)
  have "finalize_kat e (Some c1) (Some i2) = ((Some c2, rel), print_tag (ctx_out c2) (ctx_outlen c1))"
    using finalize_kat_fst [of e "Some c1" "Some i2"] finalize_kat_snd [of e c1 i2] fin by (simp add: prod_eq_iff)
  then have "snd (argon2_ctx_kat e (Some c) y) = initial_kat (Some (ctx_H0 c y @ z)) (Some c1) y @
      kat_passes i1 m [0..<unat (inst_passes i1)] @ print_tag (ctx_out c2) (ctx_outlen c1)"
    unfolding argon2_ctx_kat_def Let_def v y okF if_False option.sel i_def [symmetric] ik prod.case fk snd_conv by simp
  moreover have "kat_passes i1 m rs = kat_passes i m rs" for rs by (simp add: kat_passes_def i1_def)
  moreover have "length (blocks_of_bytes b) = rfc_blocks (cfg_of i)"
    using wf_blocks_of_bytes [OF lb] by (simp add: wf_mem_def)
  ultimately show ?thesis
    using fit(5) out by (intro exI [of _ z] exI [of _ "blocks_of_bytes b"]) (simp add: i1_def c1_def m_def)
qed

section \<open>The text of the known answers\<close>

text \<open>What the generator should print for a type and a version, on the functions of RFC 9106.\<close>

definition hexes :: "u8 list \<Rightarrow> u8 list" where
  "hexes bs = concat (map (\<lambda>b. hex2 b @ [32]) bs)"

definition kat_matrix :: "block list \<Rightarrow> u8 list" where
  "kat_matrix M = concat (map (\<lambda>i. concat (map (\<lambda>j.
     chars ''Block '' @ padded 48 4 i @ chars '' ['' @ padded 32 3 j @ chars '']: '' @ hex16 (M ! i ! j) @ newline)
     [0..<128])) [0..<32])"

definition kat_text :: "argon2_type \<Rightarrow> nat \<Rightarrow> u8 list" where
  "kat_text y v =
     (let P = replicate 32 1; S = replicate 16 2; K = replicate 8 3; X = replicate 12 4;
          c = \<lparr>cf_p = 4, cf_seg = 2, cf_t = 3, cf_y = y, cf_v = v\<rparr>;
          H0 = rfc_H0 4 32 32 3 v (unat (type_code y)) P S K X;
          B = rfc_first_blocks c H0 (replicate 32 (replicate 128 0));
          rule = replicate 39 61 @ newline
      in rule @ chars (the (argon2_type2string y 1)) @ chars '' version number '' @ decimal v @ newline @ rule @
         chars ''Memory: 32 KiB, Iterations: 3, Parallelism: 4 lanes, Tag length: 32 bytes'' @ newline @
         chars ''Password[32]: '' @ hexes P @ newline @
         chars ''Salt[16]: '' @ hexes S @ newline @
         chars ''Secret[8]: '' @ hexes K @ newline @
         chars ''Associated data[12]: '' @ hexes X @ newline @
         chars ''Pre-hashing digest: '' @ hexes H0 @ newline @
         concat (map (\<lambda>r. newline @ chars '' After pass '' @ decimal r @ chars '':'' @ newline @
           kat_matrix (fold (rfc_pass c) [0..<Suc r] B)) [0..<3]) @
         chars ''Tag: '' @ hexes (rfc_argon2 y v 4 32 32 3 P S K X) @ newline)"

lemma chars_append: "chars a @ chars b = chars (a @ b)" "chars a @ chars b @ r = chars (a @ b) @ r"
  by (simp_all add: chars_def)

lemma hex_bytes_append: "length bs = n \<Longrightarrow> hex_bytes (bs @ r) n = hexes bs" "length bs = n \<Longrightarrow> hex_bytes bs n = hexes bs"
proof -
  have "map (\<lambda>i. hex2 ((bs @ r) ! i) @ [32]) [0..<length bs] = map (\<lambda>b. hex2 b @ [32]) bs" for r
    by (intro list_eq_nthI) (simp_all add: nth_append)
  from this [of r] this [of "[]"]
  show "length bs = n \<Longrightarrow> hex_bytes (bs @ r) n = hexes bs" "length bs = n \<Longrightarrow> hex_bytes bs n = hexes bs"
    by (auto simp: hex_bytes_def hexes_def)
qed

lemma small_decimals:
  "decimal 3 = chars ''3''" "decimal 4 = chars ''4''" "decimal 8 = chars ''8''" "decimal 12 = chars ''12''"
  "decimal 16 = chars ''16''" "decimal 32 = chars ''32''"
  by (simp_all add: decimal.simps chars_def)

lemma memset_all: "length p = n \<Longrightarrow> memset_at p 0 x n = replicate n x"
  by (simp add: memset_at_def)

lemma kat_context_eq:
  assumes "length (kat_pwd k) = 32" "length (kat_salt k) = 16" "length (kat_secret k) = 8" "length (kat_ad k) = 12"
  shows "kat_context k version = \<lparr>ctx_out = Some (kat_out k), ctx_outlen = 32, ctx_pwd = Some (replicate 32 1),
     ctx_pwdlen = 32, ctx_salt = Some (replicate 16 2), ctx_saltlen = 16, ctx_secret = Some (replicate 8 3),
     ctx_secretlen = 8, ctx_ad = Some (replicate 12 4), ctx_adlen = 12, ctx_t_cost = 3, ctx_m_cost = 32, ctx_lanes = 4,
     ctx_threads = 4, ctx_version = version, ctx_allocate_cbk = None, ctx_free_cbk = None, ctx_flags = 0\<rparr>"
  using assms by (simp add: kat_context_def Let_def memset_all ARGON2_DEFAULT_FLAGS_def)

lemma generate_testvectors_eq:
  assumes "length (kat_out k) = 32" "length (kat_pwd k) = 32" "length (kat_salt k) = 16" "length (kat_secret k) = 8"
    and "length (kat_ad k) = 12" "supported y" "v = 16 \<or> v = 19"
    and "env_ok e" "\<forall>n. env_malloc e Alloc_matrix n \<noteq> None" "threads_succeed e"
  shows "generate_testvectors e k y v = kat_text y (unat v)"
proof -
  define c where "c = kat_context k v"
  note c = kat_context_eq [OF assms(2-5), of v, folded c_def]
  have ok: "valid_params c" "ctx_inputs c" "alloc_ok (call_alloc e c)" "call_alloc e c (matrix_bytes c) \<noteq> None"
    using assms(1,8,9) by (simp_all add: c valid_params_def ctx_inputs_def ctx_readable_def call_alloc_def env_ok_def)
  have "fst (argon2_ctx e (Some c) y) = ARGON2_OK"
    using argon2_ctx_eq [OF ok(1,2) assms(6,8) ok(3)] ok(4) assms(10) by (auto split: option.splits)
  from argon2_ctx_kat_snd [OF ok(1,2) assms(6,8) ok(3) this]
  obtain z b where b: "length b = rfc_blocks (cfg_of (instance_of c y))"
    and p: "snd (argon2_ctx_kat e (Some c) y) =
      initial_kat (Some (ctx_H0 c y @ z)) (Some (wipe_secret (wipe_password c))) y @
      kat_passes (instance_of c y) (rfc_first_blocks (cfg_of (instance_of c y)) (ctx_H0 c y) b) [0..<unat (ctx_t_cost c)] @
      print_tag (Some (ctx_tag c y @ drop (unat (ctx_outlen c)) (the (ctx_out c)))) (ctx_outlen c)" by blast
  define H0 where "H0 = rfc_H0 4 32 32 3 (unat v) (unat (type_code y)) (replicate 32 1) (replicate 16 2) (replicate 8 3) (replicate 12 4)"
  define T where "T = rfc_argon2 y (unat v) 4 32 32 3 (replicate 32 1) (replicate 16 2) (replicate 8 3) (replicate 12 4)"
  define cf where "cf = \<lparr>cf_p = 4, cf_seg = 2, cf_t = 3, cf_y = y, cf_v = unat v\<rparr>"
  define B where "B = rfc_first_blocks cf H0 (replicate 32 (replicate 128 0))"
  have w: "wipe_secret (wipe_password c) = c" by (simp add: c wipe_secret_def wipe_password_def)
  have H0: "ctx_H0 c y = H0" "length H0 = 64" by (simp_all add: c ctx_H0_def H0_def rfc_H0_def)
  have T: "ctx_tag c y = T" "length T = 32" by (simp_all add: c ctx_tag_def T_def rfc_argon2_def rfc_tag_def Let_def)
  have cf: "cfg_of (instance_of c y) = cf" "unat (inst_memory_blocks (instance_of c y)) = 32"
    using instance_of_eq [OF ok(1), of y] by (simp_all add: c cf_def)
  have v: "signed_decimal v = decimal (unat v)" using assms(7) by (auto simp: signed_decimal_def)
  have rule: "chars ''======================================='' = replicate 39 61"
    by (simp add: chars_def numeral_eq_Suc)
  have ini: "initial_kat (Some (H0 @ z)) (Some c) y =
      replicate 39 61 @ newline @ chars (the (argon2_type2string y 1)) @ chars '' version number '' @ decimal (unat v) @
      newline @ replicate 39 61 @ newline @
      chars ''Memory: 32 KiB, Iterations: 3, Parallelism: 4 lanes, Tag length: 32 bytes'' @ newline @
      chars ''Password[32]: '' @ hexes (replicate 32 1) @ newline @
      chars ''Salt[16]: '' @ hexes (replicate 16 2) @ newline @
      chars ''Secret[8]: '' @ hexes (replicate 8 3) @ newline @
      chars ''Associated data[12]: '' @ hexes (replicate 12 4) @ newline @
      chars ''Pre-hashing digest: '' @ hexes H0 @ newline"
    unfolding initial_kat_def c rule [symmetric]
    by (simp add: v small_decimals chars_append hex_bytes_append H0)
  have pass: "fold (rfc_pass cf) [0..<Suc r] (rfc_first_blocks cf H0 b) = fold (rfc_pass cf) [0..<Suc r] B" for r
    unfolding B_def using b
    by (intro first_blocks_passes_garbage) (simp_all add: cf, simp_all add: cf_def rfc_ok_def rfc_blocks_def rfc_lane_len_def)
  have passes: "kat_passes (instance_of c y) (rfc_first_blocks cf H0 b) [0..<3] =
      concat (map (\<lambda>r. newline @ chars '' After pass '' @ decimal r @ chars '':'' @ newline @
           kat_matrix (fold (rfc_pass cf) [0..<Suc r] B)) [0..<3])"
    unfolding kat_passes_def cf pass
    by (intro arg_cong [where f = concat] map_cong refl)
      (simp add: internal_kat_def cf kat_matrix_def unat_of_nat take_bit_nat_eq_self del: upt_Suc)
  have tag: "print_tag (Some (T @ r)) 32 = chars ''Tag: '' @ hexes T @ newline" for r
    by (simp add: print_tag_def hex_bytes_append T)
  have f: "unat (ctx_outlen c) = 32" "ctx_outlen c = 32" "unat (ctx_t_cost c) = 3" by (simp_all add: c)
  show ?thesis
    unfolding generate_testvectors_def c_def [symmetric] p w H0(1) T(1) cf(1) f ini passes tag
    unfolding kat_text_def Let_def H0_def [symmetric] T_def [symmetric] cf_def [symmetric] B_def [symmetric]
    by (simp only: append_assoc)
qed

section \<open>Property\<close>

text \<open>C12: for every type and every version that \<^verbatim>\<open>genkat\<close> accepts, with the defaults and with whatever further
  arguments, it prints exactly the test vector of RFC 9106: the inputs of section 5, the pre-hashing digest H0, all words of
  the matrix after each of the three passes and the tag, whatever the memory and the locals held before and however the
  four threads are scheduled, provided that memory and threads can be had. For every list of arguments whose
  first one names no type or whose second one is no version, it prints nothing on the standard
  output and exits with 1. The library, compiled to print its intermediate values, computes what it computes without.\<close>

theorem genkat_prints_rfc9106:
  assumes "length (kat_out k) = 32" "length (kat_pwd k) = 32" "length (kat_salt k) = 16" "length (kat_secret k) = 8"
    and "length (kat_ad k) = 12" "env_ok e" "\<forall>n. env_malloc e Alloc_matrix n \<noteq> None" "threads_succeed e"
    and "(name, y) \<in> {(''d'', Argon2_d), (''i'', Argon2_i), (''id'', Argon2_id)}"
  shows "genkat_main e k [cmd] = \<lparr>stdout = kat_text Argon2_i 19, stderr = [], exit_code = 0\<rparr> \<and>
    genkat_main e k [cmd, chars name] = \<lparr>stdout = kat_text y 19, stderr = [], exit_code = 0\<rparr> \<and>
    genkat_main e k (cmd # chars name # chars ''16'' # rest) = \<lparr>stdout = kat_text y 16, stderr = [], exit_code = 0\<rparr> \<and>
    genkat_main e k (cmd # chars name # chars ''19'' # rest) = \<lparr>stdout = kat_text y 19, stderr = [], exit_code = 0\<rparr> \<and>
    (ucast (strtoul z) \<in> {16, 19 :: u32} \<longrightarrow> genkat_main e k (cmd # chars name # z # rest) =
      \<lparr>stdout = kat_text y (unat (ucast (strtoul z) :: u32)), stderr = [], exit_code = 0\<rparr>) \<and>
    (1 < length argv \<and> argv ! 1 \<notin> chars ` {''d'', ''i'', ''id''} \<or>
       2 < length argv \<and> ucast (strtoul (argv ! 2)) \<notin> {16, 19 :: u32} \<longrightarrow>
      stdout (genkat_main e k argv) = [] \<and> exit_code (genkat_main e k argv) = 1) \<and>
    fst (argon2_ctx_kat e context type) = argon2_ctx e context type"
proof -
  have y: "supported y" "supported Argon2_i" using assms(9) by (auto simp: supported_def)
  note g = generate_testvectors_eq [OF assms(1-5) _ _ assms(6-8)]
  have s: "strtoul (chars ''16'') = 16" "strtoul (chars ''19'') = 19"
    by (simp_all add: strtoul_def chars_def is_space_def is_digit_def)
  have ty: "(if chars name = chars ''d'' then Some Argon2_d else if chars name = chars ''i'' then Some Argon2_i
      else if chars name = chars ''id'' then Some Argon2_id else None) = Some y"
    using assms(9) by (auto simp: chars_def)
  have g': "generate_testvectors e k y 16 = kat_text y 16" "generate_testvectors e k y 19 = kat_text y 19"
    "generate_testvectors e k Argon2_i 19 = kat_text Argon2_i 19"
    using g [OF y(1), of 16] g [OF y(1), of 19] g [OF y(2), of 19] by simp_all
  have i: "(chars ''i'' = chars ''d'') = False" by (simp add: chars_def)
  have ver: "ARGON2_VERSION_NUMBER = 19" "ARGON2_VERSION_10 = 16" "ARGON2_VERSION_13 = 19"
    by (simp_all add: ARGON2_VERSION_NUMBER_def ARGON2_VERSION_10_def ARGON2_VERSION_13_def)
  have ok: "genkat_main e k [cmd] = \<lparr>stdout = kat_text Argon2_i 19, stderr = [], exit_code = 0\<rparr>"
    "genkat_main e k [cmd, chars name] = \<lparr>stdout = kat_text y 19, stderr = [], exit_code = 0\<rparr>"
    by (simp_all add: genkat_main_def ty g' i ver)
  have named: "genkat_main e k (cmd # chars name # w # rest) =
      \<lparr>stdout = kat_text y (unat (ucast (strtoul w) :: u32)), stderr = [], exit_code = 0\<rparr>"
    if "ucast (strtoul w) \<in> {16, 19 :: u32}" for w
    using that by (auto simp: genkat_main_def ty g' ver)
  have bad: "stdout (genkat_main e k argv) = [] \<and> exit_code (genkat_main e k argv) = 1"
    if "1 < length argv \<and> argv ! 1 \<notin> chars ` {''d'', ''i'', ''id''} \<or>
      2 < length argv \<and> ucast (strtoul (argv ! 2)) \<notin> {16, 19 :: u32}"
    using that by (auto simp: genkat_main_def genkat_fatal_def ver Let_def)
  show ?thesis
    using ok named [of "chars ''16''"] named [of "chars ''19''"] named [of z] bad argon2_ctx_kat_fst by (simp add: s)
qed

definition demo_kat :: kat_locals where
  "demo_kat = \<lparr>kat_out = replicate 32 9, kat_pwd = replicate 32 9, kat_salt = replicate 16 9,
     kat_secret = replicate 8 9, kat_ad = replicate 12 9\<rparr>"

theorem genkat_prints_rfc9106_witness:
  "genkat_main quiet_env demo_kat [chars ''genkat'', chars ''id'', chars ''16''] =
     \<lparr>stdout = kat_text Argon2_id 16, stderr = [], exit_code = 0\<rparr> \<and>
   exit_code (genkat_main quiet_env demo_kat [chars ''genkat'', chars ''x'']) = 1"
proof -
  have e: "env_ok quiet_env" "\<forall>n. env_malloc quiet_env Alloc_matrix n \<noteq> None" "threads_succeed quiet_env"
    by simp_all (simp add: quiet_env_def)
  have x: "chars ''x'' \<notin> chars ` {''d'', ''i'', ''id''}" by (simp add: chars_def)
  show ?thesis
    using genkat_prints_rfc9106 [of demo_kat quiet_env "''id''" Argon2_id "chars ''genkat''" "[]" "[]"
        "[chars ''genkat'', chars ''x'']"] e x
    by (simp add: demo_kat_def)
qed

end
