(* ===== verification/Bench.thy ===== *)
theory Bench
  imports Api_Props
begin

text \<open>
  The benchmark \<^verbatim>\<open>src/bench.c\<close>: which hashes it computes and times, in which order, and that it ends.

  What it does is a list of events. A call of \<^verbatim>\<open>argon2_hash\<close> prints nothing and its result code is discarded; the event
  of the call holds that code and the content of the buffer \<^verbatim>\<open>out\<close> after it. A line holds the values that are printed
  before the conversion to floating point: the cycles for each KiB and all cycles; the time of a group of three is the
  list of its readings of \<^verbatim>\<open>clock\<close>. The record \<open>bench_env\<close> gives the environment of every call of the library, the readings of
  the two clocks before and after it, and the uninitialised arrays.
\<close>

section \<open>The model\<close>

datatype bench_event =
    Bench_hash argon2_error_codes "u8 list"
  | Bench_line string u32 u32 u32 u64 u64
  | Bench_seconds "(int \<times> int) list"

record bench_env =
  be_hash :: "u32 \<Rightarrow> nat \<Rightarrow> nat \<Rightarrow> env"
  be_tsc :: "u32 \<Rightarrow> nat \<Rightarrow> nat \<Rightarrow> (u64 \<times> u64) \<times> (u64 \<times> u64)"
  be_clock :: "u32 \<Rightarrow> nat \<Rightarrow> nat \<Rightarrow> int \<times> int"
  be_out :: "u8 list"
  be_pwd :: "u8 list"
  be_salt :: "u8 list"

text \<open>The instruction leaves the halves of the counter in two registers.\<close>

definition rdtsc :: "u64 \<times> u64 \<Rightarrow> u64" where
  "rdtsc = (\<lambda>(rax, rdx). push_bit 32 rdx OR rax)"

definition BENCH_OUTLEN :: nat where "BENCH_OUTLEN = 16"
definition BENCH_INLEN :: nat where "BENCH_INLEN = 16"

definition bench_t_cost :: u32 where "bench_t_cost = 3"

definition thread_test :: "u32 list" where "thread_test = [1, 2, 4, 8]"

definition bench_types :: "argon2_type list" where "bench_types = [Argon2_i, Argon2_d, Argon2_id]"

text \<open>The body of the loop over the types; no decision depends on the result code. The two arrays that are filled before the
  loops are only read in them, so each turn of the model fills them.\<close>

definition bench_type :: "bench_env \<Rightarrow> u32 \<Rightarrow> nat \<Rightarrow> nat \<Rightarrow> bench_event list \<times> u8 list \<Rightarrow> bench_event list \<times> u8 list" where
  "bench_type e m_cost i j =
     (\<lambda>(events, out).
        let thread_n = thread_test ! i;
            type = bench_types ! j;
            (start, stop) = be_tsc e m_cost i j;
            pwd_array = memset_at (be_pwd e) 0 0 BENCH_INLEN;
            salt_array = memset_at (be_salt e) 0 1 BENCH_INLEN;
            (code, hash, _) = argon2_hash (be_hash e m_cost i j) bench_t_cost m_cost thread_n (Some pwd_array) BENCH_INLEN
                (Some salt_array) BENCH_INLEN (Some out) BENCH_OUTLEN None 0 type ARGON2_VERSION_NUMBER;
            delta = (rdtsc stop - rdtsc start) div ucast m_cost
        in (events @ [Bench_hash code (the hash), Bench_line (the (argon2_type2string type 1)) bench_t_cost (drop_bit 10 m_cost) thread_n delta
              (rdtsc stop - rdtsc start)], the hash))"

definition bench_threads :: "bench_env \<Rightarrow> u32 \<Rightarrow> nat \<Rightarrow> bench_event list \<times> u8 list \<Rightarrow> bench_event list \<times> u8 list" where
  "bench_threads e m_cost i st =
     (let (events, out) = fold (bench_type e m_cost i) [0..<3] st
      in (events @ [Bench_seconds (map (be_clock e m_cost i) [0..<3])], out))"

text \<open>The loop over \<^verbatim>\<open>m_cost\<close>, which doubles with wrap-around; \<open>None\<close> would be a loop that does not end.\<close>

partial_function (option) bench_costs ::
  "bench_env \<Rightarrow> u32 \<Rightarrow> bench_event list \<times> u8 list \<Rightarrow> (bench_event list \<times> u8 list) option" where
  "bench_costs e m_cost st =
     (if m_cost \<le> push_bit 22 1 then bench_costs e (m_cost * 2) (fold (bench_threads e m_cost) [0..<4] st)
      else Some st)"

definition benchmark :: "bench_env \<Rightarrow> (bench_event list \<times> u8 list) option" where
  "benchmark e = bench_costs e (push_bit 10 1) ([], be_out e)"

section \<open>Every hash of the benchmark\<close>

definition bench_line :: "bench_env \<Rightarrow> nat \<Rightarrow> nat \<Rightarrow> nat \<Rightarrow> bench_event" where
  "bench_line e k i j =
     (let m = 2 ^ k; (start, stop) = be_tsc e m i j
      in Bench_line ([''Argon2i'', ''Argon2d'', ''Argon2id''] ! j) 3 (2 ^ (k - 10)) (thread_test ! i)
        ((rdtsc stop - rdtsc start) div 2 ^ k) (rdtsc stop - rdtsc start))"

definition bench_seconds :: "bench_env \<Rightarrow> nat \<Rightarrow> nat \<Rightarrow> bench_event" where
  "bench_seconds e k i = Bench_seconds (map (be_clock e (2 ^ k) i) [0..<3])"

definition bench_tag :: "nat \<Rightarrow> nat \<Rightarrow> nat \<Rightarrow> u8 list" where
  "bench_tag k i j = rfc_argon2 (bench_types ! j) 19 (2 ^ i) 16 (2 ^ k) 3 (replicate 16 0) (replicate 16 1) [] []"

definition bench_trace :: "bench_env \<Rightarrow> nat \<Rightarrow> nat \<Rightarrow> bench_event list" where
  "bench_trace e k i =
     concat (map (\<lambda>j. [Bench_hash ARGON2_OK (bench_tag k i j), bench_line e k i j]) [0..<3]) @ [bench_seconds e k i]"

text \<open>What reaches the screen, and the calls of the library.\<close>

definition printed :: "bench_event list \<Rightarrow> bench_event list" where
  "printed = filter (\<lambda>ev. case ev of Bench_hash code out \<Rightarrow> False | _ \<Rightarrow> True)"

definition hashes :: "bench_event list \<Rightarrow> bench_event list" where
  "hashes = filter (\<lambda>ev. case ev of Bench_hash code out \<Rightarrow> True | _ \<Rightarrow> False)"

definition bench_lines :: "bench_env \<Rightarrow> nat \<Rightarrow> nat \<Rightarrow> bench_event list" where
  "bench_lines e k i = map (bench_line e k i) [0..<3] @ [bench_seconds e k i]"

lemma printed_simps [simp]:
  "printed [] = []" "printed (xs @ ys) = printed xs @ printed ys" "printed (Bench_hash c h # xs) = printed xs"
  "printed (bench_line e k i j # xs) = bench_line e k i j # printed xs"
  "printed (bench_seconds e k i # xs) = bench_seconds e k i # printed xs"
  by (simp_all add: printed_def bench_line_def bench_seconds_def Let_def case_prod_unfold)

lemma hashes_simps [simp]:
  "hashes [] = []" "hashes (xs @ ys) = hashes xs @ hashes ys" "hashes (Bench_hash c h # xs) = Bench_hash c h # hashes xs"
  "hashes (bench_line e k i j # xs) = hashes xs" "hashes (bench_seconds e k i # xs) = hashes xs"
  by (simp_all add: hashes_def bench_line_def bench_seconds_def Let_def case_prod_unfold)

definition bench_ok :: "bench_env \<Rightarrow> bool" where
  "bench_ok e \<longleftrightarrow> length (be_out e) = 16 \<and> length (be_pwd e) = 16 \<and> length (be_salt e) = 16 \<and>
     (\<forall>m i j. env_ok (be_hash e m i j) \<and> (\<forall>s n. env_malloc (be_hash e m i j) s n \<noteq> None) \<and> threads_succeed (be_hash e m i j))"

lemma below_4: "i < 4 \<Longrightarrow> i = 0 \<or> i = 1 \<or> i = 2 \<or> i = (3 :: nat)"
  and below_3: "j < 3 \<Longrightarrow> j = 0 \<or> j = 1 \<or> j = (2 :: nat)"
  by auto

lemma unat_pow2: "k < 32 \<Longrightarrow> unat (2 ^ k :: u32) = 2 ^ k"
  using unat_small [of "2 ^ k"] power_strict_increasing [of k 32 "2 :: nat"] by simp

lemma bench_type_line:
  assumes "10 \<le> k" "k \<le> 22" "j < 3"
  shows "\<exists>code hash. bench_type e (2 ^ k) i j (ev, out) = (ev @ [Bench_hash code hash, bench_line e k i j], hash) \<and>
    (code, Some hash) = (let r = argon2_hash (be_hash e (2 ^ k) i j) bench_t_cost (2 ^ k) (thread_test ! i)
      (Some (memset_at (be_pwd e) 0 0 BENCH_INLEN)) BENCH_INLEN (Some (memset_at (be_salt e) 0 1 BENCH_INLEN)) BENCH_INLEN
      (Some out) BENCH_OUTLEN None 0 (bench_types ! j) ARGON2_VERSION_NUMBER in (fst r, Some (the (fst (snd r)))))"
proof -
  have k: "k < 32" using assms(2) by simp
  have y: "the (argon2_type2string (bench_types ! j) 1) = [''Argon2i'', ''Argon2d'', ''Argon2id''] ! j"
    using below_3 [OF assms(3)] by (auto simp: bench_types_def argon2_type2string_def)
  have "ucast (2 ^ k :: u32) = (word_of_nat (unat (2 ^ k :: u32)) :: u64)" by simp
  then have m64: "ucast (2 ^ k :: u32) = (2 ^ k :: u64)" unfolding unat_pow2 [OF k] by simp
  have w: "drop_bit 10 (2 ^ k :: u32) = 2 ^ (k - 10)"
    using assms(1) k by (simp add: drop_bit_eq_div word_unat_eq_iff unat_div unat_pow2 power_diff)
  show ?thesis
    by (simp add: bench_type_def bench_line_def bench_t_cost_def case_prod_unfold Let_def y w m64)
qed

lemma bench_type_eq:
  assumes "bench_ok e" "10 \<le> k" "k \<le> 22" "i < 4" "j < 3" "length out = 16"
  shows "bench_type e (2 ^ k) i j (ev, out) =
    (ev @ [Bench_hash ARGON2_OK (bench_tag k i j), bench_line e k i j], bench_tag k i j)"
proof -
  define m :: u32 where "m = 2 ^ k"
  have k: "k < 32" using assms(3) by simp
  have um: "unat m = 2 ^ k" unfolding m_def using k by (rule unat_pow2)
  have t: "unat (thread_test ! i) = 2 ^ i" "unat (thread_test ! i) \<le> 8"
    using below_4 [OF assms(4)] by (auto simp: thread_test_def)
  have m8: "8 * 8 \<le> unat m" unfolding um using power_increasing [OF assms(2), of "2 :: nat"] by simp
  have y: "supported (bench_types ! j)"
    using below_3 [OF assms(5)] by (auto simp: bench_types_def supported_def)
  let ?pwd = "replicate 16 (0 :: u8)" and ?salt = "replicate 16 (1 :: u8)"
  have ha: "hash_args 3 m (thread_test ! i) (Some ?pwd) 16 (Some ?salt) 16 16"
    using t m8 by (simp add: hash_args_def)
  have e: "env_ok (be_hash e m i j)" "env_malloc (be_hash e m i j) Alloc_hash_out 16 \<noteq> None" "hash_succeeds (be_hash e m i j) m (thread_test ! i)"
    using assms(1) by (simp_all add: bench_ok_def hash_succeeds_def)
  have tag: "hash_tag (bench_types ! j) 3 m (thread_test ! i) (Some ?pwd) 16 (Some ?salt) 16 16 ARGON2_VERSION_NUMBER = bench_tag k i j"
    by (simp add: hash_tag_def bench_tag_def um t(1) ARGON2_VERSION_NUMBER_def ARGON2_VERSION_13_def)
  have h: "fst (argon2_hash (be_hash e m i j) 3 m (thread_test ! i) (Some ?pwd) 16 (Some ?salt) 16 (Some out) 16 None 0
        (bench_types ! j) ARGON2_VERSION_NUMBER) = ARGON2_OK"
    "fst (snd (argon2_hash (be_hash e m i j) 3 m (thread_test ! i) (Some ?pwd) 16 (Some ?salt) 16 (Some out) 16 None 0
        (bench_types ! j) ARGON2_VERSION_NUMBER)) = Some (bench_tag k i j)"
    using argon2_hash_eq [OF ha _ _ y e(1,2), of None 0 "Some out" ARGON2_VERSION_NUMBER] e(3) assms(6) tag by auto
  have args: "memset_at (be_pwd e) 0 0 BENCH_INLEN = ?pwd" "memset_at (be_salt e) 0 1 BENCH_INLEN = ?salt"
    using assms(1) by (simp_all add: bench_ok_def memset_at_def BENCH_INLEN_def)
  show ?thesis
    using bench_type_line [OF assms(2,3,5), of e i ev out]
    unfolding m_def [symmetric] args unfolding bench_t_cost_def BENCH_INLEN_def BENCH_OUTLEN_def Let_def h by auto
qed

lemma length_bench_tag [simp]: "length (bench_tag k i j) = 16"
  by (simp add: bench_tag_def rfc_argon2_def rfc_tag_def Let_def)

lemma bench_threads_eq:
  assumes "bench_ok e" "10 \<le> k" "k \<le> 22" "i < 4" "length out = 16"
  shows "bench_threads e (2 ^ k) i (ev, out) = (ev @ bench_trace e k i, bench_tag k i 2)"
proof -
  have u: "[0..<3] = [0, 1, 2 :: nat]" by (simp add: upt_rec)
  note step = bench_type_eq [OF assms(1-4)]
  show ?thesis
    unfolding bench_threads_def bench_trace_def bench_seconds_def u by (simp add: step assms(5))
qed

lemma bench_cost_eq:
  assumes "bench_ok e" "10 \<le> k" "k \<le> 22" "length out = 16"
  shows "fold (bench_threads e (2 ^ k)) [0..<4] (ev, out) = (ev @ concat (map (bench_trace e k) [0..<4]), bench_tag k 3 2)"
proof -
  have u: "[0..<4] = [0, 1, 2, 3 :: nat]" by (simp add: upt_rec)
  note step = bench_threads_eq [OF assms(1-3)]
  show ?thesis unfolding u by (simp add: step assms(4))
qed

text \<open>The loop ends whatever its body does: the counter runs through the powers of two.\<close>

lemma bench_costs_steps:
  "n \<le> 12 \<Longrightarrow> bench_costs e (2 ^ (22 - n)) st = Some (fold (\<lambda>k. fold (bench_threads e (2 ^ k)) [0..<4]) [22 - n..<23] st)"
proof (induction n arbitrary: st)
  case 0
  have c: "(2 ^ 22 :: u32) \<le> push_bit 22 1" "\<not> (2 ^ 22 * 2 :: u32) \<le> push_bit 22 1" by simp_all
  have "[22..<23] = [22 :: nat]" by (simp add: upt_rec)
  then show ?case using c by (subst bench_costs.simps) (subst bench_costs.simps, simp)
next
  case (Suc n)
  define k where "k = 22 - Suc n"
  have k: "k \<le> 22" "k < 32" "22 - n = Suc k" using Suc.prems by (simp_all add: k_def)
  have c: "(2 ^ k :: u32) \<le> push_bit 22 1"
    using power_increasing [OF k(1), of "2 :: nat"] unat_pow2 [OF k(2)] by (simp add: word_le_nat_alt)
  have "[k..<23] = k # [Suc k..<23]" using k(1) by (simp add: upt_rec)
  then show ?case
    using Suc c unfolding k_def [symmetric] k(3) by (subst bench_costs.simps) (simp add: mult.commute)
qed

lemma benchmark_steps: "benchmark e = Some (fold (\<lambda>k. fold (bench_threads e (2 ^ k)) [0..<4]) [10..<23] ([], be_out e))"
  using bench_costs_steps [of 12 e "([], be_out e)"] by (simp add: benchmark_def)

text \<open>Every turn of the inner loop calls the library once and prints one line.\<close>

lemma bench_threads_printed:
  assumes "10 \<le> k" "k \<le> 22"
  shows "printed (fst (bench_threads e (2 ^ k) i st)) = printed (fst st) @ bench_lines e k i \<and>
    length (hashes (fst (bench_threads e (2 ^ k) i st))) = length (hashes (fst st)) + 3"
proof -
  have u: "[0..<3] = [0, 1, 2 :: nat]" by (simp add: upt_rec)
  have step: "printed (fst (bench_type e (2 ^ k) i j st)) = printed (fst st) @ [bench_line e k i j] \<and>
      length (hashes (fst (bench_type e (2 ^ k) i j st))) = Suc (length (hashes (fst st)))" if "j < 3" for j st
    using bench_type_line [OF assms that, of e i "fst st" "snd st"] by auto
  show ?thesis
    unfolding bench_threads_def bench_lines_def u case_prod_unfold Let_def bench_seconds_def [symmetric, unfolded u]
    by (simp add: step)
qed

lemma bench_cost_printed:
  assumes "10 \<le> k" "k \<le> 22"
  shows "printed (fst (fold (bench_threads e (2 ^ k)) [0..<4] st)) = printed (fst st) @ concat (map (bench_lines e k) [0..<4]) \<and>
    length (hashes (fst (fold (bench_threads e (2 ^ k)) [0..<4] st))) = length (hashes (fst st)) + 12"
proof -
  have u: "[0..<4] = [0, 1, 2, 3 :: nat]" by (simp add: upt_rec)
  show ?thesis unfolding u by (simp add: bench_threads_printed [OF assms])
qed

lemma bench_all_printed:
  "set ks \<subseteq> {10..22} \<Longrightarrow>
    printed (fst (fold (\<lambda>k. fold (bench_threads e (2 ^ k)) [0..<4]) ks st)) =
      printed (fst st) @ concat (map (\<lambda>k. concat (map (bench_lines e k) [0..<4])) ks) \<and>
    length (hashes (fst (fold (\<lambda>k. fold (bench_threads e (2 ^ k)) [0..<4]) ks st))) = length (hashes (fst st)) + 12 * length ks"
proof (induction ks arbitrary: st)
  case (Cons k ks)
  then have k: "10 \<le> k" "k \<le> 22" by simp_all
  show ?case
    using Cons bench_cost_printed [OF k, of e st] by (simp del: upt_Suc)
qed simp

lemma bench_all_eq:
  assumes "bench_ok e"
  shows "set ks \<subseteq> {10..22} \<Longrightarrow> length out = 16 \<Longrightarrow>
    fold (\<lambda>k. fold (bench_threads e (2 ^ k)) [0..<4]) ks (ev, out) =
      (ev @ concat (map (\<lambda>k. concat (map (bench_trace e k) [0..<4])) ks), if ks = [] then out else bench_tag (last ks) 3 2)"
proof (induction ks arbitrary: ev out)
  case (Cons k ks)
  then have k: "10 \<le> k" "k \<le> 22" by simp_all
  show ?case
    using Cons bench_cost_eq [OF assms k Cons.prems(2), of ev] by (simp del: upt_Suc)
qed simp

section \<open>Property\<close>

text \<open>C13: the benchmark ends, although its loop counter is an unsigned number that doubles, whatever the library does
  and whatever the clocks show: it calls \<^verbatim>\<open>argon2_hash\<close> exactly 156 times and prints exactly the lines for memory of 1 MiB
  to 4 GiB, doubling, for 1, 2, 4 and 8 threads and for the three types in this order, with the time of each group of
  three after it. Provided that memory and threads can be had, every one of these lines is printed right after a
  hash with exactly the parameters that it names: the call succeeds and leaves in the buffer the tag of RFC 9106 of this
  type, with this memory, this number of lanes and 3 iterations.\<close>

theorem benchmark_ends:
  "\<exists>events out. benchmark e = Some (events, out) \<and>
    printed events = concat (map (\<lambda>k. concat (map (bench_lines e k) [0..<4])) [10..<23]) \<and>
    length (hashes events) = 156 \<and>
    (length (be_out e) = 16 \<and> length (be_pwd e) = 16 \<and> length (be_salt e) = 16 \<and>
      (\<forall>m i j. env_ok (be_hash e m i j) \<and> (\<forall>s n. env_malloc (be_hash e m i j) s n \<noteq> None) \<and>
        threads_succeed (be_hash e m i j)) \<longrightarrow>
      events = concat (map (\<lambda>k. concat (map (bench_trace e k) [0..<4])) [10..<23]) \<and>
      out = rfc_argon2 Argon2_id 19 8 16 4194304 3 (replicate 16 0) (replicate 16 1) [] [])"
proof -
  define st where "st = fold (\<lambda>k. fold (bench_threads e (2 ^ k)) [0..<4]) [10..<23] ([], be_out e)"
  have ks: "set [10..<23] \<subseteq> {10..22 :: nat}" "[10..<23] \<noteq> [] \<and> last [10..<23] = (22 :: nat)" by (auto simp: last_upt)
  have exact: "st = (concat (map (\<lambda>k. concat (map (bench_trace e k) [0..<4])) [10..<23]), bench_tag 22 3 2)" if "bench_ok e"
    using bench_all_eq [OF that ks(1), of "be_out e" "[]"] that ks(2) by (simp add: st_def bench_ok_def del: upt_Suc)
  have tag: "bench_tag 22 3 2 = rfc_argon2 Argon2_id 19 8 16 4194304 3 (replicate 16 0) (replicate 16 1) [] []"
    by (simp add: bench_tag_def bench_types_def)
  have "printed (fst st) = concat (map (\<lambda>k. concat (map (bench_lines e k) [0..<4])) [10..<23])" "length (hashes (fst st)) = 156"
    using bench_all_printed [OF ks(1), of e "([], be_out e)"] by (simp_all add: st_def del: upt_Suc)
  then show ?thesis
    using exact [unfolded bench_ok_def tag] benchmark_steps [of e, folded st_def]
    by (intro exI [of _ "fst st"] exI [of _ "snd st"]) auto
qed

definition demo_bench :: bench_env where
  "demo_bench = \<lparr>be_hash = (\<lambda>m i j. quiet_env), be_tsc = (\<lambda>m i j. ((5, 0), (7, 1))), be_clock = (\<lambda>m i j. (3, 4)),
     be_out = replicate 16 9, be_pwd = replicate 16 9, be_salt = replicate 16 9\<rparr>"

theorem benchmark_ends_witness:
  "benchmark demo_bench = Some (concat (map (\<lambda>k. concat (map (bench_trace demo_bench k) [0..<4])) [10..<23]),
    rfc_argon2 Argon2_id 19 8 16 4194304 3 (replicate 16 0) (replicate 16 1) [] [])"
proof -
  have e: "env_ok quiet_env" "env_malloc quiet_env s n \<noteq> None" "threads_succeed quiet_env" for s n
    by simp_all (simp add: quiet_env_def)
  show ?thesis using benchmark_ends [of demo_bench] e by (auto simp: demo_bench_def)
qed

end
