(* ===== verification/Js.thy ===== *)
theory Js
  imports Complex_Main Addon "HOL-Library.Log_Nat"
begin

text \<open>
  The part of JavaScript and of the \<^verbatim>\<open>Buffer\<close> of Node.js that \<^verbatim>\<open>phc.ts\<close> and \<^verbatim>\<open>index.ts\<close> use. A string is the list
  of its UTF-16 code units. A Number is a double: its exact value, an infinity or NaN; the two zeros are one,
  since nothing in the two files tells them apart. An object is the map of its own properties, so that
  a property that is absent and one that is \<^verbatim>\<open>undefined\<close> are different; the properties that every
  object inherits are listed where an operator sees them.
\<close>

type_synonym u16 = "16 word"
type_synonym js_string = "u16 list"

definition widen :: "u8 list \<Rightarrow> js_string" where "widen b = map ucast b"

abbreviation js :: "string \<Rightarrow> js_string" where "js s \<equiv> widen (chars s)"

section \<open>Numbers\<close>

datatype js_number = JsFin rat | JsInf bool | JsNaN

text \<open>The exponent of the binade of a positive number.\<close>

definition ilog2 :: "rat \<Rightarrow> int" where
  "ilog2 q = (if 1 \<le> q then bitlen \<lfloor>q\<rfloor> - 1 else - bitlen (\<lceil>1 / q\<rceil> - 1))"

definition half_even :: "rat \<Rightarrow> int" where
  "half_even x =
     (let f = \<lfloor>x\<rfloor>; d = x - of_int f
      in if d < 1 / 2 then f else if d > 1 / 2 then f + 1 else if even f then f else f + 1)"

text \<open>The double nearest to a number.\<close>

definition round_double :: "rat \<Rightarrow> js_number" where
  "round_double q =
     (if q = 0 then JsFin 0
      else let e = max (- 1074) (ilog2 \<bar>q\<bar> - 52);
               v = of_int (half_even (\<bar>q\<bar> / 2 powi e)) * 2 powi e
           in if v \<ge> 2 ^ 1024 then JsInf (q < 0) else JsFin (sgn q * v))"

definition js_int :: "int \<Rightarrow> js_number" where "js_int n = JsFin (of_int n)"

text \<open>\<^verbatim>\<open>Number.isInteger\<close>, \<^verbatim>\<open>Number.isSafeInteger\<close>, \<^verbatim>\<open>Number.isFinite\<close>, and \<^verbatim>\<open>x > y\<close>.\<close>

definition is_integer :: "js_number \<Rightarrow> bool" where
  "is_integer x = (case x of JsFin q \<Rightarrow> of_int \<lfloor>q\<rfloor> = q | _ \<Rightarrow> False)"

definition is_safe_integer :: "js_number \<Rightarrow> bool" where
  "is_safe_integer x = (case x of JsFin q \<Rightarrow> of_int \<lfloor>q\<rfloor> = q \<and> \<bar>q\<bar> \<le> 9007199254740991 | _ \<Rightarrow> False)"

definition is_finite :: "js_number \<Rightarrow> bool" where
  "is_finite x = (case x of JsFin _ \<Rightarrow> True | _ \<Rightarrow> False)"

definition js_greater :: "js_number \<Rightarrow> js_number \<Rightarrow> bool" where
  "js_greater x y =
     (case (x, y) of
        (JsFin a, JsFin b) \<Rightarrow> a > b
      | (JsFin _, JsInf neg) \<Rightarrow> neg
      | (JsInf neg, JsFin _) \<Rightarrow> \<not> neg
      | (JsInf neg, JsInf neg') \<Rightarrow> \<not> neg \<and> neg'
      | _ \<Rightarrow> False)"

text \<open>The operator \<^verbatim>\<open>===\<close>.\<close>

definition js_same :: "js_number \<Rightarrow> js_number \<Rightarrow> bool" where
  "js_same x y = (x \<noteq> JsNaN \<and> x = y)"

section \<open>Numbers and strings\<close>

definition is_dig :: "u16 \<Rightarrow> bool" where "is_dig c \<longleftrightarrow> 48 \<le> c \<and> c \<le> 57"

definition dval :: "js_string \<Rightarrow> nat" where
  "dval ds = foldl (\<lambda>n c. n * 10 + (unat c - 48)) 0 ds"

text \<open>A run of digits in one of the bases that have a prefix.\<close>

definition based :: "nat \<Rightarrow> js_string \<Rightarrow> js_number" where
  "based b ds =
     (let v = (\<lambda>c. let n = unat c in if 48 \<le> n \<and> n \<le> 57 then n - 48 else if 97 \<le> n \<and> n \<le> 102 then n - 87
                 else if 65 \<le> n \<and> n \<le> 70 then n - 55 else 16)
      in if ds \<noteq> [] \<and> (\<forall>c \<in> set ds. v c < b) then round_double (of_nat (foldl (\<lambda>n c. n * b + v c) 0 ds)) else JsNaN)"

definition signed :: "js_string \<Rightarrow> bool \<times> js_string" where
  "signed s = (case s of c # r \<Rightarrow> if c = 45 then (True, r) else if c = 43 then (False, r) else (False, s)
     | [] \<Rightarrow> (False, []))"

definition decimal_literal :: "js_string \<Rightarrow> js_number" where
  "decimal_literal s =
     (let ip = takeWhile is_dig s; r = dropWhile is_dig s;
          (fp, r) = (case r of c # r' \<Rightarrow> if c = 46 then (takeWhile is_dig r', dropWhile is_dig r') else ([], r)
                     | [] \<Rightarrow> ([], []))
      in if ip = [] \<and> fp = [] then JsNaN
         else case r of [] \<Rightarrow> round_double (of_nat (dval (ip @ fp)) / 10 ^ length fp)
         | c # r' \<Rightarrow>
             let (neg, ds) = signed r' in
             if (c = 101 \<or> c = 69) \<and> ds \<noteq> [] \<and> list_all is_dig ds
             then round_double (of_nat (dval (ip @ fp)) *
                    10 powi ((if neg then - int (dval ds) else int (dval ds)) - int (length fp)))
             else JsNaN)"

definition js_negate :: "js_number \<Rightarrow> js_number" where
  "js_negate x = (case x of JsFin q \<Rightarrow> JsFin (- q) | JsInf neg \<Rightarrow> JsInf (\<not> neg) | JsNaN \<Rightarrow> JsNaN)"

text \<open>\<^verbatim>\<open>Number(s)\<close> of a string without white space, as \<open>valueRegex\<close> of \<^verbatim>\<open>phc.ts\<close> leaves it.\<close>

definition js_Number :: "js_string \<Rightarrow> js_number" where
  "js_Number s =
     (if s = [] then JsFin 0
      else if take 2 s = js ''0x'' \<or> take 2 s = js ''0X'' then based 16 (drop 2 s)
      else if take 2 s = js ''0o'' \<or> take 2 s = js ''0O'' then based 8 (drop 2 s)
      else if take 2 s = js ''0b'' \<or> take 2 s = js ''0B'' then based 2 (drop 2 s)
      else let (neg, r) = signed s;
               x = (if r = js ''Infinity'' then JsInf False else decimal_literal r)
           in if neg then js_negate x else x)"

text \<open>\<^verbatim>\<open>parseInt(s, 10)\<close> of a string of digits.\<close>

definition js_parseInt :: "js_string \<Rightarrow> js_number" where
  "js_parseInt s = (let (neg, r) = signed s; x = round_double (of_nat (dval (takeWhile is_dig r)))
     in if takeWhile is_dig r = [] then JsNaN else if neg then js_negate x else x)"

text \<open>\<^verbatim>\<open>toString\<close>: the shortest digits that give the number back, found by trying 1 to 17 of them; those of a
  safe integer are its decimal notation.\<close>

definition int_string :: "int \<Rightarrow> js_string" where
  "int_string n = (if n < 0 then js ''-'' else []) @ widen (decimal (nat \<bar>n\<bar>))"

definition shortest :: "rat \<Rightarrow> nat \<times> int" where
  "shortest v =
     (let n = the (find (\<lambda>n. v < 10 powi n) (map (\<lambda>i. int i - 324) [0..<640]));
          digits = (\<lambda>k. let u = 10 powi (n - int k); s = \<lfloor>v / u\<rfloor>;
                        ok = (\<lambda>s. round_double (of_int s * u) = JsFin v)
                    in if ok s \<and> (\<not> ok (s + 1) \<or> v - of_int s * u \<le> of_int (s + 1) * u - v) then Some (nat s)
                       else if ok (s + 1) then Some (nat (s + 1)) else None);
          (k, s) = the (find (\<lambda>(k, s). s \<noteq> None) (map (\<lambda>k. (k, digits k)) [1..<18]))
      in if the s = 10 ^ k then (1, n + 1) else (the s, n))"

definition number_string :: "js_number \<Rightarrow> js_string" where
  "number_string x =
     (case x of JsNaN \<Rightarrow> js ''NaN'' | JsInf neg \<Rightarrow> js (if neg then ''-Infinity'' else ''Infinity'')
      | JsFin q \<Rightarrow>
          if is_safe_integer x then int_string \<lfloor>q\<rfloor>
          else let (s, n) = shortest \<bar>q\<bar>; ds = widen (decimal s); k = int (length ds);
                   zeros = (\<lambda>i. replicate (nat i) 48)
               in (if q < 0 then js ''-'' else []) @
                  (if k \<le> n \<and> n \<le> 21 then ds @ zeros (n - k)
                   else if 0 < n \<and> n \<le> 21 then take (nat n) ds @ js ''.'' @ drop (nat n) ds
                   else if - 6 < n \<and> n \<le> 0 then js ''0.'' @ zeros (- n) @ ds
                   else take 1 ds @ (if k = 1 then [] else js ''.'' @ drop 1 ds) @ js ''e'' @
                        (if n - 1 < 0 then [] else js ''+'') @ int_string (n - 1)))"

section \<open>Values and objects\<close>

datatype js_val = Undefined | Null | Bool bool | Num js_number | Str js_string | Buf "u8 list" | Other

type_synonym js_obj = "string \<rightharpoonup> js_val"

text \<open>\<^verbatim>\<open>o.name\<close>, \<^verbatim>\<open>x ?? y\<close> and the conversion to a truth value. \<^verbatim>\<open>{...a, ...b}\<close> is \<open>a ++ b\<close>.\<close>

definition get :: "js_obj \<Rightarrow> string \<Rightarrow> js_val" where
  "get obj name = (case obj name of None \<Rightarrow> Undefined | Some v \<Rightarrow> v)"

definition nullish :: "js_val \<Rightarrow> js_val \<Rightarrow> js_val" where
  "nullish x y = (if x = Undefined \<or> x = Null then y else x)"

definition truthy :: "js_val \<Rightarrow> bool" where
  "truthy v = (case v of Undefined \<Rightarrow> False | Null \<Rightarrow> False | Bool b \<Rightarrow> b | Num x \<Rightarrow> x \<noteq> JsFin 0 \<and> x \<noteq> JsNaN
     | Str s \<Rightarrow> s \<noteq> [] | _ \<Rightarrow> True)"

text \<open>\<^verbatim>\<open>ToNumber\<close>; a buffer or another object, which the types exclude where this is used, counts as NaN.\<close>

definition to_number :: "js_val \<Rightarrow> js_number" where
  "to_number v = (case v of Num x \<Rightarrow> x | Str s \<Rightarrow> js_Number s | Null \<Rightarrow> JsFin 0 | Bool b \<Rightarrow> JsFin (if b then 1 else 0)
     | _ \<Rightarrow> JsNaN)"

text \<open>The names that every object inherits from \<^verbatim>\<open>Object.prototype\<close>.\<close>

definition inherited :: "js_string list" where
  "inherited = map js [''constructor'', ''__defineGetter__'', ''__defineSetter__'', ''hasOwnProperty'',
     ''__lookupGetter__'', ''__lookupSetter__'', ''isPrototypeOf'', ''propertyIsEnumerable'', ''toString'', ''valueOf'',
     ''__proto__'', ''toLocaleString'']"

text \<open>Exceptions, with the constant beginning of their message, without its quotation marks; \<open>Native\<close> is the error of a promise that the addon
  rejects. A function that can throw returns a sum.\<close>

datatype js_error = TypeError string | RangeError string | Native string

definition andThen :: "js_error + 'a \<Rightarrow> ('a \<Rightarrow> js_error + 'b) \<Rightarrow> js_error + 'b" where
  "andThen r f = (case r of Inl e \<Rightarrow> Inl e | Inr x \<Rightarrow> f x)"

definition throw_unless :: "bool \<Rightarrow> js_error \<Rightarrow> js_error + unit" where
  "throw_unless b e = (if b then Inr () else Inl e)"

lemma andThen_simps [simp]: "andThen (Inl e) f = Inl e" "andThen (Inr x) f = f x"
  "andThen (throw_unless b e) g = (if b then g () else Inl e)"
  by (simp_all add: andThen_def throw_unless_def)

section \<open>Strings\<close>

fun split_on :: "'a \<Rightarrow> 'a list \<Rightarrow> 'a list list" where
  "split_on d [] = [[]]"
| "split_on d (x # xs) = (if x = d then [] # split_on d xs else (x # hd (split_on d xs)) # tl (split_on d xs))"

fun join :: "'a list \<Rightarrow> 'a list list \<Rightarrow> 'a list" where
  "join sep [] = []"
| "join sep [w] = w"
| "join sep (w # ws) = w @ sep @ join sep ws"

text \<open>\<^verbatim>\<open>Buffer.from(s, "utf8")\<close>: a surrogate without its partner becomes the replacement character.\<close>

definition utf8_code :: "nat \<Rightarrow> u8 list" where
  "utf8_code n = map word_of_nat
     (if n < 0x80 then [n]
      else if n < 0x800 then [0xC0 + n div 64, 0x80 + n mod 64]
      else if n < 0x10000 then [0xE0 + n div 4096, 0x80 + n div 64 mod 64, 0x80 + n mod 64]
      else [0xF0 + n div 262144, 0x80 + n div 4096 mod 64, 0x80 + n div 64 mod 64, 0x80 + n mod 64])"

fun utf8 :: "js_string \<Rightarrow> u8 list" where
  "utf8 [] = []"
| "utf8 [c] = utf8_code (if 0xD800 \<le> c \<and> c \<le> 0xDFFF then 0xFFFD else unat c)"
| "utf8 (c # d # r) =
     (if 0xD800 \<le> c \<and> c \<le> 0xDBFF \<and> 0xDC00 \<le> d \<and> d \<le> 0xDFFF
      then utf8_code (0x10000 + (unat c - 0xD800) * 1024 + (unat d - 0xDC00)) @ utf8 r
      else utf8_code (if 0xD800 \<le> c \<and> c \<le> 0xDFFF then 0xFFFD else unat c) @ utf8 (d # r))"

section \<open>Base64\<close>

text \<open>\<^verbatim>\<open>buf.toString("base64")\<close>, with padding.\<close>

fun padded_base64 :: "u8 list \<Rightarrow> js_string" where
  "padded_base64 [] = []"
| "padded_base64 [a] = widen (map b64_char [unat a div 4, unat a mod 4 * 16]) @ [61, 61]"
| "padded_base64 [a, b] =
     widen (map b64_char [unat a div 4, unat a mod 4 * 16 + unat b div 16, unat b mod 16 * 4]) @ [61]"
| "padded_base64 (a # b # c # bs) =
     widen (map b64_char [unat a div 4, unat a mod 4 * 16 + unat b div 16, unat b mod 16 * 4 + unat c div 64,
       unat c mod 64]) @ padded_base64 bs"

text \<open>\<^verbatim>\<open>Buffer.from(s, "base64")\<close> of a string without padding: both alphabets are accepted, any other character is
  skipped, and bits that do not make up a byte are dropped.\<close>

definition sextet :: "u16 \<Rightarrow> nat option" where
  "sextet c = (let n = unat c in if n = 45 then Some 62 else if n = 95 then Some 63 else b64_value n)"

fun bytes_of_sextets :: "nat list \<Rightarrow> u8 list" where
  "bytes_of_sextets [] = []"
| "bytes_of_sextets [a] = []"
| "bytes_of_sextets [a, b] = [word_of_nat (a * 4 + b div 16)]"
| "bytes_of_sextets [a, b, c] = [word_of_nat (a * 4 + b div 16), word_of_nat (b mod 16 * 16 + c div 4)]"
| "bytes_of_sextets (a # b # c # d # r) =
     word_of_nat (a * 4 + b div 16) # word_of_nat (b mod 16 * 16 + c div 4) # word_of_nat (c mod 4 * 64 + d) #
     bytes_of_sextets r"

definition from_base64_string :: "js_string \<Rightarrow> u8 list" where
  "from_base64_string s = bytes_of_sextets (List.map_filter sextet s)"

end
