(* ===== verification/Phc.thy ===== *)
theory Phc
  imports Js
begin

text \<open>
  The PHC string format of the package, \<^verbatim>\<open>phc.ts\<close>: \<^verbatim>\<open>serialize\<close> and \<^verbatim>\<open>deserialize\<close>. The object of parameters is the list
  of its properties in the order of \<^verbatim>\<open>Object.keys\<close>, in which names that are array indices come first. The
  argument of \<^verbatim>\<open>serialize\<close> is an object, as its type says.
\<close>

section \<open>The regular expressions\<close>

definition in_class :: "string \<Rightarrow> u16 \<Rightarrow> bool" where
  "in_class extra c \<longleftrightarrow> 97 \<le> c \<and> c \<le> 122 \<or> 48 \<le> c \<and> c \<le> 57 \<or> c \<in> set (js extra)"

definition upper :: "u16 \<Rightarrow> bool" where "upper c \<longleftrightarrow> 65 \<le> c \<and> c \<le> 90"

definition idRegex :: "js_string \<Rightarrow> bool" where
  "idRegex s \<longleftrightarrow> 1 \<le> length s \<and> length s \<le> 32 \<and> list_all (in_class ''-'') s"

definition nameRegex :: "js_string \<Rightarrow> bool" where
  "nameRegex s \<longleftrightarrow> 1 \<le> length s \<and> length s \<le> 32 \<and> list_all (in_class ''-'') s"

definition valueRegex :: "js_string \<Rightarrow> bool" where
  "valueRegex s \<longleftrightarrow> s \<noteq> [] \<and> list_all (\<lambda>c. upper c \<or> in_class ''/+.-'' c) s"

definition b64Regex :: "js_string \<Rightarrow> bool" where
  "b64Regex s \<longleftrightarrow> list_all (\<lambda>c. upper c \<or> in_class ''/+.-'' c) s"

definition decimalRegex :: "js_string \<Rightarrow> bool" where
  "decimalRegex s \<longleftrightarrow> s = js ''0'' \<or>
     (case (if take 1 s = js ''-'' then drop 1 s else s) of [] \<Rightarrow> False
      | c # r \<Rightarrow> 49 \<le> c \<and> c \<le> 57 \<and> list_all is_dig r)"

text \<open>The match of \<open>versionRegex\<close> gives the digits of its group.\<close>

definition versionRegex :: "js_string \<Rightarrow> js_string option" where
  "versionRegex s = (if take 2 s = js ''v='' \<and> drop 2 s \<noteq> [] \<and> list_all is_dig (drop 2 s) then Some (drop 2 s) else None)"

section \<open>Serialisation\<close>

definition toB64 :: "u8 list \<Rightarrow> js_string" where
  "toB64 buf = rev (dropWhile (\<lambda>c. c = 61) (rev (padded_base64 buf)))"

type_synonym 'v js_params = "(js_string \<times> 'v) list"

datatype params_arg = No_params | Params "js_val js_params" | Bad_params

record phc_input =
  in_id :: js_val
  in_version :: js_val
  in_params :: params_arg
  in_salt :: js_val
  in_hash :: js_val

text \<open>One pair of the loop over the parameters.\<close>

definition serialize_param :: "js_string \<times> js_val \<Rightarrow> js_error + js_string" where
  "serialize_param = (\<lambda>(name, raw).
     if \<not> nameRegex name then Inl (TypeError ''params names must satisfy '')
     else andThen (case raw of Num x \<Rightarrow> Inr (number_string x) | Buf b \<Rightarrow> Inr (toB64 b) | Str s \<Rightarrow> Inr s
         | _ \<Rightarrow> Inl (TypeError ''params values must be strings, numbers or Buffers'')) (\<lambda>value.
     if \<not> valueRegex value then Inl (TypeError ''params values must satisfy '')
     else Inr (name @ js ''='' @ value)))"

fun serialize_params :: "js_val js_params \<Rightarrow> js_error + js_string list" where
  "serialize_params [] = Inr []"
| "serialize_params (p # ps) =
     andThen (serialize_param p) (\<lambda>w. andThen (serialize_params ps) (\<lambda>ws. Inr (w # ws)))"

definition serialize :: "phc_input \<Rightarrow> js_error + js_string" where
  "serialize opts =
     (case in_id opts of
        Str name \<Rightarrow>
          if \<not> idRegex name then Inl (TypeError ''id must satisfy '')
          else let fs = [[], name] in
          andThen (if in_version opts \<noteq> Undefined
              then case in_version opts of
                  Num v \<Rightarrow> if js_greater (JsFin 0) v \<or> \<not> is_integer v
                    then Inl (TypeError ''version must be a non-negative integer'')
                    else Inr (fs @ [js ''v='' @ number_string v])
                | _ \<Rightarrow> Inl (TypeError ''version must be a non-negative integer'')
              else Inr fs) (\<lambda>fs.
          andThen (case in_params opts of
                No_params \<Rightarrow> Inr fs
              | Bad_params \<Rightarrow> Inl (TypeError ''params must be an object'')
              | Params ps \<Rightarrow> andThen (serialize_params ps) (\<lambda>entries. Inr (fs @ [join (js '','') entries]))) (\<lambda>fs.
          andThen (if in_salt opts \<noteq> Undefined
              then case in_salt opts of Buf b \<Rightarrow> Inr (fs @ [toB64 b]) | _ \<Rightarrow> Inl (TypeError ''salt must be a Buffer'')
              else Inr fs) (\<lambda>fs.
          andThen (if in_hash opts \<noteq> Undefined
              then if in_salt opts = Undefined then Inl (TypeError ''hash requires a salt to be present'')
                   else case in_hash opts of Buf b \<Rightarrow> Inr (fs @ [toB64 b]) | _ \<Rightarrow> Inl (TypeError ''hash must be a Buffer'')
              else Inr fs) (\<lambda>fs.
          Inr (join (js ''$'') fs)))))
      | _ \<Rightarrow> Inl (TypeError ''id must be a string''))"

section \<open>Deserialisation\<close>

datatype phc_value = P_string js_string | P_number js_number

record phc_object =
  phc_id :: js_string
  phc_version :: "js_number option"
  phc_params :: "phc_value js_params option"
  phc_salt :: "u8 list option"
  phc_hash :: "u8 list option"

text \<open>A new property of an object whose names are in the order of \<^verbatim>\<open>Object.keys\<close>.\<close>

definition is_index :: "js_string \<Rightarrow> bool" where
  "is_index s \<longleftrightarrow> (s = js ''0'' \<or> s \<noteq> [] \<and> list_all is_dig s \<and> hd s \<noteq> 48) \<and> dval s < 2 ^ 32 - 1"

definition add_property :: "'v js_params \<Rightarrow> js_string \<Rightarrow> 'v \<Rightarrow> 'v js_params" where
  "add_property obj name v =
     (if is_index name
      then takeWhile (\<lambda>(n, _). is_index n \<and> dval n < dval name) obj @ (name, v) #
           dropWhile (\<lambda>(n, _). is_index n \<and> dval n < dval name) obj
      else obj @ [(name, v)])"

text \<open>The operator \<^verbatim>\<open>in\<close> also finds the inherited names.\<close>

definition has_property :: "'v js_params \<Rightarrow> js_string \<Rightarrow> bool" where
  "has_property obj name \<longleftrightarrow> name \<in> fst ` set obj \<or> name \<in> set inherited"

definition param_value :: "js_string \<Rightarrow> phc_value" where
  "param_value value =
     (if decimalRegex value \<and> is_safe_integer (js_Number value) then P_number (js_parseInt value) else P_string value)"

definition deserialize_param :: "phc_value js_params \<Rightarrow> js_string \<Rightarrow> js_error + phc_value js_params" where
  "deserialize_param params pair =
     (case split_on 61 pair of
        name # part # parts \<Rightarrow>
          let value = join (js ''='') (part # parts) in
          if \<not> nameRegex name then Inl (TypeError ''params names must satisfy '')
          else if \<not> valueRegex value then Inl (TypeError ''params values must satisfy '')
          else if has_property params name then Inl (TypeError ''params contains duplicated name: '')
          else Inr (add_property params name (param_value value))
      | _ \<Rightarrow> Inl (TypeError ''params must be in the format name=value''))"

fun deserialize_params :: "phc_value js_params \<Rightarrow> js_string list \<Rightarrow> js_error + phc_value js_params" where
  "deserialize_params params [] = Inr params"
| "deserialize_params params (pair # pairs) =
     andThen (deserialize_param params pair) (\<lambda>params. deserialize_params params pairs)"

text \<open>The last fields that look like Base64: the fields that are left, the salt and the hash.\<close>

definition take_bytes :: "js_string list \<Rightarrow> js_string list \<times> u8 list option \<times> u8 list option" where
  "take_bytes fs =
     (if fs \<noteq> [] \<and> b64Regex (last fs)
      then let (fs, hash) =
             (if length fs > 1 \<and> b64Regex (fs ! (length fs - 2))
              then (butlast fs, Some (from_base64_string (last fs))) else (fs, None))
           in (butlast fs, Some (from_base64_string (last fs)), hash)
      else (fs, None, None))"

definition deserialize :: "js_val \<Rightarrow> js_error + phc_object" where
  "deserialize phcstr =
     (case phcstr of
        Str s \<Rightarrow>
          if s = [] then Inl (TypeError ''phcstr must be a non-empty string'')
          else if hd s \<noteq> 36 then Inl (TypeError ''phcstr must contain a $ as first char'')
          else let fs = tl (split_on 36 s);
                   maxf = (if length fs > 1 \<and> versionRegex (fs ! 1) \<noteq> None then 5 else 4) in
          if length fs > maxf then Inl (TypeError ''phcstr contains too many fields: '')
          else let name = hd fs; fs = tl fs in
          if \<not> idRegex name then Inl (TypeError ''id must satisfy '')
          else let (version, fs) =
                     (case fs of f # r \<Rightarrow>
                        (case versionRegex f of Some ds \<Rightarrow> (Some (js_parseInt ds), r) | None \<Rightarrow> (None, fs))
                      | [] \<Rightarrow> (None, []));
                   (fs, salt, hash) = take_bytes fs in
          andThen (if fs \<noteq> []
              then andThen (deserialize_params [] (split_on 44 (last fs))) (\<lambda>params. Inr (Some params, butlast fs))
              else Inr (None, fs)) (\<lambda>(params, fs).
          if fs \<noteq> [] then Inl (TypeError ''phcstr contains unrecognized fields: '')
          else Inr \<lparr>phc_id = name, phc_version = version, phc_params = params, phc_salt = salt, phc_hash = hash\<rparr>)
      | _ \<Rightarrow> Inl (TypeError ''phcstr must be a non-empty string''))"

end
