(* ===== verification/Package.thy ===== *)
theory Package
  imports Phc
begin

text \<open>
  The API of the package, \<^verbatim>\<open>index.ts\<close>: validation of options, \<^verbatim>\<open>hashRaw\<close> and \<^verbatim>\<open>verifyRaw\<close>, \<^verbatim>\<open>hash\<close>, \<^verbatim>\<open>verify\<close> and
  \<^verbatim>\<open>needsRehash\<close>, down to the native addon.

  A promise that is resolved with \<open>v\<close> is \<open>Inr v\<close>, one that is rejected with \<open>e\<close> is \<open>Inl e\<close>; an exception that an
  \<^verbatim>\<open>async\<close> function throws rejects its promise. With the result, the functions return the calls of the addon
  to the operating system and, where they make one, the temporary buffer for the password as it is left.
  Parameters are the environment of the addon, the conversion of node-addon-api (\<open>u\<close>, as in \<open>Addon\<close>),
  \<^verbatim>\<open>randomBytes\<close> and the functions on paths and files of Node.js.
\<close>

section \<open>The directory of the compiled addon\<close>

text \<open>The loop of \<open>resolveNativeRoot\<close>; \<open>None\<close> would be a loop that does not end.\<close>

partial_function (option) resolve_from ::
  "(js_string \<Rightarrow> bool) \<Rightarrow> (js_string \<Rightarrow> js_string \<Rightarrow> js_string) \<Rightarrow> (js_string \<Rightarrow> js_string) \<Rightarrow> js_string \<Rightarrow> js_string \<Rightarrow> js_string option" where
  "resolve_from existsSync path_join dirname start dir =
     (if existsSync (path_join dir (js ''build'')) \<or> existsSync (path_join dir (js ''prebuilds'')) then Some dir
      else let parent = dirname dir
           in if parent = dir then Some start else resolve_from existsSync path_join dirname start parent)"

definition resolveNativeRoot ::
  "(js_string \<Rightarrow> bool) \<Rightarrow> (js_string \<Rightarrow> js_string \<Rightarrow> js_string) \<Rightarrow> (js_string \<Rightarrow> js_string) \<Rightarrow> js_string \<Rightarrow> js_string option" where
  "resolveNativeRoot existsSync path_join dirname start = resolve_from existsSync path_join dirname start start"

section \<open>Constants\<close>

definition argon2d :: int where "argon2d = 0"
definition argon2i :: int where "argon2i = 1"
definition argon2id :: int where "argon2id = 2"

text \<open>\<^verbatim>\<open>names[x]\<close> for a number or for \<^verbatim>\<open>undefined\<close>, and \<^verbatim>\<open>types[s]\<close>, which also finds inherited names.\<close>

definition names :: "js_val \<Rightarrow> js_val" where
  "names x = (if x = Num (js_int argon2d) then Str (js ''argon2d'') else if x = Num (js_int argon2i) then Str (js ''argon2i'')
     else if x = Num (js_int argon2id) then Str (js ''argon2id'') else Undefined)"

definition types :: "js_string \<Rightarrow> js_val" where
  "types s = (if s = js ''argon2d'' then Num (js_int argon2d) else if s = js ''argon2i'' then Num (js_int argon2i)
     else if s = js ''argon2id'' then Num (js_int argon2id) else if s \<in> set inherited then Other else Undefined)"

definition defaults :: js_obj where
  "defaults = [''hashLength'' \<mapsto> Num (js_int 32), ''timeCost'' \<mapsto> Num (js_int 3), ''memoryCost'' \<mapsto> Num (js_int (push_bit 16 1)),
     ''parallelism'' \<mapsto> Num (js_int 4), ''saltLength'' \<mapsto> Num (js_int 16), ''type'' \<mapsto> Num (js_int argon2id),
     ''version'' \<mapsto> Num (js_int 0x13)]"

definition defaultVerifyLimits :: js_obj where
  "defaultVerifyLimits = [''memoryCost'' \<mapsto> Num (js_int (push_bit 22 1)), ''timeCost'' \<mapsto> Num (js_int (push_bit 10 1)),
     ''parallelism'' \<mapsto> Num (js_int 128)]"

section \<open>Validation\<close>

definition validateInteger :: "js_val \<Rightarrow> string \<Rightarrow> int \<Rightarrow> int \<Rightarrow> js_error + unit" where
  "validateInteger value name lo hi =
     (case value of
        Num x \<Rightarrow>
          if \<not> is_integer x then Inl (TypeError (name @ '' must be an integer.''))
          else if js_greater (js_int lo) x \<or> js_greater x (js_int hi)
          then Inl (RangeError (name @ '' is out of bounds. Allowed range: ''))
          else Inr ()
      | _ \<Rightarrow> Inl (TypeError (name @ '' must be an integer.'')))"

definition validateBuffer :: "js_val \<Rightarrow> string \<Rightarrow> js_error + unit" where
  "validateBuffer value name = (case value of Buf _ \<Rightarrow> Inr () | _ \<Rightarrow> Inl (TypeError (name @ '' must be a Buffer.'')))"

definition byteLength :: "js_val \<Rightarrow> nat" where
  "byteLength v = (case v of Buf b \<Rightarrow> length b | _ \<Rightarrow> 0)"

text \<open>\<^verbatim>\<open>v === n\<close> for a constant, and \<^verbatim>\<open>m < 8 * p\<close>, whose product is exact for the numbers that have been validated.\<close>

definition equals :: "js_val \<Rightarrow> js_number \<Rightarrow> bool" where
  "equals v x = (case v of Num y \<Rightarrow> js_same y x | _ \<Rightarrow> False)"

definition below_eight_times :: "js_val \<Rightarrow> js_val \<Rightarrow> bool" where
  "below_eight_times m p =
     (case (m, p) of (Num x, Num (JsFin q)) \<Rightarrow> js_greater (JsFin (8 * q)) x | _ \<Rightarrow> False)"

definition applyDefaultsAndValidate :: "js_obj \<Rightarrow> js_error + js_obj" where
  "applyDefaultsAndValidate params =
     andThen (validateBuffer (get params ''password'') ''password'') (\<lambda>_.
     andThen (validateBuffer (get params ''salt'') ''salt'') (\<lambda>_.
     andThen (throw_unless (\<not> byteLength (get params ''salt'') < 8) (RangeError ''salt must be at least 8 bytes long.'')) (\<lambda>_.
     andThen (validateInteger (get params ''m'') ''m (memory_cost)'' 8 4294967295) (\<lambda>_.
     andThen (validateInteger (get params ''t'') ''t (time_cost)'' 1 4294967295) (\<lambda>_.
     andThen (validateInteger (get params ''p'') ''p (parallelism)'' 1 16777215) (\<lambda>_.
     andThen (throw_unless (\<not> below_eight_times (get params ''m'') (get params ''p''))
       (RangeError ''m (memory_cost) must be at least 8 * p ('')) (\<lambda>_.
     let version = nullish (get params ''version'') (Num (js_int 0x13)) in
     andThen (throw_unless (equals version (js_int 0x10) \<or> equals version (js_int 0x13))
       (RangeError ''version must be 0x10 (v1.0) or 0x13 (v1.3).'')) (\<lambda>_.
     let type = nullish (get params ''type'') (Num (js_int argon2id)) in
     andThen (throw_unless (equals type (js_int argon2d) \<or> equals type (js_int argon2i) \<or> equals type (js_int argon2id))
       (RangeError ''type must be 0 (Argon2d), 1 (Argon2i) or 2 (Argon2id).'')) (\<lambda>_.
     let secret = nullish (get params ''secret'') (Buf []);
         data = nullish (get params ''data'') (Buf []) in
     andThen (validateBuffer secret ''secret'') (\<lambda>_.
     andThen (validateBuffer data ''data'') (\<lambda>_.
     Inr (params(''secret'' \<mapsto> secret, ''data'' \<mapsto> data, ''version'' \<mapsto> version, ''type'' \<mapsto> type)))))))))))))"

section \<open>The raw functions\<close>

text \<open>The bindings: an object as the addon sees it, and what becomes of the promise it returns.\<close>

definition native_object :: "js_obj \<Rightarrow> js_number js_object" where
  "native_object obj name = (case get obj name of Buf b \<Rightarrow> Js_buffer b | Num x \<Rightarrow> Js_number x | _ \<Rightarrow> Js_other)"

definition settled :: "js_result \<Rightarrow> js_error + js_val" where
  "settled r = (case r of Js_resolve_buffer b \<Rightarrow> Inr (Buf b) | Js_resolve_boolean b \<Rightarrow> Inr (Bool b) | Js_reject m \<Rightarrow> Inl (Native m))"

definition hashRaw :: "addon_env \<Rightarrow> (js_number \<Rightarrow> u32) \<Rightarrow> js_obj \<Rightarrow> (js_error + js_val) \<times> os_call list" where
  "hashRaw ae u options =
     (case andThen (applyDefaultsAndValidate options) (\<lambda>baseOptions.
           andThen (validateInteger (get options ''hashLength'') ''hashLength'' 4 4294967295) (\<lambda>_.
           Inr (baseOptions(''hashLength'' \<mapsto> get options ''hashLength'')))) of
        Inl err \<Rightarrow> (Inl err, [])
      | Inr internalOptions \<Rightarrow>
          (let (r, calls) = Hash ae u [Js_object (native_object internalOptions)] in (settled r, calls)))"

definition verifyRaw :: "addon_env \<Rightarrow> (js_number \<Rightarrow> u32) \<Rightarrow> js_obj \<Rightarrow> (js_error + js_val) \<times> os_call list" where
  "verifyRaw ae u options =
     (case andThen (validateBuffer (get options ''expectedHash'') ''expectedHash'') (\<lambda>_.
           andThen (throw_unless (\<not> byteLength (get options ''expectedHash'') < 4)
             (RangeError ''expectedHash must be at least 4 bytes long.'')) (\<lambda>_.
           andThen (applyDefaultsAndValidate options) (\<lambda>baseOptions.
           Inr (baseOptions(''expectedHash'' \<mapsto> get options ''expectedHash''))))) of
        Inl err \<Rightarrow> (Inl err, [])
      | Inr internalOptions \<Rightarrow>
          (let (r, calls) = Verify ae u [Js_object (native_object internalOptions)] in (settled r, calls)))"

section \<open>The functions on PHC strings\<close>

definition toPasswordBuffer :: "js_val \<Rightarrow> js_val \<times> bool" where
  "toPasswordBuffer password = (case password of Str s \<Rightarrow> (Buf (utf8 s), True) | _ \<Rightarrow> (password, False))"

text \<open>\<^verbatim>\<open>buffer.fill(0)\<close>.\<close>

definition fill_zero :: "js_val \<Rightarrow> js_val" where
  "fill_zero v = (case v of Buf b \<Rightarrow> Buf (replicate (length b) 0) | _ \<Rightarrow> v)"

text \<open>The spread of \<^verbatim>\<open>x !== undefined && {name: x}\<close>.\<close>

definition optional :: "string \<Rightarrow> js_val \<Rightarrow> js_obj" where
  "optional name v = (if v \<noteq> Undefined then [name \<mapsto> v] else Map.empty)"

text \<open>\<^verbatim>\<open>opts.associatedData !== undefined && opts.associatedData.byteLength > 0\<close>, which throws for \<^verbatim>\<open>null\<close>.\<close>

definition has_data :: "js_val \<Rightarrow> js_error + bool" where
  "has_data v = (case v of Undefined \<Rightarrow> Inr False | Null \<Rightarrow> Inl (TypeError ''Cannot read properties of null'')
     | _ \<Rightarrow> Inr (byteLength v > 0))"

definition hash :: "addon_env \<Rightarrow> (js_number \<Rightarrow> u32) \<Rightarrow> (js_val \<Rightarrow> js_error + u8 list) \<Rightarrow> js_val \<Rightarrow> js_obj \<Rightarrow>
    (js_error + js_val) \<times> js_val option \<times> os_call list" where
  "hash ae u randomBytes password options =
     (let opts = defaults ++ options in
      case (if get opts ''salt'' = Undefined \<or> get opts ''salt'' = Null
            then map_sum id Buf (randomBytes (get opts ''saltLength'')) else Inr (get opts ''salt'')) of
        Inl err \<Rightarrow> (Inl err, None, [])
      | Inr salt \<Rightarrow>
          let (passwordBuffer, owned) = toPasswordBuffer password;
              (promise, calls) = hashRaw ae u
                ([''password'' \<mapsto> passwordBuffer, ''salt'' \<mapsto> salt, ''m'' \<mapsto> get opts ''memoryCost'', ''t'' \<mapsto> get opts ''timeCost'',
                  ''p'' \<mapsto> get opts ''parallelism'', ''hashLength'' \<mapsto> get opts ''hashLength'', ''version'' \<mapsto> get opts ''version'',
                  ''type'' \<mapsto> get opts ''type''] ++
                 optional ''secret'' (get opts ''secret'') ++ optional ''data'' (get opts ''associatedData''));
              passwordBuffer = (if owned then fill_zero passwordBuffer else passwordBuffer)
          in (andThen promise (\<lambda>rawHash.
                if truthy (get options ''raw'') then Inr rawHash
                else andThen (has_data (get opts ''associatedData'')) (\<lambda>data.
                  let params = [(js ''m'', get opts ''memoryCost''), (js ''t'', get opts ''timeCost''),
                        (js ''p'', get opts ''parallelism'')] @
                        (if data then [(js ''data'', get opts ''associatedData'')] else [])
                  in map_sum id Str (serialize \<lparr>in_id = names (get opts ''type''), in_version = get opts ''version'',
                        in_params = Params params, in_salt = salt, in_hash = rawHash\<rparr>))),
              Some passwordBuffer, calls))"

text \<open>A property of the parameters of a digest.\<close>

definition param :: "phc_value js_params option \<Rightarrow> string \<Rightarrow> js_val" where
  "param params name =
     (case map_of (case params of None \<Rightarrow> [] | Some ps \<Rightarrow> ps) (js name) of
        None \<Rightarrow> Undefined | Some (P_string s) \<Rightarrow> Str s | Some (P_number x) \<Rightarrow> Num x)"

record verify_options =
  vo_secret :: js_val
  vo_limits :: js_obj

definition phc_version_or_first :: "phc_object \<Rightarrow> js_val" where
  "phc_version_or_first parsed = (case phc_version parsed of None \<Rightarrow> Num (js_int 0x10) | Some v \<Rightarrow> Num v)"

definition verify :: "addon_env \<Rightarrow> (js_number \<Rightarrow> u32) \<Rightarrow> js_val \<Rightarrow> js_val \<Rightarrow> verify_options \<Rightarrow>
    (js_error + js_val) \<times> js_val option \<times> os_call list" where
  "verify ae u digest password options =
     (case (case digest of Str _ \<Rightarrow> deserialize digest | _ \<Rightarrow> Inl (TypeError ''digest must be a string.'')) of
        Inl err \<Rightarrow> (Inl err, None, [])
      | Inr parsed \<Rightarrow>
          let type = types (phc_id parsed) in
          if type = Undefined then (Inr (Bool False), None, [])
          else case (phc_salt parsed, phc_hash parsed) of
            (Some salt, Some expectedHash) \<Rightarrow>
              let m = to_number (param (phc_params parsed) ''m'');
                  t = to_number (param (phc_params parsed) ''t'');
                  p = to_number (param (phc_params parsed) ''p'') in
              if \<not> is_finite m \<or> \<not> is_finite t \<or> \<not> is_finite p
              then (Inl (TypeError ''digest is missing the m, t or p parameters.''), None, [])
              else let limits = defaultVerifyLimits ++ vo_limits options in
              if js_greater m (to_number (get limits ''memoryCost''))
              then (Inl (RangeError ''digest requests memoryCost=''), None, [])
              else if js_greater t (to_number (get limits ''timeCost''))
              then (Inl (RangeError ''digest requests timeCost=''), None, [])
              else if js_greater p (to_number (get limits ''parallelism''))
              then (Inl (RangeError ''digest requests parallelism=''), None, [])
              else let data = (case param (phc_params parsed) ''data'' of Str s \<Rightarrow> Buf (from_base64_string s) | _ \<Rightarrow> Undefined);
                       (passwordBuffer, owned) = toPasswordBuffer password;
                       (promise, calls) = verifyRaw ae u
                         ([''password'' \<mapsto> passwordBuffer, ''salt'' \<mapsto> Buf salt, ''m'' \<mapsto> Num m, ''t'' \<mapsto> Num t, ''p'' \<mapsto> Num p,
                           ''expectedHash'' \<mapsto> Buf expectedHash, ''version'' \<mapsto> phc_version_or_first parsed, ''type'' \<mapsto> type] ++
                          optional ''secret'' (vo_secret options) ++ optional ''data'' data)
                   in (promise, Some (if owned then fill_zero passwordBuffer else passwordBuffer), calls)
          | _ \<Rightarrow> (Inl (TypeError ''digest is missing its salt or hash fields.''), None, []))"

definition needsRehash :: "js_val \<Rightarrow> js_obj \<Rightarrow> js_error + bool" where
  "needsRehash digest options =
     (case digest of
        Str _ \<Rightarrow>
          let opts = defaults ++ options in
          andThen (deserialize digest) (\<lambda>parsed.
          Inr (\<not> equals (get opts ''version'') (to_number (phc_version_or_first parsed)) \<or>
               \<not> equals (get opts ''memoryCost'') (to_number (param (phc_params parsed) ''m'')) \<or>
               \<not> equals (get opts ''timeCost'') (to_number (param (phc_params parsed) ''t'')) \<or>
               \<not> equals (get opts ''parallelism'') (to_number (param (phc_params parsed) ''p''))))
      | _ \<Rightarrow> Inl (TypeError ''digest must be a string.''))"

end
