(* ===== verification/Js_Props.thy ===== *)
theory Js_Props
  imports Js Api_Props
begin

text \<open>
  Facts on numbers, strings and Base64 of JavaScript that the proofs on \<^verbatim>\<open>phc.ts\<close> and \<^verbatim>\<open>index.ts\<close> share: safe
  integers are represented exactly and are read back from their decimal notation, splitting undoes joining,
  and the decoder of \<^verbatim>\<open>Buffer\<close> undoes RFC 4648.
\<close>

section \<open>Integers\<close>

lemma ilog2_int: "1 \<le> n \<Longrightarrow> n < 2 ^ 53 \<Longrightarrow> 0 \<le> ilog2 (of_int n) \<and> ilog2 (of_int n) \<le> 52"
proof -
  assume n: "1 \<le> n" "n < 2 ^ 53"
  have "bitlen n \<le> 53" using n by (simp add: bitlen_le_iff_power)
  moreover have "0 < bitlen n" using n bitlen_bounds [of n] by (simp add: bitlen_eq_zero_iff zero_less_mult_iff order_less_le bitlen_nonneg)
  ultimately show ?thesis using n by (simp add: ilog2_def)
qed

lemma half_even_int: "half_even (of_int n) = n"
  by (simp add: half_even_def)

lemma round_double_int: "\<bar>n\<bar> < 2 ^ 53 \<Longrightarrow> round_double (of_int n) = js_int n"
proof (cases "n = 0")
  case False
  assume n: "\<bar>n\<bar> < 2 ^ 53"
  define e where "e = ilog2 \<bar>of_int n\<bar> - 52"
  have e: "- 52 \<le> e" "e \<le> 0" using ilog2_int [of "\<bar>n\<bar>"] n False by (simp_all add: e_def)
  define k where "k = nat (- e)"
  have k: "e = - int k" using e by (simp add: k_def)
  have p: "2 powi e = 1 / (2 :: rat) ^ k" unfolding k by (simp add: power_int_minus divide_inverse)
  have m: "\<bar>of_int n\<bar> / 2 powi e = (of_int (\<bar>n\<bar> * 2 ^ k) :: rat)" by (simp add: p)
  have v: "of_int (half_even (\<bar>of_int n\<bar> / 2 powi e)) * 2 powi e = (of_int \<bar>n\<bar> :: rat)"
    unfolding m half_even_int by (simp add: p)
  have "of_int \<bar>n\<bar> < (2 :: rat) ^ 53" using n by (metis of_int_less_iff of_int_numeral of_int_power)
  also have "\<dots> \<le> 2 ^ 1024" by (rule power_increasing) simp_all
  finally have l: "\<not> (of_int \<bar>n\<bar> :: rat) \<ge> 2 ^ 1024" by simp
  have mx: "max (- 1074) (ilog2 \<bar>of_int n\<bar> - 52) = e" using e(1) by (simp add: e_def)
  have s: "sgn (of_int n) * (of_int \<bar>n\<bar> :: rat) = of_int n" by (simp add: sgn_if)
  show ?thesis
    unfolding round_double_def Let_def mx v using l False s by (simp add: js_int_def)
qed (simp add: round_double_def js_int_def)

lemma js_int_inject [simp]: "js_int a = js_int b \<longleftrightarrow> a = b" "js_int a \<noteq> JsNaN" "js_int a = JsFin 0 \<longleftrightarrow> a = 0"
  by (simp_all add: js_int_def)

lemma js_int_simps [simp]:
  "is_integer (js_int n)" "is_finite (js_int n)" "js_greater (js_int a) (js_int b) \<longleftrightarrow> a > b"
  "js_same (js_int a) (js_int b) \<longleftrightarrow> a = b" "js_negate (js_int n) = js_int (- n)"
  "is_safe_integer (js_int n) \<longleftrightarrow> \<bar>n\<bar> \<le> 9007199254740991" "js_greater (JsFin 0) (js_int n) \<longleftrightarrow> n < 0"
proof -
  have "\<bar>of_int n\<bar> \<le> (9007199254740991 :: rat) \<longleftrightarrow> \<bar>n\<bar> \<le> 9007199254740991"
    by (metis of_int_abs of_int_le_iff of_int_numeral)
  then show "is_safe_integer (js_int n) \<longleftrightarrow> \<bar>n\<bar> \<le> 9007199254740991" by (simp add: js_int_def is_safe_integer_def)
qed (simp_all add: js_int_def is_integer_def is_finite_def js_greater_def js_same_def js_negate_def)

section \<open>Characters\<close>

lemma widen_simps [simp]: "widen [] = []" "widen (c # s) = ucast c # widen s" "widen (s @ t) = widen s @ widen t"
  "length (widen s) = length s" "set (widen s) = ucast ` set s" "widen s = [] \<longleftrightarrow> s = []"
  by (simp_all add: widen_def)

lemma unat_widen: "unat (ucast (c :: u8) :: u16) = unat c"
  by (simp add: unsigned_ucast_eq take_bit_nat_eq_self order.strict_trans [OF unat_lt_u8])

lemma widen_inject [simp]: "widen s = widen t \<longleftrightarrow> s = t"
  unfolding widen_def by (rule inj_map_eq_map) (metis injI unat_widen word_unat_eq_iff)

lemma js_Nil [simp]: "js ''''= []" by (simp add: chars_def)

lemma js_Cons: "js (c # s) = of_char c # js s"
proof -
  have "(ucast (of_char c :: u8) :: u16) = of_char c"
    by (cases c) (simp add: of_char_def horner_sum_simps; code_simp)
  then show ?thesis by (simp add: chars_def)
qed

section \<open>Decimal notation\<close>

lemma is_dig_widen: "is_dig (ucast c) \<longleftrightarrow> digit c"
  by (simp add: is_dig_def digit_def word_le_nat_alt unat_widen)

lemma dval_widen: "dval (widen ds) = dec_value 0 ds"
  by (simp add: dval_def dec_value_def widen_def foldl_map unat_widen)

lemma digits_decimal: "list_all is_dig (widen (decimal n))" "dval (widen (decimal n)) = n" "widen (decimal n) \<noteq> []"
  by (auto simp: list_all_iff is_dig_widen decimal_digits dval_widen dec_value_decimal decimal_nonempty)

lemma take_digits: "list_all is_dig ds \<Longrightarrow> takeWhile is_dig ds = ds" "list_all is_dig ds \<Longrightarrow> dropWhile is_dig ds = []"
  by (simp_all add: takeWhile_eq_all_conv dropWhile_eq_Nil_conv list_all_iff)

lemma not_digits: "\<not> is_dig 45" "\<not> is_dig 43" "\<not> is_dig 46" "\<not> is_dig 44" "\<not> is_dig 61" "\<not> is_dig 36" "\<not> is_dig 73"
  "\<not> is_dig 118" "\<not> is_dig 120" "\<not> is_dig 88" "\<not> is_dig 111" "\<not> is_dig 79" "\<not> is_dig 98" "\<not> is_dig 66"
  by (simp_all add: is_dig_def)

lemma js_texts:
  "js ''0x'' = [48, 120]" "js ''0X'' = [48, 88]" "js ''0o'' = [48, 111]" "js ''0O'' = [48, 79]"
  "js ''0b'' = [48, 98]" "js ''0B'' = [48, 66]" "js ''Infinity'' = 73 # js ''nfinity''" "js ''-'' = [45]"
  "js ''0'' = [48]" "js ''='' = [61]" "js '','' = [44]" "js ''$'' = [36]" "js ''v='' = [118, 61]"
  by (simp_all only: js_Cons js_Nil) (simp_all add: of_char_def)

lemma round_double_nat: "n \<le> 9007199254740991 \<Longrightarrow> round_double (of_nat n) = js_int (int n)"
  using round_double_int [of "int n"] by simp

lemma decimal_literal_digits:
  assumes "list_all is_dig ds" "ds \<noteq> []" "dval ds \<le> 9007199254740991"
  shows "decimal_literal ds = js_int (int (dval ds))"
  unfolding decimal_literal_def take_digits [OF assms(1)] using assms(2,3) by (simp add: round_double_nat)

lemma signed_digits: "list_all is_dig ds \<Longrightarrow> signed ds = (False, ds)" "signed (45 # ds) = (True, ds)"
  by (cases ds) (auto simp: signed_def not_digits)

lemma signed_int_string:
  "signed (int_string n) = (n < 0, widen (decimal (nat \<bar>n\<bar>)))"
  by (simp add: int_string_def js_texts signed_digits digits_decimal)

lemma prefix_int_string:
  "\<not> is_dig d \<Longrightarrow> take 2 (int_string n) \<noteq> [48, d]"
proof
  assume d: "\<not> is_dig d" "take 2 (int_string n) = [48, d]"
  then have "\<not> n < 0" by (auto simp: int_string_def js_texts)
  then have "set (take 2 (int_string n)) \<subseteq> {c. is_dig c}"
    using digits_decimal(1) [of "nat n"] set_take_subset [of 2 "int_string n"]
    by (auto simp: int_string_def list_all_iff)
  then show False using d by simp
qed

lemma js_Number_int_string: "\<bar>n\<bar> \<le> 9007199254740991 \<Longrightarrow> js_Number (int_string n) = js_int n"
proof -
  assume n: "\<bar>n\<bar> \<le> 9007199254740991"
  define ds where "ds = widen (decimal (nat \<bar>n\<bar>))"
  have ds: "list_all is_dig ds" "ds \<noteq> []" "int (dval ds) = \<bar>n\<bar>" by (simp_all only: ds_def digits_decimal) simp_all
  have i: "ds \<noteq> js ''Infinity''"
  proof
    assume "ds = js ''Infinity''"
    then have "is_dig 73" using ds(1) unfolding js_texts by simp
    then show False by (simp add: not_digits)
  qed
  have "int_string n \<noteq> []" using ds(2) by (simp add: int_string_def ds_def)
  moreover have "decimal_literal ds = js_int \<bar>n\<bar>" using decimal_literal_digits [OF ds(1,2)] ds(3) n by simp
  ultimately show ?thesis
    unfolding js_Number_def signed_int_string ds_def [symmetric]
    using i n by (auto simp: js_texts(1-6) prefix_int_string not_digits Let_def)
qed

lemma js_parseInt_int_string: "\<bar>n\<bar> \<le> 9007199254740991 \<Longrightarrow> js_parseInt (int_string n) = js_int n"
proof -
  assume n: "\<bar>n\<bar> \<le> 9007199254740991"
  define ds where "ds = widen (decimal (nat \<bar>n\<bar>))"
  have ds: "list_all is_dig ds" "ds \<noteq> []" "int (dval ds) = \<bar>n\<bar>" by (simp_all only: ds_def digits_decimal) simp_all
  have "round_double (of_nat (dval ds)) = js_int \<bar>n\<bar>" using round_double_nat [of "dval ds"] ds(3) n by simp
  then show ?thesis
    unfolding js_parseInt_def signed_int_string ds_def [symmetric]
    using ds(2) n by (auto simp: Let_def take_digits [OF ds(1)])
qed

lemma number_string_int: "\<bar>n\<bar> \<le> 9007199254740991 \<Longrightarrow> number_string (js_int n) = int_string n"
proof -
  assume "\<bar>n\<bar> \<le> 9007199254740991"
  then have "is_safe_integer (js_int n)" by simp
  then show ?thesis by (simp add: number_string_def js_int_def)
qed

section \<open>Splitting and joining\<close>

lemma split_on_nonempty: "split_on d xs \<noteq> []"
  by (cases xs) auto

lemma split_on_append: "d \<notin> set w \<Longrightarrow> split_on d (w @ d # xs) = w # split_on d xs"
  by (induction w) auto

lemma split_on_word: "d \<notin> set w \<Longrightarrow> split_on d w = [w]"
  by (induction w) auto

lemma split_on_join: "ws \<noteq> [] \<Longrightarrow> \<forall>w \<in> set ws. d \<notin> set w \<Longrightarrow> split_on d (join [d] ws) = ws"
proof (induction "[d]" ws rule: join.induct)
  case (3 w v vs)
  then show ?case using split_on_append [of d w "join [d] (v # vs)"] by simp
qed (simp_all add: split_on_word)

lemma set_join: "set (join sep ws) \<subseteq> set sep \<union> \<Union> (set ` set ws)"
  by (induction sep ws rule: join.induct) auto

section \<open>Base64\<close>

lemma sextet_b64_char: "v < 64 \<Longrightarrow> sextet (ucast (b64_char v)) = Some v"
proof -
  assume v: "v < 64"
  then have n: "unat (ucast (b64_char v) :: u16) = b64_code v" by (simp add: unat_widen unat_b64_char)
  have "b64_code v \<noteq> 45" "b64_code v \<noteq> 95" using v by (auto simp: b64_code_def)
  then show ?thesis using v by (simp add: sextet_def n b64_value_code)
qed

lemma map_filter_Cons: "List.map_filter f (x # xs) =
    (case f x of None \<Rightarrow> List.map_filter f xs | Some y \<Rightarrow> y # List.map_filter f xs)"
  by (simp add: List.map_filter_simps)

lemma from_base64_string_b64: "from_base64_string (widen (b64 bs)) = bs"
  unfolding from_base64_string_def
proof (induction bs rule: b64.induct)
  case (2 a)
  then show ?case using regroup(1) [of a 0]
    by (simp add: map_filter_Cons List.map_filter_simps(2) sextet_b64_char byte_bounds flip: of_nat_add of_nat_mult)
next
  case (3 a b)
  then show ?case using regroup(1) [of a b] regroup(4) [of a b]
    by (simp add: map_filter_Cons List.map_filter_simps(2) sextet_b64_char byte_bounds flip: of_nat_add of_nat_mult)
next
  case (4 a b c bs)
  then show ?case using regroup(1) [of a b] regroup(2) [of a b c] regroup(3) [of b c]
    by (simp add: map_filter_Cons sextet_b64_char byte_bounds flip: of_nat_add of_nat_mult)
qed (simp add: List.map_filter_simps)

lemma b64_char_range: "v < 64 \<Longrightarrow> c = (ucast (b64_char v) :: u16) \<Longrightarrow>
  65 \<le> c \<and> c \<le> 90 \<or> 97 \<le> c \<and> c \<le> 122 \<or> 48 \<le> c \<and> c \<le> 57 \<or> c = 43 \<or> c = 47"
proof -
  assume v: "v < 64" "c = (ucast (b64_char v) :: u16)"
  then have "unat c = b64_code v" by (simp add: unat_widen unat_b64_char)
  then show ?thesis using v(1) by (auto simp: b64_code_def word_le_nat_alt word_unat_eq_iff split: if_splits)
qed

lemma b64_chars_image: "set (b64 bs) \<subseteq> b64_char ` {..<64}"
  by (induction bs rule: b64.induct) (simp_all add: byte_bounds)

lemma b64_string_range: "c \<in> set (widen (b64 bs)) \<Longrightarrow>
  65 \<le> c \<and> c \<le> 90 \<or> 97 \<le> c \<and> c \<le> 122 \<or> 48 \<le> c \<and> c \<le> 57 \<or> c = 43 \<or> c = 47"
  using b64_chars_image [of bs] b64_char_range [of _ c] by auto

end
