(* ===== verification/Phc_Props.thy ===== *)
theory Phc_Props
  imports Phc Js_Props
begin

text \<open>
  \<^verbatim>\<open>phc.ts\<close>: what \<^verbatim>\<open>serialize\<close> writes, \<^verbatim>\<open>deserialize\<close> reads back.
\<close>

section \<open>Fields\<close>

text \<open>None of the separators is in one of the classes of characters.\<close>

lemma class_chars:
  "\<not> in_class ''-'' 36" "\<not> in_class ''-'' 44" "\<not> in_class ''-'' 61"
  "\<not> (upper 36 \<or> in_class ''/+.-'' 36)" "\<not> (upper 44 \<or> in_class ''/+.-'' 44)" "\<not> (upper 61 \<or> in_class ''/+.-'' 61)"
  by (simp_all add: in_class_def upper_def chars_def of_char_def)

lemma regex_chars:
  "idRegex s \<Longrightarrow> 36 \<notin> set s"
  "nameRegex s \<Longrightarrow> 36 \<notin> set s \<and> 44 \<notin> set s \<and> 61 \<notin> set s"
  "valueRegex s \<Longrightarrow> 36 \<notin> set s \<and> 44 \<notin> set s \<and> 61 \<notin> set s"
  "b64Regex s \<Longrightarrow> 61 \<notin> set s"
  using class_chars by (auto simp: idRegex_def nameRegex_def valueRegex_def b64Regex_def list_all_iff)

lemma padded_base64_eq: "\<exists>k. padded_base64 bs = widen (b64 bs) @ replicate k 61"
proof (induction bs rule: b64.induct)
  case (2 a)
  show ?case by (rule exI [of _ 2]) (simp add: numeral_2_eq_2)
next
  case (3 a b)
  show ?case by (rule exI [of _ 1]) simp
next
  case (4 a b c bs)
  then show ?case by auto
qed simp

lemma b64_separators: "36 \<notin> set (widen (b64 bs))" "61 \<notin> set (widen (b64 bs))"
  using b64_string_range [of 36 bs] b64_string_range [of 61 bs] by auto

lemma dropWhile_none: "\<forall>c \<in> set xs. \<not> P c \<Longrightarrow> dropWhile P xs = xs"
  by (cases xs) auto

lemma toB64_eq: "toB64 bs = widen (b64 bs)"
proof -
  obtain k where k: "padded_base64 bs = widen (b64 bs) @ replicate k 61" using padded_base64_eq by blast
  have "dropWhile (\<lambda>c. c = 61) (replicate k 61 @ rev (widen (b64 bs))) = dropWhile (\<lambda>c. c = 61) (rev (widen (b64 bs)))"
    by (induction k) simp_all
  also have "\<dots> = rev (widen (b64 bs))"
    by (rule dropWhile_none) (use b64_separators(2) [of bs] in \<open>simp only: set_rev, blast\<close>)
  finally show ?thesis by (simp add: toB64_def k)
qed

lemma b64Regex_b64: "b64Regex (widen (b64 bs))"
  using b64_string_range [of _ bs]
  by (fastforce simp: b64Regex_def list_all_iff in_class_def upper_def chars_def of_char_def)

lemma versionRegex_b64: "versionRegex (widen (b64 bs)) = None"
  using b64_separators(2) [of bs] set_take_subset [of 2 "widen (b64 bs)"]
  by (auto simp: versionRegex_def js_texts)

section \<open>Integers\<close>

lemma safe_integerE:
  assumes "is_safe_integer x"
  obtains n where "x = js_int n" "\<bar>n\<bar> \<le> 9007199254740991"
proof -
  from assms obtain n where "x = JsFin (of_int n)" by (auto simp: is_safe_integer_def split: js_number.splits)
  then have "x = js_int n" by (simp add: js_int_def)
  then show thesis using assms that js_int_simps(6) by metis
qed

lemma decimal_chars: "c \<in> set (int_string n) \<Longrightarrow> c = 45 \<or> is_dig c"
  using digits_decimal(1) [of "nat \<bar>n\<bar>"] by (auto simp: int_string_def js_texts list_all_iff split: if_splits)

lemma valueRegex_int_string: "valueRegex (int_string n)"
proof -
  have "int_string n \<noteq> []" by (simp add: int_string_def decimal_nonempty)
  moreover have "upper c \<or> in_class ''/+.-'' c" if "c \<in> set (int_string n)" for c
    using decimal_chars [OF that] by (auto simp: in_class_def is_dig_def chars_def of_char_def)
  ultimately show ?thesis by (simp add: valueRegex_def list_all_iff)
qed

lemma decimalRegex_int_string: "decimalRegex (int_string n)"
proof (cases "n = 0")
  case False
  define ds where "ds = widen (decimal (nat \<bar>n\<bar>))"
  obtain c r where ds: "ds = c # r" using digits_decimal(3) [of "nat \<bar>n\<bar>"] by (metis ds_def list.exhaust)
  have l: "list_all is_dig (c # r)" using digits_decimal(1) ds by (metis ds_def)
  have "c \<noteq> 48"
  proof
    assume "c = 48"
    then have "hd (decimal (nat \<bar>n\<bar>)) = 48"
      using ds by (cases "decimal (nat \<bar>n\<bar>)") (auto simp: ds_def widen_def word_unat_eq_iff unat_widen)
    then show False using hd_decimal False by fastforce
  qed
  then have c: "49 \<le> c \<and> c \<le> 57" using l by (simp add: is_dig_def) unat_arith
  have "c \<noteq> 45" using c by (auto simp: word_le_nat_alt)
  then show ?thesis using l c by (simp add: decimalRegex_def int_string_def js_texts ds_def [symmetric] ds)
qed (simp add: decimalRegex_def int_string_def decimal_0 js_texts)

lemma param_value_int: "\<bar>n\<bar> \<le> 9007199254740991 \<Longrightarrow> param_value (int_string n) = P_number (js_int n)"
  by (simp add: param_value_def decimalRegex_int_string js_Number_int_string js_parseInt_int_string)

lemma versionRegex_version:
  assumes "0 \<le> n"
  shows "versionRegex (js ''v='' @ int_string n) = Some (int_string n)"
  using assms digits_decimal [of "nat n"] by (simp add: versionRegex_def int_string_def js_texts)

section \<open>The text of an object\<close>

type_synonym texts = "js_string js_params"

definition param_text :: "js_string \<times> js_string \<Rightarrow> js_string" where
  "param_text p = fst p @ 61 # snd p"

definition params_text :: "texts \<Rightarrow> js_string" where
  "params_text ps = join [44] (map param_text ps)"

definition opt_list :: "'a option \<Rightarrow> 'a list" where
  "opt_list x = (case x of None \<Rightarrow> [] | Some y \<Rightarrow> [y])"

lemma opt_list_simps [simp]: "opt_list None = []" "opt_list (Some y) = [y]" "length (opt_list x) \<le> 1"
  by (simp_all add: opt_list_def split: option.split)

definition phc_fields :: "js_string \<Rightarrow> int option \<Rightarrow> texts option \<Rightarrow> u8 list option \<Rightarrow> u8 list option \<Rightarrow> js_string list" where
  "phc_fields name ver ps s h = name # opt_list (map_option (\<lambda>n. js ''v='' @ int_string n) ver) @
     opt_list (map_option params_text ps) @ opt_list (map_option (widen \<circ> b64) s) @ opt_list (map_option (widen \<circ> b64) h)"

definition phc_string :: "js_string \<Rightarrow> int option \<Rightarrow> texts option \<Rightarrow> u8 list option \<Rightarrow> u8 list option \<Rightarrow> js_string" where
  "phc_string name ver ps s h = join [36] ([] # phc_fields name ver ps s h)"

text \<open>The versions that are written and read exactly.\<close>

definition version_ok :: "int option \<Rightarrow> bool" where
  "version_ok ver \<longleftrightarrow> (\<forall>n. ver = Some n \<longrightarrow> 0 \<le> n \<and> n \<le> 9007199254740991)"

section \<open>Serialisation\<close>

text \<open>The text of a parameter's value.\<close>

definition text_of :: "js_val \<Rightarrow> js_string" where
  "text_of v = (case v of Num x \<Rightarrow> number_string x | Buf b \<Rightarrow> widen (b64 b) | Str s \<Rightarrow> s | _ \<Rightarrow> [])"

definition value_ok :: "js_string \<times> js_val \<Rightarrow> bool" where
  "value_ok p \<longleftrightarrow> nameRegex (fst p) \<and> valueRegex (text_of (snd p))"

lemma serialize_param_eq: "value_ok p \<Longrightarrow> serialize_param p = Inr (param_text (apsnd text_of p))"
  by (cases p; cases "snd p")
    (auto simp: serialize_param_def value_ok_def text_of_def param_text_def toB64_eq js_texts valueRegex_def)

lemma serialize_params_eq:
  "list_all value_ok ps \<Longrightarrow> serialize_params ps = Inr (map (param_text \<circ> apsnd text_of) ps)"
  by (induction ps) (simp_all add: serialize_param_eq)

lemma serialize_eq:
  assumes "idRegex name" "version_ok ver" "\<forall>ps. vs = Some ps \<longrightarrow> list_all value_ok ps" "h \<noteq> None \<longrightarrow> s \<noteq> None"
  shows "serialize \<lparr>in_id = Str name, in_version = (case ver of None \<Rightarrow> Undefined | Some n \<Rightarrow> Num (js_int n)),
      in_params = (case vs of None \<Rightarrow> No_params | Some ps \<Rightarrow> Params ps), in_salt = (case s of None \<Rightarrow> Undefined | Some b \<Rightarrow> Buf b),
      in_hash = (case h of None \<Rightarrow> Undefined | Some b \<Rightarrow> Buf b)\<rparr> =
    Inr (phc_string name ver (map_option (map (apsnd text_of)) vs) s h)"
proof -
  have "number_string (js_int n) = int_string n \<and> \<not> n < 0" if "ver = Some n" for n
    using assms(2) that by (simp add: version_ok_def number_string_int)
  then show ?thesis
    using assms(1,3,4) by (cases ver; cases vs; cases s; cases h)
      (simp_all add: serialize_def phc_string_def phc_fields_def toB64_eq serialize_params_eq params_text_def js_texts)
qed

section \<open>Deserialisation\<close>

text \<open>Parameters that are read, each with its value.\<close>

definition text_ok :: "js_string \<times> js_string \<Rightarrow> bool" where
  "text_ok p \<longleftrightarrow> nameRegex (fst p) \<and> fst p \<notin> set inherited \<and> valueRegex (snd p)"

definition add_all :: "'v js_params \<Rightarrow> 'v js_params \<Rightarrow> 'v js_params" where
  "add_all obj ps = foldl (\<lambda>obj (name, v). add_property obj name v) obj ps"

definition texts_ok :: "int option \<Rightarrow> texts \<Rightarrow> bool" where
  "texts_ok ver ps \<longleftrightarrow> ps \<noteq> [] \<and> list_all text_ok ps \<and> distinct (map fst ps) \<and> (ver = None \<longrightarrow> fst (hd ps) \<noteq> js ''v'')"

lemma param_text_chars: "text_ok p \<Longrightarrow> 36 \<notin> set (param_text p) \<and> 44 \<notin> set (param_text p)"
  using regex_chars(2) [of "fst p"] regex_chars(3) [of "snd p"] by (auto simp: param_text_def text_ok_def)

lemma params_text_chars:
  assumes "texts_ok ver ps"
  shows "36 \<notin> set (params_text ps)" "61 \<in> set (params_text ps)" "split_on 44 (params_text ps) = map param_text ps"
proof -
  note ps = assms [unfolded texts_ok_def]
  show "36 \<notin> set (params_text ps)"
    using ps set_join [of "[44]" "map param_text ps"] param_text_chars by (auto simp: params_text_def list_all_iff)
  show "61 \<in> set (params_text ps)"
    using ps by (cases ps rule: remdups_adj.cases) (simp_all add: params_text_def param_text_def)
  show "split_on 44 (params_text ps) = map param_text ps"
    unfolding params_text_def using ps param_text_chars by (intro split_on_join) (auto simp: list_all_iff)
qed

lemma deserialize_param_eq:
  assumes "text_ok p" "fst p \<notin> fst ` set obj"
  shows "deserialize_param obj (param_text p) = Inr (add_property obj (fst p) (param_value (snd p)))"
proof -
  note n = assms(1) [unfolded text_ok_def]
  have "split_on 61 (param_text p) = [fst p, snd p]"
    using n regex_chars(2) [of "fst p"] regex_chars(3) [of "snd p"] by (simp add: param_text_def split_on_append split_on_word)
  then show ?thesis using n assms(2) by (simp add: deserialize_param_def has_property_def)
qed

lemma set_add_property: "set (add_property obj name v) = insert (name, v) (set obj)"
proof -
  have "set (takeWhile P xs) \<union> set (dropWhile P xs) = set xs" for P and xs :: "(js_string \<times> 'a) list"
    by (metis set_append takeWhile_dropWhile_id)
  then show ?thesis by (simp add: add_property_def)
qed

lemma deserialize_params_eq:
  "list_all text_ok ps \<Longrightarrow> distinct (map fst ps) \<Longrightarrow> fst ` set obj \<inter> fst ` set ps = {} \<Longrightarrow>
    deserialize_params obj (map param_text ps) = Inr (add_all obj (map (apsnd param_value) ps))"
proof (induction ps arbitrary: obj)
  case (Cons p ps)
  have "fst p \<notin> fst ` set obj" using Cons.prems(3) by auto
  moreover have "fst ` set (add_property obj (fst p) (param_value (snd p))) \<inter> fst ` set ps = {}"
    using Cons.prems by (auto simp: set_add_property)
  ultimately show ?case
    using Cons by (simp add: deserialize_param_eq add_all_def case_prod_unfold)
qed (simp add: add_all_def)

lemma versionRegex_params:
  assumes "texts_ok None ps"
  shows "versionRegex (params_text ps) = None"
proof -
  note ps0 = assms [unfolded texts_ok_def]
  obtain p r where ps: "params_text ps = fst p @ 61 # r" "p = hd ps" "text_ok p"
    using ps0 by (cases ps rule: remdups_adj.cases) (simp_all add: params_text_def param_text_def)
  have n: "fst p \<noteq> []" "61 \<notin> set (fst p)" using ps(3) regex_chars(2) by (auto simp: text_ok_def nameRegex_def)
  have "take 2 (params_text ps) \<noteq> [118, 61]"
    using n ps0 ps(2) unfolding ps(1) by (cases "fst p" rule: remdups_adj.cases) (auto simp: js_Cons of_char_def)
  then show ?thesis by (simp add: versionRegex_def js_texts)
qed

text \<open>The fields from salt on.\<close>

lemma take_bytes_eq:
  assumes "h \<noteq> None \<longrightarrow> s \<noteq> None" "fs = [] \<or> \<not> b64Regex (last fs)"
  shows "take_bytes (fs @ opt_list (map_option (widen \<circ> b64) s) @ opt_list (map_option (widen \<circ> b64) h)) = (fs, s, h)"
proof -
  have "fs \<noteq> [] \<Longrightarrow> (fs @ [y]) ! (length fs - Suc 0) = last fs" for y by (simp add: nth_append last_conv_nth)
  moreover have "butlast (fs @ [y, z]) = fs @ [y]" for y z by (simp add: butlast_append)
  ultimately show ?thesis
    using assms by (cases "fs = []"; cases s; cases h)
      (auto simp: take_bytes_def b64Regex_b64 from_base64_string_b64 nth_append)
qed

lemma split_phc_string:
  assumes "idRegex name" "\<forall>ps. pts = Some ps \<longrightarrow> texts_ok ver ps"
  shows "tl (split_on 36 (phc_string name ver pts s h)) = phc_fields name ver pts s h"
proof -
  have i: "36 \<notin> set (int_string n)" "36 \<notin> set (js ''v='')" for n
    using decimal_chars [of 36 n] not_digits(6) by (auto simp: js_texts)
  have "\<forall>w \<in> set ([] # phc_fields name ver pts s h). 36 \<notin> set w"
    using assms i b64_separators(1) params_text_chars(1) regex_chars(1)
    by (auto simp: phc_fields_def opt_list_def split: option.splits simp del: widen_simps)
  then show ?thesis using split_on_join [of "[] # phc_fields name ver pts s h" 36] by (simp add: phc_string_def)
qed

lemma join_fields: "fs \<noteq> [] \<Longrightarrow> join [36] ([] # fs) = 36 # join [36] fs"
  by (cases fs) simp_all

lemma deserialize_eq:
  assumes "idRegex name" "version_ok ver" "\<forall>ps. pts = Some ps \<longrightarrow> texts_ok ver ps" "h \<noteq> None \<longrightarrow> s \<noteq> None"
  shows "deserialize (Str (phc_string name ver pts s h)) =
    Inr \<lparr>phc_id = name, phc_version = map_option js_int ver,
      phc_params = map_option (\<lambda>ps. add_all [] (map (apsnd param_value) ps)) pts, phc_salt = s, phc_hash = h\<rparr>"
proof -
  define fs where "fs = opt_list (map_option params_text pts) @ opt_list (map_option (widen \<circ> b64) s) @
    opt_list (map_option (widen \<circ> b64) h)"
  have nb: "\<not> b64Regex (params_text ps)" if "texts_ok ver ps" for ps
    using params_text_chars(2) [OF that] regex_chars(4) by blast
  have tb: "take_bytes fs = (opt_list (map_option params_text pts), s, h)"
    unfolding fs_def by (rule take_bytes_eq) (use assms(3,4) nb in \<open>auto simp: opt_list_def split: option.split\<close>)
  have dp: "deserialize_params [] (split_on 44 (params_text ps)) = Inr (add_all [] (map (apsnd param_value) ps))"
    if "pts = Some ps" for ps
    using assms(3) [rule_format, OF that] deserialize_params_eq [of ps "[]"] params_text_chars(3) [OF assms(3) [rule_format, OF that]]
    by (simp add: texts_ok_def)
  have F: "phc_fields name ver pts s h = name # map (\<lambda>n. js ''v='' @ int_string n) (opt_list ver) @ fs"
    by (cases ver) (simp_all add: phc_fields_def fs_def)
  have hd_fs: "versionRegex (hd fs) = None" if "ver = None" "fs \<noteq> []"
    using that assms(3,4)
    by (cases pts; cases s; cases h) (auto simp: fs_def versionRegex_b64 versionRegex_params)
  have len: "length fs \<le> 3" by (cases pts; cases s; cases h) (simp_all add: fs_def)
  define S where "S = phc_string name ver pts s h"
  have S: "S \<noteq> []" "hd S = 36" "tl (split_on 36 S) = phc_fields name ver pts s h"
    using split_phc_string [OF assms(1,3), of s h] by (simp_all only: S_def) (simp_all add: phc_string_def join_fields F)
  show ?thesis
  proof (cases ver)
    case None
    have "length (phc_fields name ver pts s h) \<le> 4"
      "\<not> (length (phc_fields name ver pts s h) > 1 \<and> versionRegex (phc_fields name ver pts s h ! 1) \<noteq> None)"
      using len hd_fs F None by (cases fs; simp)+
    moreover have "(case fs of f # r \<Rightarrow> (case versionRegex f of Some ds \<Rightarrow> (Some (js_parseInt ds), r) | None \<Rightarrow> (None, fs))
        | [] \<Rightarrow> (None, [])) = (None, fs)"
      using hd_fs None by (cases fs) simp_all
    ultimately show ?thesis
      unfolding S_def [symmetric] using S F None assms(1) tb dp
      by (cases pts) (simp_all add: deserialize_def Let_def)
  next
    case (Some n)
    have v: "versionRegex (js ''v='' @ int_string n) = Some (int_string n)" "js_parseInt (int_string n) = js_int n"
      using assms(2) Some by (auto simp: version_ok_def intro!: versionRegex_version js_parseInt_int_string)
    show ?thesis
      unfolding S_def [symmetric] using S F len Some assms(1) tb dp v
      by (cases pts) (simp_all add: deserialize_def Let_def del: widen_simps)
  qed
qed

section \<open>Objects that are written and read back\<close>

definition value_of :: "phc_value \<Rightarrow> js_val" where
  "value_of v = (case v of P_string s \<Rightarrow> Str s | P_number x \<Rightarrow> Num x)"

text \<open>The input of \<^verbatim>\<open>serialize\<close> that has the contents of a parsed object.\<close>

definition input_of :: "phc_object \<Rightarrow> phc_input" where
  "input_of x =
     \<lparr>in_id = Str (phc_id x), in_version = (case phc_version x of None \<Rightarrow> Undefined | Some v \<Rightarrow> Num v),
      in_params = (case phc_params x of None \<Rightarrow> No_params | Some ps \<Rightarrow> Params (map (apsnd value_of) ps)),
      in_salt = (case phc_salt x of None \<Rightarrow> Undefined | Some b \<Rightarrow> Buf b),
      in_hash = (case phc_hash x of None \<Rightarrow> Undefined | Some b \<Rightarrow> Buf b)\<rparr>"

text \<open>The objects that have a string: a name and a value are those that the regular expressions admit; a
  string that would be read as a number, and a number that is not a safe integer, is not a value. Names are
  different from each other and from the inherited ones, and in the order of \<^verbatim>\<open>Object.keys\<close>. Without
  a version, the first parameter must not look like one.\<close>

definition param_ok :: "js_string \<times> phc_value \<Rightarrow> bool" where
  "param_ok p \<longleftrightarrow> nameRegex (fst p) \<and> fst p \<notin> set inherited \<and>
     (case snd p of P_number x \<Rightarrow> is_safe_integer x | P_string s \<Rightarrow> valueRegex s \<and> param_value s = P_string s)"

definition expressible :: "phc_object \<Rightarrow> bool" where
  "expressible x \<longleftrightarrow> idRegex (phc_id x) \<and>
     (case phc_version x of None \<Rightarrow> True | Some v \<Rightarrow> is_safe_integer v \<and> \<not> js_greater (JsFin 0) v) \<and>
     (case phc_params x of None \<Rightarrow> True | Some ps \<Rightarrow> ps \<noteq> [] \<and> list_all param_ok ps \<and> distinct (map fst ps) \<and>
        add_all [] ps = ps \<and> (phc_version x = None \<longrightarrow> fst (hd ps) \<noteq> js ''v'')) \<and>
     (phc_hash x \<noteq> None \<longrightarrow> phc_salt x \<noteq> None)"

lemma param_ok_value:
  "param_ok p \<Longrightarrow> value_ok (apsnd value_of p) \<and> text_ok (apsnd (text_of \<circ> value_of) p) \<and>
    param_value (text_of (value_of (snd p))) = snd p"
  by (cases p) (auto simp: param_ok_def value_ok_def text_ok_def text_of_def value_of_def valueRegex_int_string
      number_string_int param_value_int elim!: safe_integerE split: phc_value.splits)

lemma expressible_eq:
  assumes "expressible x"
  obtains s where "serialize (input_of x) = Inr s" "deserialize (Str s) = Inr x"
proof -
  obtain ver where ver: "phc_version x = map_option js_int ver" "version_ok ver"
  proof (cases "phc_version x")
    case None
    then show thesis using that [of None] by (simp add: version_ok_def)
  next
    case (Some v)
    then obtain n where "v = js_int n" "0 \<le> n" "n \<le> 9007199254740991"
      using assms by (auto simp: expressible_def elim!: safe_integerE)
    then show thesis using that [of "Some n"] Some by (simp add: version_ok_def)
  qed
  define vs where "vs = map_option (map (apsnd value_of)) (phc_params x)"
  define pts where "pts = map_option (map (apsnd text_of)) vs"
  have ps: "list_all param_ok ps \<and> ps \<noteq> [] \<and> distinct (map fst ps) \<and> add_all [] ps = ps \<and>
      (ver = None \<longrightarrow> fst (hd ps) \<noteq> js ''v'')" if "phc_params x = Some ps" for ps
    using assms that ver(1) by (simp add: expressible_def)
  have h: "idRegex (phc_id x)" "phc_hash x \<noteq> None \<longrightarrow> phc_salt x \<noteq> None"
    using assms by (simp_all add: expressible_def)
  have vs: "\<forall>qs. vs = Some qs \<longrightarrow> list_all value_ok qs"
    using ps param_ok_value by (fastforce simp: vs_def list_all_iff)
  have pts: "\<forall>qs. pts = Some qs \<longrightarrow> texts_ok ver qs"
    using ps param_ok_value
    by (auto simp: pts_def vs_def texts_ok_def list_all_iff comp_def apsnd_compose hd_map)
  have "map (apsnd param_value) (map (apsnd text_of) (map (apsnd value_of) qs)) = qs" if "phc_params x = Some qs" for qs
    using ps [OF that] param_ok_value by (auto simp: list_all_iff intro!: map_idI prod_eqI)
  then have vals: "map_option (\<lambda>ps. add_all [] (map (apsnd param_value) ps)) pts = phc_params x"
    using ps by (cases "phc_params x") (simp_all add: pts_def vs_def)
  have i: "input_of x = \<lparr>in_id = Str (phc_id x), in_version = (case ver of None \<Rightarrow> Undefined | Some n \<Rightarrow> Num (js_int n)),
      in_params = (case vs of None \<Rightarrow> No_params | Some ps \<Rightarrow> Params ps),
      in_salt = (case phc_salt x of None \<Rightarrow> Undefined | Some b \<Rightarrow> Buf b),
      in_hash = (case phc_hash x of None \<Rightarrow> Undefined | Some b \<Rightarrow> Buf b)\<rparr>"
    unfolding input_of_def by (cases ver; cases "phc_params x") (simp_all add: ver(1) vs_def)
  show thesis
    using that serialize_eq [OF h(1) ver(2) vs h(2)] deserialize_eq [OF h(1) ver(2) pts h(2)]
    unfolding i pts_def [symmetric] vals ver(1) [symmetric] by simp
qed

section \<open>The property\<close>

text \<open>C10: what \<^verbatim>\<open>serialize\<close> writes for an object, \<^verbatim>\<open>deserialize\<close> reads back: identifier, version, parameters with
  their names, types and order, salt and hash. It holds for the objects that
  \<open>expressible\<close> describes, which leaves out the empty object of parameters (its empty field would be read as
  an empty salt), a string that looks like a number, a parameter with an inherited name and, without a
  version, a first parameter \<^verbatim>\<open>v\<close>.\<close>

theorem phc_roundtrip:
  assumes "expressible x"
  shows "\<exists>s. serialize (input_of x) = Inr s \<and> deserialize (Str s) = Inr x"
  using expressible_eq [OF assms] by blast

definition demo_phc :: phc_object where
  "demo_phc = \<lparr>phc_id = js ''argon2id'', phc_version = Some (js_int 19),
     phc_params = Some [(js ''m'', P_number (js_int 65536)), (js ''data'', P_string (js ''aGk''))],
     phc_salt = Some (replicate 16 7), phc_hash = Some [1, 2, 3, 4]\<rparr>"

lemma demo_phc_texts: "nameRegex (js ''m'')" "js ''m'' \<notin> set inherited" "nameRegex (js ''data'')" "js ''data'' \<notin> set inherited"
  "valueRegex (js ''aGk'')" "\<not> decimalRegex (js ''aGk'')" "\<not> is_index (js ''m'')" "\<not> is_index (js ''data'')"
  "idRegex (js ''argon2id'')" "js ''m'' \<noteq> js ''data''" "js ''m'' \<noteq> js ''v''"
  by code_simp+

lemma demo_phc_expressible: "expressible demo_phc"
  using demo_phc_texts
  by (simp add: expressible_def demo_phc_def param_ok_def param_value_def add_all_def add_property_def del: widen_simps)

theorem phc_roundtrip_witness:
  "\<exists>s. serialize (input_of demo_phc) = Inr s \<and> deserialize (Str s) = Inr demo_phc"
  by (rule phc_roundtrip [OF demo_phc_expressible])

end
