(* ===== verification/Package_Props.thy ===== *)
theory Package_Props
  imports Package Phc_Props Addon_Props
begin

text \<open>
  What a caller of the package gets: \<^verbatim>\<open>hash\<close> writes the digest of RFC 9106, \<^verbatim>\<open>verify\<close> decides whether a
  password belongs to it and never starts the addon beyond its limits, and \<^verbatim>\<open>needsRehash\<close> compares the costs.
\<close>

section \<open>The directory of the compiled addon\<close>

text \<open>When the parents of a directory end in a root, which is its own parent, the search ends, with the nearest of
  them that holds \<^verbatim>\<open>build\<close> or \<^verbatim>\<open>prebuilds\<close>, or else with the start.\<close>

definition holds_addon :: "(js_string \<Rightarrow> bool) \<Rightarrow> (js_string \<Rightarrow> js_string \<Rightarrow> js_string) \<Rightarrow> js_string \<Rightarrow> bool" where
  "holds_addon existsSync path_join dir \<longleftrightarrow>
     existsSync (path_join dir (js ''build'')) \<or> existsSync (path_join dir (js ''prebuilds''))"

lemma find_replicate: "find P (replicate (Suc k) x) = (if P x then Some x else None)"
  by (induction k) auto

lemma resolve_from_eq:
  assumes "dirname ((dirname ^^ n) dir) = (dirname ^^ n) dir"
  shows "resolve_from existsSync path_join dirname start dir =
    Some (case find (holds_addon existsSync path_join) (map (\<lambda>i. (dirname ^^ i) dir) [0..<Suc n]) of
      None \<Rightarrow> start | Some d \<Rightarrow> d)"
  using assms
proof (induction n arbitrary: dir)
  case 0
  then show ?case by (subst resolve_from.simps) (simp add: holds_addon_def)
next
  case (Suc n)
  have parents: "map (\<lambda>i. (dirname ^^ i) dir) [0..<Suc (Suc n)] = dir # map (\<lambda>i. (dirname ^^ i) (dirname dir)) [0..<Suc n]"
    by (subst upt_conv_Cons) (simp_all add: map_Suc_upt [symmetric] comp_def funpow_swap1 del: upt_Suc)
  show ?case
  proof (cases "dirname dir = dir")
    case True
    then have "(dirname ^^ i) dir = dir" for i by (induction i) simp_all
    then have "find (holds_addon existsSync path_join) (map (\<lambda>i. (dirname ^^ i) dir) [0..<Suc (Suc n)]) =
        (if holds_addon existsSync path_join dir then Some dir else None)"
      using find_replicate [of "holds_addon existsSync path_join" "Suc n" dir]
      by (simp add: map_replicate_const del: upt_Suc find.simps replicate.simps)
    then show ?thesis
      using True by (subst resolve_from.simps) (simp add: holds_addon_def del: upt_Suc)
  next
    case False
    have "resolve_from existsSync path_join dirname start (dirname dir) =
        Some (case find (holds_addon existsSync path_join) (map (\<lambda>i. (dirname ^^ i) (dirname dir)) [0..<Suc n]) of
          None \<Rightarrow> start | Some d \<Rightarrow> d)"
      using Suc.prems by (intro Suc.IH) (simp add: funpow_swap1)
    then show ?thesis
      unfolding parents using False by (subst resolve_from.simps) (simp add: holds_addon_def Let_def del: upt_Suc)
  qed
qed

lemma resolveNativeRoot_ends:
  "dirname ((dirname ^^ n) start) = (dirname ^^ n) start \<Longrightarrow>
    \<exists>d. resolveNativeRoot existsSync path_join dirname start = Some d \<and> (d = start \<or> holds_addon existsSync path_join d)"
  unfolding resolveNativeRoot_def using resolve_from_eq [of dirname n start existsSync path_join start]
  by (auto simp: find_Some_iff simp del: upt_Suc split: option.splits)

section \<open>Options of the raw functions\<close>

text \<open>What the code relies on of \<^verbatim>\<open>Uint32Value\<close>: a number that is a 32-bit integer is converted to itself.\<close>

definition converts :: "(js_number \<Rightarrow> u32) \<Rightarrow> bool" where
  "converts u \<longleftrightarrow> (\<forall>n. 0 \<le> n \<and> n < 2 ^ 32 \<longrightarrow> u (js_int n) = word_of_int n)"

abbreviation num :: "u32 \<Rightarrow> js_number" where "num w \<equiv> js_int (uint w)"

text \<open>The request that options make.\<close>

definition describes :: "js_obj \<Rightarrow> CommonArgs \<Rightarrow> bool" where
  "describes params c \<longleftrightarrow> get params ''password'' = Buf (arg_password c) \<and> get params ''salt'' = Buf (arg_salt c) \<and>
     get params ''m'' = Num (num (arg_m c)) \<and> get params ''t'' = Num (num (arg_t c)) \<and> get params ''p'' = Num (num (arg_p c)) \<and>
     nullish (get params ''version'') (Num (js_int 19)) = Num (num (arg_version c)) \<and>
     nullish (get params ''type'') (Num (js_int argon2id)) = Num (num (arg_type c)) \<and>
     nullish (get params ''secret'') (Buf []) = Buf (arg_secret c) \<and>
     nullish (get params ''data'') (Buf []) = Buf (arg_data c)"

definition request_ok :: "CommonArgs \<Rightarrow> bool" where
  "request_ok c \<longleftrightarrow> 8 \<le> length (arg_salt c) \<and> 8 * uint (arg_p c) \<le> uint (arg_m c) \<and> 1 \<le> uint (arg_t c) \<and>
     1 \<le> uint (arg_p c) \<and> uint (arg_p c) < 2 ^ 24 \<and> uint (arg_version c) \<in> {0x10, 0x13} \<and> uint (arg_type c) \<in> {0, 1, 2}"

lemma validateInteger_int:
  "validateInteger (Num (js_int n)) name lo hi = Inr x \<longleftrightarrow> lo \<le> n \<and> n \<le> hi"
  by (auto simp: validateInteger_def)

lemma andThen_Inr: "andThen r f = Inr y \<longleftrightarrow> (\<exists>x. r = Inr x \<and> f x = Inr y)"
  by (cases r) (simp_all add: andThen_def)

lemma throw_unless_Inr: "throw_unless b e = Inr x \<longleftrightarrow> b"
  by (simp add: throw_unless_def)

lemma below_eight_times_int: "below_eight_times (Num (js_int m)) (Num (js_int p)) \<longleftrightarrow> m < 8 * p"
proof -
  have "8 * of_int p = (of_int (8 * p) :: rat)" by simp
  then show ?thesis
    unfolding below_eight_times_def js_int_def js_greater_def by (simp only: js_val.case js_number.case prod.case of_int_less_iff)
qed

lemma get_simps [simp]: "get Map.empty n = Undefined" "get (x(a \<mapsto> v)) n = (if n = a then v else get x n)"
  by (simp_all add: get_def)

lemma applyDefaults_eq:
  assumes "describes params c"
  shows "applyDefaultsAndValidate params = Inr y \<longleftrightarrow> request_ok c \<and>
    y = params(''secret'' \<mapsto> Buf (arg_secret c), ''data'' \<mapsto> Buf (arg_data c), ''version'' \<mapsto> Num (num (arg_version c)),
      ''type'' \<mapsto> Num (num (arg_type c)))"
proof -
  note d = assms [unfolded describes_def argon2id_def]
  have u: "uint w \<le> 4294967295" for w :: u32 using uint_lt2p [of w] by simp
  have b: "validateBuffer (Buf z) n = Inr x" "byteLength (Buf z) = length z"
    "equals (Num (js_int i)) (js_int j) \<longleftrightarrow> i = j" for z n i j x
    by (simp_all add: validateBuffer_def byteLength_def equals_def)
  have "applyDefaultsAndValidate params = Inr y \<longleftrightarrow>
      (8 \<le> length (arg_salt c) \<and> 8 \<le> uint (arg_m c) \<and> 1 \<le> uint (arg_t c) \<and> 1 \<le> uint (arg_p c) \<and> uint (arg_p c) \<le> 16777215 \<and>
       \<not> uint (arg_m c) < 8 * uint (arg_p c) \<and> (uint (arg_version c) = 16 \<or> uint (arg_version c) = 19) \<and>
       (uint (arg_type c) = 0 \<or> uint (arg_type c) = 1 \<or> uint (arg_type c) = 2)) \<and>
      params(''secret'' \<mapsto> Buf (arg_secret c), ''data'' \<mapsto> Buf (arg_data c), ''version'' \<mapsto> Num (num (arg_version c)),
        ''type'' \<mapsto> Num (num (arg_type c))) = y"
    unfolding applyDefaultsAndValidate_def Let_def
    by (simp only: d andThen_Inr throw_unless_Inr validateInteger_int below_eight_times_int b argon2d_def argon2i_def
        argon2id_def simp_thms ex_simps not_less conj_assoc u sum.inject unit_eq)
  then show ?thesis by (auto simp: request_ok_def)
qed

section \<open>The raw functions\<close>

abbreviation passed_on :: "js_obj \<Rightarrow> CommonArgs \<Rightarrow> js_obj" where
  "passed_on params c \<equiv> params(''secret'' \<mapsto> Buf (arg_secret c), ''data'' \<mapsto> Buf (arg_data c),
     ''version'' \<mapsto> Num (num (arg_version c)), ''type'' \<mapsto> Num (num (arg_type c)))"

lemma converts_num: "converts u \<Longrightarrow> u (num w) = w"
proof -
  assume "converts u"
  moreover have "0 \<le> uint w" "uint w < 2 ^ 32" using uint_lt2p [of w] by simp_all
  ultimately show ?thesis by (simp add: converts_def)
qed

lemma extract_passed_on:
  assumes "describes params c" "converts u"
  shows "ExtractCommonArgs u (native_object ((passed_on params c)(''hashLength'' \<mapsto> v))) = Some c"
    "ExtractCommonArgs u (native_object ((passed_on params c)(''expectedHash'' \<mapsto> v))) = Some c"
  using assms(1) [unfolded describes_def] converts_num [OF assms(2)]
  by (simp_all add: ExtractCommonArgs_def GetBuffer_def GetUint32_def native_object_def)

lemma uint_int: "uint w = int (unat w)"
  by simp

lemma request_common_ok:
  assumes "request_ok c" "length (arg_salt c) < 2 ^ 32"
  shows "common_ok c n \<longleftrightarrow> 4 \<le> n"
proof -
  define m t p where "m = unat (arg_m c)" and "t = unat (arg_t c)" and "p = unat (arg_p c)"
  have y: "arg_type c \<in> {0, 1, 2}"
    using assms(1) by (auto simp: request_ok_def word_uint_eq_iff [of "arg_type c"])
  have "8 \<le> length (arg_salt c) \<and> 8 * int p \<le> int m \<and> 1 \<le> int t \<and> 1 \<le> int p \<and> int p < 2 ^ 24"
    using assms(1) unfolding request_ok_def uint_int m_def t_def p_def by blast
  then have "8 \<le> length (arg_salt c) \<and> 8 * p \<le> m \<and> 1 \<le> t \<and> 1 \<le> p \<and> p < 2 ^ 24" by auto
  moreover have "supported (to_type (arg_type c))" using y by (auto simp: to_type_def supported_def)
  ultimately show ?thesis using assms(2) by (simp add: common_ok_def m_def t_def p_def)
qed

definition buffers_small :: "CommonArgs \<Rightarrow> bool" where
  "buffers_small c \<longleftrightarrow> length (arg_password c) < 2 ^ 32 \<and> length (arg_salt c) < 2 ^ 32 \<and>
     length (arg_secret c) < 2 ^ 32 \<and> length (arg_data c) < 2 ^ 32"

text \<open>The tag of a request.\<close>

definition tag_of :: "CommonArgs \<Rightarrow> nat \<Rightarrow> u8 list" where
  "tag_of c n = rfc_argon2 (to_type (arg_type c)) (unat (arg_version c)) (unat (arg_p c)) n (unat (arg_m c)) (unat (arg_t c))
     (arg_password c) (arg_salt c) (arg_secret c) (arg_data c)"

lemma common_tag_small: "buffers_small c \<Longrightarrow> common_tag c n = tag_of c n"
  by (simp add: buffers_small_def common_tag_def tag_of_def)

lemma hashRaw_eq:
  assumes "memalign_ok ae" "env_ok (ae_core ae)" "converts u" "describes params c" "buffers_small c"
    "get params ''hashLength'' = Num (num L)"
  shows "(\<exists>e. fst (hashRaw ae u params) = Inl e) \<and> \<not> (request_ok c \<and> 4 \<le> unat L \<and> resources ae (arg_p c)) \<or>
    fst (hashRaw ae u params) = Inr (Buf (tag_of c (unat L))) \<and> request_ok c \<and> 4 \<le> unat L"
proof (cases "request_ok c \<and> 4 \<le> unat L")
  case False
  have "4 \<le> uint L \<longleftrightarrow> 4 \<le> unat L" unfolding uint_int by linarith
  then have "\<nexists>y. andThen (applyDefaultsAndValidate params) (\<lambda>baseOptions.
      andThen (validateInteger (get params ''hashLength'') ''hashLength'' 4 4294967295) (\<lambda>_.
      Inr (baseOptions(''hashLength'' \<mapsto> get params ''hashLength'')))) = Inr y"
    using False by (auto simp: andThen_Inr applyDefaults_eq [OF assms(4)] assms(6) validateInteger_int)
  then show ?thesis using False by (auto simp: hashRaw_def split: sum.split)
next
  case True
  have "4 \<le> n \<Longrightarrow> n < 2 ^ 32 \<Longrightarrow> 4 \<le> int n \<and> int n \<le> 4294967295" for n by simp
  then have v: "validateInteger (Num (num L)) ''hashLength'' 4 4294967295 = Inr ()"
    using True unat_lt_u32 [of L] unfolding validateInteger_int uint_int by blast
  have a: "applyDefaultsAndValidate params = Inr (passed_on params c)" using True applyDefaults_eq [OF assms(4)] by blast
  have L: "GetUint32 u (native_object ((passed_on params c)(''hashLength'' \<mapsto> Num (num L)))) ''hashLength'' = Some L"
    by (simp add: GetUint32_def native_object_def converts_num [OF assms(3)])
  obtain w calls w' calls' where h: "new_HashWorker ae c L = (w, calls)" "HashWorker_Execute ae w = (w', calls')"
    "w_error w' = None \<longrightarrow> common_ok c (unat L) \<and> w_hash w' = common_tag c (unat L)"
    "common_ok c (unat L) \<and> resources ae (arg_p c) \<longrightarrow> w_error w' = None"
    using Hash_worker [OF assms(1,2), of c L] by metis
  have ok: "common_ok c (unat L)" using True request_common_ok assms(5) by (simp add: buffers_small_def)
  have "fst (hashRaw ae u params) = settled (HashWorker_result w')"
    by (simp add: hashRaw_def a assms(6) v Hash_def extract_passed_on [OF assms(4,3)] L h(1,2) del: fun_upd_apply)
  then show ?thesis
    using True ok h(3,4) by (cases "w_error w'") (simp_all add: HashWorker_result_def settled_def common_tag_small [OF assms(5)])
qed

lemma verifyRaw_eq:
  assumes "memalign_ok ae" "env_ok (ae_core ae)" "converts u" "describes params c" "buffers_small c"
    "get params ''expectedHash'' = Buf E" "length E < 2 ^ 32"
  shows "(\<exists>e. fst (verifyRaw ae u params) = Inl e) \<and> \<not> (request_ok c \<and> 4 \<le> length E \<and> resources ae (arg_p c)) \<or>
    fst (verifyRaw ae u params) = Inr (Bool (E = tag_of c (length E))) \<and> request_ok c \<and> 4 \<le> length E"
proof (cases "request_ok c \<and> 4 \<le> length E")
  case False
  have "\<nexists>y. andThen (validateBuffer (get params ''expectedHash'') ''expectedHash'') (\<lambda>_.
      andThen (throw_unless (\<not> byteLength (get params ''expectedHash'') < 4)
        (RangeError ''expectedHash must be at least 4 bytes long.'')) (\<lambda>_.
      andThen (applyDefaultsAndValidate params) (\<lambda>baseOptions.
      Inr (baseOptions(''expectedHash'' \<mapsto> get params ''expectedHash''))))) = Inr y"
    using False
    by (auto simp del: andThen_simps simp: andThen_Inr throw_unless_Inr applyDefaults_eq [OF assms(4)] assms(6)
        validateBuffer_def byteLength_def)
  then show ?thesis using False by (auto simp: verifyRaw_def split: sum.split)
next
  case True
  have a: "applyDefaultsAndValidate params = Inr (passed_on params c)" using True applyDefaults_eq [OF assms(4)] by blast
  have E: "GetBuffer (native_object ((passed_on params c)(''expectedHash'' \<mapsto> Buf E))) ''expectedHash'' = Some E"
    by (simp add: GetBuffer_def native_object_def)
  obtain w calls w' calls' where h: "new_VerifyWorker ae c E = (w, calls)" "VerifyWorker_Execute ae w = (w', calls')"
    "w_error w' = None \<longrightarrow> common_ok c (length E) \<and> w_match w' = (E = common_tag c (length E))"
    "common_ok c (length E) \<and> resources ae (arg_p c) \<longrightarrow> w_error w' = None"
    using Verify_worker [OF assms(1,2), of c E] assms(7) by metis
  have ok: "common_ok c (length E)" using True request_common_ok assms(5) by (simp add: buffers_small_def)
  have "fst (verifyRaw ae u params) = settled (VerifyWorker_result w')"
    using True
    by (simp add: verifyRaw_def a assms(6) validateBuffer_def byteLength_def Verify_def extract_passed_on [OF assms(4,3)] E h(1,2)
        del: fun_upd_apply)
  then show ?thesis
    using True ok h(3,4) by (cases "w_error w'") (simp_all add: VerifyWorker_result_def settled_def common_tag_small [OF assms(5)])
qed

section \<open>Digests\<close>

definition type_name :: "CommonArgs \<Rightarrow> string" where
  "type_name c = the (argon2_type2string (to_type (arg_type c)) 0)"

definition cost_texts :: "CommonArgs \<Rightarrow> texts" where
  "cost_texts c = [(js ''m'', int_string (uint (arg_m c))), (js ''t'', int_string (uint (arg_t c))),
     (js ''p'', int_string (uint (arg_p c)))] @
     (if arg_data c = [] then [] else [(js ''data'', widen (b64 (arg_data c)))])"

text \<open>The digest of a request with its tag.\<close>

definition digest :: "CommonArgs \<Rightarrow> u8 list \<Rightarrow> js_string" where
  "digest c tag = phc_string (js (type_name c)) (Some (uint (arg_version c))) (Some (cost_texts c)) (Some (arg_salt c)) (Some tag)"

lemma uint_safe: "\<bar>uint (w :: u32)\<bar> \<le> 9007199254740991" "uint w \<le> 9007199254740991"
proof -
  show "uint w \<le> 9007199254740991" using uint_lt2p [of w] by simp
  then show "\<bar>uint w\<bar> \<le> 9007199254740991" using uint_ge_0 [of w] by linarith
qed

lemma int_string_decimal: "int_string (uint w) = widen (decimal (unat w))"
proof -
  have "\<not> uint w < 0" "nat \<bar>uint w\<bar> = unat w" by (simp_all add: not_less)
  then show ?thesis by (simp add: int_string_def del: nat_uint_eq)
qed

lemma digest_phc:
  "arg_data c = [] \<Longrightarrow> digest c tag =
    widen (phc (to_type (arg_type c)) (Some (arg_version c)) (arg_m c) (arg_t c) (arg_p c) (arg_salt c) tag)"
  by (simp add: digest_def phc_string_def phc_fields_def cost_texts_def type_name_def params_text_def param_text_def
      int_string_decimal phc_def Encoding_Props.phc_params_def js_Cons chars_def of_char_def)

lemma cost_names:
  "nameRegex (js ''m'')" "nameRegex (js ''t'')" "nameRegex (js ''p'')" "nameRegex (js ''data'')"
  "js ''m'' \<notin> set inherited" "js ''t'' \<notin> set inherited" "js ''p'' \<notin> set inherited" "js ''data'' \<notin> set inherited"
  "\<not> is_index (js ''m'')" "\<not> is_index (js ''t'')" "\<not> is_index (js ''p'')" "\<not> is_index (js ''data'')"
  "js ''m'' \<noteq> js ''t''" "js ''m'' \<noteq> js ''p''" "js ''m'' \<noteq> js ''data''" "js ''t'' \<noteq> js ''p''"
  "js ''t'' \<noteq> js ''data''" "js ''p'' \<noteq> js ''data''"
  by code_simp+

lemma type_names:
  "idRegex (js ''argon2d'')" "idRegex (js ''argon2i'')" "idRegex (js ''argon2id'')"
  "js ''argon2d'' \<noteq> js ''argon2i''" "js ''argon2d'' \<noteq> js ''argon2id''" "js ''argon2i'' \<noteq> js ''argon2id''"
  by code_simp+

lemma type_name_ok:
  assumes "request_ok c"
  shows "idRegex (js (type_name c))" "names (Num (num (arg_type c))) = Str (js (type_name c))"
    "types (js (type_name c)) = Num (num (arg_type c))"
proof -
  consider "arg_type c = 0" | "arg_type c = 1" | "arg_type c = 2"
    using assms by (auto simp: request_ok_def word_uint_eq_iff [of "arg_type c"])
  then show "idRegex (js (type_name c))" "names (Num (num (arg_type c))) = Str (js (type_name c))"
    "types (js (type_name c)) = Num (num (arg_type c))"
    using type_names
    by (cases; simp add: type_name_def to_type_def argon2_type2string_def names_def types_def argon2d_def argon2i_def
        argon2id_def del: widen_inject)+
qed

lemma valueRegex_b64: "bs \<noteq> [] \<Longrightarrow> valueRegex (widen (b64 bs))"
  using b64Regex_b64 [of bs] by (cases bs rule: b64.cases) (simp_all add: valueRegex_def b64Regex_def)

lemma request_version: "request_ok c \<Longrightarrow> version_ok (Some (uint (arg_version c)))"
  by (auto simp: request_ok_def version_ok_def)

lemma cost_texts_ok: "texts_ok (Some v) (cost_texts c)"
  using cost_names by (simp add: texts_ok_def cost_texts_def text_ok_def valueRegex_int_string valueRegex_b64 del: widen_inject)

lemma serialize_digest:
  assumes "request_ok c"
  shows "serialize \<lparr>in_id = Str (js (type_name c)), in_version = Num (num (arg_version c)),
      in_params = Params ([(js ''m'', Num (num (arg_m c))), (js ''t'', Num (num (arg_t c))), (js ''p'', Num (num (arg_p c)))] @
        (if arg_data c = [] then [] else [(js ''data'', Buf (arg_data c))])),
      in_salt = Buf (arg_salt c), in_hash = Buf tag\<rparr> = Inr (digest c tag)"
proof -
  define vs where "vs = [(js ''m'', Num (num (arg_m c))), (js ''t'', Num (num (arg_t c))), (js ''p'', Num (num (arg_p c)))] @
    (if arg_data c = [] then [] else [(js ''data'', Buf (arg_data c))])"
  have n: "number_string (num w) = int_string (uint w)" for w :: u32 by (rule number_string_int [OF uint_safe(1)])
  have "list_all value_ok vs"
    using cost_names by (simp add: vs_def value_ok_def text_of_def n valueRegex_int_string valueRegex_b64)
  moreover have "map (apsnd text_of) vs = cost_texts c" by (simp add: vs_def cost_texts_def text_of_def n)
  ultimately show ?thesis
    using serialize_eq [OF type_name_ok(1) [OF assms] request_version [OF assms], of "Some vs" "Some tag" "Some (arg_salt c)"]
    by (simp add: digest_def vs_def)
qed

lemma add_all_names: "\<forall>p \<in> set ps. \<not> is_index (fst p) \<Longrightarrow> add_all obj ps = obj @ ps"
  by (induction ps arbitrary: obj) (auto simp: add_all_def add_property_def)

lemma deserialize_digest:
  assumes "request_ok c"
  shows "deserialize (Str (digest c tag)) = Inr \<lparr>phc_id = js (type_name c), phc_version = Some (num (arg_version c)),
      phc_params = Some (map (apsnd param_value) (cost_texts c)), phc_salt = Some (arg_salt c), phc_hash = Some tag\<rparr>"
proof -
  have "add_all [] (map (apsnd param_value) (cost_texts c)) = map (apsnd param_value) (cost_texts c)"
    using cost_names add_all_names [of "map (apsnd param_value) (cost_texts c)" "[]"] by (simp add: cost_texts_def)
  then show ?thesis
    using deserialize_eq [OF type_name_ok(1) [OF assms] request_version [OF assms], of "Some (cost_texts c)" "Some tag" "Some (arg_salt c)"]
      cost_texts_ok by (simp add: digest_def)
qed

text \<open>The parameters as \<^verbatim>\<open>verify\<close> and \<^verbatim>\<open>needsRehash\<close> see them.\<close>

definition read_data :: "u8 list \<Rightarrow> u8 list" where
  "read_data d = (if d = [] then [] else case param_value (widen (b64 d)) of P_string s \<Rightarrow> d | P_number x \<Rightarrow> [])"

lemma param_digest:
  fixes c :: CommonArgs
  defines "P \<equiv> Some (map (apsnd param_value) (cost_texts c))"
  shows "param P ''m'' = Num (num (arg_m c))" "param P ''t'' = Num (num (arg_t c))" "param P ''p'' = Num (num (arg_p c))"
    "nullish (case param P ''data'' of Str s \<Rightarrow> Buf (from_base64_string s) | _ \<Rightarrow> Undefined) (Buf []) = Buf (read_data (arg_data c))"
proof -
  have v: "param_value (int_string (uint w)) = P_number (num w)" for w :: u32 by (rule param_value_int [OF uint_safe(1)])
  show "param P ''m'' = Num (num (arg_m c))" "param P ''t'' = Num (num (arg_t c))" "param P ''p'' = Num (num (arg_p c))"
    using cost_names(13-18) by (simp_all add: P_def param_def cost_texts_def v not_sym del: widen_inject)
  have s: "param_value s = P_string s' \<Longrightarrow> s' = s" for s s' by (simp add: param_value_def split: if_splits)
  show "nullish (case param P ''data'' of Str s \<Rightarrow> Buf (from_base64_string s) | _ \<Rightarrow> Undefined) (Buf []) = Buf (read_data (arg_data c))"
    using cost_names(13-18)
    by (auto dest!: s simp: P_def param_def cost_texts_def read_data_def nullish_def from_base64_string_b64 simp del: widen_inject
        split: phc_value.split)
qed

section \<open>Hashing\<close>

text \<open>The request that the options of \<^verbatim>\<open>hash\<close>, completed by the defaults, make of a password and a salt.\<close>

definition requested :: "js_obj \<Rightarrow> js_val \<Rightarrow> u8 list \<Rightarrow> CommonArgs \<Rightarrow> u32 \<Rightarrow> bool" where
  "requested opts password salt c L \<longleftrightarrow> fst (toPasswordBuffer password) = Buf (arg_password c) \<and> salt = arg_salt c \<and>
     get opts ''memoryCost'' = Num (num (arg_m c)) \<and> get opts ''timeCost'' = Num (num (arg_t c)) \<and>
     get opts ''parallelism'' = Num (num (arg_p c)) \<and> get opts ''hashLength'' = Num (num L) \<and>
     get opts ''version'' = Num (num (arg_version c)) \<and> get opts ''type'' = Num (num (arg_type c)) \<and>
     nullish (get opts ''secret'') (Buf []) = Buf (arg_secret c) \<and>
     (case get opts ''associatedData'' of Undefined \<Rightarrow> arg_data c = [] | Buf b \<Rightarrow> b = arg_data c | _ \<Rightarrow> False)"

definition salt_source :: "(js_val \<Rightarrow> js_error + u8 list) \<Rightarrow> js_obj \<Rightarrow> u8 list \<Rightarrow> bool" where
  "salt_source randomBytes opts salt \<longleftrightarrow>
     (if get opts ''salt'' = Undefined \<or> get opts ''salt'' = Null then randomBytes (get opts ''saltLength'') = Inr salt
      else get opts ''salt'' = Buf salt)"

lemma get_map_add: "get (a ++ b) n = (case b n of None \<Rightarrow> get a n | Some v \<Rightarrow> v)"
  by (simp add: get_def map_add_def split: option.split)

lemma hash_eq:
  assumes "memalign_ok ae" "env_ok (ae_core ae)" "converts u" "buffers_small c"
    and "requested (defaults ++ options) password salt c L" "salt_source randomBytes (defaults ++ options) salt"
    and "\<not> truthy (get options ''raw'')"
  shows "((\<exists>e. fst (hash ae u randomBytes password options) = Inl e) \<and> \<not> (request_ok c \<and> 4 \<le> unat L \<and> resources ae (arg_p c)) \<or>
      fst (hash ae u randomBytes password options) = Inr (Str (digest c (tag_of c (unat L)))) \<and> request_ok c \<and> 4 \<le> unat L) \<and>
    fst (snd (hash ae u randomBytes password options)) =
      Some (case password of Str s \<Rightarrow> Buf (replicate (length (arg_password c)) 0) | _ \<Rightarrow> password)"
proof -
  define opts where "opts = defaults ++ options"
  note r = assms(5) [folded opts_def, unfolded requested_def]
  define raw where "raw = [''password'' \<mapsto> fst (toPasswordBuffer password), ''salt'' \<mapsto> Buf salt, ''m'' \<mapsto> get opts ''memoryCost'',
    ''t'' \<mapsto> get opts ''timeCost'', ''p'' \<mapsto> get opts ''parallelism'', ''hashLength'' \<mapsto> get opts ''hashLength'',
    ''version'' \<mapsto> get opts ''version'', ''type'' \<mapsto> get opts ''type''] ++
    optional ''secret'' (get opts ''secret'') ++ optional ''data'' (get opts ''associatedData'')"
  have d: "describes raw c"
    using r by (auto simp: describes_def raw_def get_map_add optional_def nullish_def split: js_val.splits)
  have L: "get raw ''hashLength'' = Num (num L)" using r by (simp add: raw_def get_map_add optional_def)
  have s: "(if get opts ''salt'' = Undefined \<or> get opts ''salt'' = Null
      then map_sum id Buf (randomBytes (get opts ''saltLength'')) else Inr (get opts ''salt'')) = Inr (Buf salt)"
    using assms(6) [folded opts_def] by (auto simp: salt_source_def split: if_splits)
  have data: "has_data (get opts ''associatedData'') = Inr (arg_data c \<noteq> [])"
    "(if arg_data c \<noteq> [] then [(js ''data'', get opts ''associatedData'')] else []) =
      (if arg_data c = [] then [] else [(js ''data'', Buf (arg_data c))])"
    using r by (auto simp: has_data_def byteLength_def split: js_val.splits)
  have call: "fst (hash ae u randomBytes password options) = andThen (fst (hashRaw ae u raw)) (\<lambda>rawHash.
      if truthy (get options ''raw'') then Inr rawHash
      else andThen (has_data (get opts ''associatedData'')) (\<lambda>data.
        map_sum id Str (serialize \<lparr>in_id = names (get opts ''type''), in_version = get opts ''version'',
          in_params = Params ([(js ''m'', get opts ''memoryCost''), (js ''t'', get opts ''timeCost''),
            (js ''p'', get opts ''parallelism'')] @ (if data then [(js ''data'', get opts ''associatedData'')] else [])),
          in_salt = Buf salt, in_hash = rawHash\<rparr>)))"
    by (simp add: hash_def opts_def [symmetric] s case_prod_unfold raw_def [symmetric] Let_def cong: if_cong)
  have f: "fst (hash ae u randomBytes password options) = andThen (fst (hashRaw ae u raw)) (\<lambda>rawHash.
      map_sum id Str (serialize \<lparr>in_id = names (Num (num (arg_type c))), in_version = Num (num (arg_version c)),
        in_params = Params ([(js ''m'', Num (num (arg_m c))), (js ''t'', Num (num (arg_t c))), (js ''p'', Num (num (arg_p c)))] @
          (if arg_data c = [] then [] else [(js ''data'', Buf (arg_data c))])), in_salt = Buf (arg_salt c), in_hash = rawHash\<rparr>))"
    using r assms(7) data(2) unfolding call by (simp add: data(1))
  have b: "fst (snd (hash ae u randomBytes password options)) =
      Some (case password of Str s \<Rightarrow> Buf (replicate (length (arg_password c)) 0) | _ \<Rightarrow> password)"
    using r by (simp add: hash_def opts_def [symmetric] s case_prod_unfold Let_def)
      (auto simp: toPasswordBuffer_def fill_zero_def split: js_val.split)
  have "request_ok c \<Longrightarrow> names (Num (num (arg_type c))) = Str (js (type_name c))" by (rule type_name_ok(2))
  then show ?thesis
    using hashRaw_eq [OF assms(1-3) d assms(4) L] serialize_digest [of c "tag_of c (unat L)"]
    by (auto simp: f b)
qed

lemma length_tag: "4 \<le> n \<Longrightarrow> length (tag_of c n) = n"
  by (simp add: tag_of_def rfc_argon2_def rfc_tag_def Let_def)

section \<open>Verification\<close>

definition within_limits :: "js_obj \<Rightarrow> js_number \<Rightarrow> js_number \<Rightarrow> js_number \<Rightarrow> bool" where
  "within_limits limits m t p \<longleftrightarrow> \<not> js_greater m (to_number (get limits ''memoryCost'')) \<and>
     \<not> js_greater t (to_number (get limits ''timeCost'')) \<and> \<not> js_greater p (to_number (get limits ''parallelism''))"

lemma verify_digest_eq:
  assumes "memalign_ok ae" "env_ok (ae_core ae)" "converts u"
    and "request_ok c" "buffers_small c" "4 \<le> length E" "length E < 2 ^ 32"
    and "fst (toPasswordBuffer password) = Buf P" "length P < 2 ^ 32"
    and "nullish (vo_secret vo) (Buf []) = Buf S" "length S < 2 ^ 32"
    and "within_limits (defaultVerifyLimits ++ vo_limits vo) (num (arg_m c)) (num (arg_t c)) (num (arg_p c))"
  shows "(\<exists>e. fst (verify ae u (Str (digest c E)) password vo) = Inl e) \<and> \<not> resources ae (arg_p c) \<or>
    fst (verify ae u (Str (digest c E)) password vo) = Inr (Bool (E =
      tag_of (c\<lparr>arg_password := P, arg_secret := S, arg_data := read_data (arg_data c)\<rparr>) (length E)))"
proof -
  define c' where "c' = c\<lparr>arg_password := P, arg_secret := S, arg_data := read_data (arg_data c)\<rparr>"
  define pars where "pars = Some (map (apsnd param_value) (cost_texts c))"
  define data where "data = (case param pars ''data'' of Str s \<Rightarrow> Buf (from_base64_string s) | _ \<Rightarrow> Undefined)"
  note par = param_digest [of c, folded pars_def, folded data_def]
  define raw where "raw = [''password'' \<mapsto> fst (toPasswordBuffer password), ''salt'' \<mapsto> Buf (arg_salt c), ''m'' \<mapsto> Num (num (arg_m c)),
    ''t'' \<mapsto> Num (num (arg_t c)), ''p'' \<mapsto> Num (num (arg_p c)), ''expectedHash'' \<mapsto> Buf E,
    ''version'' \<mapsto> Num (num (arg_version c)), ''type'' \<mapsto> Num (num (arg_type c))] ++
    optional ''secret'' (vo_secret vo) ++ optional ''data'' data"
  have d: "describes raw c'"
    using assms(8,10) par(4) by (auto simp: describes_def raw_def c'_def get_map_add optional_def nullish_def split: if_splits)
  have E: "get raw ''expectedHash'' = Buf E" by (simp add: raw_def get_map_add optional_def)
  have "length (read_data (arg_data c)) < 2 ^ 32"
    using assms(5) by (simp add: buffers_small_def read_data_def split: phc_value.split)
  then have small: "buffers_small c'" using assms(5,9,11) by (simp add: buffers_small_def c'_def)
  have ok: "request_ok c'" using assms(4) by (simp add: request_ok_def c'_def)
  have v: "fst (verify ae u (Str (digest c E)) password vo) = fst (verifyRaw ae u raw)"
    using assms(12) unfolding within_limits_def
    by (simp add: verify_def deserialize_digest [OF assms(4)] type_name_ok(3) [OF assms(4)] par(1-3) pars_def [symmetric]
        data_def [symmetric] raw_def [symmetric] to_number_def phc_version_or_first_def case_prod_unfold Let_def)
  show ?thesis
    using verifyRaw_eq [OF assms(1-3) d small E assms(7)] ok assms(6) unfolding v c'_def [symmetric] by (auto simp: c'_def)
qed

lemma verify_digest_limits:
  assumes "request_ok c"
    and "\<not> within_limits (defaultVerifyLimits ++ vo_limits vo) (num (arg_m c)) (num (arg_t c)) (num (arg_p c))"
  shows "\<exists>message. fst (verify ae u (Str (digest c E)) password vo) = Inl (RangeError message)"
  using assms(2) unfolding within_limits_def
  by (auto simp: verify_def deserialize_digest [OF assms(1)] type_name_ok(3) [OF assms(1)] param_digest(1-3)
      to_number_def Let_def)

lemma validateInteger_Inr:
  "validateInteger v name lo hi = Inr x \<Longrightarrow> \<exists>n. v = Num (js_int n) \<and> lo \<le> n \<and> n \<le> hi"
proof -
  assume a: "validateInteger v name lo hi = Inr x"
  then obtain y where y: "v = Num y" "is_integer y" by (auto simp: validateInteger_def split: js_val.splits if_splits)
  then obtain n where "y = js_int n" by (auto simp: is_integer_def js_int_def split: js_number.splits)
  then show ?thesis using a y(1) validateInteger_int by auto
qed

lemma applyDefaults_Inr:
  assumes "applyDefaultsAndValidate params = Inr y"
  obtains m t p where "get params ''m'' = Num (js_int m)" "get params ''t'' = Num (js_int t)" "get params ''p'' = Num (js_int p)"
    "8 * p \<le> m" "1 \<le> t" "1 \<le> p"
proof -
  obtain m t p where "get params ''m'' = Num (js_int m)" "get params ''t'' = Num (js_int t)" "get params ''p'' = Num (js_int p)"
    "1 \<le> t" "1 \<le> p" "\<not> below_eight_times (get params ''m'') (get params ''p'')"
    using assms unfolding applyDefaultsAndValidate_def
    by (auto simp del: andThen_simps simp: andThen_Inr throw_unless_Inr dest!: validateInteger_Inr)
  then show thesis using that by (simp add: below_eight_times_int)
qed

lemma verifyRaw_active:
  assumes "verifyRaw ae u params = (r, calls)" "calls \<noteq> [] \<or> r = Inr (Bool True)"
  shows "\<exists>y. applyDefaultsAndValidate params = Inr y"
  using assms by (cases "applyDefaultsAndValidate params") (auto simp: verifyRaw_def andThen_Inr split: sum.splits if_splits)

text \<open>The way of \<^verbatim>\<open>verify\<close> to the addon.\<close>

lemma verify_reaches_addon:
  assumes v: "verify ae u d password vo = (r, b, calls)" "calls \<noteq> [] \<or> r = Inr (Bool True)"
  shows "\<exists>x params y. deserialize d = Inr x \<and> applyDefaultsAndValidate params = Inr y \<and>
    get params ''m'' = Num (to_number (param (phc_params x) ''m'')) \<and> get params ''t'' = Num (to_number (param (phc_params x) ''t'')) \<and>
    get params ''p'' = Num (to_number (param (phc_params x) ''p'')) \<and>
    within_limits (defaultVerifyLimits ++ vo_limits vo) (to_number (param (phc_params x) ''m''))
      (to_number (param (phc_params x) ''t'')) (to_number (param (phc_params x) ''p''))"
proof -
  obtain x where x: "deserialize d = Inr x" "\<exists>s. d = Str s"
    using v by (cases d; cases "deserialize d") (auto simp: verify_def)
  have ty: "types (phc_id x) \<noteq> Undefined" by (rule ccontr) (use v x in \<open>auto simp: verify_def\<close>)
  obtain salt E where f: "phc_salt x = Some salt" "phc_hash x = Some E"
    using v x ty by (cases "phc_salt x"; cases "phc_hash x") (auto simp: verify_def Let_def)
  define m t p where "m = to_number (param (phc_params x) ''m'')" and "t = to_number (param (phc_params x) ''t'')"
    and "p = to_number (param (phc_params x) ''p'')"
  note def = m_def [symmetric] t_def [symmetric] p_def [symmetric]
  have fin: "is_finite m \<and> is_finite t \<and> is_finite p"
    by (rule ccontr) (use v x ty f in \<open>auto simp: verify_def Let_def def\<close>)
  have lim: "within_limits (defaultVerifyLimits ++ vo_limits vo) m t p"
    by (rule ccontr) (use v x ty f fin in \<open>auto simp: verify_def Let_def def within_limits_def split: if_splits\<close>)
  define data where "data = (case param (phc_params x) ''data'' of Str s \<Rightarrow> Buf (from_base64_string s) | _ \<Rightarrow> Undefined)"
  define raw where "raw = [''password'' \<mapsto> fst (toPasswordBuffer password), ''salt'' \<mapsto> Buf salt, ''m'' \<mapsto> Num m, ''t'' \<mapsto> Num t,
    ''p'' \<mapsto> Num p, ''expectedHash'' \<mapsto> Buf E, ''version'' \<mapsto> phc_version_or_first x, ''type'' \<mapsto> types (phc_id x)] ++
    optional ''secret'' (vo_secret vo) ++ optional ''data'' data"
  have "verifyRaw ae u raw = (r, calls)"
    using v(1) x ty f fin lim unfolding within_limits_def
    by (auto simp: verify_def Let_def def raw_def [symmetric] data_def [symmetric] case_prod_unfold prod_eq_iff)
  then obtain y where "applyDefaultsAndValidate raw = Inr y" using verifyRaw_active v(2) by blast
  moreover have "get raw ''m'' = Num m" "get raw ''t'' = Num t" "get raw ''p'' = Num p"
    by (simp_all add: raw_def get_map_add optional_def)
  ultimately show ?thesis using x(1) lim unfolding m_def t_def p_def by blast
qed

lemma hash_digest:
  assumes "memalign_ok ae" "env_ok (ae_core ae)" "converts u" "buffers_small c"
    and "requested (defaults ++ options) password salt c L" "salt_source randomBytes (defaults ++ options) salt"
    and "\<not> truthy (get options ''raw'')" "fst (hash ae u randomBytes password options) = Inr (Str s)"
  shows "s = digest c (tag_of c (unat L))" "request_ok c" "length (tag_of c (unat L)) = unat L" "4 \<le> unat L" "unat L < 2 ^ 32"
  using hash_eq [OF assms(1-7)] assms(8) length_tag [of "unat L" c] unat_lt_u32 [of L] by auto

section \<open>The properties\<close>

text \<open>C7: \<^verbatim>\<open>hash\<close>, called with options that are numbers and buffers, is resolved exactly with the digest of RFC
  9106 for password, salt, secret and associated data, and only when the parameters are within the limits;
  it is resolved when they are and memory and threads can be had. Without associated data the digest is the
  encoded form that \<^verbatim>\<open>encode_string\<close> of the C library writes. The temporary buffer that is made of a password
  string is left filled with zeros, and a password buffer of the caller is left as it is.\<close>

theorem package_hash_rfc9106:
  assumes "memalign_ok ae" "env_ok (ae_core ae)" "converts u" "buffers_small c"
    and "requested (defaults ++ options) password salt c L" "salt_source randomBytes (defaults ++ options) salt"
    and "\<not> truthy (get options ''raw'')"
  shows "((\<exists>e. fst (hash ae u randomBytes password options) = Inl e) \<and> \<not> (request_ok c \<and> 4 \<le> unat L \<and> resources ae (arg_p c)) \<or>
      fst (hash ae u randomBytes password options) = Inr (Str (digest c (tag_of c (unat L)))) \<and> request_ok c \<and> 4 \<le> unat L) \<and>
    fst (snd (hash ae u randomBytes password options)) =
      Some (case password of Str s \<Rightarrow> Buf (replicate (length (arg_password c)) 0) | _ \<Rightarrow> password) \<and>
    (arg_data c = [] \<longrightarrow> digest c tag =
      widen (phc (to_type (arg_type c)) (Some (arg_version c)) (arg_m c) (arg_t c) (arg_p c) (arg_salt c) tag))"
  using hash_eq [OF assms] digest_phc by blast

text \<open>C8: what \<^verbatim>\<open>verify\<close> answers about a digest that \<^verbatim>\<open>hash\<close> has written, for options that are numbers and buffers and for
  buffers shorter than \<open>2 ^ 32\<close> bytes. When a limit forbids its costs, it throws a \<^verbatim>\<open>RangeError\<close>. Otherwise, for every
  password and every secret, it answers whether they give the tag that \<^verbatim>\<open>hash\<close> has computed, or it throws, which it
  does only when memory or threads cannot be had. The tag is computed again with the associated data of the digest,
  except that they are taken for empty when their Base64 is a decimal number that is a safe integer.\<close>

theorem package_hash_verify:
  assumes "memalign_ok ae" "env_ok (ae_core ae)" "converts u" "buffers_small c"
    and "requested (defaults ++ options) password salt c L" "salt_source randomBytes (defaults ++ options) salt"
    and "\<not> truthy (get options ''raw'')" "fst (hash ae u randomBytes password options) = Inr (Str s)"
    and "memalign_ok ae'" "env_ok (ae_core ae')"
    and "fst (toPasswordBuffer password') = Buf P" "length P < 2 ^ 32"
    and "nullish (vo_secret vo) (Buf []) = Buf S" "length S < 2 ^ 32"
  shows "if within_limits (defaultVerifyLimits ++ vo_limits vo) (num (arg_m c)) (num (arg_t c)) (num (arg_p c))
    then (\<exists>e. fst (verify ae' u (Str s) password' vo) = Inl e) \<and> \<not> resources ae' (arg_p c) \<or>
      fst (verify ae' u (Str s) password' vo) = Inr (Bool (tag_of c (unat L) =
        tag_of (c\<lparr>arg_password := P, arg_secret := S,
          arg_data := (if decimalRegex (toB64 (arg_data c)) \<and> is_safe_integer (js_Number (toB64 (arg_data c)))
                       then [] else arg_data c)\<rparr>) (unat L)))
    else \<exists>message. fst (verify ae' u (Str s) password' vo) = Inl (RangeError message)"
proof -
  note h = hash_digest [OF assms(1-8)]
  have d: "read_data (arg_data c) =
      (if decimalRegex (toB64 (arg_data c)) \<and> is_safe_integer (js_Number (toB64 (arg_data c))) then [] else arg_data c)"
    by (simp add: read_data_def param_value_def toB64_eq)
  have "4 \<le> length (tag_of c (unat L))" "length (tag_of c (unat L)) < 2 ^ 32" using h(3-5) by simp_all
  from verify_digest_eq [OF assms(9,10,3) h(2) assms(4) this assms(11-14), unfolded d h(3)]
    verify_digest_limits [OF h(2), of vo] show ?thesis
    unfolding h(1) by auto
qed


text \<open>C9: whatever the digest, \<^verbatim>\<open>verify\<close> answers \<open>true\<close>, and calls the operating system for memory at all, only if the
  digest is well formed with integer costs, at least one iteration, one lane and 8 KiB for each lane, none of
  them above its limit.\<close>

theorem verify_respects_limits:
  assumes "verify ae u d password vo = (r, b, calls)" "calls \<noteq> [] \<or> r = Inr (Bool True)"
  shows "\<exists>x m t p. deserialize d = Inr x \<and> to_number (param (phc_params x) ''m'') = js_int m \<and>
    to_number (param (phc_params x) ''t'') = js_int t \<and> to_number (param (phc_params x) ''p'') = js_int p \<and>
    8 * p \<le> m \<and> 1 \<le> t \<and> 1 \<le> p \<and> within_limits (defaultVerifyLimits ++ vo_limits vo) (js_int m) (js_int t) (js_int p) \<and>
    (vo_limits vo = Map.empty \<longrightarrow> m \<le> 4194304 \<and> t \<le> 1024 \<and> p \<le> 128)"
proof -
  obtain x o' y where x: "deserialize d = Inr x" "applyDefaultsAndValidate o' = Inr y"
    "get o' ''m'' = Num (to_number (param (phc_params x) ''m''))" "get o' ''t'' = Num (to_number (param (phc_params x) ''t''))"
    "get o' ''p'' = Num (to_number (param (phc_params x) ''p''))"
    "within_limits (defaultVerifyLimits ++ vo_limits vo) (to_number (param (phc_params x) ''m''))
      (to_number (param (phc_params x) ''t'')) (to_number (param (phc_params x) ''p''))"
    using verify_reaches_addon [OF assms] by blast
  obtain m' t' p' where q: "get o' ''m'' = Num (js_int m')" "get o' ''t'' = Num (js_int t')" "get o' ''p'' = Num (js_int p')"
    and le: "8 * p' \<le> m'" "1 \<le> t'" "1 \<le> p'"
    by (rule applyDefaults_Inr [OF x(2)])
  note i = q [unfolded x(3-5) js_val.inject] le
  note w = x(6) [unfolded i(1-3)]
  have "m' \<le> 4194304 \<and> t' \<le> 1024 \<and> p' \<le> 128" if "vo_limits vo = Map.empty"
    using w unfolding that by (simp add: within_limits_def defaultVerifyLimits_def to_number_def not_less)
  then show ?thesis using x(1) i w by blast
qed

text \<open>C36: for a digest that \<^verbatim>\<open>hash\<close> has written, \<^verbatim>\<open>needsRehash\<close> says whether version, memory, time or parallelism of the
  given options differ from those of the options that were used; every other option may differ.\<close>

theorem needsRehash_decides:
  assumes "memalign_ok ae" "env_ok (ae_core ae)" "converts u" "buffers_small c"
    and "requested (defaults ++ options) password salt c L" "salt_source randomBytes (defaults ++ options) salt"
    and "\<not> truthy (get options ''raw'')" "fst (hash ae u randomBytes password options) = Inr (Str s)"
  shows "needsRehash (Str s) options' = Inr (\<exists>name \<in> {''version'', ''memoryCost'', ''timeCost'', ''parallelism''}.
    get (defaults ++ options') name \<noteq> get (defaults ++ options) name)"
proof -
  note h = hash_digest [OF assms(1-8)]
  have e: "equals v (js_int k) \<longleftrightarrow> v = Num (js_int k)" for v k
    by (auto simp: equals_def js_same_def split: js_val.split)
  show ?thesis
    using assms(5) unfolding h(1) requested_def
    by (simp add: needsRehash_def deserialize_digest [OF h(2)] phc_version_or_first_def to_number_def param_digest e Let_def)
qed

section \<open>Witnesses\<close>

definition demo_uint32 :: "js_number \<Rightarrow> u32" where
  "demo_uint32 x = (case x of JsFin q \<Rightarrow> word_of_int \<lfloor>q\<rfloor> | _ \<Rightarrow> 0)"

definition demo_costs :: js_obj where
  "demo_costs = [''memoryCost'' \<mapsto> Num (js_int 16), ''timeCost'' \<mapsto> Num (js_int 1), ''parallelism'' \<mapsto> Num (js_int 2),
     ''salt'' \<mapsto> Buf (replicate 8 1)]"

abbreviation demo_vo :: verify_options where
  "demo_vo \<equiv> \<lparr>vo_secret = Undefined, vo_limits = Map.empty\<rparr>"

abbreviation demo_random :: "js_val \<Rightarrow> js_error + u8 list" where
  "demo_random \<equiv> \<lambda>_. Inl (TypeError ''no random bytes'')"

abbreviation demo_data :: "u8 list" where "demo_data \<equiv> [0xD7, 0x6D, 0xF8]"

lemma demo_converts: "converts demo_uint32"
  by (simp add: converts_def demo_uint32_def js_int_def)

lemma demo_password: "fst (toPasswordBuffer (Str (js ''pw''))) = Buf [112, 119]"
proof -
  have "utf8 (js ''pw'') = [112, 119]" by code_simp
  then show ?thesis by (simp add: toPasswordBuffer_def)
qed

lemma demo_requested:
  "requested (defaults ++ demo_costs) (Str (js ''pw'')) (replicate 8 1) demo_args 32"
  "requested (defaults ++ demo_costs(''associatedData'' \<mapsto> Buf demo_data)) (Str (js ''pw'')) (replicate 8 1)
    (demo_args\<lparr>arg_data := demo_data\<rparr>) 32"
  "salt_source demo_random (defaults ++ demo_costs) (replicate 8 1)"
  "salt_source demo_random (defaults ++ demo_costs(''associatedData'' \<mapsto> Buf demo_data)) (replicate 8 1)"
  "\<not> truthy (get demo_costs ''raw'')" "\<not> truthy (get (demo_costs(''associatedData'' \<mapsto> Buf demo_data)) ''raw'')"
  by (simp_all add: requested_def demo_password get_map_add defaults_def demo_costs_def demo_args_def nullish_def
      salt_source_def truthy_def argon2id_def)

lemma demo_small: "buffers_small demo_args" "buffers_small (demo_args\<lparr>arg_data := demo_data\<rparr>)"
  by (simp_all add: buffers_small_def demo_args_def)

lemma demo_ok: "request_ok demo_args" "request_ok (demo_args\<lparr>arg_data := demo_data\<rparr>)"
  by (simp_all add: request_ok_def demo_args_def)

lemma demo_within: "within_limits (defaultVerifyLimits ++ Map.empty) (num (arg_m demo_args)) (num (arg_t demo_args)) (num (arg_p demo_args))"
  by (simp add: within_limits_def defaultVerifyLimits_def to_number_def demo_args_def)

lemma demo_hashed:
  "fst (hash demo_addon demo_uint32 demo_random (Str (js ''pw'')) demo_costs) = Inr (Str (digest demo_args (tag_of demo_args 32)))"
  "fst (hash demo_addon demo_uint32 demo_random (Str (js ''pw'')) (demo_costs(''associatedData'' \<mapsto> Buf demo_data))) =
    Inr (Str (digest (demo_args\<lparr>arg_data := demo_data\<rparr>) (tag_of (demo_args\<lparr>arg_data := demo_data\<rparr>) 32)))"
  using hash_eq [OF demo_facts(1,2) demo_converts demo_small(1) demo_requested(1,3,5)]
    hash_eq [OF demo_facts(1,2) demo_converts demo_small(2) demo_requested(2,4,6)] demo_ok
  by (auto simp: demo_facts(4))

theorem package_hash_rfc9106_witness:
  "fst (hash demo_addon demo_uint32 demo_random (Str (js ''pw'')) demo_costs) = Inr (Str (widen (phc Argon2_id (Some 19) 16 1 2
    (replicate 8 1) (rfc_argon2 Argon2_id 19 2 32 16 1 [112, 119] (replicate 8 1) [] []))))"
  using package_hash_rfc9106 [OF demo_facts(1,2) demo_converts demo_small(1) demo_requested(1,3,5), of "tag_of demo_args 32"] demo_ok(1)
  by (simp add: demo_facts(4)) (simp add: demo_args_def tag_of_def to_type_def)

theorem package_hash_verify_witness:
  "fst (verify demo_addon demo_uint32 (Str (digest demo_args (tag_of demo_args 32))) (Str (js ''pw'')) demo_vo) = Inr (Bool True) \<and>
   fst (verify demo_addon demo_uint32 (Str (digest demo_args (tag_of demo_args 32))) (Buf [1, 2, 3]) demo_vo) =
     Inr (Bool (tag_of demo_args 32 = tag_of (demo_args\<lparr>arg_password := [1, 2, 3]\<rparr>) 32))"
proof -
  have a: "(if Q then [] else arg_data demo_args) = []" "demo_args\<lparr>arg_secret := [], arg_data := []\<rparr> = demo_args"
    "demo_args\<lparr>arg_password := P, arg_secret := [], arg_data := []\<rparr> = demo_args\<lparr>arg_password := P\<rparr>" for Q P
    by (simp_all add: demo_args_def)
  have p: "fst (toPasswordBuffer (Buf [1, 2, 3])) = Buf [1, 2, 3]" "nullish (vo_secret demo_vo) (Buf []) = Buf []"
    by (simp_all add: toPasswordBuffer_def nullish_def)
  have "demo_args\<lparr>arg_password := [112, 119]\<rparr> = demo_args" by (simp add: demo_args_def)
  then show ?thesis
    using package_hash_verify [OF demo_facts(1,2) demo_converts demo_small(1) demo_requested(1,3,5) _ demo_facts(1,2)
        demo_password _ p(2)]
      package_hash_verify [OF demo_facts(1,2) demo_converts demo_small(1) demo_requested(1,3,5) _ demo_facts(1,2) p(1) _ p(2)]
      demo_within demo_hashed(1)
    by (simp add: demo_facts(4) a)
qed


lemma demo_verified:
  "fst (verify demo_addon demo_uint32 (Str (digest demo_args (tag_of demo_args 32))) (Str (js ''pw'')) demo_vo) = Inr (Bool True)"
  using verify_digest_eq [OF demo_facts(1,2) demo_converts demo_ok(1) demo_small(1) _ _ demo_password _ _ _, of "tag_of demo_args 32" demo_vo "[]"]
    demo_within length_tag [of 32 demo_args]
  by (simp add: demo_facts(4) nullish_def) (simp add: demo_args_def read_data_def)

theorem verify_respects_limits_witness:
  "\<exists>x m. deserialize (Str (digest demo_args (tag_of demo_args 32))) = Inr x \<and>
    to_number (param (phc_params x) ''m'') = js_int m \<and> 8 \<le> m \<and> m \<le> 4194304"
proof -
  define V where "V = verify demo_addon demo_uint32 (Str (digest demo_args (tag_of demo_args 32))) (Str (js ''pw'')) demo_vo"
  have "V = (Inr (Bool True), fst (snd V), snd (snd V))" using demo_verified by (simp add: V_def prod_eq_iff)
  from verify_respects_limits [OF this [unfolded V_def]] show ?thesis by fastforce
qed

theorem needsRehash_decides_witness:
  "needsRehash (Str (digest demo_args (tag_of demo_args 32))) demo_costs = Inr False \<and>
    needsRehash (Str (digest demo_args (tag_of demo_args 32))) Map.empty = Inr True"
  unfolding needsRehash_decides [OF demo_facts(1,2) demo_converts demo_small(1) demo_requested(1,3,5) demo_hashed(1)]
  by (simp add: get_map_add defaults_def demo_costs_def)

end
