(* ===== verification/Spec2Isabelle.thy ===== *)
theory Spec2Isabelle
  imports Opt_Props Addon_Props Run_Props Genkat_Props Bench Package_Props
begin

text \<open>
  A model of the C implementation of Argon2 in \<^verbatim>\<open>src/argon2\<close>, of the native addon \<^verbatim>\<open>argon2_core.cpp\<close> and of the
  package for Node.js on top of it, \<^verbatim>\<open>index.ts\<close> and \<^verbatim>\<open>phc.ts\<close>, with the theorems that make them correct.

  The program. A caller hashes a password with \<^verbatim>\<open>argon2_hash\<close> or one of its wrappers, or fills in an
  \<^verbatim>\<open>argon2_context\<close> and calls \<^verbatim>\<open>argon2_ctx\<close> (\<^verbatim>\<open>src/argon2.c\<close>). The context is validated; the memory matrix is
  laid out, allocated and given its first blocks from the initial hash; it is filled, by one thread or
  by several that work on the lanes of a slice at the same time; and the last blocks are combined into
  the tag (\<^verbatim>\<open>src/core.c\<close>). Filling uses the compression of \<^verbatim>\<open>src/ref.c\<close> or, depending on the build,
  \<^verbatim>\<open>src/opt.c\<close>, everything that hashes uses BLAKE2b
  (\<^verbatim>\<open>src/blake2\<close>). The tag can be written as a string with its parameters, and \<^verbatim>\<open>argon2_verify\<close> reads such a
  string and compares (\<^verbatim>\<open>src/encoding.c\<close>). A user of Node.js calls \<^verbatim>\<open>hash\<close>, \<^verbatim>\<open>verify\<close> and \<^verbatim>\<open>needsRehash\<close> of \<^verbatim>\<open>index.ts\<close>, which
  validate options, write and read the same strings in their own way (\<^verbatim>\<open>phc.ts\<close>), and run \<^verbatim>\<open>argon2_ctx\<close> on another
  thread through the addon, which keeps password, secret and matrix in memory of its own.

  The theories, in the order of the code, the model first and its lemmas and properties behind it:

  \<^item> \<open>Prelude\<close>: machine integers, buffers written at an offset, loops over invariants.
  \<^item> \<open>Blake2_Impl\<close>, \<open>Wipe\<close>: \<^verbatim>\<open>blake2-impl.h\<close> with both byte orders of each load and store, and the wiping
    functions of \<^verbatim>\<open>core.c\<close>.
  \<^item> \<open>Blake2b\<close>, \<open>Blake2b_Spec\<close>, \<open>Blake2b_Props\<close>: \<^verbatim>\<open>blake2b.c\<close>; RFC 7693 and the function H' of RFC 9106 on
    unbounded data; that the code computes them, for every way of splitting the input.
  \<^item> \<open>Argon2_Types\<close>, \<open>Block\<close>, \<open>Index_Alpha\<close>: \<^verbatim>\<open>argon2.h\<close>, \<^verbatim>\<open>core.h\<close>, blocks, and the choice of the
    reference block with its specification and the safety of the index.
  \<^item> \<open>Ref\<close>, \<open>Compress\<close>, \<open>Fill_Spec\<close>, \<open>Ref_Props\<close>: \<^verbatim>\<open>ref.c\<close>; the compression function G; the filling of RFC 9106
    block by block on unbounded numbers; that a segment of the code is a segment of the RFC.
  \<^item> \<open>Simd\<close>, \<open>Simd_Props\<close>, \<open>Simd_Rounds\<close>, \<open>Simd_Phase\<close>, \<open>Opt\<close>, \<open>Opt_Block\<close>, \<open>Opt_Props\<close>: the other implementation
    of the compression, \<^verbatim>\<open>opt.c\<close> with \<^verbatim>\<open>blamka-round-opt.h\<close>, for SSE2, SSSE3, XOP, AVX2 and AVX-512; registers
    as lists of lanes with the intrinsics defined on them; that every build fills a segment in the same way.
  \<^item> \<open>Core\<close>, \<open>Argon2_Spec\<close>, \<open>Core_Props\<close>: the rest of \<^verbatim>\<open>core.c\<close>, with \<^verbatim>\<open>thread.c\<close>; Argon2 as a function from inputs to the tag;
    validation, initial hash, first blocks, finalisation.
  \<^item> \<open>Interleaving\<close>, \<open>Threads_Props\<close>: the segments of a slice commute, so every interleaving of the threads
    gives the matrix of the specification; and how far each lane has come when a thread cannot be created or joined.
  \<^item> \<open>Argon2_Ctx\<close>: \<^verbatim>\<open>argon2_ctx\<close>, the comparison and \<^verbatim>\<open>argon2_verify_ctx\<close>.
  \<^item> \<open>Encoding\<close>, \<open>Base64_Chars\<close>, \<open>Base64\<close>, \<open>Decimal\<close>, \<open>Encoding_Props\<close>, \<open>Encoded_Form\<close>: \<^verbatim>\<open>encoding.c\<close>; its
    constant-time comparisons, Base64 against RFC 4648, decimal numbers without leading zeros, the
    statements of the encoder and the decoder, and that the two functions are inverse. A byte above 127 is read as \<^verbatim>\<open>/\<close>,
    which the theorems on reading say for every string (\<open>as_read\<close>).
  \<^item> \<open>Api\<close>, \<open>Api_Props\<close> and this theory: the remaining functions of \<^verbatim>\<open>argon2.c\<close>, and what a caller can rely on.
  \<^item> \<open>Run\<close>, \<open>Run_Props\<close>: the command line tool \<^verbatim>\<open>run.c\<close>; what the options guarantee, and what is printed.
  \<^item> \<open>Genkat\<close>, \<open>Genkat_Props\<close>: the known-answer generator \<^verbatim>\<open>genkat.c\<close> and the library as it is compiled for it; that
    it prints the test vectors of RFC 9106, with the matrix after every pass, and that printing changes nothing else.
  \<^item> \<open>Addon\<close>, \<open>Addon_Props\<close>: the native addon \<^verbatim>\<open>argon2_core.cpp\<close>; what a promise becomes, and that the memory the
    addon gives back holds no secret.
  \<^item> \<open>Js\<close>, \<open>Js_Props\<close>: the strings, numbers, values and objects of JavaScript as far as the package uses them, and the
    Base64 of \<^verbatim>\<open>Buffer\<close>; that safe integers are represented, printed and read exactly.
  \<^item> \<open>Phc\<close>, \<open>Phc_Props\<close>: \<^verbatim>\<open>serialize\<close> and \<^verbatim>\<open>deserialize\<close> of \<^verbatim>\<open>phc.ts\<close>; that the second undoes the first, and for which
    objects.
  \<^item> \<open>Package\<close>, \<open>Package_Props\<close>: \<^verbatim>\<open>index.ts\<close> down to the addon; that \<^verbatim>\<open>hash\<close> writes the digest of RFC 9106 in the form
    of \<^verbatim>\<open>encode_string\<close>, that \<^verbatim>\<open>verify\<close> decides on it, the limits of \<^verbatim>\<open>verify\<close>, and the associated data that it loses.
  \<^item> \<open>Bench\<close>: the benchmark \<^verbatim>\<open>bench.c\<close>; that it ends, and that every line it prints names the parameters of the hash
    before it.

  Conventions. A function has the name it has in C. A machine integer is a word of its width, and all
  arithmetic on it wraps as in C; \<^verbatim>\<open>size_t\<close> values are numbers, reduced modulo \<open>2 ^ 64\<close> where a sum or product is
  computed. A pointer is an option of the buffer it points to; a function returns the buffers it
  writes. A write past the end of a buffer or of the matrix (\<open>memcpy_at\<close>, \<open>put\<close>, \<open>store_at\<close>) makes it longer, so that the
  theorems, which give the result exactly, exclude it; only the elements of local arrays of constant size are written
  at positions that are visibly inside by list update. The record \<open>env\<close> of \<open>Core\<close> holds what the environment decides:
  the results of \<^verbatim>\<open>malloc\<close>, of the thread library, the schedule of the threads, uninitialised memory, the
  global wiping flag. The theorems hold for every such environment; the hypotheses \<open>env_ok\<close> and \<open>alloc_ok\<close>
  say that an allocator returns a block of the requested size, \<open>threads_succeed\<close> that threads can be
  created and joined. For the package, \<open>converts\<close> says that node-addon-api converts a number that is a 32-bit
  integer to itself, and \<open>buffers_small\<close> that no buffer has \<open>2 ^ 32\<close> bytes. No fuel is used: the loops of the code
  are folds, structural recursions or, in \<^verbatim>\<open>blake2b_update\<close>, \<^verbatim>\<open>blake2b_long\<close> and \<^verbatim>\<open>numlen\<close>, recursions that are
  proved to end; only the loop of the benchmark, whose counter could wrap to zero, and the search for the directory of the
  compiled addon, which ends at a root, are partial functions, with theorems that they return.

  The interfaces. The lemmas on hashing a stream are proved in a locale over a block compression, the
  lemmas on reading back what was printed in the locale \<open>codec\<close> over a printer and a parser, the lemmas on a
  loop of vector rounds in the locale \<open>vec_phase\<close> over the registers each round is given; all are
  interpreted on the code's functions.

  Not modelled: the tests; what pthreads, Windows, the file system and node-addon-api do, which are parameters;
  the variable parts of the messages of JavaScript errors, and arguments of the package that its types exclude
  beyond those that \<open>js_val\<close> has; aliasing between the caller's buffers; timing. The collision resistance of the hash is no theorem: that a wrong password is
  rejected is proved up to equality of tags.
\<close>

section \<open>Hashing\<close>

text \<open>C4: when \<^verbatim>\<open>argon2_hash\<close> returns \<^verbatim>\<open>ARGON2_OK\<close>, the raw buffer, if there is one, starts with the tag of RFC 9106,
  the string buffer, if there is one, holds the encoded form with its terminating zero, nothing else
  of them has changed, and the internal copy of the tag is given back wiped. It returns
  \<^verbatim>\<open>ARGON2_OK\<close> for all valid arguments when memory and threads can be had and the string fits.\<close>

theorem argon2_hash_rfc9106:
  fixes v :: u32 and hash :: "u8 list option"
  assumes "hash_args t m p pwd pwdlen salt saltlen hashlen" "readable pwd pwdlen" "readable salt saltlen"
    and "supported y" "env_ok e" "env_malloc e Alloc_hash_out hashlen \<noteq> None"
    and "\<And>b. encoded = Some b \<Longrightarrow> encodedlen \<le> length b"
    and "tag = rfc_argon2 y (unat v) (unat p) hashlen (unat m) (unat t) (read_buf pwd pwdlen) (read_buf salt saltlen) [] []"
    and "s = phc y (Some v) m t p (read_buf salt saltlen) tag"
    and "R = argon2_hash e t m p pwd pwdlen salt saltlen hash hashlen encoded encodedlen y v"
  shows "(fst R = ARGON2_OK \<longrightarrow> (\<exists>out. R = (ARGON2_OK, map_option (\<lambda>h. tag @ drop hashlen h) hash,
      (if encodedlen = 0 then encoded else map_option (\<lambda>b. s @ [0] @ drop (length s + 1) b) encoded), Some out) \<and>
      length out = hashlen \<and> (env_flag e \<noteq> 0 \<longrightarrow> out = replicate hashlen 0))) \<and>
    (hash_succeeds e m p \<and> (encoded \<noteq> None \<and> encodedlen \<noteq> 0 \<longrightarrow> length s < encodedlen) \<longrightarrow> fst R = ARGON2_OK)"
proof -
  have "tag = hash_tag y t m p pwd pwdlen salt saltlen hashlen v" "s = hash_phc y t m p pwd pwdlen salt saltlen hashlen v"
    by (simp_all only: assms(8,9) hash_tag_def hash_phc_def)
  with argon2_hash_eq [OF assms(1-6), of encoded encodedlen hash v] assms(7) show ?thesis
    unfolding assms(10) wiped_out_def by (cases encoded) (auto split: if_splits)
qed

text \<open>C34: when \<^verbatim>\<open>argon2_hash\<close> fails on valid arguments with \<^verbatim>\<open>out\<close> allocated, either the computation has failed, for want
  of memory or threads, and neither buffer has been touched, or the string did not fit, and then the
  tag is in the raw buffer, but of the string nothing is left: its buffer is zero. The internal copy
  is given back wiped in both cases.\<close>

theorem argon2_hash_failure:
  fixes v :: u32 and hash :: "u8 list option"
  assumes "hash_args t m p pwd pwdlen salt saltlen hashlen" "readable pwd pwdlen" "readable salt saltlen"
    and "supported y" "env_ok e" "env_malloc e Alloc_hash_out hashlen \<noteq> None" "env_flag e \<noteq> 0"
    and "\<And>b. encoded = Some b \<Longrightarrow> encodedlen \<le> length b"
    and "argon2_hash e t m p pwd pwdlen salt saltlen hash hashlen encoded encodedlen y v = (rc, hash', enc', out)"
    and "rc \<noteq> ARGON2_OK"
  shows "out = Some (replicate hashlen 0) \<and>
    (rc \<in> {ARGON2_THREAD_FAIL, ARGON2_MEMORY_ALLOCATION_ERROR} \<and> hash' = hash \<and> enc' = encoded \<or>
     rc = ARGON2_ENCODING_FAIL \<and> (\<exists>b. encoded = Some b \<and> enc' = Some (replicate encodedlen 0 @ drop encodedlen b)))"
proof -
  have split: "b' = replicate encodedlen 0 @ drop encodedlen b"
    if "take encodedlen b' = replicate encodedlen 0" "drop encodedlen b' = drop encodedlen b" for b' b :: "u8 list"
    using append_take_drop_id [of encodedlen b'] that by simp
  from argon2_hash_eq [OF assms(1-6), of encoded encodedlen hash v] assms(7-10) show ?thesis
    unfolding wiped_out_def by (cases encoded) (auto split: if_splits intro: split)
qed

text \<open>\<^verbatim>\<open>argon2_hash\<close> accepts no argument outside the limits of \<^verbatim>\<open>argon2.h\<close>, whatever the environment does: no
  length above 32 bits is silently truncated, no parameter combination slips through because
  \<^verbatim>\<open>8 * lanes\<close> wraps.\<close>

lemma argon2_hash_checks:
  fixes hash :: "u8 list option"
  shows "fst (argon2_hash e t m p pwd pwdlen salt saltlen hash hashlen encoded encodedlen y v) = ARGON2_OK \<Longrightarrow>
    pwdlen < 2 ^ 32 \<and> (pwd = None \<longrightarrow> pwdlen = 0) \<and> salt \<noteq> None \<and> 8 \<le> saltlen \<and> saltlen < 2 ^ 32 \<and>
    4 \<le> hashlen \<and> hashlen < 2 ^ 32 \<and> 8 * unat p \<le> unat m \<and> 1 \<le> unat t \<and> 1 \<le> unat p \<and> unat p < 2 ^ 24 \<and>
    (y = Argon2_d \<or> y = Argon2_i \<or> y = Argon2_id)"
  using argon2_hash_OK [of e t m p pwd pwdlen salt saltlen hash hashlen encoded encodedlen y v]
  unfolding hash_args_def supported_def by blast

section \<open>Verification\<close>

text \<open>C14: \<^verbatim>\<open>argon2_verify\<close> accepts only a string that reads as an encoded form of its own type, with valid parameters,
  whose tag is the one RFC 9106 gives for the password with the parameters and the salt in the string, whatever the
  string and whatever the allocators and the threads do. A byte above 127 reads as \<^verbatim>\<open>/\<close>; a string without such bytes
  is accepted only if it is an encoded form.\<close>

theorem argon2_verify_sound:
  assumes "fst (argon2_verify e locals (Some s) pwd pwdlen y) = ARGON2_OK" "env_ok e" "readable pwd pwdlen"
    and "r = map (\<lambda>b. if 128 \<le> unat b then 47 else b) s"
  shows "\<exists>v m t p S T. (r = phc y (Some v) m t p S T \<or> v = ARGON2_VERSION_10 \<and> r = phc y None m t p S T) \<and>
    hash_args t m p pwd pwdlen (Some S) (length S) (length T) \<and>
    T = rfc_argon2 y (unat v) (unat p) (length T) (unat m) (unat t) (read_buf pwd pwdlen) S [] []"
  using verify_OK [OF assms(1-3)] unfolding assms(4) as_read_def hash_tag_def by auto

text \<open>C24: on a well-formed string, with memory and threads, \<^verbatim>\<open>argon2_verify\<close> decides whether the tag is right: it
  returns \<^verbatim>\<open>ARGON2_OK\<close> if so and \<^verbatim>\<open>ARGON2_VERIFY_MISMATCH\<close> otherwise. What the uninitialised context
  and the fresh buffers hold has no influence.\<close>

theorem argon2_verify_decides:
  assumes "supported y" "env_ok e" "readable pwd pwdlen"
    and "hash_args t m p pwd pwdlen (Some S) (length S) (length T)"
    and "s = phc y w m t p S T" "w = Some v \<or> w = None \<and> v = ARGON2_VERSION_10" "length s < 2 ^ 32"
    and "\<And>site n. env_malloc e site n \<noteq> None" "unat p = 1 \<or> threads_succeed e"
  shows "fst (argon2_verify e locals (Some s) pwd pwdlen y) =
    (if T = rfc_argon2 y (unat v) (unat p) (length T) (unat m) (unat t) (read_buf pwd pwdlen) S [] []
     then ARGON2_OK else ARGON2_VERIFY_MISMATCH)"
  using verify_phc [OF assms] unfolding hash_tag_def by simp

text \<open>C3: hashing and verification fit together, for each of the three types: a string that \<^verbatim>\<open>argon2x_hash_encoded\<close>
  has written is accepted by \<^verbatim>\<open>argon2x_verify\<close> with a password exactly when that password has the same
  tag under the same salt and parameters; the password that was hashed is such a one. The two calls
  may run in different environments.\<close>

theorem hash_verify_roundtrip:
  assumes "(h, ver, y) \<in> {(argon2d_hash_encoded, argon2d_verify, Argon2_d), (argon2i_hash_encoded, argon2i_verify, Argon2_i),
      (argon2id_hash_encoded, argon2id_verify, Argon2_id)}"
    and "h e t m p pwd pwdlen salt saltlen hashlen (Some b) n = (ARGON2_OK, r, Some d, out)"
    and "readable pwd pwdlen" "readable salt saltlen" "env_ok e" "n \<le> length b" "0 < n"
    and "length (takeWhile (\<lambda>x. x \<noteq> 0) d) < 2 ^ 32"
    and "readable pwd' pwdlen'" "pwdlen' < 2 ^ 32" "pwd' = None \<longrightarrow> pwdlen' = 0"
    and "env_ok e'" "\<And>site k. env_malloc e' site k \<noteq> None" "unat p = 1 \<or> threads_succeed e'"
  shows "fst (ver e' locals (Some (takeWhile (\<lambda>x. x \<noteq> 0) d)) pwd' pwdlen') =
    (if rfc_argon2 y 19 (unat p) hashlen (unat m) (unat t) (read_buf pwd' pwdlen') (read_buf salt saltlen) [] [] =
        rfc_argon2 y 19 (unat p) hashlen (unat m) (unat t) (read_buf pwd pwdlen) (read_buf salt saltlen) [] []
     then ARGON2_OK else ARGON2_VERIFY_MISMATCH)"
proof -
  let ?v = "ARGON2_VERSION_NUMBER" and ?S = "read_buf salt saltlen"
  define T where "T = hash_tag y t m p pwd pwdlen salt saltlen hashlen ?v"
  define s where "s = hash_phc y t m p pwd pwdlen salt saltlen hashlen ?v"
  have y: "supported y" and ver: "ver = (\<lambda>e l s pwd pwdlen. argon2_verify e l s pwd pwdlen y)"
    and H: "argon2_hash e t m p pwd pwdlen salt saltlen None hashlen (Some b) n y ?v = (ARGON2_OK, r, Some d, out)"
    using assms(1,2) by (auto simp: supported_def argon2d_verify_def argon2i_verify_def argon2id_verify_def fun_eq_iff
        argon2d_hash_encoded_def argon2i_hash_encoded_def argon2id_hash_encoded_def)
  have ok: "hash_args t m p pwd pwdlen salt saltlen hashlen" "env_malloc e Alloc_hash_out hashlen \<noteq> None"
    using argon2_hash_OK [of e t m p pwd pwdlen salt saltlen None hashlen "Some b" n y ?v] H by simp_all
  have sn: "length s < n" and d: "d = s @ [0] @ drop (length s + 1) b"
    using argon2_hash_eq [OF ok(1) assms(3,4) y assms(5) ok(2), of "Some b" n None ?v] H assms(6,7)
    unfolding s_def by (auto split: if_splits)
  have s: "s = phc y (Some ?v) m t p ?S T" by (simp only: s_def hash_phc_def T_def)
  have tw: "takeWhile (\<lambda>x. x \<noteq> 0) d = s"
    using printable_phc [OF y] by (simp add: d s takeWhile_printable)
  have lS: "length ?S = saltlen" using assms(4) ok(1) by (auto simp: hash_args_def)
  moreover have lT: "length T = hashlen" unfolding T_def using ok(1) by (intro length_hash_tag) (simp add: hash_args_def)
  moreover have "hash_args t m p pwd' pwdlen' (Some ?S) (length ?S) (length T)"
    using ok(1) assms(10,11) unfolding lS lT by (simp add: hash_args_def)
  moreover have "read_buf (Some ?S) saltlen = ?S" using lS by simp
  moreover have "unat ?v = 19" by (simp add: ARGON2_VERSION_NUMBER_def ARGON2_VERSION_13_def)
  ultimately show ?thesis
    using verify_phc [OF y assms(12,9) _ s, of ?v locals] assms(8,13,14) unfolding ver tw
    by (auto simp: T_def hash_tag_def)
qed


section \<open>Witnesses\<close>

definition small_tag :: "u8 list" where
  "small_tag = rfc_argon2 Argon2_id 19 2 32 16 1 [112, 119] (replicate 8 1) [] []"

lemma length_small_tag: "length small_tag = 32"
  by (simp add: small_tag_def rfc_argon2_def rfc_tag_def Let_def)

lemma small_args: "hash_args 1 16 2 (Some [112, 119]) 2 (Some (replicate 8 1)) 8 32"
  "hash_args 1 16 2 (Some [112, 119]) 2 (Some (replicate 8 1)) (length (replicate 8 (1 :: u8))) (length small_tag)"
  "readable (Some [112, 119 :: u8]) 2" "readable (Some (replicate 8 (1 :: u8))) 8"
  by (simp_all add: hash_args_def length_small_tag)

lemma quiet_env_ok: "env_malloc quiet_env site n \<noteq> None" "hash_succeeds quiet_env m p" "env_flag quiet_env \<noteq> 0"
  by (simp_all add: hash_succeeds_def quiet_env_def threads_succeed_def)

lemma failing_env_fails: "\<not> threads_succeed failing_env" "env_malloc failing_env site n \<noteq> None" "env_flag failing_env \<noteq> 0"
  by (simp_all add: threads_succeed_def failing_env_def quiet_env_def)

definition small_encoded :: "u8 list" where
  "small_encoded = phc Argon2_id (Some 19) 16 1 2 (replicate 8 1) small_tag"

lemma length_small_encoded: "length small_encoded = 83"
  by (simp add: small_encoded_def length_phc numlen_eq argon2_type2string_def decimal.simps length_b64 length_small_tag)

theorem argon2_hash_rfc9106_witness:
  "\<exists>out. argon2_hash quiet_env 1 16 2 (Some [112, 119]) 2 (Some (replicate 8 1)) 8 (Some (replicate 32 0)) 32
      (Some (replicate 84 0)) 84 Argon2_id 19 =
    (ARGON2_OK, Some small_tag, Some (small_encoded @ [0]), Some out) \<and> out = replicate 32 0"
proof -
  define R where "R = argon2_hash quiet_env 1 16 2 (Some [112, 119]) 2 (Some (replicate 8 1)) 8 (Some (replicate 32 0)) 32
      (Some (replicate 84 0)) 84 Argon2_id 19"
  have tag: "small_tag = rfc_argon2 Argon2_id (unat (19 :: u32)) (unat (2 :: u32)) 32 (unat (16 :: u32)) (unat (1 :: u32))
      (read_buf (Some [112, 119]) 2) (read_buf (Some (replicate 8 1)) 8) [] []"
    by (simp add: small_tag_def)
  have s: "small_encoded = phc Argon2_id (Some 19) 16 1 2 (read_buf (Some (replicate 8 1)) 8) small_tag"
    by (simp add: small_encoded_def)
  show ?thesis
    using argon2_hash_rfc9106 [OF small_args(1,3,4) small_inputs(2,3) quiet_env_ok(1) _ tag s R_def] quiet_env_ok(2,3)
    by (simp add: R_def [symmetric] length_small_encoded)
qed

theorem argon2_hash_failure_witness:
  "\<exists>rc. argon2_hash quiet_env 1 16 2 (Some [112, 119]) 2 (Some (replicate 8 1)) 8 None 32
      (Some (replicate 50 7)) 40 Argon2_id 19 =
    (rc, None, Some (replicate 40 0 @ replicate 10 7), Some (replicate 32 0)) \<and> rc = ARGON2_ENCODING_FAIL"
proof -
  obtain rc hash' enc' out where R: "argon2_hash quiet_env 1 16 2 (Some [112, 119]) 2 (Some (replicate 8 1)) 8 None 32
      (Some (replicate 50 7)) 40 Argon2_id 19 = (rc, hash', enc', out)" using prod_cases4 by blast
  have "hash_phc Argon2_id 1 16 2 (Some [112, 119]) 2 (Some (replicate 8 1)) 8 32 19 = small_encoded"
    by (simp add: hash_phc_def hash_tag_def small_encoded_def small_tag_def)
  then have rc: "rc = ARGON2_ENCODING_FAIL" "hash' = None"
    using argon2_hash_eq [OF small_args(1,3,4) small_inputs(2,3) quiet_env_ok(1), of "Some (replicate 50 7)" 40 None 19] R
      quiet_env_ok(2) by (auto simp: length_small_encoded)
  show ?thesis
    using argon2_hash_failure [OF small_args(1,3,4) small_inputs(2,3) quiet_env_ok(1,3) _ R] rc R by simp
qed

lemma argon2_hash_checks_witness:
  "fst (argon2_hash quiet_env 1 16 2 (Some [112, 119]) 2 (Some (replicate 8 1)) 8 None 32 None 0 Argon2_id 19) = ARGON2_OK \<and>
   8 * unat (2 :: u32) \<le> unat (16 :: u32)"
proof -
  have "fst (argon2_hash quiet_env 1 16 2 (Some [112, 119]) 2 (Some (replicate 8 1)) 8 None 32 None 0 Argon2_id 19) = ARGON2_OK"
    using argon2_hash_eq [OF small_args(1,3,4) small_inputs(2,3) quiet_env_ok(1), of None 0 None 19] quiet_env_ok(2) by auto
  then show ?thesis using argon2_hash_checks by blast
qed

lemma small_verify:
  "fst (argon2_verify quiet_env locals (Some small_encoded) (Some [112, 119]) 2 Argon2_id) = ARGON2_OK"
  using verify_phc [OF small_inputs(2,3) small_args(3,2) small_encoded_def, of 19 locals] quiet_env_ok(1) small_inputs(9)
  by (simp add: length_small_encoded hash_tag_def length_small_tag) (simp add: small_tag_def)

theorem argon2_verify_sound_witness:
  "fst (argon2_verify quiet_env small_context (Some small_encoded) (Some [112, 119]) 2 Argon2_id) = ARGON2_OK \<and>
   (\<exists>w v m t p S T. (w = Some v \<or> w = None \<and> v = ARGON2_VERSION_10) \<and> small_encoded = phc Argon2_id w m t p S T \<and>
      T = rfc_argon2 Argon2_id (unat v) (unat p) (length T) (unat m) (unat t) [112, 119] S [] [])"
proof -
  have r: "small_encoded = map (\<lambda>b. if 128 \<le> unat b then 47 else b) small_encoded"
    unfolding as_read_def [symmetric] small_encoded_def
    by (rule as_read_ascii [symmetric]) (intro printable_ascii printable_phc, simp)
  have "read_buf (Some [112, 119]) 2 = [112, 119 :: u8]" by simp
  from argon2_verify_sound [OF small_verify small_inputs(3) small_args(3) r, unfolded this]
  have "\<exists>w v m t p S T. (w = Some v \<or> w = None \<and> v = ARGON2_VERSION_10) \<and> small_encoded = phc Argon2_id w m t p S T \<and>
      T = rfc_argon2 Argon2_id (unat v) (unat p) (length T) (unat m) (unat t) [112, 119] S [] []"
    by blast
  with small_verify [of small_context] show ?thesis by (rule conjI)
qed

theorem argon2_verify_decides_witness:
  "fst (argon2_verify quiet_env small_context (Some small_encoded) (Some [112, 119]) 2 Argon2_id) = ARGON2_OK"
  using argon2_verify_decides [OF small_inputs(2,3) small_args(3,2) small_encoded_def, of 19 small_context] quiet_env_ok(1)
    small_inputs(9)
  by (simp add: length_small_encoded length_small_tag) (simp add: small_tag_def)

theorem hash_verify_roundtrip_witness:
  "\<exists>r d out. argon2id_hash_encoded quiet_env 1 16 2 (Some [112, 119]) 2 (Some (replicate 8 1)) 8 32 (Some (replicate 84 0)) 84 =
      (ARGON2_OK, r, Some d, out) \<and>
    fst (argon2id_verify quiet_env small_context (Some (takeWhile (\<lambda>x. x \<noteq> 0) d)) (Some [112, 119]) 2) = ARGON2_OK"
proof -
  have w: "hash_phc Argon2_id 1 16 2 (Some [112, 119]) 2 (Some (replicate 8 1)) 8 32 ARGON2_VERSION_NUMBER = small_encoded"
    by (simp add: hash_phc_def hash_tag_def small_encoded_def small_tag_def ARGON2_VERSION_NUMBER_def ARGON2_VERSION_13_def)
  obtain r out where R: "argon2id_hash_encoded quiet_env 1 16 2 (Some [112, 119]) 2 (Some (replicate 8 1)) 8 32
      (Some (replicate 84 0)) 84 = (ARGON2_OK, r, Some (small_encoded @ [0]), out)"
    using argon2_hash_eq [OF small_args(1,3,4) small_inputs(2,3) quiet_env_ok(1), of "Some (replicate 84 0)" 84 None ARGON2_VERSION_NUMBER]
      quiet_env_ok(2) unfolding w argon2id_hash_encoded_def by (auto simp: length_small_encoded)
  have tw: "takeWhile (\<lambda>x. x \<noteq> 0) (small_encoded @ [0]) = small_encoded"
    using takeWhile_printable [of small_encoded "[]"] printable_phc [OF small_inputs(2)] by (simp add: small_encoded_def)
  have m: "(argon2id_hash_encoded, argon2id_verify, Argon2_id) \<in> {(argon2d_hash_encoded, argon2d_verify, Argon2_d),
      (argon2i_hash_encoded, argon2i_verify, Argon2_i), (argon2id_hash_encoded, argon2id_verify, Argon2_id)}" by simp
  have "fst (argon2id_verify quiet_env small_context (Some (takeWhile (\<lambda>x. x \<noteq> 0) (small_encoded @ [0]))) (Some [112, 119]) 2) =
      ARGON2_OK"
    by (subst hash_verify_roundtrip [OF m R small_args(3,4) small_inputs(3) _ _ _ small_args(3) _ _ small_inputs(3) quiet_env_ok(1)])
      (simp_all add: tw length_small_encoded)
  then show ?thesis using R by blast
qed

end
